(* ===== verification/Prelude.thy ===== *)
theory Prelude
  imports Main "HOL-Library.Word" "HOL-Library.Monad_Syntax"
begin

text \<open>
  What the components share: the integer types of the kernel (os-std/types.hh), the error
  numbers (os-std/errno.hh), the size limits (os-std/limits.hh), checked array access, and
  the result type of code that may stop the machine.

  Conventions of the whole development.
  \<^item> \<open>'a option\<close> as the result of an operation (\<open>'a kern\<close>): \<open>Some x\<close> is a normal return,
    \<open>None\<close> says that the code does not continue from here in a defined way: a failed
    \<open>assert\<close>, a call of \<open>panic\<close>, an access outside an \<open>Array\<close> or through a null pointer.
    A theorem that concludes \<open>Some\<close> therefore shows that none of these happens.
  \<^item> \<open>errno\<close> is a signed integer; a negative value is an error, as in the code.
  \<^item> Machine integers whose wrap-around is reachable are words; sizes and indices that
    stay below an array's length are \<open>nat\<close>.
\<close>

unbundle bit_operations_syntax

section \<open>Integer types and error numbers\<close>

type_synonym u8 = "8 word"
type_synonym u16 = "16 word"
type_synonym u32 = "32 word"
type_synonym u64 = "64 word"

type_synonym errno = int

type_synonym 'a kern = "'a option"

definition ERR_success :: errno where "ERR_success = 0"

definition ERR_invalid :: errno where "ERR_invalid = -2"

definition ERR_limit :: errno where "ERR_limit = -3"

definition ERR_bad_fd :: errno where "ERR_bad_fd = -4"

definition ERR_nospace :: errno where "ERR_nospace = -5"

definition ERR_nomem :: errno where "ERR_nomem = -6"

definition ERR_io :: errno where "ERR_io = -7"

definition ERR_exists :: errno where "ERR_exists = -8"

definition ERR_not_exists :: errno where "ERR_not_exists = -9"

definition ERR_type :: errno where "ERR_type = -10"

definition ERR_timeout :: errno where "ERR_timeout = -11"

definition ERR_perm :: errno where "ERR_perm = -12"

definition ERR_not_supported :: errno where "ERR_not_supported = -13"

definition ERR_in_use :: errno where "ERR_in_use = -14"

lemmas errno_defs =
  ERR_success_def ERR_invalid_def ERR_limit_def ERR_bad_fd_def ERR_nospace_def ERR_nomem_def
  ERR_io_def ERR_exists_def ERR_not_exists_def ERR_type_def ERR_timeout_def ERR_perm_def
  ERR_not_supported_def ERR_in_use_def

definition page_size :: nat where "page_size = 4096"

text \<open>The limits of os-std/limits.hh.\<close>

definition max_file_name_length :: nat where "max_file_name_length = 64"

definition max_path_length :: nat where "max_path_length = 256"

definition max_open_files :: nat where "max_open_files = 256"

definition max_file_handles :: nat where "max_file_handles = 256"

definition max_proc_files :: nat where "max_proc_files = 32"

definition max_proc_name :: nat where "max_proc_name = 32"

definition max_args :: nat where "max_args = 32"

definition max_args_chars :: nat where "max_args_chars = 1024"

lemma page_size_pos [simp]: "0 < page_size"
  by (simp add: page_size_def)

section \<open>Assertions and checked array access\<close>

text \<open>\<open>kassert b\<close> models \<open>assert(b, ...)\<close>: the machine stops when \<open>b\<close> is false.\<close>

definition kassert :: "bool \<Rightarrow> unit kern" where
  "kassert b = (if b then Some () else None)"

lemma kassert_simps [simp]:
  "kassert True = Some ()" "kassert False = None"
  "kassert b = Some u \<longleftrightarrow> b"
  by (simp_all add: kassert_def)

lemma kassert_bind [simp]: "(kassert b \<bind> f) = (if b then f () else None)"
  by (simp add: kassert_def)

text \<open>
  \<open>Array\<close> of os-std does not check its indices: outside the array the behaviour of the
  code is undefined, which is \<open>None\<close> here.
\<close>

definition aget :: "'a list \<Rightarrow> nat \<Rightarrow> 'a kern" where
  "aget xs i = (if i < length xs then Some (xs ! i) else None)"

definition aset :: "'a list \<Rightarrow> nat \<Rightarrow> 'a \<Rightarrow> 'a list kern" where
  "aset xs i v = (if i < length xs then Some (xs[i := v]) else None)"

lemma aget_in [simp]: "i < length xs \<Longrightarrow> aget xs i = Some (xs ! i)"
  by (simp add: aget_def)

lemma aset_in [simp]: "i < length xs \<Longrightarrow> aset xs i v = Some (xs[i := v])"
  by (simp add: aset_def)

lemma aget_Some_iff: "aget xs i = Some x \<longleftrightarrow> i < length xs \<and> x = xs ! i"
  by (auto simp: aget_def)

lemma aset_Some_iff: "aset xs i v = Some ys \<longleftrightarrow> i < length xs \<and> ys = xs[i := v]"
  by (auto simp: aset_def)

lemma bind_Some_iff:
  "(m \<bind> f) = Some y \<longleftrightarrow> (\<exists>x. m = Some x \<and> f x = Some y)" for m :: "'a option"
  by (cases m) auto

section \<open>Lists searched by index\<close>

text \<open>
  The index of the first element with a property, the shape of every allocation loop over
  a fixed array (\<open>for (auto [i, x] : enumerate(xs)) if (...) return i;\<close>).
\<close>

fun find_index_from :: "nat \<Rightarrow> ('a \<Rightarrow> bool) \<Rightarrow> 'a list \<Rightarrow> nat option" where
  "find_index_from i P [] = None"
| "find_index_from i P (x # xs) = (if P x then Some i else find_index_from (Suc i) P xs)"

definition find_index :: "('a \<Rightarrow> bool) \<Rightarrow> 'a list \<Rightarrow> nat option" where
  "find_index P xs = find_index_from 0 P xs"

lemma find_index_from_Suc: "find_index_from (Suc k) P xs = map_option Suc (find_index_from k P xs)"
  by (induction k P xs rule: find_index_from.induct) simp_all

lemma find_index_simps:
  "find_index P [] = None"
  "find_index P (x # xs) = (if P x then Some 0 else map_option Suc (find_index P xs))"
  by (simp_all add: find_index_def find_index_from_Suc)

lemma find_index_append:
  "\<forall>x \<in> set xs. \<not> P x \<Longrightarrow> find_index P (xs @ ys) = map_option ((+) (length xs)) (find_index P ys)"
  by (cases "find_index P ys"; induction xs) (simp_all add: find_index_simps)

lemma find_index_from_Some:
  "find_index_from k P xs = Some i \<Longrightarrow>
     k \<le> i \<and> i < k + length xs \<and> P (xs ! (i - k)) \<and> (\<forall>j < i - k. \<not> P (xs ! j))"
proof (induction k P xs rule: find_index_from.induct)
  case (1 i P)
  then show ?case by simp
next
  case (2 k P x xs)
  show ?case
  proof (cases "P x")
    case True
    with "2.prems" show ?thesis by simp
  next
    case False
    with 2 have IH: "Suc k \<le> i \<and> i < Suc k + length xs \<and> P (xs ! (i - Suc k))
        \<and> (\<forall>j < i - Suc k. \<not> P (xs ! j))" by simp
    then have "i - k = Suc (i - Suc k)" by arith
    with IH False show ?thesis by (auto simp: nth_Cons' less_Suc_eq_0_disj)
  qed
qed

lemma find_index_from_None:
  "find_index_from k P xs = None \<longleftrightarrow> (\<forall>x \<in> set xs. \<not> P x)"
  by (induction k P xs rule: find_index_from.induct) auto

lemma find_index_Some:
  "find_index P xs = Some i \<Longrightarrow> i < length xs \<and> P (xs ! i) \<and> (\<forall>j < i. \<not> P (xs ! j))"
  unfolding find_index_def by (drule find_index_from_Some) simp

lemma find_index_None: "find_index P xs = None \<longleftrightarrow> (\<forall>x \<in> set xs. \<not> P x)"
  by (simp add: find_index_def find_index_from_None)

lemma inj_on_insertI: "inj_on f A \<Longrightarrow> f a \<notin> f ` A \<Longrightarrow> inj_on f (insert a A)"
  by (auto simp: inj_on_insert)

section \<open>Natural numbers behind words\<close>

lemma unat_of_nat_small: "n < 2 ^ LENGTH('a) \<Longrightarrow> unat (of_nat n :: 'a::len word) = n"
  by (simp add: unat_of_nat take_bit_nat_eq_self)

lemma unat_u32_less [simp]: "unat (x :: u32) < 4294967296"
  using unsigned_less [of x] by simp

lemma unat_add_small:
  "unat (a :: 'a::len word) + unat b < 2 ^ LENGTH('a) \<Longrightarrow> unat (a + b) = unat a + unat b"
  by (simp add: unat_word_ariths)

lemma add_eq_diff_eq: "a + c = d + b \<Longrightarrow> a - b = d - c" for a :: "'a::ab_group_add"
  by (simp add: diff_eq_eq eq_diff_eq diff_add_eq)

lemma div_mult_le: "(n::nat) div m * m \<le> n"
  by simp

end
