(* ===== verification/OsMath.thy ===== *)
theory OsMath
  imports Prelude
begin

text \<open>
  The integer and bit functions of os-std/math.hh, on words where the code's templates are
  used with fixed-width unsigned integers and on \<open>nat\<close> (with the wrap written out by the
  callers) where only division and rounding matter. The compiler builtins for counting
  zeroes and ones are given by their documented meaning, as computable functions.
\<close>

section \<open>Arithmetic\<close>

text \<open>\<open>pow(x, y)\<close>: the loop multiplies \<open>y\<close> times; unsigned, so it wraps.\<close>

primrec pow_loop :: "'a::len word \<Rightarrow> nat \<Rightarrow> 'a word \<Rightarrow> 'a word" where
  "pow_loop x 0 res = res"
| "pow_loop x (Suc k) res = pow_loop x k (res * x)"

definition pow :: "'a::len word \<Rightarrow> 'a word \<Rightarrow> 'a word" where
  "pow x y = pow_loop x (unat y) 1"

text \<open>
  \<open>logn(n, x)\<close> on unsigned values. The loop does not end for \<open>n = 1\<close> (and divides by
  zero for \<open>n = 0\<close>); both are the value \<open>None\<close>.
\<close>

partial_function (option) logn_loop :: "nat \<Rightarrow> nat \<Rightarrow> nat \<Rightarrow> nat option" where
  "logn_loop n x y =
     (if n \<le> x then (if n = 0 then None else logn_loop n (x div n) (Suc y)) else Some y)"

definition logn :: "nat \<Rightarrow> nat \<Rightarrow> nat option" where
  "logn n x = logn_loop n x 0"

definition div_ceil :: "nat \<Rightarrow> nat \<Rightarrow> nat" where
  "div_ceil x y = (let rest = x mod y in if rest \<noteq> 0 then x div y + 1 else x div y)"

definition div_round :: "nat \<Rightarrow> nat \<Rightarrow> nat" where
  "div_round x y =
     (let rest = x mod y in
      if rest < (if odd y then y + 1 else y) div 2 then x div y else x div y + 1)"

definition align_up :: "'a::len word \<Rightarrow> 'a word \<Rightarrow> 'a word" where
  "align_up x y =
     (if y = 0 then x else if x mod y \<noteq> 0 then x + (y - x mod y) else x)"

definition clamp :: "'a::linorder \<Rightarrow> 'a \<Rightarrow> 'a \<Rightarrow> 'a" where
  "clamp mi ma x = min ma (max mi x)"

text \<open>\<open>safe_mul\<close> and \<open>safe_add\<close>: false (here \<open>None\<close>) on overflow.\<close>

definition safe_add :: "'a::len word \<Rightarrow> 'a word \<Rightarrow> 'a word option" where
  "safe_add x y = (if unat x + unat y < 2 ^ LENGTH('a) then Some (x + y) else None)"

definition safe_sub :: "'a::len word \<Rightarrow> 'a word \<Rightarrow> 'a word option" where
  "safe_sub x y = (if unat y \<le> unat x then Some (x - y) else None)"

definition safe_mul :: "'a::len word \<Rightarrow> 'a word \<Rightarrow> 'a word option" where
  "safe_mul x y = (if unat x * unat y < 2 ^ LENGTH('a) then Some (x * y) else None)"

section \<open>Single bits and bit ranges\<close>

definition bit_get :: "u32 \<Rightarrow> nat \<Rightarrow> bool" where
  "bit_get x i = (if i \<noteq> 0 then x AND push_bit i 1 \<noteq> 0 else x AND 1 \<noteq> 0)"

definition bit_set :: "u32 \<Rightarrow> nat \<Rightarrow> bool \<Rightarrow> u32" where
  "bit_set x i v = (if v then x OR push_bit i 1 else x AND NOT (push_bit i 1))"

definition bit_clear :: "u32 \<Rightarrow> nat \<Rightarrow> u32" where
  "bit_clear x i = bit_set x i False"

definition bit_toggle :: "u32 \<Rightarrow> nat \<Rightarrow> u32" where
  "bit_toggle x i = x XOR push_bit i 1"

text \<open>
  \<open>bit_set_range(x, i, count, val)\<close>. The code shifts by \<open>32 - count\<close>, so \<open>count\<close> must
  not be 0 there (a shift by the full width); its only caller, \<open>Bitset::set_range\<close>, never
  passes 0.
\<close>

definition bit_set_range :: "u32 \<Rightarrow> nat \<Rightarrow> nat \<Rightarrow> bool \<Rightarrow> u32" where
  "bit_set_range y i count val =
     (let mask = push_bit i (drop_bit (32 - count) (- 1 :: u32)) in
      if val then y OR mask else y AND NOT mask)"

section \<open>Counting bits\<close>

definition bit_count :: "'a::len word \<Rightarrow> nat" where
  "bit_count x = length (filter (bit x) [0..<LENGTH('a)])"

definition count_leading_0s :: "'a::len word \<Rightarrow> nat" where
  "count_leading_0s x = length (takeWhile (\<lambda>n. \<not> bit x n) (rev [0..<LENGTH('a)]))"

definition count_trailing_0s :: "'a::len word \<Rightarrow> nat" where
  "count_trailing_0s x = length (takeWhile (\<lambda>n. \<not> bit x n) [0..<LENGTH('a)])"

section \<open>What the functions compute\<close>

lemma pow_loop_eq: "pow_loop x k res = res * x ^ k"
  by (induction k arbitrary: res) (simp_all add: mult.assoc)

lemma pow_eq: "pow x y = x ^ unat y"
  by (simp add: pow_def pow_loop_eq)

lemma logn_loop_spec:
  assumes "2 \<le> n"
  shows "\<exists>k. logn_loop n x y = Some (y + k) \<and> (x \<noteq> 0 \<longrightarrow> n ^ k \<le> x) \<and> x < n ^ Suc k"
proof (induction x arbitrary: y rule: less_induct)
  case (less x)
  show ?case
  proof (cases "n \<le> x")
    case False
    then show ?thesis
      by (intro exI [of _ 0]) (auto simp: logn_loop.simps [of n x])
  next
    case True
    with assms have lt: "x div n < x" by simp
    from less [OF lt, of "Suc y"] obtain k where
      k: "logn_loop n (x div n) (Suc y) = Some (Suc y + k)" "x div n \<noteq> 0 \<longrightarrow> n ^ k \<le> x div n"
         "x div n < n ^ Suc k" by blast
    from True assms have "x div n \<noteq> 0"
      by (metis Nat.le_0_eq div_greater_zero_iff gr_zeroI not_less numeral_2_eq_2 zero_less_Suc)
    with k(2) have "n ^ k \<le> x div n" by blast
    then have "n ^ k * n \<le> x div n * n" by simp
    then have lo: "n ^ Suc k \<le> x"
      by (metis div_mult_le mult.commute order_trans power_Suc)
    from k(3) have hi: "x < n ^ Suc (Suc k)"
      using assms by (simp add: div_less_iff_less_mult mult.commute)
    from True assms k(1) have "logn_loop n x y = Some (y + Suc k)"
      by (simp add: logn_loop.simps [of n x])
    with lo hi show ?thesis by blast
  qed
qed

text \<open>\<open>logn\<close> with a base of at least 2 ends and is the integer logarithm.\<close>

lemma logn_correct:
  assumes "2 \<le> n" "x \<noteq> 0"
  shows "\<exists>k. logn n x = Some k \<and> n ^ k \<le> x \<and> x < n ^ Suc k"
  using logn_loop_spec [OF assms(1), of x 0] assms(2) by (auto simp: logn_def)

lemma div_ceil_bounds:
  assumes "0 < y"
  shows "x \<le> div_ceil x y * y" and "div_ceil x y * y < x + y"
proof -
  define q r where "q = x div y" and "r = x mod y"
  have x: "x = q * y + r" by (simp add: q_def r_def)
  have r: "r < y" using assms by (simp add: r_def)
  have d: "div_ceil x y = (if r \<noteq> 0 then q + 1 else q)"
    by (simp add: div_ceil_def q_def r_def)
  show "x \<le> div_ceil x y * y" and "div_ceil x y * y < x + y"
    unfolding d using x r by auto
qed

lemma div_ceil_le_iff:
  assumes "0 < b"
  shows "div_ceil a b \<le> p \<longleftrightarrow> a \<le> p * b"
proof
  assume "div_ceil a b \<le> p"
  with div_ceil_bounds(1) [OF assms, of a] show "a \<le> p * b"
    by (meson mult_le_mono1 order_trans)
next
  assume "a \<le> p * b"
  then have "div_ceil a b * b < (p + 1) * b" using div_ceil_bounds(2) [OF assms, of a] by simp
  then have "div_ceil a b < p + 1" by (rule mult_right_less_imp_less) simp
  then show "div_ceil a b \<le> p" by simp
qed

lemma align_up_nat:
  fixes x y :: "'a::len word"
  assumes "y \<noteq> 0" and "unat x + unat y \<le> 2 ^ LENGTH('a)"
  shows "unat (align_up x y) = div_ceil (unat x) (unat y) * unat y"
proof -
  define r where "r = unat x mod unat y"
  have y0: "0 < unat y" using assms(1) by (simp add: unat_gt_0)
  have ru: "unat (x mod y) = r" by (simp add: unat_mod_distrib r_def)
  have zero: "x mod y = 0 \<longleftrightarrow> r = 0"
    using ru by (metis unat_eq_zero)
  have split: "unat x = unat x div unat y * unat y + r" by (simp add: r_def)
  have lt: "r < unat y" using y0 by (simp add: r_def)
  show ?thesis
  proof (cases "r = 0")
    case True
    then show ?thesis using zero assms(1) split
      by (simp add: align_up_def div_ceil_def r_def)
  next
    case False
    have "x mod y \<le> y" using lt by (simp add: word_le_nat_alt ru)
    then have sub: "unat (y - x mod y) = unat y - r"
      by (simp add: unat_sub ru)
    have "unat x + (unat y - r) < unat x + unat y"
      using False lt y0 by simp
    with assms(2) have "unat x + (unat y - r) < 2 ^ LENGTH('a)" by simp
    then have "unat (x + (y - x mod y)) = unat x + (unat y - r)"
      by (simp add: unat_add_small sub)
    also have "\<dots> = unat x div unat y * unat y + unat y"
      using split lt by linarith
    finally show ?thesis using False zero assms(1)
      by (simp add: align_up_def div_ceil_def r_def Let_def)
  qed
qed

text \<open>
  Rounding up to an alignment, when the sum does not wrap: the result is aligned, not
  smaller, and less than one alignment away.
\<close>

lemma align_up_correct:
  fixes x y :: "'a::len word"
  assumes "y \<noteq> 0" and "unat x + unat y \<le> 2 ^ LENGTH('a)"
  shows "unat y dvd unat (align_up x y)"
    and "unat x \<le> unat (align_up x y)"
    and "unat (align_up x y) < unat x + unat y"
proof -
  have y0: "0 < unat y" using assms(1) by (simp add: unat_gt_0)
  show "unat y dvd unat (align_up x y)"
    and "unat x \<le> unat (align_up x y)"
    and "unat (align_up x y) < unat x + unat y"
    using div_ceil_bounds [OF y0, of "unat x"] by (simp_all add: align_up_nat [OF assms])
qed

lemma bit_exp_u32 [simp]: "bit (2 ^ i :: u32) n \<longleftrightarrow> n = i \<and> i < 32"
  by (auto simp: bit_exp_iff)

lemma and_exp_zero: "(x AND 2 ^ i = (0::u32)) \<longleftrightarrow> \<not> bit x i"
proof -
  have "bit x i \<Longrightarrow> i < 32" by (auto dest: bit_imp_le_length)
  then show ?thesis
    by (auto simp: bit_eq_iff [of "x AND 2 ^ i" 0] bit_and_iff)
qed

lemma bit_get_iff [simp]: "bit_get x i = bit x i"
  using and_exp_zero [of x i] and_exp_zero [of x 0]
  by (auto simp: bit_get_def)

lemma bit_bit_set: "i < 32 \<Longrightarrow> bit (bit_set x i v) n = (if n = i then v else bit x n)"
  by (auto simp: bit_set_def bit_or_iff bit_and_iff bit_not_iff dest: bit_imp_le_length)

lemma bit_mask_range:
  assumes "c \<le> 32" "i + c \<le> 32"
  shows "bit (push_bit i (drop_bit (32 - c) (- 1 :: u32))) n \<longleftrightarrow> i \<le> n \<and> n < i + c"
  using assms
  by (auto simp: bit_push_bit_iff bit_mask_iff)

text \<open>The range function sets exactly the bits of the range.\<close>

lemma bit_bit_set_range:
  assumes "i + c \<le> 32"
  shows "bit (bit_set_range x i c v) n =
    (if i \<le> n \<and> n < i + c then v else bit x n)"
proof -
  define M where "M = push_bit i (drop_bit (32 - c) (- 1 :: u32))"
  from assms have "c \<le> 32" by simp
  then have m: "bit M n \<longleftrightarrow> i \<le> n \<and> n < i + c"
    unfolding M_def using assms by (rule bit_mask_range)
  have x: "bit x n \<Longrightarrow> n < 32" by (auto dest: bit_imp_le_length)
  have "bit_set_range x i c v = (if v then x OR M else x AND NOT M)"
    by (simp only: bit_set_range_def Let_def M_def)
  then show ?thesis
    using x by (auto simp: m bit_or_iff bit_and_iff bit_not_iff)
qed

lemma takeWhile_upt_length:
  "length (takeWhile (\<lambda>n. \<not> P n) [0..<k]) = (if \<exists>n<k. P n then LEAST n. P n else k)"
proof (cases "\<exists>n<k. P n")
  case True
  define m where "m = (LEAST n. P n)"
  from True obtain n where n: "n < k" "P n" by blast
  then have m: "P m" "m < k"
    unfolding m_def by (auto intro: LeastI le_less_trans [OF Least_le])
  have notP: "\<not> P j" if "j < m" for j
    using that not_less_Least unfolding m_def by blast
  have "[0..<k] = [0..<m] @ m # [Suc m..<k]"
    using m(2) by (metis less_imp_le_nat upt_add_eq_append upt_conv_Cons le_add_diff_inverse zero_le)
  then have "takeWhile (\<lambda>n. \<not> P n) [0..<k] = [0..<m]"
    using m(1) notP by (simp add: takeWhile_append)
  with True show ?thesis by (simp add: m_def)
next
  case False
  then have "takeWhile (\<lambda>n. \<not> P n) [0..<k] = [0..<k]"
    by (simp add: takeWhile_eq_all_conv)
  then have "length (takeWhile (\<lambda>n. \<not> P n) [0..<k]) = k"
    by (simp only: length_upt)
  with False show ?thesis by auto
qed

text \<open>The number of trailing zeroes of a non-zero word is the position of its lowest one.\<close>

lemma word_nonzero_bit: "x \<noteq> (0::'a::len word) \<Longrightarrow> \<exists>n<LENGTH('a). bit x n"
proof (rule ccontr)
  assume "x \<noteq> 0" and none: "\<not> (\<exists>n<LENGTH('a). bit x n)"
  from none have "x = 0" by (intro bit_word_eqI) auto
  with \<open>x \<noteq> 0\<close> show False by simp
qed

lemma ctz_bit:
  assumes "x \<noteq> (0::'a::len word)"
  shows "bit x (count_trailing_0s x)"
    and "count_trailing_0s x < LENGTH('a)"
    and "\<forall>j < count_trailing_0s x. \<not> bit x j"
proof -
  from word_nonzero_bit [OF assms] obtain n where n: "n < LENGTH('a)" "bit x n" by blast
  then have eq: "count_trailing_0s x = (LEAST n. bit x n)"
    by (auto simp: count_trailing_0s_def takeWhile_upt_length)
  show "bit x (count_trailing_0s x)" using n(2) by (simp add: eq LeastI)
  then show "count_trailing_0s x < LENGTH('a)"
    by (rule bit_imp_le_length)
  show "\<forall>j < count_trailing_0s x. \<not> bit x j"
    using not_less_Least eq by metis
qed

lemma ctz_zero: "count_trailing_0s (0::'a::len word) = LENGTH('a)"
  unfolding count_trailing_0s_def by (subst takeWhile_upt_length) simp

end
