(* ===== verification/Bitset.thy ===== *)
theory Bitset
  imports OsMath
begin

text \<open>
  The \<open>Bitset\<close> template of os-std/bitset.hh: an array of 32-bit words. The number of bits
  is the template parameter, so the functions here work for any number of words; access
  outside the array is \<open>None\<close>. \<open>bs_get\<close> is the abstraction: the boolean at each index.
\<close>

type_synonym bitset = "u32 list"

definition bitset_index :: "nat \<Rightarrow> nat \<times> nat" where
  "bitset_index i = (i div 32, i mod 32)"

definition bitset_set :: "bitset \<Rightarrow> nat \<Rightarrow> bool \<Rightarrow> bitset kern" where
  "bitset_set bs i v = do {
     w \<leftarrow> aget bs (i div 32);
     aset bs (i div 32) (bit_set w (i mod 32) v)
   }"

definition bitset_clear :: "bitset \<Rightarrow> nat \<Rightarrow> bitset kern" where
  "bitset_clear bs i = do {
     w \<leftarrow> aget bs (i div 32);
     aset bs (i div 32) (bit_clear w (i mod 32))
   }"

definition bitset_toggle :: "bitset \<Rightarrow> nat \<Rightarrow> bitset kern" where
  "bitset_toggle bs i = do {
     w \<leftarrow> aget bs (i div 32);
     aset bs (i div 32) (bit_toggle w (i mod 32))
   }"

definition bitset_get :: "bitset \<Rightarrow> nat \<Rightarrow> bool kern" where
  "bitset_get bs i = do {
     w \<leftarrow> aget bs (i div 32);
     Some (bit_get w (i mod 32))
   }"

definition bitset_set_all :: "bitset \<Rightarrow> bool \<Rightarrow> bitset" where
  "bitset_set_all bs v = (if v then map (\<lambda>_. NOT 0) bs else map (\<lambda>_. 0) bs)"

text \<open>The loop of \<open>set_range\<close> over whole words.\<close>

function set_range_rest :: "bitset \<Rightarrow> nat \<Rightarrow> nat \<Rightarrow> bool \<Rightarrow> bitset kern" where
  "set_range_rest bs data_i count val =
     (if 0 < count then
        let n = min count 32 in do {
          w \<leftarrow> aget bs data_i;
          bs \<leftarrow> aset bs data_i (bit_set_range w 0 n val);
          set_range_rest bs (data_i + 1) (count - n) val
        }
      else Some bs)"
  by pat_completeness auto
termination
  by (relation "measure (\<lambda>(_, _, count, _). count)") auto

declare set_range_rest.simps [simp del]

definition bitset_set_range :: "bitset \<Rightarrow> nat \<Rightarrow> nat \<Rightarrow> bool \<Rightarrow> bitset kern" where
  "bitset_set_range bs i count val =
     (if count = 0 then Some bs
      else
        let (data_i, first_bitoff) = bitset_index i;
            first_count = min count (32 - first_bitoff) in do {
          w \<leftarrow> aget bs data_i;
          bs \<leftarrow> aset bs data_i (bit_set_range w first_bitoff first_count val);
          set_range_rest bs (data_i + 1) (count - first_count) val
        })"

section \<open>The abstraction and the functional behaviour\<close>

definition bs_get :: "bitset \<Rightarrow> nat \<Rightarrow> bool" where
  "bs_get bs i \<longleftrightarrow> bit (bs ! (i div 32)) (i mod 32)"

lemma div32_less: "i < 32 * length bs \<Longrightarrow> i div 32 < length (bs :: bitset)"
  by (simp add: less_mult_imp_div_less mult.commute)

lemma bitset_get_eq: "i < 32 * length bs \<Longrightarrow> bitset_get bs i = Some (bs_get bs i)"
  by (simp add: bitset_get_def bs_get_def div32_less)

lemma mod32_less [simp]: "(i::nat) mod 32 < 32"
  by simp

lemma div_mod_32_eq: "(j::nat) div 32 = i div 32 \<Longrightarrow> j mod 32 = i mod 32 \<Longrightarrow> j = i"
  by (metis div_mult_mod_eq)

lemma bitset_set_spec:
  assumes "i < 32 * length bs"
  shows "\<exists>bs'. bitset_set bs i v = Some bs' \<and> length bs' = length bs \<and>
    (\<forall>j. bs_get bs' j = (if j = i then v else bs_get bs j))"
proof -
  let ?bs = "bs[i div 32 := bit_set (bs ! (i div 32)) (i mod 32) v]"
  have "bitset_set bs i v = Some ?bs"
    using div32_less [OF assms] by (simp add: bitset_set_def)
  moreover have "bs_get ?bs j = (if j = i then v else bs_get bs j)" for j
    using div32_less [OF assms] div_mod_32_eq [of j i]
    by (auto simp: bs_get_def nth_list_update bit_bit_set)
  ultimately show ?thesis by auto
qed

lemma bs_get_word_update:
  assumes "d < length bs" "o' + n \<le> 32"
  shows "bs_get (bs[d := bit_set_range (bs ! d) o' n v]) j =
    (if 32 * d + o' \<le> j \<and> j < 32 * d + o' + n then v else bs_get bs j)"
proof -
  have j: "j = j div 32 * 32 + j mod 32" by simp
  show ?thesis
  proof (cases "j div 32 = d")
    case True
    with j have jd: "j = 32 * d + j mod 32" by simp
    then have "32 * d + o' \<le> j \<and> j < 32 * d + o' + n \<longleftrightarrow> o' \<le> j mod 32 \<and> j mod 32 < o' + n"
      by linarith
    with True assms show ?thesis
      by (simp add: bs_get_def bit_bit_set_range)
  next
    case False
    then have "\<not> (32 * d + o' \<le> j \<and> j < 32 * d + o' + n)"
      using assms(2) by (auto simp: div_nat_eqI)
    with False show ?thesis by (auto simp: bs_get_def)
  qed
qed

lemma set_range_rest_spec:
  assumes "32 * d + count \<le> 32 * length bs"
  shows "\<exists>bs'. set_range_rest bs d count v = Some bs' \<and> length bs' = length bs \<and>
    (\<forall>j. bs_get bs' j = (if 32 * d \<le> j \<and> j < 32 * d + count then v else bs_get bs j))"
  using assms
proof (induction bs d count v rule: set_range_rest.induct)
  case (1 bs d count v)
  show ?case
  proof (cases "0 < count")
    case False
    then show ?thesis by (subst set_range_rest.simps) auto
  next
    case True
    let ?n = "min count 32"
    let ?bs = "bs[d := bit_set_range (bs ! d) 0 ?n v]"
    have d: "d < length bs" using True "1.prems" by linarith
    have "32 * (d + 1) \<le> 32 * length bs" using d by simp
    then have "32 * (d + 1) + (count - ?n) \<le> 32 * length ?bs"
      using "1.prems" by (auto simp: min_def)
    with "1.IH" [OF True refl, of "bs ! d" ?bs] d obtain bs' where
      bs': "set_range_rest ?bs (d + 1) (count - ?n) v = Some bs'" "length bs' = length ?bs"
        "\<forall>j. bs_get bs' j =
          (if 32 * (d + 1) \<le> j \<and> j < 32 * (d + 1) + (count - ?n) then v else bs_get ?bs j)"
      by auto
    have "set_range_rest bs d count v = Some bs'"
      using True d bs'(1) by (subst set_range_rest.simps) (simp add: Let_def)
    moreover have "bs_get bs' j =
        (if 32 * d \<le> j \<and> j < 32 * d + count then v else bs_get bs j)" for j
      using bs'(3) bs_get_word_update [OF d, of 0 ?n v j] by (auto simp: min_def)
    ultimately show ?thesis using bs'(2) by auto
  qed
qed

lemma bitset_set_range_spec:
  assumes "i + count \<le> 32 * length bs"
  shows "\<exists>bs'. bitset_set_range bs i count v = Some bs' \<and> length bs' = length bs \<and>
    (\<forall>j. bs_get bs' j = (if i \<le> j \<and> j < i + count then v else bs_get bs j))"
proof (cases "count = 0")
  case True
  then show ?thesis by (auto simp: bitset_set_range_def)
next
  case False
  define d b where "d = i div 32" and "b = i mod 32"
  let ?n = "min count (32 - b)"
  let ?bs = "bs[d := bit_set_range (bs ! d) b ?n v]"
  have i: "i = 32 * d + b" and b: "b < 32" by (simp_all add: d_def b_def)
  have d: "d < length bs" using i False assms by linarith
  have "32 * (d + 1) \<le> 32 * length bs" using d by simp
  then have "32 * (d + 1) + (count - ?n) \<le> 32 * length ?bs"
    using assms i b by (auto simp: min_def)
  from set_range_rest_spec [OF this, of v] obtain bs' where
    bs': "set_range_rest ?bs (d + 1) (count - ?n) v = Some bs'" "length bs' = length bs"
      "\<forall>j. bs_get bs' j =
        (if 32 * (d + 1) \<le> j \<and> j < 32 * (d + 1) + (count - ?n) then v else bs_get ?bs j)"
    by auto
  have "bitset_set_range bs i count v = Some bs'"
    using False d bs'(1) by (simp add: bitset_set_range_def bitset_index_def d_def b_def Let_def)
  moreover have "bs_get bs' j = (if i \<le> j \<and> j < i + count then v else bs_get bs j)" for j
    using bs'(3) bs_get_word_update [OF d, of b ?n v j] i b by (auto simp: min_def)
  ultimately show ?thesis using bs'(2) by auto
qed

lemma bitset_set_all_spec: "i < 32 * length bs \<Longrightarrow> bs_get (bitset_set_all bs v) i = v"
  by (auto simp: bs_get_def bitset_set_all_def div32_less bit_not_iff)

text \<open>A whole-word read: a word is zero exactly when none of its 32 bits is set.\<close>

lemma bs_word_zero:
  assumes "k < length bs"
  shows "bs ! k = 0 \<longleftrightarrow> (\<forall>j. j div 32 = k \<longrightarrow> \<not> bs_get bs j)"
proof
  assume z: "\<forall>j. j div 32 = k \<longrightarrow> \<not> bs_get bs j"
  show "bs ! k = 0"
  proof (rule ccontr)
    assume "bs ! k \<noteq> 0"
    from word_nonzero_bit [OF this] obtain n where n: "n < 32" "bit (bs ! k) n" by auto
    then have "(32 * k + n) div 32 = k" "(32 * k + n) mod 32 = n" by auto
    with z n(2) show False by (metis bs_get_def)
  qed
qed (simp add: bs_get_def)

end
