(* ===== verification/PhysMem.thy ===== *)
theory PhysMem
  imports Bitset
begin

text \<open>
  The physical page allocator (memory/manager-physical.cc): a bitmap with one bit per 4 KiB
  page (a one is a free page), the index below which no page is free, and three counters.
  The bitmap's length is a parameter of the model (the code's has 32768 words); page numbers
  are \<open>nat\<close>, the counters are 32-bit words because \<open>init\<close> relies on their wrap-around.
  The interface the virtual memory manager relies on is the locale \<open>page_allocator\<close>.
\<close>

section \<open>State and operations\<close>

record pmm =
  total_pages_free :: u32
  total_pages_used :: u32
  total_pages_reserved :: u32
  bitmap :: bitset
  first_free_page :: nat

function find_free_word :: "bitset \<Rightarrow> nat \<Rightarrow> nat" where
  "find_free_word bs word_i =
     (if word_i < length bs then
        let word = bs ! word_i in
        if word \<noteq> 0 then word_i * 32 + count_trailing_0s word
        else find_free_word bs (word_i + 1)
      else 0)"
  by pat_completeness auto
termination
  by (relation "measure (\<lambda>(bs, word_i). length bs - word_i)") auto

declare find_free_word.simps [simp del]

definition find_next_free_page :: "bitset \<Rightarrow> nat \<Rightarrow> nat" where
  "find_next_free_page bs start_page = find_free_word bs (start_page div 32)"

definition allocate_one :: "pmm \<Rightarrow> (nat \<times> pmm) kern" where
  "allocate_one s =
     (let page_no = find_next_free_page (bitmap s) (first_free_page s) in
      if page_no > 0 then do {
        bm \<leftarrow> bitset_set (bitmap s) page_no False;
        Some (page_no,
          s\<lparr>bitmap := bm,
            total_pages_used := total_pages_used s + 1,
            total_pages_free := total_pages_free s - 1,
            first_free_page := page_no + 1\<rparr>)
      }
      else Some (page_no, s))"

definition free_one :: "pmm \<Rightarrow> nat \<Rightarrow> pmm kern" where
  "free_one s page_no = do {
     bm \<leftarrow> bitset_set (bitmap s) page_no True;
     let s = s\<lparr>bitmap := bm,
               total_pages_used := total_pages_used s - 1,
               total_pages_free := total_pages_free s + 1\<rparr>;
     Some (if page_no < first_free_page s then s\<lparr>first_free_page := page_no\<rparr> else s)
   }"

text \<open>
  A region of the boot loader's memory map; both fields are unsigned 64-bit numbers.
\<close>

record memory_region =
  mr_start :: nat
  mr_size :: nat

definition mark_region_free :: "pmm \<Rightarrow> memory_region \<Rightarrow> pmm kern" where
  "mark_region_free s r =
     (if 2 ^ 32 - 1 \<le> mr_start r \<or> 2 ^ 32 - 1 \<le> (mr_start r + page_size) mod 2 ^ 64 then Some s
      else if mr_size r < page_size then Some s
      else
        let rest = mr_start r mod page_size;
            start = (if rest \<noteq> 0 then mr_start r + (page_size - rest) else mr_start r);
            size = (if rest \<noteq> 0 then mr_size r - (page_size - rest) else mr_size r);
            page_start = start div page_size;
            page_count = (size div page_size) mod 2 ^ 32 in do {
          bm \<leftarrow> bitset_set_range (bitmap s) page_start page_count True;
          Some (s\<lparr>bitmap := bm,
                  total_pages_free := total_pages_free s + of_nat page_count,
                  total_pages_reserved := total_pages_reserved s - of_nat page_count\<rparr>)
        })"

primrec mark_regions_free :: "pmm \<Rightarrow> memory_region list \<Rightarrow> pmm kern" where
  "mark_regions_free s [] = Some s"
| "mark_regions_free s (r # rs) = do { s \<leftarrow> mark_region_free s r; mark_regions_free s rs }"

text \<open>
  \<open>init\<close>: the address of the linker's symbol \<open>KERNEL_BSS_END\<close> is a parameter. The
  subtraction of 1 MiB is done in 64 bits and its result cut to 32.
\<close>

definition init_pmm :: "nat \<Rightarrow> memory_region list \<Rightarrow> pmm \<Rightarrow> pmm kern" where
  "init_pmm kernel_bss_end regions s = do {
     let s = s\<lparr>total_pages_reserved := - 1\<rparr>;
     s \<leftarrow> mark_regions_free s regions;
     let kernel_pages =
       div_ceil ((kernel_bss_end + 2 ^ 64 - 2 ^ 20) mod 2 ^ 64) page_size mod 2 ^ 32;
     bm \<leftarrow> bitset_set_range (bitmap s) 0 (2 ^ 20 div page_size) False;
     bm \<leftarrow> bitset_set_range bm (2 ^ 20 div page_size) kernel_pages False;
     Some (s\<lparr>bitmap := bm,
             total_pages_free :=
               total_pages_free s - (of_nat (2 ^ 20 div page_size) + of_nat kernel_pages),
             total_pages_reserved := total_pages_reserved s + of_nat (2 ^ 20 div page_size),
             total_pages_used := total_pages_used s + of_nat kernel_pages\<rparr>)
   }"

text \<open>The state before \<open>init\<close>: static data, all zero, for a machine with \<open>32 * n\<close> pages.\<close>

definition pmm_zero :: "nat \<Rightarrow> pmm" where
  "pmm_zero n = \<lparr>total_pages_free = 0, total_pages_used = 0, total_pages_reserved = 0,
     bitmap = replicate n 0, first_free_page = 0\<rparr>"

section \<open>The interface: a source of distinct pages\<close>

text \<open>A run of \<open>n\<close> allocations that stops at the first failure.\<close>

primrec alloc_many :: "('s \<Rightarrow> (nat \<times> 's) kern) \<Rightarrow> nat \<Rightarrow> 's \<Rightarrow> (nat list \<times> 's) kern" where
  "alloc_many alloc 0 s = Some ([], s)"
| "alloc_many alloc (Suc n) s = do {
     (p, s) \<leftarrow> alloc s;
     if p = 0 then Some ([], s)
     else do { (ps, s) \<leftarrow> alloc_many alloc n s; Some (p # ps, s) }
   }"

locale page_allocator =
  fixes alloc :: "'s \<Rightarrow> (nat \<times> 's) kern"
    and dealloc :: "'s \<Rightarrow> nat \<Rightarrow> 's kern"
    and free :: "'s \<Rightarrow> nat set"
    and pages :: "'s \<Rightarrow> nat set"
    and inv :: "'s \<Rightarrow> bool"
  assumes alloc_empty: "inv s \<Longrightarrow> free s = {} \<Longrightarrow> alloc s = Some (0, s)"
    and alloc_page: "inv s \<Longrightarrow> free s \<noteq> {} \<Longrightarrow>
      \<exists>p s'. alloc s = Some (p, s') \<and> p \<in> free s \<and> p \<noteq> 0 \<and> inv s'
        \<and> free s' = free s - {p} \<and> pages s' = pages s"
    and dealloc_page: "inv s \<Longrightarrow> p \<in> pages s \<Longrightarrow>
      \<exists>s'. dealloc s p = Some s' \<and> inv s' \<and> free s' = insert p (free s) \<and> pages s' = pages s"
    and free_pages: "inv s \<Longrightarrow> free s \<subseteq> pages s"
    and finite_pages: "inv s \<Longrightarrow> finite (pages s)"
begin

lemma alloc_cases:
  assumes "inv s"
  obtains (full) "free s = {}" "alloc s = Some (0, s)"
  | (page) p s' where "alloc s = Some (p, s')" "p \<in> free s" "p \<noteq> 0" "inv s'"
      "free s' = free s - {p}" "pages s' = pages s"
  using assms alloc_empty alloc_page by blast

lemma alloc_total:
  assumes "inv s"
  shows "\<exists>p s'. alloc s = Some (p, s') \<and> inv s' \<and> pages s' = pages s \<and>
    (p = 0 \<longleftrightarrow> free s = {}) \<and> (p = 0 \<longrightarrow> s' = s) \<and> free s' = free s - {p}"
  using assms
proof (cases rule: alloc_cases)
  case full
  then show ?thesis using assms by auto
next
  case (page p s')
  then show ?thesis by auto
qed

lemma alloc_then_dealloc:
  assumes "inv s" "alloc s = Some (p, s')" "p \<noteq> 0"
  shows "\<exists>s''. dealloc s' p = Some s'' \<and> inv s'' \<and> free s'' = free s"
  using assms(1)
proof (cases rule: alloc_cases)
  case full
  with assms show ?thesis by simp
next
  case (page q t)
  with assms have "p \<in> pages s'" "inv s'" "free s' = free s - {p}" "p \<in> free s"
    using free_pages [OF assms(1)] by auto
  with dealloc_page [of s' p] show ?thesis by auto
qed

lemma alloc_many_spec:
  "inv s \<Longrightarrow> \<exists>ps s'. alloc_many alloc n s = Some (ps, s') \<and> inv s' \<and> distinct ps \<and>
     set ps \<subseteq> free s \<and> 0 \<notin> set ps \<and> free s' = free s - set ps \<and>
     length ps = min n (card (free s))"
proof (induction n arbitrary: s)
  case 0
  then show ?case by simp
next
  case (Suc n)
  have fin: "finite (free s)" by (meson Suc.prems finite_pages finite_subset free_pages)
  show ?case
    using Suc.prems
  proof (cases rule: alloc_cases)
    case full
    then show ?thesis using Suc.prems by auto
  next
    case (page p s')
    from Suc.IH [OF page(4)] obtain ps s'' where IH:
      "alloc_many alloc n s' = Some (ps, s'')" "inv s''" "distinct ps" "set ps \<subseteq> free s'"
      "0 \<notin> set ps" "free s'' = free s' - set ps" "length ps = min n (card (free s'))" by blast
    have "card (free s) = Suc (card (free s'))"
      using fin page by (metis card_Suc_Diff1)
    then show ?thesis using IH page by auto
  qed
qed

end

section \<open>The bitmap allocator\<close>

definition free_pages :: "pmm \<Rightarrow> nat set" where
  "free_pages s = {p. p < 32 * length (bitmap s) \<and> bs_get (bitmap s) p}"

definition managed_pages :: "pmm \<Rightarrow> nat set" where
  "managed_pages s = {p. 0 < p \<and> p < 32 * length (bitmap s)}"

text \<open>
  Page 0 is never free (the code uses 0 as \<open>no page\<close>), and no page below
  \<open>first_free_page\<close> is free.
\<close>

definition pmm_inv :: "pmm \<Rightarrow> bool" where
  "pmm_inv s \<longleftrightarrow> 0 \<notin> free_pages s \<and> (\<forall>p \<in> free_pages s. first_free_page s \<le> p)"

text \<open>The free counter is exact.\<close>

definition counters_exact :: "pmm \<Rightarrow> bool" where
  "counters_exact s \<longleftrightarrow> total_pages_free s = of_nat (card (free_pages s))"

lemma finite_free_pages [simp]: "finite (free_pages s)"
  by (rule finite_subset [of _ "{..<32 * length (bitmap s)}"]) (auto simp: free_pages_def)

lemma div32_le_mono: "(a::nat) \<le> b \<Longrightarrow> a div 32 \<le> b div 32"
  by (rule div_le_mono)

text \<open>The word loop finds the lowest set bit at or above the start word.\<close>

lemma find_free_word_none:
  assumes "\<forall>j. k \<le> j div 32 \<and> j < 32 * length bs \<longrightarrow> \<not> bs_get bs j"
  shows "find_free_word bs k = 0"
  using assms
proof (induction bs k rule: find_free_word.induct)
  case (1 bs k)
  show ?case
  proof (cases "k < length bs")
    case False
    then show ?thesis by (subst find_free_word.simps) simp
  next
    case True
    then have "\<forall>j. j div 32 = k \<longrightarrow> j < 32 * length bs" by auto
    with "1.prems" have "bs ! k = 0" by (subst bs_word_zero [OF True]) auto
    with True "1.IH" [OF True refl] "1.prems" show ?thesis
      by (subst find_free_word.simps) (auto simp: Suc_le_eq)
  qed
qed

lemma find_free_word_least:
  assumes "\<exists>j. k \<le> j div 32 \<and> j < 32 * length bs \<and> bs_get bs j"
  shows "find_free_word bs k = (LEAST j. k \<le> j div 32 \<and> bs_get bs j) \<and>
    find_free_word bs k < 32 * length bs"
  using assms
proof (induction bs k rule: find_free_word.induct)
  case (1 bs k)
  from "1.prems" obtain i where i: "k \<le> i div 32" "i < 32 * length bs" "bs_get bs i" by blast
  then have k: "k < length bs" using div32_less [OF i(2)] by simp
  show ?case
  proof (cases "bs ! k = 0")
    case True
    then have none: "\<forall>j. j div 32 = k \<longrightarrow> \<not> bs_get bs j"
      using bs_word_zero [OF k] by blast
    then have eq: "(k \<le> j div 32 \<and> bs_get bs j) = (k + 1 \<le> j div 32 \<and> bs_get bs j)" for j
      by (metis Suc_eq_plus1 le_antisym not_less_eq_eq le_SucI)
    have "\<exists>j. k + 1 \<le> j div 32 \<and> j < 32 * length bs \<and> bs_get bs j"
      using i eq by blast
    from "1.IH" [OF k refl _ this] True k show ?thesis
      by (subst (1 2) find_free_word.simps) (simp only: eq, simp)
  next
    case False
    let ?t = "count_trailing_0s (bs ! k)"
    note t = ctz_bit [OF False]
    have t32: "?t < 32" using t(2) by simp
    then have dm: "(k * 32 + ?t) div 32 = k" "(k * 32 + ?t) mod 32 = ?t" by auto
    have "(LEAST j. k \<le> j div 32 \<and> bs_get bs j) = k * 32 + ?t"
    proof (rule Least_equality)
      show "k \<le> (k * 32 + ?t) div 32 \<and> bs_get bs (k * 32 + ?t)"
        using t(1) dm by (simp add: bs_get_def)
    next
      fix j assume j: "k \<le> j div 32 \<and> bs_get bs j"
      show "k * 32 + ?t \<le> j"
      proof (cases "j div 32 = k")
        case True
        with j have "bit (bs ! k) (j mod 32)" by (simp add: bs_get_def)
        with t(3) have "?t \<le> j mod 32" by (meson not_le)
        with True show ?thesis by (metis add_le_cancel_left div_mult_mod_eq)
      next
        case False
        with j have "k + 1 \<le> j div 32" by simp
        then have "(k + 1) * 32 \<le> j" by (metis div_mult_le mult_le_mono1 order_trans)
        with t32 show ?thesis by simp
      qed
    qed
    moreover have "k * 32 + ?t < 32 * length bs" using t32 k by simp
    ultimately show ?thesis using False k by (subst (1 2) find_free_word.simps) (simp add: Let_def)
  qed
qed

lemma find_next_free_page_spec:
  assumes "pmm_inv s"
  shows "find_next_free_page (bitmap s) (first_free_page s) =
    (if free_pages s = {} then 0 else Min (free_pages s))"
proof -
  let ?bs = "bitmap s" and ?k = "first_free_page s div 32"
  have mem: "?k \<le> j div 32" if "j \<in> free_pages s" for j
    using assms that by (auto simp: pmm_inv_def intro: div_le_mono)
  show ?thesis
  proof (cases "free_pages s = {}")
    case True
    then have "\<forall>j. ?k \<le> j div 32 \<and> j < 32 * length ?bs \<longrightarrow> \<not> bs_get ?bs j"
      by (auto simp: free_pages_def)
    with True show ?thesis by (simp add: find_next_free_page_def find_free_word_none)
  next
    case False
    then obtain p where p: "p \<in> free_pages s" by blast
    with mem have "\<exists>j. ?k \<le> j div 32 \<and> j < 32 * length ?bs \<and> bs_get ?bs j"
      by (auto simp: free_pages_def)
    from find_free_word_least [OF this] have
      f: "find_free_word ?bs ?k = (LEAST j. ?k \<le> j div 32 \<and> bs_get ?bs j)"
         "find_free_word ?bs ?k < 32 * length ?bs" by blast+
    have ex: "?k \<le> p div 32 \<and> bs_get ?bs p" using p mem by (auto simp: free_pages_def)
    have "bs_get ?bs (find_free_word ?bs ?k)"
      unfolding f(1) using LeastI [of "\<lambda>j. ?k \<le> j div 32 \<and> bs_get ?bs j", OF ex] by blast
    with f(2) have "find_free_word ?bs ?k \<in> free_pages s" by (simp add: free_pages_def)
    moreover have "find_free_word ?bs ?k \<le> j" if "j \<in> free_pages s" for j
      unfolding f(1) using that mem by (intro Least_le) (auto simp: free_pages_def)
    ultimately have "Min (free_pages s) = find_free_word ?bs ?k"
      by (intro Min_eqI) auto
    with False show ?thesis by (simp add: find_next_free_page_def)
  qed
qed

lemma free_pages_set:
  assumes "bitset_set (bitmap s) p v = Some bm" "p < 32 * length (bitmap s)" "bitmap t = bm"
  shows "free_pages t = (if v then insert p (free_pages s) else free_pages s - {p})"
    and "length (bitmap t) = length (bitmap s)"
  using bitset_set_spec [OF assms(2), of v] assms by (auto simp: free_pages_def)

text \<open>One allocation: the lowest free page, or 0 and no change when there is none.\<close>

lemma allocate_one_spec:
  assumes "pmm_inv s"
  shows "if free_pages s = {} then allocate_one s = Some (0, s)
    else \<exists>s'. allocate_one s = Some (Min (free_pages s), s') \<and> pmm_inv s' \<and>
      free_pages s' = free_pages s - {Min (free_pages s)} \<and>
      length (bitmap s') = length (bitmap s) \<and>
      total_pages_free s' = total_pages_free s - 1 \<and>
      total_pages_used s' = total_pages_used s + 1"
proof (cases "free_pages s = {}")
  case True
  then show ?thesis by (simp add: allocate_one_def find_next_free_page_spec [OF assms])
next
  case False
  let ?p = "Min (free_pages s)"
  have p: "?p \<in> free_pages s" using False by simp
  then have p0: "0 < ?p" using assms by (metis pmm_inv_def gr0I)
  have lt: "?p < 32 * length (bitmap s)" using p by (simp add: free_pages_def)
  obtain bm where bm: "bitset_set (bitmap s) ?p False = Some bm"
    using bitset_set_spec [OF lt] by blast
  obtain t where t: "allocate_one s = Some (?p, t)" "bitmap t = bm"
      "first_free_page t = ?p + 1" "total_pages_free t = total_pages_free s - 1"
      "total_pages_used t = total_pages_used s + 1"
    using False p0 bm by (simp add: allocate_one_def find_next_free_page_spec [OF assms] Let_def)
  have fp: "free_pages t = free_pages s - {?p}" "length (bitmap t) = length (bitmap s)"
    using free_pages_set [OF bm lt t(2)] by auto
  have "?p + 1 \<le> q" if "q \<in> free_pages s - {?p}" for q
  proof -
    from that have "?p \<le> q" "q \<noteq> ?p" by auto
    then show ?thesis by simp
  qed
  then have "pmm_inv t" using assms by (simp add: pmm_inv_def fp t(3))
  with False fp t show ?thesis by auto
qed

lemma free_one_spec:
  assumes "pmm_inv s" "p \<in> managed_pages s"
  shows "\<exists>s'. free_one s p = Some s' \<and> pmm_inv s' \<and> free_pages s' = insert p (free_pages s) \<and>
    length (bitmap s') = length (bitmap s) \<and>
    total_pages_free s' = total_pages_free s + 1 \<and> total_pages_used s' = total_pages_used s - 1"
proof -
  have lt: "p < 32 * length (bitmap s)" and p0: "0 < p"
    using assms(2) by (auto simp: managed_pages_def)
  obtain bm where bm: "bitset_set (bitmap s) p True = Some bm"
    using bitset_set_spec [OF lt] by blast
  obtain s' where s': "free_one s p = Some s'" "bitmap s' = bm"
      "first_free_page s' = min p (first_free_page s)"
      "total_pages_free s' = total_pages_free s + 1" "total_pages_used s' = total_pages_used s - 1"
    using bm by (auto simp: free_one_def Let_def min_def)
  from free_pages_set [OF bm lt s'(2)] assms(1) p0 s' show ?thesis
    by (auto simp: pmm_inv_def intro: le_trans [OF min.cobounded2] le_trans [OF min.cobounded1])
qed

lemma finite_managed [simp]: "finite (managed_pages s)"
  by (rule finite_subset [of _ "{..<32 * length (bitmap s)}"]) (auto simp: managed_pages_def)

lemma managed_pages_cong: "length (bitmap t) = length (bitmap s) \<Longrightarrow> managed_pages t = managed_pages s"
  by (simp add: managed_pages_def)

lemma free_managed: "pmm_inv s \<Longrightarrow> free_pages s \<subseteq> managed_pages s"
  by (auto simp: free_pages_def managed_pages_def pmm_inv_def intro!: gr0I)

interpretation pp: page_allocator allocate_one free_one free_pages managed_pages pmm_inv
proof
  fix s p
  assume inv: "pmm_inv s"
  show "free_pages s = {} \<Longrightarrow> allocate_one s = Some (0, s)"
    using allocate_one_spec [OF inv] by simp
  show "\<exists>p s'. allocate_one s = Some (p, s') \<and> p \<in> free_pages s \<and> p \<noteq> 0 \<and>
      pmm_inv s' \<and> free_pages s' = free_pages s - {p} \<and> managed_pages s' = managed_pages s"
    if ne: "free_pages s \<noteq> {}"
  proof -
    have "Min (free_pages s) \<in> free_pages s" using ne by simp
    moreover from this have "Min (free_pages s) \<noteq> 0" using inv by (metis pmm_inv_def)
    moreover obtain t where "allocate_one s = Some (Min (free_pages s), t)" "pmm_inv t"
        "free_pages t = free_pages s - {Min (free_pages s)}" "length (bitmap t) = length (bitmap s)"
      using allocate_one_spec [OF inv] ne by auto
    moreover from this(4) have "managed_pages t = managed_pages s" by (rule managed_pages_cong)
    ultimately show ?thesis by blast
  qed
  show "p \<in> managed_pages s \<Longrightarrow> \<exists>s'. free_one s p = Some s' \<and> pmm_inv s' \<and>
      free_pages s' = insert p (free_pages s) \<and> managed_pages s' = managed_pages s"
    using free_one_spec [OF inv, of p] managed_pages_cong by blast
  show "free_pages s \<subseteq> managed_pages s"
    using inv by (rule free_managed)
  show "finite (managed_pages s)" by simp
qed

section \<open>Initialisation from the memory map\<close>

text \<open>
  The pages a region holds completely, stated without the rounding of the code, and whether
  the code takes the region into account at all.
\<close>

definition whole_pages :: "memory_region \<Rightarrow> nat set" where
  "whole_pages r =
     {p. mr_start r \<le> p * page_size \<and> (p + 1) * page_size \<le> mr_start r + mr_size r}"

definition accessible :: "memory_region \<Rightarrow> bool" where
  "accessible r \<longleftrightarrow> mr_start r + page_size < 2 ^ 32 - 1"

definition usable_pages :: "memory_region list \<Rightarrow> nat set" where
  "usable_pages rs = (\<Union>r \<in> {r \<in> set rs. accessible r}. whole_pages r)"

text \<open>The pages of the map are below the bitmap's end, and no size needs more than 32 bits of pages.\<close>

definition regions_fit :: "nat \<Rightarrow> memory_region list \<Rightarrow> bool" where
  "regions_fit n rs \<longleftrightarrow>
     (\<forall>r \<in> set rs. mr_size r < 2 ^ 44 \<and> (accessible r \<longrightarrow> whole_pages r \<subseteq> {..<32 * n}))"

lemma whole_pages_interval:
  "whole_pages r =
     {div_ceil (mr_start r) page_size ..< (mr_start r + mr_size r) div page_size}"
proof -
  have "mr_start r \<le> p * page_size \<longleftrightarrow> div_ceil (mr_start r) page_size \<le> p" for p
    by (simp add: div_ceil_le_iff)
  moreover have "(p + 1) * page_size \<le> e \<longleftrightarrow> p < e div page_size" for p e
    by (metis Suc_eq_plus1 Suc_le_eq less_eq_div_iff_mult_less_eq page_size_pos)
  ultimately show ?thesis by (auto simp: whole_pages_def)
qed

lemma finite_whole_pages [simp]: "finite (whole_pages r)"
  by (simp add: whole_pages_interval)

text \<open>The rounding of \<open>mark_region_free\<close> computes that interval.\<close>

lemma region_rounding:
  assumes "page_size \<le> mr_size r"
  defines "rest \<equiv> mr_start r mod page_size"
  defines "start \<equiv> (if rest \<noteq> 0 then mr_start r + (page_size - rest) else mr_start r)"
  defines "sz \<equiv> (if rest \<noteq> 0 then mr_size r - (page_size - rest) else mr_size r)"
  shows "start div page_size = div_ceil (mr_start r) page_size"
    and "start div page_size + sz div page_size = (mr_start r + mr_size r) div page_size"
proof -
  define q where "q = mr_start r div page_size"
  have s: "mr_start r = q * page_size + rest" by (simp add: q_def rest_def)
  have lt: "rest < page_size" by (simp add: rest_def)
  have start: "start = (if rest \<noteq> 0 then q + 1 else q) * page_size"
    using s lt by (auto simp: start_def)
  then show d: "start div page_size = div_ceil (mr_start r) page_size"
    by (simp add: div_ceil_def rest_def q_def page_size_def)
  have "start + sz = mr_start r + mr_size r"
    using assms(1) lt s by (auto simp: start_def sz_def)
  moreover obtain k where "start = k * page_size" using start by blast
  ultimately show "start div page_size + sz div page_size = (mr_start r + mr_size r) div page_size"
    by (metis add.commute div_mult_self1 div_mult_self_is_m mult.commute page_size_pos
      not_less0 less_numeral_extra(3))
qed

lemma mark_region_free_spec:
  assumes "mr_size r < 2 ^ 44" and "accessible r \<longrightarrow> whole_pages r \<subseteq> {..<32 * length (bitmap s)}"
  shows "\<exists>s'. mark_region_free s r = Some s' \<and> length (bitmap s') = length (bitmap s) \<and>
    free_pages s' = free_pages s \<union> (if accessible r then whole_pages r else {}) \<and>
    first_free_page s' = first_free_page s \<and>
    total_pages_free s' =
      total_pages_free s + of_nat (card (if accessible r then whole_pages r else {})) \<and>
    total_pages_used s' = total_pages_used s"
proof -
  have acc: "accessible r \<longleftrightarrow>
      \<not> (2 ^ 32 - 1 \<le> mr_start r \<or> 2 ^ 32 - 1 \<le> (mr_start r + page_size) mod 2 ^ 64)"
    by (auto simp: accessible_def page_size_def)
  show ?thesis
  proof (cases "accessible r")
    case False
    then show ?thesis by (auto simp: mark_region_free_def acc)
  next
    case True
    show ?thesis
    proof (cases "mr_size r < page_size")
      case small: True
      have "whole_pages r = {}"
      proof -
        have "\<not> (mr_start r \<le> p * page_size \<and> (p + 1) * page_size \<le> mr_start r + mr_size r)" for p
          using small by auto
        then show ?thesis by (simp add: whole_pages_def)
      qed
      with small True show ?thesis by (auto simp: mark_region_free_def acc)
    next
      case False
      define rest where "rest = mr_start r mod page_size"
      define start where
        "start = (if rest \<noteq> 0 then mr_start r + (page_size - rest) else mr_start r)"
      define sz where
        "sz = (if rest \<noteq> 0 then mr_size r - (page_size - rest) else mr_size r)"
      let ?i = "start div page_size" and ?c = "sz div page_size"
      from False have big: "page_size \<le> mr_size r" by simp
      note rr = region_rounding [OF big, folded rest_def, folded start_def sz_def]
      have iv: "whole_pages r = {?i ..< ?i + ?c}"
        by (simp only: whole_pages_interval rr(1) [symmetric] rr(2))
      have "sz \<le> mr_size r" by (simp add: sz_def)
      then have c: "?c mod 2 ^ 32 = ?c"
        using assms(1) by (simp add: page_size_def)
      have mark: "mark_region_free s r = do {
            bm \<leftarrow> bitset_set_range (bitmap s) ?i ?c True;
            Some (s\<lparr>bitmap := bm,
                    total_pages_free := total_pages_free s + of_nat ?c,
                    total_pages_reserved := total_pages_reserved s - of_nat ?c\<rparr>) }"
        using True False unfolding acc
        by (simp only: mark_region_free_def Let_def if_False rest_def [symmetric]
          start_def [symmetric] sz_def [symmetric] c)
      have "?c = 0 \<or> ?i + ?c \<le> 32 * length (bitmap s)"
      proof (cases ?c)
        case (Suc n)
        then have "?i + n \<in> whole_pages r" by (simp add: iv)
        with assms(2) True Suc show ?thesis by auto
      qed simp
      then have "\<exists>bm. bitset_set_range (bitmap s) ?i ?c True = Some bm \<and>
          length bm = length (bitmap s) \<and>
          (\<forall>j. bs_get bm j = (if ?i \<le> j \<and> j < ?i + ?c then True else bs_get (bitmap s) j))"
        using bitset_set_range_spec [of ?i ?c "bitmap s" True]
        by (cases "?c = 0") (auto simp: bitset_set_range_def)
      then obtain bm where bm: "bitset_set_range (bitmap s) ?i ?c True = Some bm"
          "length bm = length (bitmap s)"
          "\<And>j. bs_get bm j = (if ?i \<le> j \<and> j < ?i + ?c then True else bs_get (bitmap s) j)"
        by blast
      have "card (whole_pages r) = ?c" by (simp add: iv)
      with True assms(2) mark bm show ?thesis
        by (auto simp: free_pages_def iv)
    qed
  qed
qed

text \<open>The whole pages of different entries do not overlap.\<close>

primrec entries_disjoint :: "memory_region list \<Rightarrow> bool" where
  "entries_disjoint [] = True"
| "entries_disjoint (r # rs) =
     ((\<forall>r' \<in> set rs. whole_pages r \<inter> whole_pages r' = {}) \<and> entries_disjoint rs)"

lemma usable_pages_Cons:
  "usable_pages (r # rs) = (if accessible r then whole_pages r else {}) \<union> usable_pages rs"
  by (auto simp: usable_pages_def)

lemma finite_usable [simp]: "finite (usable_pages rs)"
  by (simp add: usable_pages_def)

lemma mark_regions_free_spec:
  assumes "regions_fit (length (bitmap s)) rs"
  shows "\<exists>s'. mark_regions_free s rs = Some s' \<and> length (bitmap s') = length (bitmap s) \<and>
    free_pages s' = free_pages s \<union> usable_pages rs \<and> first_free_page s' = first_free_page s \<and>
    (entries_disjoint rs \<longrightarrow>
      total_pages_free s' = total_pages_free s + of_nat (card (usable_pages rs)))"
  using assms
proof (induction rs arbitrary: s)
  case Nil
  then show ?case by (simp add: usable_pages_def)
next
  case (Cons r rs)
  from Cons.prems have r: "mr_size r < 2 ^ 44"
      "accessible r \<longrightarrow> whole_pages r \<subseteq> {..<32 * length (bitmap s)}"
    and fit: "regions_fit (length (bitmap s)) rs" by (auto simp: regions_fit_def)
  from mark_region_free_spec [OF r] obtain t where t:
    "mark_region_free s r = Some t" "length (bitmap t) = length (bitmap s)"
    "free_pages t = free_pages s \<union> (if accessible r then whole_pages r else {})"
    "first_free_page t = first_free_page s"
    "total_pages_free t =
      total_pages_free s + of_nat (card (if accessible r then whole_pages r else {}))" by blast
  from Cons.IH [of t] fit t(2) obtain s' where s':
    "mark_regions_free t rs = Some s'" "length (bitmap s') = length (bitmap t)"
    "free_pages s' = free_pages t \<union> usable_pages rs" "first_free_page s' = first_free_page t"
    "entries_disjoint rs \<longrightarrow>
      total_pages_free s' = total_pages_free t + of_nat (card (usable_pages rs))" by auto
  have "card (usable_pages (r # rs)) =
      card (if accessible r then whole_pages r else {}) + card (usable_pages rs)"
    if "entries_disjoint (r # rs)"
    unfolding usable_pages_Cons using that
    by (intro card_Un_disjoint) (auto simp: usable_pages_def)
  with t s' show ?case by (auto simp: usable_pages_Cons)
qed

text \<open>The number of pages of the kernel image above 1 MiB.\<close>

definition kernel_pages :: "nat \<Rightarrow> nat" where
  "kernel_pages kernel_bss_end = div_ceil (kernel_bss_end - 2 ^ 20) page_size"

lemma kernel_pages_code:
  assumes "2 ^ 20 \<le> e" "e < 2 ^ 32"
  shows "div_ceil ((e + 2 ^ 64 - 2 ^ 20) mod 2 ^ 64) page_size mod 2 ^ 32 = kernel_pages e"
proof -
  have "(e + 2 ^ 64 - 2 ^ 20) mod 2 ^ 64 = (2 ^ 64 + (e - 2 ^ 20)) mod 2 ^ 64"
    using assms(1) by (simp add: add.commute)
  also have "\<dots> = e - 2 ^ 20"
    using assms(2) by (simp add: mod_add_self1)
  finally have eq: "(e + 2 ^ 64 - 2 ^ 20) mod 2 ^ 64 = e - 2 ^ 20" .
  have "div_ceil (e - 2 ^ 20) page_size \<le> div_ceil (e - 2 ^ 20) page_size * page_size"
    by (simp add: page_size_def)
  also have "\<dots> < (e - 2 ^ 20) + page_size" by (rule div_ceil_bounds(2)) simp
  finally have "div_ceil (e - 2 ^ 20) page_size < 2 ^ 32"
    using assms(2) by (simp add: page_size_def)
  then show ?thesis by (simp only: eq kernel_pages_def mod_less)
qed

lemma low_pages: "2 ^ 20 div page_size = 256"
  by (simp add: page_size_def)

lemma init_pmm_spec:
  assumes "2 ^ 20 \<le> e" "e < 2 ^ 32" "256 + kernel_pages e \<le> 32 * n" "regions_fit n rs"
  shows "\<exists>s. init_pmm e rs (pmm_zero n) = Some s \<and> length (bitmap s) = n \<and> first_free_page s = 0 \<and>
    free_pages s = usable_pages rs - {..<256 + kernel_pages e} \<and>
    (entries_disjoint rs \<longrightarrow>
      total_pages_free s = of_nat (card (usable_pages rs)) - of_nat (256 + kernel_pages e))"
proof -
  let ?z = "pmm_zero n\<lparr>total_pages_reserved := - 1\<rparr>"
  have z: "length (bitmap ?z) = n" "first_free_page ?z = 0" "total_pages_free ?z = 0"
    by (simp_all add: pmm_zero_def)
  have zf: "free_pages ?z = {}"
    by (auto simp: free_pages_def pmm_zero_def bs_get_def div32_less)
  from mark_regions_free_spec [of ?z rs] assms(4) z zf obtain t where t:
    "mark_regions_free ?z rs = Some t" "length (bitmap t) = n" "free_pages t = usable_pages rs"
    "first_free_page t = 0"
    "entries_disjoint rs \<longrightarrow> total_pages_free t = of_nat (card (usable_pages rs))" by auto
  have "0 + 256 \<le> 32 * length (bitmap t)" using assms(3) t(2) by simp
  from bitset_set_range_spec [OF this, of False] obtain b1 where b1:
    "bitset_set_range (bitmap t) 0 256 False = Some b1" "length b1 = n"
    "\<And>j. bs_get b1 j = (if j < 256 then False else bs_get (bitmap t) j)" using t(2) by auto
  have "256 + kernel_pages e \<le> 32 * length b1" using assms(3) b1(2) by simp
  from bitset_set_range_spec [OF this, of False] obtain b2 where b2:
    "bitset_set_range b1 256 (kernel_pages e) False = Some b2" "length b2 = n"
    "\<And>j. bs_get b2 j =
      (if 256 \<le> j \<and> j < 256 + kernel_pages e then False else bs_get b1 j)" using b1(2) by auto
  from t(1) b1(1) b2(1) obtain s where s: "init_pmm e rs (pmm_zero n) = Some s"
      "bitmap s = b2" "first_free_page s = first_free_page t"
      "total_pages_free s = total_pages_free t - (256 + of_nat (kernel_pages e))"
    unfolding init_pmm_def Let_def kernel_pages_code [OF assms(1,2)] low_pages
    by (simp del: bind_assoc)
  have "free_pages s = free_pages t - {..<256 + kernel_pages e}"
    using s(2) b1 b2 t(2) by (auto simp: free_pages_def)
  with s t b2(2) show ?thesis by (auto simp: algebra_simps)
qed

text \<open>The reserved part of the address space: everything below the end of the kernel image.\<close>

lemma low_and_kernel_pages:
  assumes "2 ^ 20 \<le> e"
  shows "p < 256 + kernel_pages e \<longleftrightarrow> p * page_size < e"
proof -
  have "kernel_pages e * page_size < e - 2 ^ 20 + page_size" "e - 2 ^ 20 \<le> kernel_pages e * page_size"
    unfolding kernel_pages_def by (rule div_ceil_bounds, simp)+
  then show ?thesis using assms by (auto simp: page_size_def)
qed

section \<open>Properties\<close>

text \<open>
  C1: one allocation. From any state in which page 0 is not free and no page below the search
  hint is, \<open>allocate_one\<close> returns the lowest free page and takes exactly that page out of the
  free pages, or returns 0 and changes nothing when no page is free.
\<close>

theorem allocate_one_lowest:
  assumes "pmm_inv s" and "allocate_one s = Some (p, s')"
  shows "(p = 0 \<longleftrightarrow> free_pages s = {}) \<and> (p = 0 \<longrightarrow> s' = s) \<and>
    (p \<noteq> 0 \<longrightarrow> p = Min (free_pages s) \<and> free_pages s' = free_pages s - {p} \<and> pmm_inv s')"
proof (cases "free_pages s = {}")
  case True
  with allocate_one_spec [OF assms(1)] assms(2) show ?thesis by simp
next
  case False
  then have "Min (free_pages s) \<in> free_pages s" by simp
  with assms(1) have "Min (free_pages s) \<noteq> 0" by (metis pmm_inv_def)
  moreover have "p = Min (free_pages s)" "free_pages s' = free_pages s - {p}" "pmm_inv s'"
    using False allocate_one_spec [OF assms(1)] assms(2) by auto
  ultimately show ?thesis using False by metis
qed

definition pmm_example :: pmm where
  "pmm_example = \<lparr>total_pages_free = 3, total_pages_used = 0, total_pages_reserved = 0,
     bitmap = [0, 20, 1], first_free_page = 5\<rparr>"

lemma pmm_example_free: "free_pages pmm_example = {34, 36, 64}"
proof -
  have "p < 96 \<Longrightarrow> bs_get [0, 20, 1] p \<longleftrightarrow> p = 34 \<or> p = 36 \<or> p = 64" for p
  proof -
    assume "p < 96"
    then have "p \<in> set [0..<96]" by simp
    moreover have "\<forall>p \<in> set [0..<96]. bs_get [0, 20, 1] p \<longleftrightarrow> p = 34 \<or> p = 36 \<or> p = 64"
      by code_simp
    ultimately show ?thesis by blast
  qed
  then show ?thesis by (auto simp: free_pages_def pmm_example_def)
qed

lemma pmm_example_inv: "pmm_inv pmm_example"
  by (simp add: pmm_inv_def pmm_example_free) (simp add: pmm_example_def)

lemma pmm_example_alloc:
  "allocate_one pmm_example = Some (34, \<lparr>total_pages_free = 2, total_pages_used = 1,
     total_pages_reserved = 0, bitmap = [0, 16, 1], first_free_page = 35\<rparr>)"
  by code_simp

theorem allocate_one_lowest_witness:
  "\<exists>s'. allocate_one pmm_example = Some (34, s') \<and> free_pages s' = {36, 64} \<and>
     34 = Min (free_pages pmm_example)"
  using allocate_one_lowest [OF pmm_example_inv pmm_example_alloc] pmm_example_alloc
  by (auto simp: pmm_example_free)

text \<open>
  C2: any number of allocations in a row gives pairwise different pages, none of them 0, all of
  them free before, and takes exactly these out of the free pages; it hands out as many pages
  as asked for, or every free page if there are fewer, and never stops the machine.
\<close>

theorem allocations_distinct:
  assumes "pmm_inv s"
  shows "\<exists>ps s'. alloc_many allocate_one n s = Some (ps, s') \<and> pmm_inv s' \<and> distinct ps \<and>
    set ps \<subseteq> free_pages s \<and> 0 \<notin> set ps \<and> free_pages s' = free_pages s - set ps \<and>
    length ps = min n (card (free_pages s))"
  using assms by (rule pp.alloc_many_spec)

theorem allocations_distinct_witness:
  "\<exists>ps s'. alloc_many allocate_one 2 pmm_example = Some (ps, s') \<and> distinct ps \<and>
     set ps \<subseteq> {34, 36, 64} \<and> length ps = 2"
  using allocations_distinct [OF pmm_example_inv, of 2] by (auto simp: pmm_example_free)

text \<open>The allocator changes one bit of the map; changing it back restores the map.\<close>

lemma bs_get_ext:
  assumes "length bs = length bs'" "\<And>i. i < 32 * length bs \<Longrightarrow> bs_get bs i = bs_get bs' i"
  shows "bs = bs'"
proof (rule nth_equalityI [OF assms(1)], rule bit_word_eqI)
  fix i n assume "i < length bs" "n < LENGTH(32)"
  with assms(2) [of "i * 32 + n"] assms(1) show "bit (bs ! i) n \<longleftrightarrow> bit (bs' ! i) n"
    by (simp add: bs_get_def)
qed

text \<open>
  C3: freeing what was allocated undoes the allocation: the bit map and the three counters are
  those before the allocation, only the search hint now points at the freed page, and the
  invariant holds again, so the page can be handed out once more.
\<close>

theorem free_undoes_allocate:
  assumes "pmm_inv s" "allocate_one s = Some (p, s')" "p \<noteq> 0"
  shows "\<exists>s''. free_one s' p = Some s'' \<and> pmm_inv s'' \<and> free_pages s'' = free_pages s \<and>
    s'' = s\<lparr>first_free_page := p\<rparr>"
proof -
  have p: "p \<in> free_pages s" and fp: "free_pages s' = free_pages s - {p}"
    and len: "length (bitmap s') = length (bitmap s)"
    using allocate_one_spec [OF assms(1)] assms by (auto split: if_splits)
  from pp.alloc_then_dealloc [OF assms] obtain t where t: "free_one s' p = Some t" "pmm_inv t"
    "free_pages t = free_pages s" by blast
  have lt: "p < 32 * length (bitmap s')" using p len by (simp add: free_pages_def)
  then have lent: "length (bitmap t) = length (bitmap s)"
    using bitset_set_spec [of p "bitmap s'" True] t(1) len
    by (auto simp: free_one_def Let_def split: if_splits)
  have "bitmap t = bitmap s"
    by (rule bs_get_ext [OF lent]) (use t(3) lent in \<open>auto simp: free_pages_def\<close>)
  moreover have "first_free_page s' = p + 1" "total_pages_free s' = total_pages_free s - 1"
    "total_pages_used s' = total_pages_used s + 1" "total_pages_reserved s' = total_pages_reserved s"
    using assms(2,3) by (auto simp: allocate_one_def Let_def bind_Some_iff split: if_splits)
  ultimately have "t = s\<lparr>first_free_page := p\<rparr>"
    using t(1) by (auto simp: free_one_def Let_def bind_Some_iff)
  with t show ?thesis by blast
qed

theorem free_undoes_allocate_witness:
  "\<exists>s'' s'. allocate_one pmm_example = Some (34, s') \<and> free_one s' 34 = Some s'' \<and>
     free_pages s'' = {34, 36, 64} \<and> total_pages_free s'' = 3"
proof -
  have "total_pages_free pmm_example = 3" by (simp add: pmm_example_def)
  with free_undoes_allocate [OF pmm_example_inv pmm_example_alloc] pmm_example_alloc show ?thesis
    by (auto simp: pmm_example_free)
qed

text \<open>
  C4: after \<open>init\<close> the free pages are exactly the pages that lie completely inside an entry of
  the boot loader's memory map that starts below 4 GiB, less everything below the end of the
  kernel image: neither the first MiB nor the kernel can ever be handed out. The allocator's
  invariant holds.
\<close>

theorem init_free_pages:
  assumes "2 ^ 20 \<le> kernel_bss_end" "kernel_bss_end < 2 ^ 32"
    and "256 + kernel_pages kernel_bss_end \<le> 32 * n" "regions_fit n regions"
  shows "\<exists>s. init_pmm kernel_bss_end regions (pmm_zero n) = Some s \<and> pmm_inv s \<and>
    free_pages s = {p \<in> usable_pages regions. kernel_bss_end \<le> p * page_size}"
proof -
  from init_pmm_spec [OF assms] obtain s where s:
    "init_pmm kernel_bss_end regions (pmm_zero n) = Some s" "first_free_page s = 0"
    "free_pages s = usable_pages regions - {..<256 + kernel_pages kernel_bss_end}" by blast
  have "free_pages s = {p \<in> usable_pages regions. kernel_bss_end \<le> p * page_size}"
    unfolding s(3) using low_and_kernel_pages [OF assms(1)]
    by (simp only: set_eq_iff mem_Collect_eq Diff_iff lessThan_iff not_less [symmetric]) blast
  moreover from this assms(1) have "0 \<notin> free_pages s" by simp
  ultimately show ?thesis using s(1,2) by (metis le0 pmm_inv_def)
qed

text \<open>
  the free-page counter after \<open>init\<close>. The code subtracts the first MiB and the kernel
  image from the counter as if all their pages had been reported free; the counter is the
  true number of free pages less the number of those low pages that no map entry reported.
\<close>

theorem init_free_counter:
  assumes "2 ^ 20 \<le> kernel_bss_end" "kernel_bss_end < 2 ^ 32"
    and "256 + kernel_pages kernel_bss_end \<le> 32 * n" "regions_fit n regions"
    and "entries_disjoint regions"
  shows "\<exists>s. init_pmm kernel_bss_end regions (pmm_zero n) = Some s \<and>
    total_pages_free s = of_nat (card (free_pages s)) -
      of_nat (card ({..<256 + kernel_pages kernel_bss_end} - usable_pages regions))"
proof -
  let ?low = "{..<256 + kernel_pages kernel_bss_end}" and ?u = "usable_pages regions"
  from init_pmm_spec [OF assms(1-4)] assms(5) obtain s where s:
    "init_pmm kernel_bss_end regions (pmm_zero n) = Some s" "free_pages s = ?u - ?low"
    "total_pages_free s = of_nat (card ?u) - of_nat (256 + kernel_pages kernel_bss_end)" by blast
  have "card ?u + card (?low - ?u) = card (?u \<union> ?low)"
    by (simp add: card_Un_disjoint [symmetric])
  also have "\<dots> = card ((?u - ?low) \<union> ?low)" by simp
  also have "\<dots> = card (?u - ?low) + card ?low"
    by (rule card_Un_disjoint) auto
  finally have "card ?u + card (?low - ?u) = card (?u - ?low) + card ?low" .
  then have "(of_nat (card ?u) + of_nat (card (?low - ?u)) :: u32) =
      of_nat (card (?u - ?low)) + of_nat (256 + kernel_pages kernel_bss_end)"
    by (metis card_lessThan of_nat_add)
  then have "(of_nat (card ?u) - of_nat (256 + kernel_pages kernel_bss_end) :: u32) =
      of_nat (card (?u - ?low)) - of_nat (card (?low - ?u))"
    by (rule add_eq_diff_eq)
  with s show ?thesis by metis
qed

text \<open>
  A map as PC firmware reports it: 636 KiB of low memory and 1 MiB above the first MiB, with a
  kernel image of 16 pages.
\<close>

definition example_map :: "memory_region list" where
  "example_map = [\<lparr>mr_start = 0, mr_size = 0x9f000\<rparr>, \<lparr>mr_start = 0x100000, mr_size = 0x100000\<rparr>]"

lemma example_map_pages:
  "whole_pages \<lparr>mr_start = 0, mr_size = 0x9f000\<rparr> = {0..<159}"
  "whole_pages \<lparr>mr_start = 0x100000, mr_size = 0x100000\<rparr> = {256..<512}"
  by (simp_all add: whole_pages_interval div_ceil_def page_size_def)

lemma example_map_facts:
  "regions_fit 16 example_map" "entries_disjoint example_map"
  "usable_pages example_map = {0..<159} \<union> {256..<512}" "kernel_pages 0x110000 = 16"
  by (auto simp: regions_fit_def example_map_def example_map_pages usable_pages_Cons
    usable_pages_def [of "[]"] accessible_def page_size_def kernel_pages_def div_ceil_def)

theorem init_free_pages_witness:
  "\<exists>s. init_pmm 0x110000 example_map (pmm_zero 16) = Some s \<and>
     free_pages s = {p \<in> {0..<159} \<union> {256..<512}. 0x110000 \<le> p * page_size}"
  using init_free_pages [of "0x110000" 16 example_map] by (auto simp: example_map_facts)

theorem init_free_counter_witness:
  "\<exists>s. init_pmm 0x110000 example_map (pmm_zero 16) = Some s \<and>
     total_pages_free s = of_nat (card (free_pages s)) - 97"
proof -
  have "{..<272} - ({0..<159} \<union> {256..<512}) = {159..<256::nat}" by auto
  then have "card ({..<272} - ({0..<159} \<union> {256..<512::nat})) = 97" by simp
  then show ?thesis
    using init_free_counter [of "0x110000" 16 example_map] by (simp add: example_map_facts)
qed

end
