(* ===== verification/Layout.thy ===== *)
theory Layout
  imports Prelude
begin

text \<open>
  Memory regions (memory/region.hh) and the layout of the virtual address space
  (memory/layout.cc). The linker's symbol \<open>KERNEL_HEAP_START\<close> is a parameter.
\<close>

record region =
  r_start :: u32
  r_size :: u32

definition region_valid :: "region \<Rightarrow> bool" where
  "region_valid r \<longleftrightarrow> r_size r > 0 \<and> r_start r + (r_size r - 1) \<ge> r_start r"

definition regions_disjoint :: "region \<Rightarrow> region \<Rightarrow> bool" where
  "regions_disjoint x y \<longleftrightarrow>
     region_valid x \<and> region_valid y \<and>
     (r_start x < r_start y \<and> r_start x + (r_size x - 1) < r_start y \<or>
      r_start y < r_start x \<and> r_start y + (r_size y - 1) < r_start x)"

definition region_contains :: "region \<Rightarrow> region \<Rightarrow> bool" where
  "region_contains x y \<longleftrightarrow>
     region_valid x \<and> region_valid y \<and>
     r_start x \<le> r_start y \<and>
     r_start x + (r_size x - 1) \<ge> r_start y + (r_size y - 1)"

definition addr_in_region :: "u32 \<Rightarrow> region \<Rightarrow> bool" where
  "addr_in_region addr r \<longleftrightarrow>
     r_size r \<noteq> 0 \<and> addr \<ge> r_start r \<and> addr \<le> r_start r + (r_size r - 1)"

definition kernel_region :: region where
  "kernel_region = \<lparr>r_start = 0, r_size = 0x40000000\<rparr>"

definition user_region :: region where
  "user_region = \<lparr>r_start = 0x40000000, r_size = 0xC0000000 - 0x1000\<rparr>"

definition page_tables_region :: region where
  "page_tables_region = \<lparr>r_start = 0x3fc00000, r_size = 0x400000\<rparr>"

definition kernel_image_region :: "u32 \<Rightarrow> region" where
  "kernel_image_region kernel_heap_start =
     \<lparr>r_start = 0x100000, r_size = kernel_heap_start - 0x100000\<rparr>"

definition kernel_heap_region :: "u32 \<Rightarrow> region" where
  "kernel_heap_region kernel_heap_start =
     \<lparr>r_start = kernel_heap_start, r_size = 0x30000000 - kernel_heap_start\<rparr>"

definition kernel_mmio_region :: region where
  "kernel_mmio_region = \<lparr>r_start = 0x30000000, r_size = 0x3fc00000 - 0x30000000\<rparr>"

definition user_args_region :: region where
  "user_args_region = \<lparr>r_start = 0x40000000, r_size = 0x100000\<rparr>"

section \<open>Regions as sets of addresses\<close>

definition region_addrs :: "region \<Rightarrow> u32 set" where
  "region_addrs r = {a. addr_in_region a r}"

lemma region_last_nat:
  assumes "region_valid r"
  shows "unat (r_start r + (r_size r - 1)) = unat (r_start r) + unat (r_size r) - 1"
    and "unat (r_start r) + unat (r_size r) \<le> 2 ^ 32"
proof -
  have pos: "0 < unat (r_size r)"
    using assms by (simp add: region_valid_def word_less_nat_alt)
  then have "unat (r_size r - 1) = unat (r_size r) - 1"
    by (metis One_nat_def Suc_leI unat_1 unat_sub word_le_nat_alt)
  moreover from assms have "unat (r_start r + (r_size r - 1)) = unat (r_start r) + unat (r_size r - 1)"
    by (metis region_valid_def no_olen_add_nat unat_plus_simple)
  ultimately show "unat (r_start r + (r_size r - 1)) = unat (r_start r) + unat (r_size r) - 1"
    using pos by simp
  then show "unat (r_start r) + unat (r_size r) \<le> 2 ^ 32"
    using unat_u32_less [of "r_start r + (r_size r - 1)"] pos by simp
qed

text \<open>A valid region holds exactly the addresses from its start up to its end.\<close>

lemma addr_in_region_nat:
  assumes "region_valid r"
  shows "addr_in_region a r \<longleftrightarrow>
    unat (r_start r) \<le> unat a \<and> unat a < unat (r_start r) + unat (r_size r)"
proof -
  have "0 < unat (r_size r)" using assms by (simp add: region_valid_def word_less_nat_alt)
  moreover from this have "r_size r \<noteq> 0" by auto
  ultimately show ?thesis
    using region_last_nat(1) [OF assms] by (auto simp: addr_in_region_def word_le_nat_alt)
qed

lemma region_start_in: "region_valid r \<Longrightarrow> r_start r \<in> region_addrs r"
  by (simp add: region_addrs_def addr_in_region_nat) (simp add: region_valid_def word_less_nat_alt)

lemma regions_disjoint_addrs:
  assumes "region_valid x" "region_valid y"
  shows "regions_disjoint x y \<longleftrightarrow> region_addrs x \<inter> region_addrs y = {}"
proof
  assume d: "regions_disjoint x y"
  show "region_addrs x \<inter> region_addrs y = {}"
    using d region_last_nat(1) [OF assms(1)] region_last_nat(1) [OF assms(2)]
    by (auto simp: regions_disjoint_def region_addrs_def addr_in_region_def word_le_nat_alt
      word_less_nat_alt)
next
  assume e: "region_addrs x \<inter> region_addrs y = {}"
  have "\<not> addr_in_region (r_start x) y" "\<not> addr_in_region (r_start y) x"
    using e region_start_in [OF assms(1)] region_start_in [OF assms(2)]
    by (auto simp: region_addrs_def)
  then show "regions_disjoint x y"
    using assms unfolding regions_disjoint_def
    by (auto simp: addr_in_region_def region_valid_def)
qed

lemma region_contains_addrs:
  assumes "region_valid x" "region_valid y"
  shows "region_contains x y \<longleftrightarrow> region_addrs y \<subseteq> region_addrs x"
proof
  assume "region_contains x y"
  then show "region_addrs y \<subseteq> region_addrs x"
    by (auto simp: region_contains_def region_addrs_def addr_in_region_def region_valid_def
      intro: order_trans)
next
  assume s: "region_addrs y \<subseteq> region_addrs x"
  have "addr_in_region (r_start y + (r_size y - 1)) y"
    using assms(2) by (auto simp: addr_in_region_def region_valid_def)
  then have "addr_in_region (r_start y + (r_size y - 1)) x" "addr_in_region (r_start y) x"
    using s region_start_in [OF assms(2)] by (auto simp: region_addrs_def)
  with assms show "region_contains x y"
    by (simp add: region_contains_def addr_in_region_def)
qed

end
