(* ===== verification/VirtMem.thy ===== *)
theory VirtMem
  imports PhysMem Layout
begin

text \<open>
  The virtual memory manager (memory/manager-virtual.cc): two-level page tables reached
  through a recursive mapping.

  The state keeps the contents of physical pages as arrays of 1024 entries (\<open>ptmem page index\<close>).
  The page directory in use is known by its physical page (\<open>cur_dir\<close>, what CR3 holds). An
  access to \<open>tables()[t]\<close> goes through the MMU, as on the machine: the directory's entry
  255 gives the recursive table, whose entry \<open>t\<close> gives the page of table \<open>t\<close>. An access
  that the MMU refuses is a page fault inside the manager, which is \<open>None\<close>. The TLB is not
  modelled: every translation reads the tables.
\<close>

section \<open>Entries and addresses\<close>

definition flag_present :: u32 where "flag_present = 0x1"

definition flag_writable :: u32 where "flag_writable = 0x2"

definition flag_user :: u32 where "flag_user = 0x4"

definition flag_nocache :: u32 where "flag_nocache = 0x10"

definition flag_borrowed :: u32 where "flag_borrowed = 0x200"

lemmas flag_defs =
  flag_present_def flag_writable_def flag_user_def flag_nocache_def flag_borrowed_def

definition make_pde :: "u32 \<Rightarrow> u32 \<Rightarrow> u32" where
  "make_pde phy_addr flags = (phy_addr AND 0xfffff000) OR flags"

definition make_pte :: "u32 \<Rightarrow> u32 \<Rightarrow> u32" where
  "make_pte phy_addr flags = (phy_addr AND 0xfffff000) OR flags"

definition addr_tab :: "u32 \<Rightarrow> nat" where "addr_tab x = unat (drop_bit 22 x)"

definition addr_page :: "u32 \<Rightarrow> nat" where "addr_page x = unat (drop_bit 12 x)"

definition addr_pagei :: "u32 \<Rightarrow> nat" where "addr_pagei x = unat (drop_bit 12 x AND 0x3ff)"

definition page_addr :: "nat \<Rightarrow> u32" where "page_addr p = push_bit 12 (of_nat p)"

definition pte_addr :: "u32 \<Rightarrow> u32" where "pte_addr x = x AND NOT 0xfff"

definition pde_addr :: "u32 \<Rightarrow> u32" where "pde_addr x = x AND NOT 0xfff"

definition is_present :: "u32 \<Rightarrow> bool" where "is_present e \<longleftrightarrow> e AND flag_present \<noteq> 0"

definition is_writable :: "u32 \<Rightarrow> bool" where "is_writable e \<longleftrightarrow> e AND flag_writable \<noteq> 0"

definition is_borrowed :: "u32 \<Rightarrow> bool" where "is_borrowed e \<longleftrightarrow> e AND flag_borrowed \<noteq> 0"

text \<open>The physical page an entry points to.\<close>

definition frame :: "u32 \<Rightarrow> nat" where "frame e = addr_page (pte_addr e)"

section \<open>State\<close>

record vmm =
  phys :: pmm
  paging_enabled :: bool
  cur_dir :: nat
  cur_dir_ptr :: u32
  kernel_dir :: nat
  kernel_tabs :: nat
  ptmem :: "nat \<Rightarrow> nat \<Rightarrow> u32"
  mmio_mapped :: u32

text \<open>The page of the directory that \<open>current_dir()\<close> refers to.\<close>

definition current_dir :: "vmm \<Rightarrow> nat" where
  "current_dir s = (if paging_enabled s then cur_dir s else kernel_dir s)"

definition put_entry :: "vmm \<Rightarrow> nat \<Rightarrow> nat \<Rightarrow> u32 \<Rightarrow> vmm" where
  "put_entry s p i v = s\<lparr>ptmem := (ptmem s)(p := (ptmem s p)(i := v))\<rparr>"

text \<open>
  The physical page at \<open>&tables()[t]\<close>. Kernel writes respect the write-protect bit, because
  \<open>enable_paging\<close> sets CR0.WP.
\<close>

definition table_page :: "vmm \<Rightarrow> bool \<Rightarrow> nat \<Rightarrow> nat kern" where
  "table_page s write t =
     (if \<not> paging_enabled s then Some (addr_page (r_start page_tables_region) + t)
      else do {
        let pde = ptmem s (cur_dir s) (addr_tab (r_start page_tables_region));
        kassert (is_present pde \<and> (write \<longrightarrow> is_writable pde));
        let pte = ptmem s (frame pde) t;
        kassert (is_present pte \<and> (write \<longrightarrow> is_writable pte));
        Some (frame pte)
      })"

text \<open>\<open>recursive_tab()\<close> is \<open>tables()[255]\<close> once paging is on.\<close>

definition recursive_tab :: "vmm \<Rightarrow> nat kern" where
  "recursive_tab s = (if paging_enabled s then table_page s True 255 else Some (kernel_tabs s + 255))"

section \<open>Operations\<close>

text \<open>\<open>get_tab\<close> returns the number \<open>t\<close> that stands for the pointer \<open>&tables()[t]\<close>.\<close>

definition get_tab :: "vmm \<Rightarrow> u32 \<Rightarrow> bool \<Rightarrow> (nat option \<times> vmm) kern" where
  "get_tab s for_addr allocate = do {
     let tab_no = addr_tab for_addr;
     if \<not> is_present (ptmem s (current_dir s) tab_no) then
       if \<not> allocate then Some (None, s)
       else do {
         (phy_page, ph) \<leftarrow> allocate_one (phys s);
         let s = s\<lparr>phys := ph\<rparr>;
         if phy_page = 0 then Some (None, s)
         else do {
           rt \<leftarrow> recursive_tab s;
           let s = put_entry s rt tab_no (make_pte (page_addr phy_page) (flag_present OR flag_writable));
           let s = (if addr_in_region for_addr user_region
                    then put_entry s (current_dir s) tab_no
                      (make_pde (page_addr phy_page) (flag_present OR flag_writable OR flag_user))
                    else put_entry s (current_dir s) tab_no
                      (make_pde (page_addr phy_page) (flag_present OR flag_writable)));
           Some (Some tab_no, s)
         }
       }
     else Some (Some tab_no, s)
   }"

definition virtual_to_physical :: "vmm \<Rightarrow> u32 \<Rightarrow> u32 kern" where
  "virtual_to_physical s virt =
     (if \<not> paging_enabled s then Some virt
      else do {
        (tab, s) \<leftarrow> get_tab s virt False;
        case tab of
          None \<Rightarrow> Some 0
        | Some t \<Rightarrow> do { p \<leftarrow> table_page s False t; Some (pte_addr (ptmem s p (addr_pagei virt))) }
      })"

definition set_pagedir :: "vmm \<Rightarrow> u32 \<Rightarrow> vmm kern" where
  "set_pagedir s dir = do {
     phy_addr \<leftarrow> virtual_to_physical s dir;
     kassert (phy_addr \<noteq> 0);
     Some (s\<lparr>cur_dir := addr_page phy_addr, cur_dir_ptr := dir\<rparr>)
   }"

definition unmap_one :: "vmm \<Rightarrow> u32 \<Rightarrow> vmm kern" where
  "unmap_one s virt = do {
     (tab, s) \<leftarrow> get_tab s virt False;
     case tab of
       None \<Rightarrow> Some s
     | Some t \<Rightarrow> do {
         p \<leftarrow> table_page s False t;
         let pte = ptmem s p (addr_pagei virt);
         if is_present pte then do {
           s \<leftarrow> (if \<not> is_borrowed pte then do {
                  ph \<leftarrow> free_one (phys s) (addr_page (pte_addr pte));
                  Some (s\<lparr>phys := ph\<rparr>)
                } else Some s);
           p \<leftarrow> table_page s True t;
           Some (put_entry s p (addr_pagei virt) 0)
         }
         else Some s
       }
   }"

text \<open>The loop of \<open>unmap\<close>, over page indices \<open>i ..< i + n\<close>.\<close>

primrec unmap_loop :: "vmm \<Rightarrow> u32 \<Rightarrow> nat \<Rightarrow> nat \<Rightarrow> vmm kern" where
  "unmap_loop s virt i 0 = Some s"
| "unmap_loop s virt i (Suc n) = do {
     s \<leftarrow> unmap_one s (virt + of_nat i * 0x1000);
     unmap_loop s virt (i + 1) n
   }"

definition unmap :: "vmm \<Rightarrow> u32 \<Rightarrow> nat \<Rightarrow> vmm kern" where
  "unmap s virt sz = unmap_loop s virt 0 (sz div page_size)"

definition map_one :: "vmm \<Rightarrow> u32 \<Rightarrow> u32 \<Rightarrow> u32 \<Rightarrow> (bool \<times> vmm) kern" where
  "map_one s virt phy flags = do {
     (tab, s) \<leftarrow> get_tab s virt True;
     case tab of
       None \<Rightarrow> Some (False, s)
     | Some t \<Rightarrow> do {
         (phy_page, ph) \<leftarrow> (if phy = 0 then allocate_one (phys s) else Some (1, phys s));
         let s = s\<lparr>phys := ph\<rparr>;
         if phy_page = 0 then Some (False, s)
         else do {
           let phy = (if phy = 0 then of_nat (phy_page * page_size) else phy);
           p \<leftarrow> table_page s True t;
           Some (True, put_entry s p (addr_pagei virt) (make_pte phy (flags OR flag_present)))
         }
       }
   }"

text \<open>
  \<open>map\<close>. The code stores the \<open>bool\<close> of \<open>map_one\<close> in an \<open>errno_t\<close> and tests it for being
  negative.
\<close>

primrec map_loop :: "vmm \<Rightarrow> u32 \<Rightarrow> u32 \<Rightarrow> u32 \<Rightarrow> nat \<Rightarrow> nat \<Rightarrow> (errno \<times> vmm) kern" where
  "map_loop s virt phy flags i 0 = Some (ERR_success, s)"
| "map_loop s virt phy flags i (Suc n) = do {
     (ok, s) \<leftarrow> map_one s (virt + of_nat i * 0x1000)
                          (if phy \<noteq> 0 then phy + of_nat i * 0x1000 else 0) flags;
     let err = (of_bool ok :: errno);
     if err < 0 then do { s \<leftarrow> unmap s virt (i * page_size); Some (err, s) }
     else map_loop s virt phy flags (i + 1) n
   }"

definition vm_map :: "vmm \<Rightarrow> u32 \<Rightarrow> u32 \<Rightarrow> nat \<Rightarrow> u32 \<Rightarrow> (errno \<times> vmm) kern" where
  "vm_map s virt phy sz flags = do {
     kassert (sz mod page_size = 0);
     map_loop s virt phy flags 0 (sz div page_size)
   }"

text \<open>\<open>map_mmio\<close> returns the error, the new value of its reference argument \<open>virt\<close> and the state.\<close>

definition map_mmio :: "vmm \<Rightarrow> u32 \<Rightarrow> u32 \<Rightarrow> u32 \<Rightarrow> u32 \<Rightarrow> (errno \<times> u32 \<times> vmm) kern" where
  "map_mmio s virt phy sz flags = do {
     kassert (phy \<noteq> 0);
     let flags = flags OR flag_borrowed OR flag_nocache;
     if virt \<noteq> 0 then do {
       (err, s) \<leftarrow> vm_map s virt phy (unat sz) flags;
       Some (err, virt, s)
     }
     else if sz \<le> r_size kernel_mmio_region - mmio_mapped s then do {
       let virt = r_start kernel_mmio_region + mmio_mapped s;
       (err, s) \<leftarrow> vm_map s virt phy (unat sz) flags;
       Some (err, virt, if err \<ge> 0 then s\<lparr>mmio_mapped := mmio_mapped s + sz\<rparr> else s)
     }
     else Some (ERR_nomem, 0, s)
   }"

primrec is_mapped_loop :: "vmm \<Rightarrow> u32 \<Rightarrow> nat \<Rightarrow> nat \<Rightarrow> bool kern" where
  "is_mapped_loop s virt pn 0 = Some True"
| "is_mapped_loop s virt pn (Suc n) = do {
     let a = virt + of_nat pn * 0x1000;
     (tab, s) \<leftarrow> get_tab s a False;
     case tab of
       None \<Rightarrow> Some False
     | Some t \<Rightarrow> do {
         p \<leftarrow> table_page s False t;
         if \<not> is_present (ptmem s p (addr_pagei a)) then Some False
         else is_mapped_loop s virt (pn + 1) n
       }
   }"

definition is_mapped :: "vmm \<Rightarrow> u32 \<Rightarrow> u32 \<Rightarrow> bool kern" where
  "is_mapped s virt sz = do {
     let page_offset = virt AND 0xfff;
     let virt = virt AND NOT 0xfff;
     let sz = sz + page_offset;
     let npages = div_ceil (unat sz) page_size;
     is_mapped_loop s virt 0 npages
   }"

section \<open>Address spaces\<close>

record address_space =
  as_pd :: u32
  as_pt_rec :: u32

text \<open>\<open>&current_dir()\<close> as a pointer.\<close>

definition current_dir_ptr :: "vmm \<Rightarrow> u32" where
  "current_dir_ptr s = (if paging_enabled s then cur_dir_ptr s else page_addr (kernel_dir s))"

primrec populate_dir :: "vmm \<Rightarrow> nat \<Rightarrow> nat \<Rightarrow> nat \<Rightarrow> nat \<Rightarrow> vmm" where
  "populate_dir s pd pt_rec i 0 = s"
| "populate_dir s pd pt_rec i (Suc n) =
     (let s = (if i \<ge> 256 then put_entry (put_entry s pd i 0) pt_rec i 0
               else put_entry s pd i (ptmem s (current_dir s) i)) in
      populate_dir s pd pt_rec (i + 1) n)"

text \<open>
  \<open>make_address_space\<close>. The results of the three heap allocations are arguments (0 for a
  failed one); a block from the heap is backed by memory, because \<open>Heap::alloc\<close> clears it.
  The result is the new space or \<open>None\<close>, with the blocks the code gives back to the heap.
\<close>

definition make_address_space ::
  "vmm \<Rightarrow> u32 \<Rightarrow> u32 \<Rightarrow> u32 \<Rightarrow> (address_space option \<times> u32 list \<times> vmm) kern" where
  "make_address_space s space pd_va rec_va =
     (if space = 0 then Some (None, [], s)
      else if pd_va = 0 then Some (None, [space], s)
      else if rec_va = 0 then Some (None, [space, pd_va], s)
      else do {
        pdir_pa \<leftarrow> virtual_to_physical s pd_va;
        ptab_pa \<leftarrow> virtual_to_physical s rec_va;
        let pd = addr_page pdir_pa;
        let pt_rec = addr_page ptab_pa;
        rt \<leftarrow> table_page s False 255;
        let s = s\<lparr>ptmem := (ptmem s)(pt_rec := ptmem s rt)\<rparr>;
        let s = populate_dir s pd pt_rec 0 1024;
        let w = addr_tab (r_start page_tables_region);
        let s = put_entry s pd w (make_pde ptab_pa (flag_present OR flag_writable));
        let s = put_entry s pt_rec w (make_pte ptab_pa (flag_present OR flag_writable));
        Some (Some \<lparr>as_pd = pd_va, as_pt_rec = rec_va\<rparr>, [], s)
      })"

text \<open>\<open>delete_address_space\<close>: the two nested loops, then the blocks given back to the heap.\<close>

primrec free_table_pages :: "vmm \<Rightarrow> nat \<Rightarrow> nat \<Rightarrow> nat \<Rightarrow> vmm kern" where
  "free_table_pages s p j 0 = Some s"
| "free_table_pages s p j (Suc n) = do {
     let pte = ptmem s p j;
     s \<leftarrow> (if is_present pte \<and> \<not> is_borrowed pte then do {
            ph \<leftarrow> free_one (phys s) (addr_page (pte_addr pte));
            Some (s\<lparr>phys := ph\<rparr>)
          } else Some s);
     free_table_pages s p (j + 1) n
   }"

primrec free_tables :: "vmm \<Rightarrow> nat \<Rightarrow> nat \<Rightarrow> nat \<Rightarrow> vmm kern" where
  "free_tables s pd i 0 = Some s"
| "free_tables s pd i (Suc n) = do {
     let pde = ptmem s pd i;
     s \<leftarrow> (if i < 256 then Some s
          else if is_present pde then do {
            p \<leftarrow> table_page s False i;
            s \<leftarrow> free_table_pages s p 0 1024;
            ph \<leftarrow> free_one (phys s) (addr_page (pde_addr pde));
            Some (s\<lparr>phys := ph\<rparr>)
          } else Some s);
     free_tables s pd (i + 1) n
   }"

definition delete_address_space :: "vmm \<Rightarrow> u32 \<Rightarrow> address_space \<Rightarrow> (u32 list \<times> vmm) kern" where
  "delete_address_space s space a = do {
     let old = current_dir_ptr s;
     s \<leftarrow> set_pagedir s (as_pd a);
     s \<leftarrow> free_tables s (cur_dir s) 0 1024;
     s \<leftarrow> set_pagedir s old;
     Some ([as_pd a, as_pt_rec a, space], s)
   }"

section \<open>Initialisation\<close>

primrec init_pages :: "vmm \<Rightarrow> u32 \<Rightarrow> nat \<Rightarrow> nat \<Rightarrow> nat \<Rightarrow> vmm" where
  "init_pages s image_end i j 0 = s"
| "init_pages s image_end i j (Suc n) =
     (let addr = of_nat (i * 0x400000 + j * 0x1000) in
      if addr < image_end then
        let s = (if addr = 0 then s
                 else put_entry s (kernel_tabs s + i) j
                   (make_pte addr (flag_present OR flag_writable))) in
        init_pages s image_end i (j + 1) n
      else s)"

primrec init_tabs :: "vmm \<Rightarrow> u32 \<Rightarrow> nat \<Rightarrow> nat \<Rightarrow> vmm" where
  "init_tabs s image_end i 0 = s"
| "init_tabs s image_end i (Suc n) =
     (let ktab = page_addr (kernel_tabs s + i);
          s = put_entry s (kernel_dir s) i (make_pde ktab (flag_present OR flag_writable));
          s = put_entry s (kernel_tabs s + 255) i (make_pte ktab (flag_present OR flag_writable));
          s = init_pages s image_end i 0 1024 in
      init_tabs s image_end (i + 1) n)"

definition vm_init :: "vmm \<Rightarrow> u32 \<Rightarrow> vmm kern" where
  "vm_init s kernel_heap_start = do {
     let image = kernel_image_region kernel_heap_start;
     let s = init_tabs s (r_start image + r_size image) 0 256;
     s \<leftarrow> set_pagedir s (page_addr (kernel_dir s));
     Some (s\<lparr>paging_enabled := True\<rparr>)
   }"

section \<open>Entries\<close>

lemma addr_consts: "0xfffff000 = NOT (mask 12 :: u32)" "(0xfff :: u32) = mask 12" "(0x3ff :: u32) = mask 10"
  by code_simp+

lemma addr_tab_nat: "addr_tab x = unat x div 2 ^ 22"
  unfolding addr_tab_def unat_drop_bit_eq by (simp add: drop_bit_eq_div)

lemma addr_page_nat: "addr_page x = unat x div 2 ^ 12"
  unfolding addr_page_def unat_drop_bit_eq by (simp add: drop_bit_eq_div)

lemma addr_pagei_nat: "addr_pagei x = (unat x div 2 ^ 12) mod 1024"
proof -
  have "addr_pagei x = take_bit 10 (drop_bit 12 (unat x))"
    unfolding addr_pagei_def addr_consts take_bit_eq_mask [symmetric]
    by (simp only: unsigned_take_bit_eq unat_drop_bit_eq)
  then show ?thesis by (simp add: drop_bit_eq_div take_bit_eq_mod)
qed

lemma addr_tab_less [simp]: "addr_tab x < 1024"
  using unat_u32_less [of x] by (simp add: addr_tab_nat less_mult_imp_div_less)

lemma addr_pagei_less [simp]: "addr_pagei x < 1024"
  by (simp add: addr_pagei_nat)

lemma addr_page_split: "addr_page x = addr_tab x * 1024 + addr_pagei x"
proof -
  have "unat x div 2 ^ 22 = unat x div 2 ^ 12 div 1024" by (simp flip: div_mult2_eq)
  then show ?thesis by (simp add: addr_page_nat addr_tab_nat addr_pagei_nat)
qed

lemma same_page: "addr_page x = addr_page y \<longleftrightarrow> addr_tab x = addr_tab y \<and> addr_pagei x = addr_pagei y"
proof
  assume e: "addr_page x = addr_page y"
  have "addr_page z div 1024 = addr_tab z \<and> addr_page z mod 1024 = addr_pagei z" for z
    by (simp add: addr_page_split)
  with e show "addr_tab x = addr_tab y \<and> addr_pagei x = addr_pagei y" by metis
qed (simp add: addr_page_split)

lemma frame_drop: "frame e = unat (drop_bit 12 e)"
proof -
  have "drop_bit 12 (e AND NOT (mask 12)) = drop_bit 12 e"
    by (rule bit_word_eqI) (auto simp: bit_simps dest: bit_imp_le_length)
  then show ?thesis by (simp add: frame_def addr_page_def pte_addr_def addr_consts)
qed

lemma frame_less: "frame e < 2 ^ 20"
  using unat_u32_less [of e] unfolding frame_drop unat_drop_bit_eq
  by (simp add: drop_bit_eq_div less_mult_imp_div_less)

lemma frame_make_pte:
  assumes "p < 2 ^ 20" "flags AND 0xfffff000 = 0"
  shows "frame (make_pte (page_addr p) flags) = p"
proof -
  have z: "drop_bit 12 flags = 0"
  proof (rule bit_word_eqI)
    fix n assume "n < LENGTH(32)"
    have "\<not> bit (flags AND NOT (mask 12)) (n + 12)" using assms(2) by (simp add: addr_consts)
    then show "bit (drop_bit 12 flags) n = bit (0 :: u32) n"
      using bit_imp_le_length [of flags "n + 12"] by (auto simp: bit_simps add.commute)
  qed
  have "drop_bit 12 (push_bit 12 (of_nat p) AND NOT (mask 12) OR flags) = (of_nat p :: u32)"
  proof (rule bit_word_eqI)
    fix n assume n: "n < LENGTH(32)"
    have "bit p n \<Longrightarrow> n < 20"
      using assms(1) by (metis bit_take_bit_iff take_bit_nat_eq_self)
    moreover have "\<not> bit flags (12 + n)"
      using z by (metis bit_0_eq bit_drop_bit_eq bot_apply bot_bool_def comp_apply)
    ultimately show "bit (drop_bit 12 (push_bit 12 (of_nat p) AND NOT (mask 12) OR flags)) n =
        bit (of_nat p :: u32) n"
      using n by (auto simp: bit_simps)
  qed
  then show ?thesis using assms(1)
    by (simp add: frame_drop make_pte_def page_addr_def addr_consts unat_of_nat take_bit_nat_eq_self)
qed

lemma make_pde_pte: "make_pde = make_pte"
  by (intro ext) (simp add: make_pde_def make_pte_def)

lemma is_present_bit: "is_present e \<longleftrightarrow> bit e 0"
  unfolding is_present_def flag_present_def using and_exp_zero [of e 0] by simp

lemma is_writable_bit: "is_writable e \<longleftrightarrow> bit e 1"
  unfolding is_writable_def flag_writable_def using and_exp_zero [of e 1] by simp

lemma is_borrowed_bit: "is_borrowed e \<longleftrightarrow> bit e 9"
  unfolding is_borrowed_def flag_borrowed_def using and_exp_zero [of e 9] by simp

lemma make_pte_bit: "n < 12 \<Longrightarrow> bit (make_pte a flags) n = bit flags n"
  by (simp add: make_pte_def addr_consts bit_simps)

lemma table_entry [simp]:
  "is_present (make_pte a (flag_present OR flag_writable))"
  "is_writable (make_pte a (flag_present OR flag_writable))"
  "is_present (make_pte a (flag_present OR flag_writable OR flag_user))"
  "is_writable (make_pte a (flag_present OR flag_writable OR flag_user))"
  "p < 2 ^ 20 \<Longrightarrow> frame (make_pte (page_addr p) (flag_present OR flag_writable)) = p"
  "p < 2 ^ 20 \<Longrightarrow> frame (make_pte (page_addr p) (flag_present OR flag_writable OR flag_user)) = p"
  "is_present (make_pte a (flags OR flag_present))"
  by (simp_all add: is_present_bit is_writable_bit make_pte_bit flag_defs frame_make_pte bit_simps)

lemma not_present_0 [simp]: "\<not> is_present 0"
  by (simp add: is_present_bit)

section \<open>What the processor sees\<close>

text \<open>
  The page table entry the processor finds for an address, if the page is present. This is
  the specification against which the operations are proved.
\<close>

definition translate :: "vmm \<Rightarrow> u32 \<Rightarrow> u32 option" where
  "translate s v =
     (let pde = ptmem s (cur_dir s) (addr_tab v) in
      if is_present pde then
        let pte = ptmem s (frame pde) (addr_pagei v) in
        if is_present pte then Some pte else None
      else None)"

definition page_dir_entry :: "vmm \<Rightarrow> nat \<Rightarrow> u32" where
  "page_dir_entry s t = ptmem s (cur_dir s) t"

lemma translate_dir:
  "translate s v =
     (if is_present (page_dir_entry s (addr_tab v)) then
        if is_present (ptmem s (frame (page_dir_entry s (addr_tab v))) (addr_pagei v))
        then Some (ptmem s (frame (page_dir_entry s (addr_tab v))) (addr_pagei v)) else None
      else None)"
  by (simp add: translate_def page_dir_entry_def Let_def)

definition rec_page :: "vmm \<Rightarrow> nat" where
  "rec_page s = frame (page_dir_entry s 255)"

text \<open>The pages that hold the paging structures.\<close>

definition table_pages :: "vmm \<Rightarrow> nat set" where
  "table_pages s = insert (cur_dir s) ((\<lambda>t. frame (page_dir_entry s t)) ` {t. t < 1024 \<and> is_present (page_dir_entry s t)})"

text \<open>
  The invariant of an active address space: the recursive table mirrors the directory and
  contains itself, different directory entries have different tables, and no page that holds
  a paging structure is free.
\<close>

definition vm_inv :: "vmm \<Rightarrow> bool" where
  "vm_inv s \<longleftrightarrow> paging_enabled s \<and> pmm_inv (phys s) \<and> length (bitmap (phys s)) \<le> 32768 \<and>
     is_present (page_dir_entry s 255) \<and> is_writable (page_dir_entry s 255) \<and>
     (\<forall>t < 1024. is_present (page_dir_entry s t) \<longrightarrow>
        is_present (ptmem s (rec_page s) t) \<and> is_writable (ptmem s (rec_page s) t) \<and>
        frame (ptmem s (rec_page s) t) = frame (page_dir_entry s t) \<and>
        frame (page_dir_entry s t) \<noteq> cur_dir s) \<and>
     inj_on (\<lambda>t. frame (page_dir_entry s t)) {t. t < 1024 \<and> is_present (page_dir_entry s t)} \<and>
     table_pages s \<inter> free_pages (phys s) = {}"

lemma window_tab: "addr_tab (r_start page_tables_region) = 255"
  by code_simp

lemma vm_invD:
  assumes "vm_inv s"
  shows "paging_enabled s" "pmm_inv (phys s)" "length (bitmap (phys s)) \<le> 32768"
    "is_present (page_dir_entry s 255)" "is_writable (page_dir_entry s 255)"
    "table_pages s \<inter> free_pages (phys s) = {}" "current_dir s = cur_dir s"
    "rec_page s \<noteq> cur_dir s" "rec_page s \<in> table_pages s" "cur_dir s \<in> table_pages s"
  using assms by (auto simp: vm_inv_def current_dir_def rec_page_def table_pages_def)

lemma vm_inv_table:
  assumes "vm_inv s" "t < 1024" "is_present (page_dir_entry s t)"
  shows "table_page s w t = Some (frame (page_dir_entry s t))"
    and "frame (page_dir_entry s t) \<noteq> cur_dir s"
    and "t \<noteq> 255 \<Longrightarrow> frame (page_dir_entry s t) \<noteq> rec_page s"
    and "frame (page_dir_entry s t) \<in> table_pages s"
    and "t' < 1024 \<Longrightarrow> is_present (page_dir_entry s t') \<Longrightarrow>
      frame (page_dir_entry s t) = frame (page_dir_entry s t') \<longleftrightarrow> t = t'"
proof -
  have r: "is_present (ptmem s (rec_page s) t)" "is_writable (ptmem s (rec_page s) t)"
      "frame (ptmem s (rec_page s) t) = frame (page_dir_entry s t)"
    using assms unfolding vm_inv_def by blast+
  show "table_page s w t = Some (frame (page_dir_entry s t))"
    using r vm_invD [OF assms(1)]
    by (simp add: table_page_def window_tab rec_page_def page_dir_entry_def)
  show "frame (page_dir_entry s t) \<noteq> cur_dir s" using assms unfolding vm_inv_def by blast
  have inj: "frame (page_dir_entry s t) = frame (page_dir_entry s t') \<longleftrightarrow> t = t'"
    if "t' < 1024" "is_present (page_dir_entry s t')" for t'
    using assms that unfolding vm_inv_def inj_on_def by blast
  show "t \<noteq> 255 \<Longrightarrow> frame (page_dir_entry s t) \<noteq> rec_page s"
    using inj [of 255] vm_invD(4) [OF assms(1)] by (simp add: rec_page_def)
  show "frame (page_dir_entry s t) \<in> table_pages s" using assms by (auto simp: table_pages_def)
  show "t' < 1024 \<Longrightarrow> is_present (page_dir_entry s t') \<Longrightarrow>
      frame (page_dir_entry s t) = frame (page_dir_entry s t') \<longleftrightarrow> t = t'" by (rule inj)
qed

lemma recursive_tab_eq:
  assumes "vm_inv s"
  shows "recursive_tab s = Some (rec_page s)"
  using vm_inv_table(1) [OF assms, of 255] vm_invD [OF assms]
  by (simp add: recursive_tab_def rec_page_def)

text \<open>Changes of the physical allocator alone.\<close>

lemma phys_update [simp]:
  "page_dir_entry (s\<lparr>phys := ph\<rparr>) = page_dir_entry s" "rec_page (s\<lparr>phys := ph\<rparr>) = rec_page s"
  "table_pages (s\<lparr>phys := ph\<rparr>) = table_pages s" "translate (s\<lparr>phys := ph\<rparr>) = translate s"
  "current_dir (s\<lparr>phys := ph\<rparr>) = current_dir s"
  "table_page (s\<lparr>phys := ph\<rparr>) w t = table_page s w t"
  by (auto simp: page_dir_entry_def rec_page_def table_pages_def translate_def current_dir_def
    table_page_def fun_eq_iff Let_def)

lemma vm_inv_phys:
  assumes "vm_inv s" "pmm_inv ph" "length (bitmap ph) \<le> 32768"
    "table_pages s \<inter> free_pages ph = {}"
  shows "vm_inv (s\<lparr>phys := ph\<rparr>)"
  using assms by (simp add: vm_inv_def)

text \<open>A write to a page table other than the recursive one.\<close>

lemma table_write:
  assumes inv: "vm_inv s" and t: "t < 1024" "is_present (page_dir_entry s t)" "t \<noteq> 255"
  defines "p \<equiv> frame (page_dir_entry s t)"
  shows "vm_inv (put_entry s p i v)"
    and "page_dir_entry (put_entry s p i v) = page_dir_entry s"
    and "translate (put_entry s p i v) w =
      (if addr_tab w = t \<and> addr_pagei w = i then if is_present v then Some v else None
       else translate s w)"
    and "phys (put_entry s p i v) = phys s"
    and "table_pages (put_entry s p i v) = table_pages s"
proof -
  let ?s = "put_entry s p i v"
  have ne: "p \<noteq> cur_dir s" "p \<noteq> rec_page s"
    using vm_inv_table(2,3) [OF inv t(1,2)] t(3) by (simp_all add: p_def)
  show d: "page_dir_entry ?s = page_dir_entry s"
    using ne by (simp add: page_dir_entry_def put_entry_def fun_eq_iff)
  then have r: "rec_page ?s = rec_page s" by (simp add: rec_page_def)
  have c: "cur_dir ?s = cur_dir s" "paging_enabled ?s = paging_enabled s"
      "ptmem ?s (rec_page s) = ptmem s (rec_page s)"
    using ne by (simp_all add: put_entry_def)
  show ph: "phys ?s = phys s" by (simp add: put_entry_def)
  show tp: "table_pages ?s = table_pages s" by (simp add: table_pages_def d c)
  show "vm_inv ?s" using inv unfolding vm_inv_def d r c ph tp .
  have "frame (page_dir_entry s (addr_tab w)) = p \<longleftrightarrow> addr_tab w = t"
    if "is_present (page_dir_entry s (addr_tab w))"
    using vm_inv_table(5) [OF inv _ that, of t] t that by (auto simp: p_def)
  then show "translate ?s w =
      (if addr_tab w = t \<and> addr_pagei w = i then if is_present v then Some v else None
       else translate s w)"
    using t d unfolding translate_def c
    by (auto simp: Let_def page_dir_entry_def put_entry_def fun_eq_iff)
qed

lemma new_page_range:
  assumes "vm_inv s" "p \<in> free_pages (phys s)"
  shows "p < 2 ^ 20" "p \<notin> table_pages s"
proof -
  show "p < 2 ^ 20" using assms vm_invD(3) [OF assms(1)] by (auto simp: free_pages_def)
  show "p \<notin> table_pages s" using assms vm_invD(6) [OF assms(1)] by blast
qed

text \<open>Allocation of a page while the address space is active.\<close>

lemma vm_alloc:
  assumes inv: "vm_inv s"
  obtains (none) "free_pages (phys s) = {}" "allocate_one (phys s) = Some (0, phys s)"
  | (page) p ph where "allocate_one (phys s) = Some (p, ph)" "p \<noteq> 0" "p \<in> free_pages (phys s)"
      "free_pages ph = free_pages (phys s) - {p}" "vm_inv (s\<lparr>phys := ph\<rparr>)"
      "managed_pages ph = managed_pages (phys s)" "pmm_inv ph" "length (bitmap ph) \<le> 32768"
proof (cases "free_pages (phys s) = {}")
  case True
  then show ?thesis
    using none pp.alloc_empty [OF vm_invD(2) [OF inv]] by blast
next
  case False
  from allocate_one_spec [OF vm_invD(2) [OF inv]] False obtain ph where ph:
    "allocate_one (phys s) = Some (Min (free_pages (phys s)), ph)" "pmm_inv ph"
    "free_pages ph = free_pages (phys s) - {Min (free_pages (phys s))}"
    "length (bitmap ph) = length (bitmap (phys s))" by auto
  have m: "Min (free_pages (phys s)) \<in> free_pages (phys s)" using False by simp
  then have "Min (free_pages (phys s)) \<noteq> 0" using vm_invD(2) [OF inv] by (metis pmm_inv_def)
  moreover have "vm_inv (s\<lparr>phys := ph\<rparr>)"
    using vm_invD [OF inv] ph by (intro vm_inv_phys [OF inv]) auto
  moreover have "managed_pages ph = managed_pages (phys s)" by (rule managed_pages_cong) (rule ph)
  ultimately show ?thesis using page ph m vm_invD(3) [OF inv] by metis
qed

text \<open>Installation of a new page table in both the directory and the recursive table.\<close>

lemma install_table:
  assumes inv: "vm_inv s" and t: "t < 1024" "\<not> is_present (page_dir_entry s t)"
    and p: "p \<notin> table_pages s" "p \<notin> free_pages (phys s)"
    and e: "is_present e1" "is_writable e1" "frame e1 = p" "is_present e2" "frame e2 = p"
  defines "s' \<equiv> put_entry (put_entry s (rec_page s) t e1) (cur_dir s) t e2"
  shows "vm_inv s'"
    and "page_dir_entry s' = (page_dir_entry s)(t := e2)"
    and "table_pages s' = insert p (table_pages s)"
    and "phys s' = phys s"
    and "addr_tab w \<noteq> t \<Longrightarrow> addr_tab w \<noteq> 255 \<Longrightarrow> translate s' w = translate s w"
    and "addr_tab w = t \<Longrightarrow> translate s' w =
      (if is_present (ptmem s p (addr_pagei w)) then Some (ptmem s p (addr_pagei w)) else None)"
    and "cur_dir s' = cur_dir s"
    and "ptmem s' p = ptmem s p"
proof -
  note f = vm_invD [OF inv]
  have t255: "t \<noteq> 255" using f(4) t(2) by auto
  have pne: "p \<noteq> cur_dir s" "p \<noteq> rec_page s" using p(1) f(9,10) by auto
  show c: "cur_dir s' = cur_dir s" by (simp add: s'_def put_entry_def)
  show ph: "phys s' = phys s" by (simp add: s'_def put_entry_def)
  have pe: "paging_enabled s'" using f(1) by (simp add: s'_def put_entry_def)
  show d: "page_dir_entry s' = (page_dir_entry s)(t := e2)"
    using f(8) by (auto simp: page_dir_entry_def s'_def put_entry_def fun_eq_iff)
  have r: "rec_page s' = rec_page s" using t255 d by (simp add: rec_page_def)
  have m: "ptmem s' (rec_page s) = (ptmem s (rec_page s))(t := e1)"
    using f(8) by (simp add: s'_def put_entry_def)
  have mo: "ptmem s' q = ptmem s q" if "q \<noteq> rec_page s" "q \<noteq> cur_dir s" for q
    using that by (simp add: s'_def put_entry_def)
  show "ptmem s' p = ptmem s p" using mo pne by simp
  have T: "{t'. t' < 1024 \<and> is_present (page_dir_entry s' t')} =
      insert t {t'. t' < 1024 \<and> is_present (page_dir_entry s t')}"
    using d e(4) t(1) by auto
  have I: "(\<lambda>t'. frame (page_dir_entry s' t')) ` {t'. t' < 1024 \<and> is_present (page_dir_entry s t')} =
      (\<lambda>t'. frame (page_dir_entry s t')) ` {t'. t' < 1024 \<and> is_present (page_dir_entry s t')}"
    using d t(2) by (intro image_cong) auto
  show tp: "table_pages s' = insert p (table_pages s)"
    unfolding table_pages_def T image_insert I c using d e(5) by auto
  have fr: "table_pages s' \<inter> free_pages (phys s') = {}"
    using tp ph p(2) f(6) by auto
  have tabs: "frame (page_dir_entry s t') \<noteq> p" if "t' < 1024" "is_present (page_dir_entry s t')" for t'
    using vm_inv_table(4) [OF inv that] p(1) by auto
  have inj: "inj_on (\<lambda>t'. frame (page_dir_entry s' t')) {t'. t' < 1024 \<and> is_present (page_dir_entry s' t')}"
  proof -
    have "inj_on (\<lambda>t'. frame (page_dir_entry s' t')) {t'. t' < 1024 \<and> is_present (page_dir_entry s t')}"
      using inv d t(2) unfolding vm_inv_def inj_on_def by auto
    moreover have "p \<notin> (\<lambda>t'. frame (page_dir_entry s' t')) ` {t'. t' < 1024 \<and> is_present (page_dir_entry s t')}"
      unfolding I using tabs by blast
    moreover have "frame (page_dir_entry s' t) = p" using d e(5) by simp
    ultimately show ?thesis
      unfolding T by (intro inj_on_insertI) simp_all
  qed
  have ent: "is_present (ptmem s' (rec_page s') t') \<and> is_writable (ptmem s' (rec_page s') t') \<and>
      frame (ptmem s' (rec_page s') t') = frame (page_dir_entry s' t') \<and>
      frame (page_dir_entry s' t') \<noteq> cur_dir s'" if "t' < 1024" "is_present (page_dir_entry s' t')" for t'
  proof (cases "t' = t")
    case True
    then show ?thesis using r m d e pne c by simp
  next
    case False
    with that d have "is_present (page_dir_entry s t')" by simp
    with inv that(1) have "is_present (ptmem s (rec_page s) t') \<and> is_writable (ptmem s (rec_page s) t') \<and>
        frame (ptmem s (rec_page s) t') = frame (page_dir_entry s t') \<and>
        frame (page_dir_entry s t') \<noteq> cur_dir s" unfolding vm_inv_def by blast
    with False r m d c show ?thesis by simp
  qed
  show "vm_inv s'"
    unfolding vm_inv_def
    using pe ph f(2,3,4,5) fr inj ent d t255 by simp
  show "translate s' w = translate s w" if "addr_tab w \<noteq> t" "addr_tab w \<noteq> 255"
  proof -
    have "page_dir_entry s' (addr_tab w) = page_dir_entry s (addr_tab w)" using d that by simp
    moreover have "ptmem s' (frame (page_dir_entry s (addr_tab w))) = ptmem s (frame (page_dir_entry s (addr_tab w)))"
      if "is_present (page_dir_entry s (addr_tab w))"
      using vm_inv_table(2,3) [OF inv addr_tab_less that] \<open>addr_tab w \<noteq> 255\<close> by (intro mo) auto
    ultimately show ?thesis
      by (simp add: translate_def Let_def page_dir_entry_def [symmetric])
  qed
  show "translate s' w =
      (if is_present (ptmem s p (addr_pagei w)) then Some (ptmem s p (addr_pagei w)) else None)"
    if "addr_tab w = t"
    using that d e mo [of p] pne by (simp add: translate_def Let_def page_dir_entry_def [symmetric])
qed

lemma get_tab_present:
  "vm_inv s \<Longrightarrow> is_present (page_dir_entry s (addr_tab v)) \<Longrightarrow>
    get_tab s v a = Some (Some (addr_tab v), s)"
  by (simp add: get_tab_def vm_invD(7) page_dir_entry_def)

lemma get_tab_absent:
  "vm_inv s \<Longrightarrow> \<not> is_present (page_dir_entry s (addr_tab v)) \<Longrightarrow> get_tab s v False = Some (None, s)"
  by (simp add: get_tab_def vm_invD(7) page_dir_entry_def)

lemma get_tab_alloc:
  assumes inv: "vm_inv s" and np: "\<not> is_present (page_dir_entry s (addr_tab v))"
  obtains (none) "free_pages (phys s) = {}" "get_tab s v True = Some (None, s)"
  | (page) p s' where "get_tab s v True = Some (Some (addr_tab v), s')" "vm_inv s'"
      "is_present (page_dir_entry s' (addr_tab v))" "p \<in> free_pages (phys s)"
      "free_pages (phys s') = free_pages (phys s) - {p}"
      "table_pages s' = insert p (table_pages s)"
      "\<And>w. addr_tab w \<noteq> addr_tab v \<Longrightarrow> addr_tab w \<noteq> 255 \<Longrightarrow> translate s' w = translate s w"
      "\<And>w. addr_tab w = addr_tab v \<Longrightarrow> translate s' w =
        (if is_present (ptmem s p (addr_pagei w)) then Some (ptmem s p (addr_pagei w)) else None)"
      "cur_dir s' = cur_dir s" "frame (page_dir_entry s' (addr_tab v)) = p"
proof -
  have cd: "current_dir s = cur_dir s" by (rule vm_invD(7) [OF inv])
  from inv show ?thesis
  proof (cases rule: vm_alloc)
    case none
    then have "get_tab s v True = Some (None, s)"
      using np by (simp add: get_tab_def cd page_dir_entry_def)
    with none(1) show ?thesis by (rule that(1))
  next
    case (page p ph)
    let ?s = "s\<lparr>phys := ph\<rparr>"
    define e1 where "e1 = make_pte (page_addr p) (flag_present OR flag_writable)"
    define e2 where "e2 = (if addr_in_region v user_region
      then make_pde (page_addr p) (flag_present OR flag_writable OR flag_user)
      else make_pde (page_addr p) (flag_present OR flag_writable))"
    define s' where "s' = put_entry (put_entry ?s (rec_page ?s) (addr_tab v) e1) (cur_dir ?s) (addr_tab v) e2"
    note np_range = new_page_range [OF inv page(3)]
    have e: "is_present e1" "is_writable e1" "frame e1 = p" "is_present e2" "frame e2 = p"
      using np_range(1) by (auto simp: e1_def e2_def make_pde_pte)
    have "recursive_tab ?s = Some (rec_page ?s)" using page(5) by (rule recursive_tab_eq)
    then have g: "get_tab s v True = Some (Some (addr_tab v), s')"
      using page(1,2) np cd
      by (simp add: get_tab_def page_dir_entry_def s'_def e1_def e2_def put_entry_def current_dir_def
        Let_def split: if_splits)
    have "p \<notin> free_pages (phys ?s)" "p \<notin> table_pages ?s"
      "\<not> is_present (page_dir_entry ?s (addr_tab v))" using page(4) np_range np by simp_all
    note it = install_table [OF page(5) addr_tab_less this(3) this(2) this(1) e, folded s'_def]
    show ?thesis
    proof (rule that(2) [OF g it(1)])
      show "is_present (page_dir_entry s' (addr_tab v))" "frame (page_dir_entry s' (addr_tab v)) = p"
        using it(2) e by simp_all
      show "p \<in> free_pages (phys s)" by (rule page(3))
      show "free_pages (phys s') = free_pages (phys s) - {p}" using it(4) page(4) by simp
      show "table_pages s' = insert p (table_pages s)" using it(3) by simp
      show "cur_dir s' = cur_dir s" using it(7) by simp
      show "translate s' w = translate s w" if "addr_tab w \<noteq> addr_tab v" "addr_tab w \<noteq> 255" for w
        using it(5) [OF that] by simp
      show "translate s' w = (if is_present (ptmem s p (addr_pagei w))
          then Some (ptmem s p (addr_pagei w)) else None)" if "addr_tab w = addr_tab v" for w
        using it(6) [OF that] by simp
    qed
  qed
qed

section \<open>Mapping and unmapping one page\<close>

lemma page_size_addr:
  assumes "p < 2 ^ 20"
  shows "(of_nat (p * page_size) :: u32) = page_addr p"
  by (simp add: page_size_def page_addr_def push_bit_eq_mult mult.commute)

lemma addr_page_page_addr:
  assumes "p < 2 ^ 20"
  shows "addr_page (page_addr p) = p"
proof -
  have "unat (of_nat (p * page_size) :: u32) = p * page_size"
    by (rule unat_of_nat_small) (use assms in \<open>simp add: page_size_def\<close>)
  then show ?thesis
    by (simp only: page_size_addr [OF assms, symmetric] addr_page_nat) (simp add: page_size_def)
qed

text \<open>Once \<open>get_tab\<close> has installed the table, \<open>map_one\<close> goes on as if it had been there.\<close>

lemma map_one_continue:
  assumes "get_tab s virt True = Some (Some t, s1)" "get_tab s1 virt True = Some (Some t, s1)"
  shows "map_one s virt phy flags = map_one s1 virt phy flags"
  by (simp add: map_one_def assms)

lemma map_one_present:
  assumes inv: "vm_inv s" and pr: "is_present (page_dir_entry s (addr_tab virt))"
    and tab: "addr_tab virt \<noteq> 255"
  obtains (none) "phy = 0" "free_pages (phys s) = {}" "map_one s virt phy flags = Some (False, s)"
  | (page) pa s' where "map_one s virt phy flags = Some (True, s')" "vm_inv s'"
      "\<And>w. translate s' w = (if addr_page w = addr_page virt
        then Some (make_pte pa (flags OR flag_present)) else translate s w)"
      "phy \<noteq> 0 \<Longrightarrow> pa = phy \<and> free_pages (phys s') = free_pages (phys s)"
      "phy = 0 \<Longrightarrow> addr_page pa \<in> free_pages (phys s) \<and>
        free_pages (phys s') = free_pages (phys s) - {addr_page pa}"
      "table_pages s' = table_pages s"
proof -
  let ?t = "addr_tab virt" and ?e = "\<lambda>pa. make_pte pa (flags OR flag_present)"
  have step: "thesis" if s1: "vm_inv (s\<lparr>phys := ph\<rparr>)"
    and m: "map_one s virt phy flags =
      Some (True, put_entry (s\<lparr>phys := ph\<rparr>) (frame (page_dir_entry s ?t)) (addr_pagei virt) (?e pa))"
    and "phy \<noteq> 0 \<Longrightarrow> pa = phy \<and> free_pages ph = free_pages (phys s)"
    and "phy = 0 \<Longrightarrow> addr_page pa \<in> free_pages (phys s) \<and>
        free_pages ph = free_pages (phys s) - {addr_page pa}" for ph pa
  proof -
    have pr1: "is_present (page_dir_entry (s\<lparr>phys := ph\<rparr>) ?t)" using pr by simp
    note w = table_write [OF s1 addr_tab_less pr1 tab]
    show thesis
      by (rule page [where pa = pa, OF m]) (use w that in \<open>auto simp: same_page\<close>)
  qed
  have tp: "table_page s True ?t = Some (frame (page_dir_entry s ?t))"
    by (rule vm_inv_table(1) [OF inv addr_tab_less pr])
  note g = get_tab_present [OF inv pr]
  show thesis
  proof (cases "phy = 0")
    case False
    have "map_one s virt phy flags =
        Some (True, put_entry (s\<lparr>phys := phys s\<rparr>) (frame (page_dir_entry s ?t)) (addr_pagei virt) (?e phy))"
      using False tp by (simp add: map_one_def g Let_def)
    with False step [of "phys s" phy] inv show thesis by simp
  next
    case True
    show thesis
      using inv
    proof (cases rule: vm_alloc)
      case none
      with True show thesis using that(1) by (simp add: map_one_def g)
    next
      case (page p ph)
      note r = new_page_range [OF inv page(3)]
      have "map_one s virt phy flags = Some (True, put_entry (s\<lparr>phys := ph\<rparr>)
          (frame (page_dir_entry s ?t)) (addr_pagei virt) (?e (page_addr p)))"
        using True tp page(1,2)
        by (simp add: map_one_def g Let_def page_size_addr [OF r(1), symmetric])
      from step [OF page(5) this] True page(3,4) r(1) show thesis
        by (simp add: addr_page_page_addr)
    qed
  qed
qed

text \<open>The number of physical pages a call of \<open>map_one\<close> takes from the allocator.\<close>

definition pages_needed :: "vmm \<Rightarrow> u32 \<Rightarrow> u32 \<Rightarrow> nat" where
  "pages_needed s virt phy =
     (if is_present (page_dir_entry s (addr_tab virt)) then 0 else 1) + (if phy = 0 then 1 else 0)"

text \<open>What the processor finds at an address when its page table is the page \<open>p\<close>.\<close>

definition entry_in :: "vmm \<Rightarrow> nat \<Rightarrow> u32 \<Rightarrow> u32 option" where
  "entry_in s p w =
     (let e = ptmem s p (addr_pagei w) in if is_present e then Some e else None)"

text \<open>
  C5: \<open>map_one\<close>. In an active address space, for an address outside the page-table window, it
  never faults and keeps the recursive mapping consistent. It succeeds exactly when the
  allocator has the pages for a missing page table and a missing frame. After success the
  processor finds the requested frame (or a page that was free and no longer is) with the
  requested flags at the address. Of the other pages, those of another table and those of a
  table that was already present translate as before. When the table was missing and a page for
  it was free, that page, which the code does not clear, becomes the table: each of its other
  pages translates by what the page held before. When no page was free, nothing changes.
\<close>

theorem map_one_translates:
  assumes "vm_inv s" "addr_tab virt \<noteq> 255"
  shows "\<exists>ok s'. map_one s virt phy flags = Some (ok, s') \<and> vm_inv s' \<and>
    (ok \<longleftrightarrow> pages_needed s virt phy \<le> card (free_pages (phys s))) \<and>
    (ok \<longrightarrow> (\<exists>pa. translate s' virt = Some (make_pte pa (flags OR flag_present)) \<and>
       (phy \<noteq> 0 \<longrightarrow> pa = phy) \<and>
       (phy = 0 \<longrightarrow> addr_page pa \<in> free_pages (phys s) - free_pages (phys s')))) \<and>
    (\<forall>w. addr_page w \<noteq> addr_page virt \<and> addr_tab w \<noteq> 255 \<and>
       (addr_tab w \<noteq> addr_tab virt \<or> is_present (page_dir_entry s (addr_tab virt))) \<longrightarrow>
       translate s' w = translate s w) \<and>
    (\<not> is_present (page_dir_entry s (addr_tab virt)) \<longrightarrow>
       (if free_pages (phys s) = {} then s' = s
        else \<exists>p \<in> free_pages (phys s) - free_pages (phys s').
          \<forall>w. addr_tab w = addr_tab virt \<and> addr_page w \<noteq> addr_page virt \<longrightarrow>
            translate s' w = entry_in s p w))"
proof (cases "is_present (page_dir_entry s (addr_tab virt))")
  case True
  have c: "card (free_pages (phys s)) = 0 \<longleftrightarrow> free_pages (phys s) = {}" by simp
  show ?thesis
    using assms(1) True assms(2)
  proof (cases rule: map_one_present [where phy = phy and flags = flags])
    case none
    with True assms(1) show ?thesis by (auto simp: pages_needed_def)
  next
    case (page pa s')
    have "pages_needed s virt phy \<le> card (free_pages (phys s))"
      using True page(5) by (auto simp: pages_needed_def Suc_le_eq card_gt_0_iff)
    then show ?thesis
      using page(1,2,3) True by (intro exI [of _ True] exI [of _ s'] conjI impI exI [of _ pa])
        (use page(4,5) in simp_all)
  qed
next
  case False
  show ?thesis
    using assms(1) False
  proof (cases rule: get_tab_alloc)
    case none
    then have "map_one s virt phy flags = Some (False, s)" by (simp add: map_one_def)
    with none False assms(1) show ?thesis by (auto simp: pages_needed_def)
  next
    case (page p s1)
    have g1: "get_tab s1 virt True = Some (Some (addr_tab virt), s1)"
      by (rule get_tab_present [OF page(2,3)])
    note m = map_one_continue [OF page(1) g1, of phy flags]
    have card: "card (free_pages (phys s)) = Suc (card (free_pages (phys s1)))"
      using page(4,5) by (metis card_Suc_Diff1 finite_free_pages)
    have stale: "translate s1 w = entry_in s p w" if "addr_tab w = addr_tab virt" for w
      using page(8) [OF that] by (simp add: entry_in_def Let_def)
    note pfree = page(4,5) and inv1 = page(2) and other = page(7)
    show ?thesis
      using page(2,3) assms(2)
    proof (cases rule: map_one_present [where phy = phy and flags = flags])
      case none
      have "p \<in> free_pages (phys s) - free_pages (phys s1)" using pfree by simp
      moreover have "\<not> pages_needed s virt phy \<le> card (free_pages (phys s))"
        using False none card by (simp add: pages_needed_def)
      ultimately show ?thesis
        using False m none(3) inv1 other stale pfree
        by (intro exI [of _ False] exI [of _ s1] conjI) (simp_all, blast+)
    next
      case (page pa s')
      have "pages_needed s virt phy \<le> card (free_pages (phys s))"
        using False page(5) card by (auto simp: pages_needed_def Suc_le_eq card_gt_0_iff)
      moreover have "translate s' w = translate s w"
        if "addr_page w \<noteq> addr_page virt" "addr_tab w \<noteq> 255" "addr_tab w \<noteq> addr_tab virt" for w
        using page(3) that \<open>\<And>w. addr_tab w \<noteq> addr_tab virt \<Longrightarrow> addr_tab w \<noteq> 255 \<Longrightarrow>
          translate s1 w = translate s w\<close> by simp
      moreover have "phy = 0 \<longrightarrow> addr_page pa \<in> free_pages (phys s) - free_pages (phys s')"
        using page(5) pfree by auto
      moreover have "p \<in> free_pages (phys s) - free_pages (phys s')"
        using page(4,5) pfree by (cases "phy = 0") auto
      moreover have "translate s' w = entry_in s p w"
        if "addr_tab w = addr_tab virt" "addr_page w \<noteq> addr_page virt" for w
        using page(3) that stale by simp
      ultimately show ?thesis
        using page(1,2,3) False m pfree(1)
        by (intro exI [of _ True] exI [of _ s'] conjI impI exI [of _ pa]) (use page(4) in simp_all, blast+)
    qed
  qed
qed

text \<open>A small active address space, for the concrete instances: directory in page 8, recursive
  table in page 9, one user table in page 10 (addresses from \<open>0x40000000\<close>), one kernel table
  in page 11 (addresses from \<open>0x400000\<close>), and three free pages.\<close>

definition vm_example :: vmm where
  "vm_example = \<lparr>phys = pmm_example, paging_enabled = True, cur_dir = 8, cur_dir_ptr = 0x8000,
     kernel_dir = 8, kernel_tabs = 0x1000,
     ptmem = (\<lambda>p i. if p = 8 \<and> i = 255 \<or> p = 9 \<and> i = 255 then 0x9003
                    else if (p = 8 \<or> p = 9) \<and> i = 1 then 0xb003
                    else if p = 11 \<and> i = 1 then 0x5c003 else if p = 11 \<and> i = 2 then 0x5d003
                    else if p = 8 \<and> i = 256 then 0xa007 else if p = 9 \<and> i = 256 then 0xa003
                    else if p = 10 \<and> i = 1 then 0x5b207 else if p = 34 \<and> i = 5 then 0x7b007 else 0),
     mmio_mapped = 0\<rparr>"

lemma entry_facts:
  "is_present 0x9003" "is_writable 0x9003" "frame 0x9003 = 9"
  "is_present 0xa007" "is_present 0xa003" "is_writable 0xa003" "frame 0xa007 = 10" "frame 0xa003 = 10"
  "is_present 0x5b207" "is_borrowed 0x5b207" "is_present 0x7b007"
  "is_present 0xb003" "is_writable 0xb003" "frame 0xb003 = 11"
  "is_present 0x5c003" "is_present 0x5d003" "frame 0x5c003 = 92" "frame 0x5d003 = 93"
  by code_simp+

lemma vm_example_dir:
  "page_dir_entry vm_example t = (if t = 255 then 0x9003
     else if t = 1 then 0xb003 else if t = 256 then 0xa007 else 0)"
  by (simp add: page_dir_entry_def vm_example_def)

lemma vm_example_present: "is_present (page_dir_entry vm_example t) \<longleftrightarrow> t = 1 \<or> t = 255 \<or> t = 256"
  by (simp add: vm_example_dir entry_facts)

lemma vm_example_tables: "table_pages vm_example = {8, 9, 10, 11}"
proof -
  have "{t. t < 1024 \<and> is_present (page_dir_entry vm_example t)} = {1, 255, 256}"
    by (auto simp: vm_example_present)
  then show ?thesis
    by (simp add: table_pages_def vm_example_dir entry_facts) (simp add: vm_example_def insert_commute)
qed

lemma vm_example_inv: "vm_inv vm_example"
proof -
  have r: "rec_page vm_example = 9" by (simp add: rec_page_def vm_example_dir entry_facts)
  have ph: "phys vm_example = pmm_example" "paging_enabled vm_example" "cur_dir vm_example = 8"
      "ptmem vm_example 9 255 = 0x9003" "ptmem vm_example 9 256 = 0xa003"
      "ptmem vm_example 9 (Suc 0) = 0xb003"
    by (simp_all add: vm_example_def)
  have T: "{t. t < 1024 \<and> is_present (page_dir_entry vm_example t)} = {1, 255, 256}"
    by (auto simp: vm_example_present)
  have "length (bitmap pmm_example) \<le> 32768" by (simp add: pmm_example_def)
  then show ?thesis
    unfolding vm_inv_def T r ph vm_example_tables pmm_example_free
    by (auto simp: vm_example_present vm_example_dir entry_facts ph pmm_example_inv inj_on_def)
qed

theorem map_one_translates_witness:
  "(\<exists>s'. map_one vm_example 0x40002000 0 0x6 = Some (True, s') \<and>
     (\<exists>pa. translate s' 0x40002000 = Some (make_pte pa (0x6 OR flag_present)) \<and>
       addr_page pa \<in> {34, 36, 64}) \<and>
     translate s' 0x40001000 = translate vm_example 0x40001000) \<and>
   (\<exists>s'. map_one vm_example 0x50000000 0x70000 0x6 = Some (True, s') \<and>
     (\<exists>p \<in> {34, 36, 64}. translate s' 0x50005000 = entry_in vm_example p 0x50005000))"
proof -
  have v: "addr_tab 0x40002000 = 256" "addr_tab 0x40001000 = 256"
      "addr_page 0x40002000 \<noteq> addr_page 0x40001000"
      "addr_tab 0x50000000 = 320" "addr_tab 0x50005000 = 320"
      "addr_page 0x50005000 \<noteq> addr_page 0x50000000"
    by (simp_all add: addr_tab_nat addr_page_nat)
  have ph: "phys vm_example = pmm_example" by (simp add: vm_example_def)
  have ne: "addr_tab 0x40002000 \<noteq> 255" "addr_tab 0x50000000 \<noteq> 255" by (simp_all add: v)
  have n: "pages_needed vm_example 0x40002000 0 \<le> card (free_pages (phys vm_example))"
    "pages_needed vm_example 0x50000000 0x70000 \<le> card (free_pages (phys vm_example))"
    by (simp_all add: pages_needed_def v vm_example_present ph pmm_example_free)
  have "\<exists>s'. map_one vm_example 0x40002000 0 0x6 = Some (True, s') \<and>
     (\<exists>pa. translate s' 0x40002000 = Some (make_pte pa (0x6 OR flag_present)) \<and>
       addr_page pa \<in> free_pages (phys vm_example)) \<and>
     translate s' 0x40001000 = translate vm_example 0x40001000"
    using map_one_translates [OF vm_example_inv ne(1), of 0 "0x6"] n(1) v
    by (auto simp: vm_example_present)
  moreover have "\<exists>s'. map_one vm_example 0x50000000 0x70000 0x6 = Some (True, s') \<and>
     (\<exists>p \<in> free_pages (phys vm_example). translate s' 0x50005000 = entry_in vm_example p 0x50005000)"
    using map_one_translates [OF vm_example_inv ne(2), of "0x70000" "0x6"] n(2) v
    by (auto simp: vm_example_present ph pmm_example_free)
  ultimately show ?thesis by (simp add: ph pmm_example_free)
qed

lemma translate_entry:
  assumes inv: "vm_inv s" and pr: "is_present (page_dir_entry s (addr_tab v))"
  shows "table_page s w (addr_tab v) = Some (frame (page_dir_entry s (addr_tab v)))"
    and "translate s v = (let e = ptmem s (frame (page_dir_entry s (addr_tab v))) (addr_pagei v) in
      if is_present e then Some e else None)"
  using vm_inv_table(1) [OF inv addr_tab_less pr] pr
  by (simp_all add: translate_def page_dir_entry_def Let_def)

lemma translate_SomeD:
  assumes "translate s v = Some pte"
  shows "is_present (page_dir_entry s (addr_tab v))" "is_present pte"
    "ptmem s (frame (page_dir_entry s (addr_tab v))) (addr_pagei v) = pte"
  using assms by (auto simp: translate_def page_dir_entry_def Let_def split: if_splits)

lemma unmap_one_none:
  assumes inv: "vm_inv s" and n: "translate s virt = None"
  shows "unmap_one s virt = Some s"
proof (cases "is_present (page_dir_entry s (addr_tab virt))")
  case True
  with n show ?thesis
    using translate_entry [OF inv True] get_tab_present [OF inv True]
    by (auto simp: unmap_one_def Let_def split: if_splits)
qed (simp add: unmap_one_def get_tab_absent [OF inv])

lemma vm_free_page:
  assumes inv: "vm_inv s" and p: "p \<in> managed_pages (phys s)" "p \<notin> table_pages s"
  obtains ph where "free_one (phys s) p = Some ph" "vm_inv (s\<lparr>phys := ph\<rparr>)"
    "free_pages ph = insert p (free_pages (phys s))" "managed_pages ph = managed_pages (phys s)"
proof -
  from free_one_spec [OF vm_invD(2) [OF inv] p(1)] obtain ph where ph:
    "free_one (phys s) p = Some ph" "pmm_inv ph" "free_pages ph = insert p (free_pages (phys s))"
    "length (bitmap ph) = length (bitmap (phys s))" by blast
  have "vm_inv (s\<lparr>phys := ph\<rparr>)"
    using vm_invD [OF inv] ph p by (intro vm_inv_phys [OF inv]) auto
  moreover have "managed_pages ph = managed_pages (phys s)" by (rule managed_pages_cong) (rule ph(4))
  ultimately show thesis using that ph by blast
qed

text \<open>
  \<open>unmap_one\<close> on a mapped page outside the page-table window. Afterwards the processor
  finds nothing at the address and every other page as before; the frame is free again
  exactly when the mapping owned it, a borrowed frame stays allocated.
\<close>

theorem unmap_one_translates:
  assumes inv: "vm_inv s" and tab: "addr_tab virt \<noteq> 255" and m: "translate s virt = Some pte"
    and own: "\<not> is_borrowed pte \<longrightarrow> frame pte \<in> managed_pages (phys s) \<and> frame pte \<notin> table_pages s"
  shows "\<exists>s'. unmap_one s virt = Some s' \<and> vm_inv s' \<and> table_pages s' = table_pages s \<and>
    (\<forall>w. translate s' w = (if addr_page w = addr_page virt then None else translate s w)) \<and>
    free_pages (phys s') =
      (if is_borrowed pte then free_pages (phys s) else insert (frame pte) (free_pages (phys s)))"
proof -
  note pr = translate_SomeD [OF m]
  note g = get_tab_present [OF inv pr(1)] and tp = translate_entry(1) [OF inv pr(1)]
  have fin: ?thesis if s1: "vm_inv (s\<lparr>phys := ph\<rparr>)"
    and u: "unmap_one s virt =
      Some (put_entry (s\<lparr>phys := ph\<rparr>) (frame (page_dir_entry s (addr_tab virt))) (addr_pagei virt) 0)"
    and "free_pages ph =
      (if is_borrowed pte then free_pages (phys s) else insert (frame pte) (free_pages (phys s)))"
    for ph
  proof -
    have pr1: "is_present (page_dir_entry (s\<lparr>phys := ph\<rparr>) (addr_tab virt))" using pr(1) by simp
    show ?thesis using table_write [OF s1 addr_tab_less pr1 tab] u that(3)
      by (simp add: same_page)
  qed
  show ?thesis
  proof (cases "is_borrowed pte")
    case True
    then have "unmap_one s virt = Some (put_entry (s\<lparr>phys := phys s\<rparr>)
        (frame (page_dir_entry s (addr_tab virt))) (addr_pagei virt) 0)"
      by (simp add: unmap_one_def g tp pr)
    with True fin [of "phys s"] inv show ?thesis by simp
  next
    case False
    with own have o: "frame pte \<in> managed_pages (phys s)" "frame pte \<notin> table_pages s" by auto
    from inv o show ?thesis
    proof (cases rule: vm_free_page)
      case (1 ph)
      have "unmap_one s virt = Some (put_entry (s\<lparr>phys := ph\<rparr>)
          (frame (page_dir_entry s (addr_tab virt))) (addr_pagei virt) 0)"
        using False 1(1) by (simp add: unmap_one_def g tp pr frame_def [of pte])
      from fin [OF 1(2) this] False 1(3) show ?thesis by simp
    qed
  qed
qed

theorem unmap_one_translates_witness:
  "\<exists>s'. unmap_one vm_example 0x40001000 = Some s' \<and> translate s' 0x40001000 = None \<and>
     free_pages (phys s') = {34, 36, 64}"
proof -
  have v: "addr_tab 0x40001000 = 256" "addr_pagei 0x40001000 = 1"
    by (simp_all add: addr_tab_nat addr_pagei_nat)
  have m: "translate vm_example 0x40001000 = Some 0x5b207"
    using v by (simp add: translate_def vm_example_def entry_facts)
  have ne: "addr_tab 0x40001000 \<noteq> 255" by (simp add: v)
  have b: "\<not> is_borrowed 0x5b207 \<longrightarrow> frame 0x5b207 \<in> managed_pages (phys vm_example) \<and>
      frame 0x5b207 \<notin> table_pages vm_example" by (simp add: entry_facts)
  have ph: "phys vm_example = pmm_example" by (simp add: vm_example_def)
  from unmap_one_translates [OF vm_example_inv ne m b] show ?thesis
    by (auto simp: entry_facts ph pmm_example_free)
qed

text \<open>
  \<open>map\<close> never reports failure: its test for a negative \<open>map_one\<close> result, which is a
  \<open>bool\<close>, cannot succeed, so the rollback is dead code.
\<close>

lemma map_loop_success:
  "map_loop s virt phy flags i n = Some (err, s') \<Longrightarrow> err = ERR_success"
  by (induction n arbitrary: s i)
    (auto simp: bind_Some_iff errno_defs Let_def split: if_splits option.splits)

lemma vm_map_success: "vm_map s virt phy sz flags = Some (err, s') \<Longrightarrow> err = ERR_success"
  by (auto simp: vm_map_def split: if_splits dest: map_loop_success)

text \<open>
  C6: a lost error. When no physical page is left, \<open>map\<close> of an unbacked page maps nothing,
  changes nothing, and still returns \<open>ERR_success\<close>; the rollback it has for this case never
  runs, and the caller (the page fault handler, the program loader) goes on to use the page.
\<close>

theorem vm_map_full:
  assumes inv: "vm_inv s" and full: "free_pages (phys s) = {}" and tab: "addr_tab virt \<noteq> 255"
  shows "vm_map s virt 0 page_size flags = Some (ERR_success, s)"
proof -
  have "map_one s virt 0 flags = Some (False, s)"
  proof (cases "is_present (page_dir_entry s (addr_tab virt))")
    case True
    show ?thesis
      using inv True tab
      by (cases rule: map_one_present [where phy = 0 and flags = flags]) (use full in auto)
  next
    case False
    show ?thesis
      using inv False by (cases rule: get_tab_alloc) (use full in \<open>auto simp: map_one_def\<close>)
  qed
  then show ?thesis by (simp add: vm_map_def)
qed

definition pmm_full :: pmm where
  "pmm_full = pmm_zero 3"

lemma pmm_full_free: "free_pages pmm_full = {}"
  by (auto simp: free_pages_def pmm_full_def pmm_zero_def bs_get_def div32_less)

lemma vm_example_full: "vm_inv (vm_example\<lparr>phys := pmm_full\<rparr>)"
  by (rule vm_inv_phys [OF vm_example_inv])
    (simp_all add: pmm_inv_def pmm_full_free, simp add: pmm_full_def pmm_zero_def)

theorem vm_map_full_witness:
  "\<exists>s. vm_map (vm_example\<lparr>phys := pmm_full\<rparr>) 0x40002000 0 page_size 0x6 = Some (ERR_success, s) \<and>
     translate s 0x40002000 = None"
proof -
  have v: "addr_tab 0x40002000 = 256" "addr_pagei 0x40002000 = 2"
    by (simp_all add: addr_tab_nat addr_pagei_nat)
  have "addr_tab 0x40002000 \<noteq> 255" by (simp add: v)
  with vm_map_full [OF vm_example_full, of "0x40002000" "0x6"]
  have "vm_map (vm_example\<lparr>phys := pmm_full\<rparr>) 0x40002000 0 page_size 0x6 =
      Some (ERR_success, vm_example\<lparr>phys := pmm_full\<rparr>)" by (simp add: pmm_full_free)
  moreover have "translate (vm_example\<lparr>phys := pmm_full\<rparr>) 0x40002000 = None"
    using v by (simp add: translate_def vm_example_def entry_facts)
  ultimately show ?thesis by blast
qed

section \<open>Checking a range\<close>

lemma translate_page:
  assumes "addr_page a = addr_page b"
  shows "translate s a = translate s b"
proof -
  from assms have "addr_tab a = addr_tab b" "addr_pagei a = addr_pagei b" by (simp_all add: same_page)
  then show ?thesis unfolding translate_def by metis
qed

lemma is_mapped_loop_spec:
  assumes inv: "vm_inv s"
  shows "is_mapped_loop s v pn n =
    Some (\<forall>k. pn \<le> k \<and> k < pn + n \<longrightarrow> translate s (v + of_nat k * 0x1000) \<noteq> None)"
proof (induction n arbitrary: pn)
  case 0
  then show ?case by auto
next
  case (Suc n)
  let ?a = "v + of_nat pn * 0x1000"
  have split: "(\<forall>k. pn \<le> k \<and> k < pn + Suc n \<longrightarrow> Q k) \<longleftrightarrow>
      Q pn \<and> (\<forall>k. pn + 1 \<le> k \<and> k < pn + 1 + n \<longrightarrow> Q k)" for Q
    by (metis Suc_eq_plus1 add_Suc_right add_Suc_shift le_eq_less_or_eq less_add_Suc1 less_eq_Suc_le order_refl)
  have IH: "is_mapped_loop s v (pn + 1) n =
    Some (\<forall>k. pn + 1 \<le> k \<and> k < pn + 1 + n \<longrightarrow> translate s (v + of_nat k * 0x1000) \<noteq> None)"
    by (rule Suc.IH)
  show ?case
  proof (cases "is_present (page_dir_entry s (addr_tab ?a))")
    case False
    then have "translate s ?a = None" by (simp add: translate_def page_dir_entry_def)
    then show ?thesis unfolding split by (simp add: get_tab_absent [OF inv False])
  next
    case True
    note te = translate_entry [OF inv True]
    show ?thesis
    proof (cases "translate s ?a")
      case None
      then show ?thesis unfolding split
        using te by (simp add: get_tab_present [OF inv True] Let_def split: if_splits)
    next
      case (Some e)
      then show ?thesis unfolding split
        using te IH by (simp add: get_tab_present [OF inv True] Let_def split: if_splits)
    qed
  qed
qed

lemma page_align:
  "unat (v AND NOT 0xfff) = addr_page v * 4096" "unat (v AND 0xfff) = unat v mod 4096"
  "unat (v AND - 4096) = addr_page v * 4096" for v :: u32
proof -
  have off: "v AND 0xfff = take_bit 12 v" by (simp add: addr_consts take_bit_eq_mask)
  then show o: "unat (v AND 0xfff) = unat v mod 4096"
    unfolding off unsigned_take_bit_eq by (simp add: take_bit_eq_mod)
  have "v AND NOT (mask 12) = push_bit 12 (drop_bit 12 v)"
    by (rule bit_word_eqI) (auto simp: bit_simps)
  then have "(v AND NOT 0xfff) + (v AND 0xfff) = v"
    using bits_ident [of 12 v] by (simp only: take_bit_eq_mask addr_consts)
  then have "v AND NOT 0xfff = v - (v AND 0xfff)" by (metis add_diff_cancel_right')
  moreover have "v AND 0xfff \<le> v" by (rule word_and_le2)
  ultimately have "unat (v AND NOT 0xfff) = unat v - unat v mod 4096"
    by (simp add: unat_sub o)
  then show "unat (v AND NOT 0xfff) = addr_page v * 4096"
    by (simp add: addr_page_nat minus_mod_eq_div_mult)
  then show "unat (v AND - 4096) = addr_page v * 4096" by simp
qed

text \<open>
  \<open>is_mapped\<close>, on which the kernel's check of user pointers rests: for a nonempty range that
  does not reach the end of the address space it answers exactly whether the processor finds
  a present page for every single byte of the range, and it never faults.
\<close>

theorem is_mapped_iff:
  assumes inv: "vm_inv s" and sz: "0 < sz" and fit: "unat virt + unat sz < 2 ^ 32"
  shows "is_mapped s virt sz =
    Some (\<forall>a. unat virt \<le> unat a \<and> unat a < unat virt + unat sz \<longrightarrow> translate s a \<noteq> None)"
proof -
  let ?v = "virt AND NOT 0xfff" and ?off = "unat virt mod 4096"
  define n where "n = div_ceil (unat sz + ?off) page_size"
  have v: "unat virt = addr_page virt * 4096 + ?off" by (simp add: addr_page_nat)
  have pos: "0 < unat sz" using sz by (simp add: word_less_nat_alt)
  have "unat (sz + (virt AND 0xfff)) = unat sz + ?off"
    using fit v by (subst unat_add_small) (simp_all add: page_align)
  then have m: "is_mapped s virt sz = is_mapped_loop s ?v 0 n"
    by (simp add: is_mapped_def n_def Let_def)
  have n: "k < n \<longleftrightarrow> k * 4096 < unat sz + ?off" for k
    using div_ceil_le_iff [of page_size "unat sz + ?off" k] by (simp add: n_def page_size_def not_le [symmetric])
  have page: "addr_page (?v + of_nat k * 0x1000) = addr_page virt + k" if "k < n" for k
  proof -
    have k: "(addr_page virt + k) * 4096 < 2 ^ 32" using that n fit v by simp
    then have "unat (of_nat k * 0x1000 :: u32) = k * 4096"
      using unat_of_nat_small [of "k * 4096", where 'a = 32] by simp
    then have "unat (?v + of_nat k * 0x1000) = (addr_page virt + k) * 4096"
      using k by (subst unat_add_small) (simp_all add: page_align)
    then show ?thesis by (subst addr_page_nat) simp
  qed
  have "(\<forall>k < n. translate s (?v + of_nat k * 0x1000) \<noteq> None) \<longleftrightarrow>
      (\<forall>a. unat virt \<le> unat a \<and> unat a < unat virt + unat sz \<longrightarrow> translate s a \<noteq> None)"
  proof (intro iffI allI impI)
    fix a :: u32 assume all: "\<forall>k < n. translate s (?v + of_nat k * 0x1000) \<noteq> None"
      and a: "unat virt \<le> unat a \<and> unat a < unat virt + unat sz"
    define k where "k = addr_page a - addr_page virt"
    have le: "addr_page virt \<le> addr_page a" using a by (simp add: addr_page_nat div_le_mono)
    then have pa: "addr_page virt + k = addr_page a" by (simp add: k_def)
    have "addr_page a * 4096 \<le> unat a" by (simp add: addr_page_nat)
    with a have "(addr_page virt + k) * 4096 < addr_page virt * 4096 + ?off + unat sz"
      using v pa by simp
    then have "k < n" unfolding n by simp
    with page [of k] pa have "addr_page (?v + of_nat k * 0x1000) = addr_page a" by simp
    then have "translate s a = translate s (?v + of_nat k * 0x1000)"
      by (intro translate_page) simp
    with all \<open>k < n\<close> show "translate s a \<noteq> None" by simp
  next
    fix k assume all: "\<forall>a. unat virt \<le> unat a \<and> unat a < unat virt + unat sz \<longrightarrow> translate s a \<noteq> None"
      and k: "k < n"
    define b where "b = max (unat virt) ((addr_page virt + k) * 4096)"
    have b: "unat virt \<le> b" "b < unat virt + unat sz" using k n v pos by (auto simp: b_def)
    then have ub: "unat (of_nat b :: u32) = b" using fit by (intro unat_of_nat_small) simp
    have "b div 4096 = addr_page virt + k"
    proof (cases k)
      case 0
      then show ?thesis using v by (simp add: b_def addr_page_nat max_def)
    next
      case (Suc j)
      have "unat virt \<le> (addr_page virt + k) * 4096"
        using v mod_less_divisor [of 4096 "unat virt"] Suc by simp
      then show ?thesis by (simp add: b_def max_def)
    qed
    then have "addr_page (of_nat b) = addr_page virt + k" by (subst addr_page_nat) (simp add: ub)
    with page [OF k] have "translate s (?v + of_nat k * 0x1000) = translate s (of_nat b)"
      by (intro translate_page) simp
    with all b ub show "translate s (?v + of_nat k * 0x1000) \<noteq> None" by simp
  qed
  then show ?thesis by (simp add: m is_mapped_loop_spec [OF inv])
qed

theorem is_mapped_iff_witness:
  "is_mapped vm_example 0x40001ffe 2 = Some True"
proof -
  have "translate vm_example a \<noteq> None" if "unat (a :: u32) \<ge> 0x40001ffe" "unat a < 0x40002000" for a
  proof -
    have "unat a div 4096 = 0x40001" "unat a div 4194304 = 256"
      by (rule div_nat_eqI; use that in simp)+
    then have "addr_tab a = 256" "addr_pagei a = 1"
      by (simp_all add: addr_tab_nat addr_pagei_nat)
    then show ?thesis by (simp add: translate_def vm_example_def entry_facts)
  qed
  then show ?thesis
    using is_mapped_iff [OF vm_example_inv, of 2 "0x40001ffe"] by auto
qed

section \<open>Making and deleting address spaces\<close>

lemma populate_dir_eq:
  assumes "paging_enabled s" "pd \<noteq> cur_dir s" "r \<noteq> cur_dir s" "pd \<noteq> r"
  shows "populate_dir s pd r i n = s\<lparr>ptmem := (ptmem s)
    (pd := (\<lambda>j. if i \<le> j \<and> j < i + n then if 256 \<le> j then 0 else ptmem s (cur_dir s) j
                else ptmem s pd j),
     r := (\<lambda>j. if i \<le> j \<and> j < i + n \<and> 256 \<le> j then 0 else ptmem s r j))\<rparr>"
  using assms
proof (induction n arbitrary: s i)
  case 0
  have "(\<lambda>j. if i \<le> j \<and> j < i then x j else y j) = y" for x y :: "nat \<Rightarrow> u32"
    by (rule ext) auto
  moreover have "(\<lambda>j. if i \<le> j \<and> j < i \<and> 256 \<le> j then 0 else y j) = y" for y :: "nat \<Rightarrow> u32"
    by (rule ext) auto
  ultimately show ?case by (simp add: fun_upd_idem)
next
  case (Suc n)
  define t where "t = (if i \<ge> 256 then put_entry (put_entry s pd i 0) r i 0
    else put_entry s pd i (ptmem s (cur_dir s) i))"
  have t: "paging_enabled t" "cur_dir t = cur_dir s" "ptmem t (cur_dir s) = ptmem s (cur_dir s)"
      "ptmem t pd = (ptmem s pd)(i := if 256 \<le> i then 0 else ptmem s (cur_dir s) i)"
      "ptmem t r = (if 256 \<le> i then (ptmem s r)(i := 0) else ptmem s r)"
      "\<And>q. q \<noteq> pd \<Longrightarrow> q \<noteq> r \<Longrightarrow> ptmem t q = ptmem s q"
      "t = s\<lparr>ptmem := ptmem t\<rparr>"
    using Suc.prems by (auto simp: t_def put_entry_def)
  have IH: "populate_dir t pd r (i + 1) n = t\<lparr>ptmem := (ptmem t)
    (pd := (\<lambda>j. if i + 1 \<le> j \<and> j < i + 1 + n then if 256 \<le> j then 0 else ptmem t (cur_dir t) j
                else ptmem t pd j),
     r := (\<lambda>j. if i + 1 \<le> j \<and> j < i + 1 + n \<and> 256 \<le> j then 0 else ptmem t r j))\<rparr>"
    by (rule Suc.IH) (use t Suc.prems in auto)
  have "populate_dir s pd r i (Suc n) = populate_dir t pd r (i + 1) n"
    using Suc.prems by (simp add: t_def current_dir_def)
  also have "\<dots> = s\<lparr>ptmem := (ptmem t)
    (pd := (\<lambda>j. if i + 1 \<le> j \<and> j < i + 1 + n then if 256 \<le> j then 0 else ptmem t (cur_dir t) j
                else ptmem t pd j),
     r := (\<lambda>j. if i + 1 \<le> j \<and> j < i + 1 + n \<and> 256 \<le> j then 0 else ptmem t r j))\<rparr>"
    unfolding IH by (subst t(7)) simp
  also have "(ptmem t)
    (pd := (\<lambda>j. if i + 1 \<le> j \<and> j < i + 1 + n then if 256 \<le> j then 0 else ptmem t (cur_dir t) j
                else ptmem t pd j),
     r := (\<lambda>j. if i + 1 \<le> j \<and> j < i + 1 + n \<and> 256 \<le> j then 0 else ptmem t r j)) =
    (ptmem s)
    (pd := (\<lambda>j. if i \<le> j \<and> j < i + Suc n then if 256 \<le> j then 0 else ptmem s (cur_dir s) j
                else ptmem s pd j),
     r := (\<lambda>j. if i \<le> j \<and> j < i + Suc n \<and> 256 \<le> j then 0 else ptmem s r j))"
    using t Suc.prems(4) by (auto simp: fun_eq_iff)
  finally show ?case .
qed

lemma frame_pte_addr:
  assumes "flags AND 0xfffff000 = 0"
  shows "frame (make_pte (pte_addr e) flags) = frame e"
proof -
  have "make_pte (pte_addr e) flags = make_pte (page_addr (frame e)) flags"
  proof -
    have "push_bit 12 (drop_bit 12 e) = e AND NOT (mask 12)"
      by (rule bit_word_eqI) (auto simp: bit_simps)
    then show ?thesis
      by (simp add: make_pte_def pte_addr_def page_addr_def frame_drop addr_consts)
  qed
  then show ?thesis using frame_make_pte [OF frame_less assms] by simp
qed

lemma virtual_to_physical_eq:
  assumes inv: "vm_inv s" and t: "translate s v = Some e"
  shows "virtual_to_physical s v = Some (pte_addr e)"
proof -
  note pr = translate_SomeD [OF t]
  show ?thesis
    using vm_invD(1) [OF inv] get_tab_present [OF inv pr(1)] translate_entry(1) [OF inv pr(1)] pr(3)
    by (simp add: virtual_to_physical_def)
qed

lemma addr_page_pte_addr: "addr_page (pte_addr e) = frame e"
  by (simp add: frame_def)

text \<open>
  C7: \<open>make_address_space\<close>. From an active address space, with two fresh and distinct heap
  pages for the directory and the recursive table, it leaves every translation of the current
  space as it was; and once the processor is switched to the new directory, the recursive
  mapping is consistent, kernel addresses (below the page-table window) translate exactly as
  in the current space, and no user address is mapped at all.
\<close>

theorem make_address_space_isolates:
  assumes inv: "vm_inv s" and nz: "space \<noteq> 0" "pd \<noteq> 0" "rec \<noteq> 0"
    and e: "translate s pd = Some e1" "translate s rec = Some e2"
    and fr: "frame e1 \<noteq> frame e2" "frame e1 \<notin> table_pages s" "frame e2 \<notin> table_pages s"
      "frame e1 \<notin> free_pages (phys s)" "frame e2 \<notin> free_pages (phys s)"
  shows "\<exists>s'. make_address_space s space pd rec = Some (Some \<lparr>as_pd = pd, as_pt_rec = rec\<rparr>, [], s') \<and>
    phys s' = phys s \<and> cur_dir s' = cur_dir s \<and>
    (\<forall>w. translate s' w = translate s w) \<and>
    vm_inv (s'\<lparr>cur_dir := frame e1\<rparr>) \<and>
    (\<forall>w. addr_tab w < 255 \<longrightarrow> translate (s'\<lparr>cur_dir := frame e1\<rparr>) w = translate s w) \<and>
    (\<forall>w. 256 \<le> addr_tab w \<longrightarrow> translate (s'\<lparr>cur_dir := frame e1\<rparr>) w = None)"
proof -
  let ?P = "frame e1" and ?Q = "frame e2" and ?c = "cur_dir s" and ?R = "rec_page s"
  let ?pde = "make_pte (pte_addr e2) (flag_present OR flag_writable)"
  note f = vm_invD [OF inv]
  have ne: "?P \<noteq> ?c" "?Q \<noteq> ?c" "?P \<noteq> ?R" "?Q \<noteq> ?R" using fr f(9,10) by auto
  have pde: "is_present ?pde" "is_writable ?pde" by simp_all
  have "(flag_present OR flag_writable) AND 0xfffff000 = 0" by (simp add: flag_defs)
  then have pde3: "frame ?pde = ?Q" by (rule frame_pte_addr)
  note pde = pde pde3
  define M where "M = (ptmem s)
    (?P := (\<lambda>j. if j < 1024 then if j = 255 then ?pde else if 256 \<le> j then 0 else ptmem s ?c j
               else ptmem s ?P j),
     ?Q := (\<lambda>j. if j = 255 then ?pde else if 256 \<le> j \<and> j < 1024 then 0 else ptmem s ?R j))"
  define s' where "s' = s\<lparr>ptmem := M\<rparr>"
  have tp: "table_page s False 255 = Some ?R"
    using vm_inv_table(1) [OF inv, of 255] f(4) by (simp add: rec_page_def)
  define s1 where "s1 = s\<lparr>ptmem := (ptmem s)(?Q := ptmem s ?R)\<rparr>"
  have s1: "paging_enabled s1" "?P \<noteq> cur_dir s1" "?Q \<noteq> cur_dir s1" "?P \<noteq> ?Q" "cur_dir s1 = ?c"
      "ptmem s1 ?c = ptmem s ?c" "ptmem s1 ?Q = ptmem s ?R" "ptmem s1 ?P = ptmem s ?P"
    using f(1) ne fr(1) by (simp_all add: s1_def)
  have pop: "put_entry (put_entry (populate_dir s1 ?P ?Q 0 1024) ?P 255 ?pde) ?Q 255 ?pde = s'"
    unfolding populate_dir_eq [OF s1(1-4)] put_entry_def s'_def M_def
    using s1 ne fr(1) by (auto simp: s1_def fun_eq_iff)
  have run: "make_address_space s space pd rec = Some (Some \<lparr>as_pd = pd, as_pt_rec = rec\<rparr>, [], s')"
    using nz virtual_to_physical_eq [OF inv e(1)] virtual_to_physical_eq [OF inv e(2)] tp pop
    by (simp add: make_address_space_def Let_def window_tab addr_page_pte_addr make_pde_pte s1_def)
  have M: "M q = ptmem s q" if "q \<noteq> ?P" "q \<noteq> ?Q" for q using that by (simp add: M_def)
  have tabs: "frame (page_dir_entry s t) \<noteq> ?P" "frame (page_dir_entry s t) \<noteq> ?Q"
    if "t < 1024" "is_present (page_dir_entry s t)" for t
    using vm_inv_table(4) [OF inv that] fr(2,3) by auto
  have d': "page_dir_entry s' = page_dir_entry s" using ne M by (simp add: page_dir_entry_def s'_def fun_eq_iff)
  have tr: "translate s' w = translate s w" for w
  proof (cases "is_present (page_dir_entry s (addr_tab w))")
    case True
    with tabs [OF addr_tab_less True] M show ?thesis
      using d' by (simp add: translate_def Let_def page_dir_entry_def s'_def fun_eq_iff)
  next
    case False
    then have "\<not> is_present (page_dir_entry s' (addr_tab w))" by (simp add: d')
    with False show ?thesis by (simp add: translate_def page_dir_entry_def)
  qed
  let ?t = "s'\<lparr>cur_dir := ?P\<rparr>"
  have dt: "page_dir_entry ?t j = (if j = 255 then ?pde else if 256 \<le> j then 0 else page_dir_entry s j)"
    if "j < 1024" for j
    using that fr(1) by (simp add: page_dir_entry_def s'_def M_def)
  have rt: "rec_page ?t = ?Q" using dt [of 255] pde by (simp add: rec_page_def)
  have Tset: "{j. j < 1024 \<and> is_present (page_dir_entry ?t j)} =
      insert 255 {j. j < 255 \<and> is_present (page_dir_entry s j)}"
    using dt pde by (auto split: if_splits)
  have img: "(\<lambda>j. frame (page_dir_entry ?t j)) ` {j. j < 255 \<and> is_present (page_dir_entry s j)} =
      (\<lambda>j. frame (page_dir_entry s j)) ` {j. j < 255 \<and> is_present (page_dir_entry s j)}"
    using dt by (intro image_cong) auto
  have tpt: "table_pages ?t = insert ?P (insert ?Q
      ((\<lambda>j. frame (page_dir_entry s j)) ` {j. j < 255 \<and> is_present (page_dir_entry s j)}))"
    unfolding table_pages_def Tset image_insert img using dt pde by simp
  have old: "(\<lambda>j. frame (page_dir_entry s j)) ` {j. j < 255 \<and> is_present (page_dir_entry s j)} \<subseteq> table_pages s"
    by (auto simp: table_pages_def)
  have inj: "inj_on (\<lambda>j. frame (page_dir_entry ?t j)) {j. j < 1024 \<and> is_present (page_dir_entry ?t j)}"
  proof -
    have eq: "page_dir_entry ?t j = page_dir_entry s j" if "j < 255" for j using dt [of j] that by simp
    have i0: "inj_on (\<lambda>j. frame (page_dir_entry s j)) {j. j < 1024 \<and> is_present (page_dir_entry s j)}"
      using inv unfolding vm_inv_def by blast
    have "inj_on (\<lambda>j. frame (page_dir_entry s j)) {j. j < 255 \<and> is_present (page_dir_entry s j)}"
      by (rule inj_on_subset [OF i0]) auto
    then have "inj_on (\<lambda>j. frame (page_dir_entry ?t j)) {j. j < 255 \<and> is_present (page_dir_entry s j)}"
      by (simp add: inj_on_def eq)
    moreover have "?Q \<notin> (\<lambda>j. frame (page_dir_entry ?t j)) ` {j. j < 255 \<and> is_present (page_dir_entry s j)}"
      unfolding img using old fr(3) by blast
    moreover have "frame (page_dir_entry ?t 255) = ?Q" using dt pde by simp
    ultimately show ?thesis
      unfolding Tset by (intro inj_on_insertI) simp_all
  qed
  have ent: "is_present (ptmem ?t ?Q j) \<and> is_writable (ptmem ?t ?Q j) \<and>
      frame (ptmem ?t ?Q j) = frame (page_dir_entry ?t j) \<and> frame (page_dir_entry ?t j) \<noteq> cur_dir ?t"
    if j: "j < 1024" "is_present (page_dir_entry ?t j)" for j
  proof -
    have Q: "ptmem ?t ?Q j = (if j = 255 then ?pde else if 256 \<le> j then 0 else ptmem s ?R j)"
      using j(1) by (simp add: s'_def M_def)
    show ?thesis
    proof (cases "j = 255")
      case True
      with Q dt [OF j(1)] pde fr(1) show ?thesis by simp
    next
      case False
      with j dt have lt: "j < 256" "is_present (page_dir_entry s j)" by (auto split: if_splits)
      with inv j(1) have "is_present (ptmem s ?R j) \<and> is_writable (ptmem s ?R j) \<and>
        frame (ptmem s ?R j) = frame (page_dir_entry s j)" unfolding vm_inv_def by blast
      with False lt Q dt [OF j(1)] tabs(1) [OF j(1) lt(2)] show ?thesis by simp
    qed
  qed
  have free: "table_pages ?t \<inter> free_pages (phys ?t) = {}"
    unfolding tpt using old f(6) fr(4,5) by (auto simp: s'_def)
  have invt: "vm_inv ?t"
    unfolding vm_inv_def rt using ent inj free f(1,2,3) dt [of 255] pde by (simp add: s'_def)
  have kern: "translate ?t w = translate s w" if "addr_tab w < 255" for w
  proof -
    have "page_dir_entry ?t (addr_tab w) = page_dir_entry s (addr_tab w)" using dt [OF addr_tab_less] that by simp
    moreover have "ptmem ?t (frame (page_dir_entry s (addr_tab w))) = ptmem s (frame (page_dir_entry s (addr_tab w)))"
      if "is_present (page_dir_entry s (addr_tab w))"
      using tabs [OF addr_tab_less that] M by (simp add: s'_def)
    ultimately show ?thesis unfolding translate_dir by (simp cong: if_cong)
  qed
  have usr: "translate ?t w = None" if "256 \<le> addr_tab w" for w
    using dt [OF addr_tab_less, of w] that by (simp only: translate_dir) simp
  show ?thesis
    using run tr invt kern usr by (intro exI [of _ s']) (simp add: s'_def)
qed

text \<open>The two heap pages of the instance are mapped at \<open>0x401000\<close> and \<open>0x402000\<close>.\<close>

lemma vm_example_heap:
  "translate vm_example 0x401000 = Some 0x5c003" "translate vm_example 0x402000 = Some 0x5d003"
proof -
  have v: "addr_tab 0x401000 = 1" "addr_pagei 0x401000 = 1" "addr_tab 0x402000 = 1" "addr_pagei 0x402000 = 2"
    by (simp_all add: addr_tab_nat addr_pagei_nat)
  then show "translate vm_example 0x401000 = Some 0x5c003" "translate vm_example 0x402000 = Some 0x5d003"
    by (simp_all add: translate_def vm_example_def entry_facts)
qed

theorem make_address_space_isolates_witness:
  "\<exists>s'. make_address_space vm_example 0x400100 0x401000 0x402000 =
       Some (Some \<lparr>as_pd = 0x401000, as_pt_rec = 0x402000\<rparr>, [], s') \<and>
     translate (s'\<lparr>cur_dir := 92\<rparr>) 0x401000 = Some 0x5c003 \<and>
     translate (s'\<lparr>cur_dir := 92\<rparr>) 0x40001000 = None"
proof -
  have ph: "phys vm_example = pmm_example" by (simp add: vm_example_def)
  have v: "addr_tab 0x401000 < 255" "256 \<le> addr_tab 0x40001000" by (simp_all add: addr_tab_nat)
  have "\<exists>s'. make_address_space vm_example 0x400100 0x401000 0x402000 =
      Some (Some \<lparr>as_pd = 0x401000, as_pt_rec = 0x402000\<rparr>, [], s') \<and>
    phys s' = phys vm_example \<and> cur_dir s' = cur_dir vm_example \<and>
    (\<forall>w. translate s' w = translate vm_example w) \<and>
    vm_inv (s'\<lparr>cur_dir := frame 0x5c003\<rparr>) \<and>
    (\<forall>w. addr_tab w < 255 \<longrightarrow> translate (s'\<lparr>cur_dir := frame 0x5c003\<rparr>) w = translate vm_example w) \<and>
    (\<forall>w. 256 \<le> addr_tab w \<longrightarrow> translate (s'\<lparr>cur_dir := frame 0x5c003\<rparr>) w = None)"
    by (rule make_address_space_isolates [OF vm_example_inv _ _ _ vm_example_heap])
      (simp_all add: entry_facts vm_example_tables ph pmm_example_free)
  then show ?thesis using v vm_example_heap unfolding entry_facts by metis
qed

end
