(* ===== verification/AddrSpace.thy ===== *)
theory AddrSpace
  imports VirtMem
begin

text \<open>
  What \<open>delete_address_space\<close> gives back and what \<open>init\<close> sets up, two loops over the
  whole of a page directory (memory/manager-virtual.cc).
\<close>

section \<open>Deleting an address space\<close>

text \<open>The frames that entries \<open>j ..< j + n\<close> of table page \<open>p\<close> own.\<close>

definition owned_frames :: "vmm \<Rightarrow> nat \<Rightarrow> nat set \<Rightarrow> nat set" where
  "owned_frames s p js =
     {frame (ptmem s p j) | j. j \<in> js \<and> is_present (ptmem s p j) \<and> \<not> is_borrowed (ptmem s p j)}"

text \<open>The frames that the user part of directory \<open>pd\<close> owns: tables and mapped pages.\<close>

definition user_frames :: "vmm \<Rightarrow> nat \<Rightarrow> nat set \<Rightarrow> nat set" where
  "user_frames s pd ts =
     (\<Union>t \<in> {t \<in> ts. 256 \<le> t \<and> is_present (ptmem s pd t)}.
        insert (frame (ptmem s pd t)) (owned_frames s (frame (ptmem s pd t)) {0..<1024}))"

lemma owned_frames_insert:
  "owned_frames s p (insert j js) =
     (if is_present (ptmem s p j) \<and> \<not> is_borrowed (ptmem s p j)
      then insert (frame (ptmem s p j)) (owned_frames s p js) else owned_frames s p js)"
  by (auto simp: owned_frames_def)

lemma user_frames_insert:
  "user_frames s pd (insert t ts) =
     (if 256 \<le> t \<and> is_present (ptmem s pd t)
      then insert (frame (ptmem s pd t)) (owned_frames s (frame (ptmem s pd t)) {0..<1024})
           \<union> user_frames s pd ts
      else user_frames s pd ts)"
  by (auto simp: user_frames_def)

lemma frames_phys [simp]:
  "owned_frames (s\<lparr>phys := ph\<rparr>) = owned_frames s" "user_frames (s\<lparr>phys := ph\<rparr>) = user_frames s"
  by (auto simp: owned_frames_def user_frames_def fun_eq_iff)

lemma interval_Suc: "{j..<j + Suc n} = insert j {j + 1..<j + 1 + n}"
  by auto

lemma free_table_pages_spec:
  assumes "pmm_inv (phys s)" "owned_frames s p {j..<j + n} \<subseteq> managed_pages (phys s)"
  shows "\<exists>ph. free_table_pages s p j n = Some (s\<lparr>phys := ph\<rparr>) \<and> pmm_inv ph \<and>
    managed_pages ph = managed_pages (phys s) \<and>
    free_pages ph = free_pages (phys s) \<union> owned_frames s p {j..<j + n}"
  using assms
proof (induction n arbitrary: s j)
  case 0
  have "owned_frames s p {} = {}" by (simp add: owned_frames_def)
  with 0 show ?case by (intro exI [of _ "phys s"]) simp
next
  case (Suc n)
  show ?case
  proof (cases "is_present (ptmem s p j) \<and> \<not> is_borrowed (ptmem s p j)")
    case False
    with Suc.prems have "owned_frames s p {j + 1..<j + 1 + n} \<subseteq> managed_pages (phys s)"
      unfolding interval_Suc owned_frames_insert by (simp only: if_False)
    from Suc.IH [OF Suc.prems(1) this] False show ?thesis
      unfolding interval_Suc owned_frames_insert by (auto simp: Let_def)
  next
    case True
    with Suc.prems(2) have m: "frame (ptmem s p j) \<in> managed_pages (phys s)"
        "owned_frames s p {j + 1..<j + 1 + n} \<subseteq> managed_pages (phys s)"
      unfolding interval_Suc owned_frames_insert by auto
    from pp.dealloc_page [OF Suc.prems(1) m(1)] obtain ph where ph:
      "free_one (phys s) (frame (ptmem s p j)) = Some ph" "pmm_inv ph"
      "free_pages ph = insert (frame (ptmem s p j)) (free_pages (phys s))"
      "managed_pages ph = managed_pages (phys s)" by blast
    let ?s = "s\<lparr>phys := ph\<rparr>"
    have "owned_frames ?s p {j + 1..<j + 1 + n} \<subseteq> managed_pages (phys ?s)" using m(2) ph(4) by simp
    from Suc.IH [OF _ this] ph obtain ph' where ph':
      "free_table_pages ?s p (j + 1) n = Some (s\<lparr>phys := ph'\<rparr>)" "pmm_inv ph'"
      "managed_pages ph' = managed_pages (phys s)"
      "free_pages ph' = free_pages ph \<union> owned_frames s p {j + 1..<j + 1 + n}" by auto
    have "free_table_pages s p j (Suc n) = Some (s\<lparr>phys := ph'\<rparr>)"
      using True ph(1) ph'(1) by (simp add: Let_def frame_def [symmetric])
    moreover have "free_pages ph' = free_pages (phys s) \<union> owned_frames s p {j..<j + Suc n}"
      unfolding interval_Suc owned_frames_insert using True ph ph' by simp
    ultimately show ?thesis using ph' by blast
  qed
qed

lemma free_tables_spec:
  assumes "pmm_inv (phys s)" "user_frames s pd {i..<i + n} \<subseteq> managed_pages (phys s)"
    and "\<And>t. t \<in> {i..<i + n} \<Longrightarrow> 256 \<le> t \<Longrightarrow> is_present (ptmem s pd t) \<Longrightarrow>
      table_page s False t = Some (frame (ptmem s pd t))"
  shows "\<exists>ph. free_tables s pd i n = Some (s\<lparr>phys := ph\<rparr>) \<and> pmm_inv ph \<and>
    managed_pages ph = managed_pages (phys s) \<and>
    free_pages ph = free_pages (phys s) \<union> user_frames s pd {i..<i + n}"
  using assms
proof (induction n arbitrary: s i)
  case 0
  have "user_frames s pd {} = {}" by (simp add: user_frames_def)
  with 0 show ?case by (intro exI [of _ "phys s"]) simp
next
  case (Suc n)
  have tabs: "table_page s False t = Some (frame (ptmem s pd t))"
    if "t \<in> {i + 1..<i + 1 + n}" "256 \<le> t" "is_present (ptmem s pd t)" for t
    by (rule Suc.prems(3)) (use that in auto)
  show ?case
  proof (cases "256 \<le> i \<and> is_present (ptmem s pd i)")
    case False
    with Suc.prems(2) have "user_frames s pd {i + 1..<i + 1 + n} \<subseteq> managed_pages (phys s)"
      unfolding interval_Suc user_frames_insert by (simp only: if_False)
    from Suc.IH [OF Suc.prems(1) this tabs] False show ?thesis
      unfolding interval_Suc user_frames_insert by (auto simp: Let_def)
  next
    case True
    let ?p = "frame (ptmem s pd i)"
    from True Suc.prems(2) have m: "?p \<in> managed_pages (phys s)"
        "owned_frames s ?p {0..<0 + 1024} \<subseteq> managed_pages (phys s)"
        "user_frames s pd {i + 1..<i + 1 + n} \<subseteq> managed_pages (phys s)"
      unfolding interval_Suc user_frames_insert by auto
    from free_table_pages_spec [OF Suc.prems(1) m(2)] obtain ph where ph:
      "free_table_pages s ?p 0 1024 = Some (s\<lparr>phys := ph\<rparr>)" "pmm_inv ph"
      "managed_pages ph = managed_pages (phys s)"
      "free_pages ph = free_pages (phys s) \<union> owned_frames s ?p {0..<1024}" by auto
    from pp.dealloc_page [OF ph(2)] m(1) ph(3) obtain ph1 where ph1:
      "free_one ph ?p = Some ph1" "pmm_inv ph1" "free_pages ph1 = insert ?p (free_pages ph)"
      "managed_pages ph1 = managed_pages ph" by blast
    let ?s = "s\<lparr>phys := ph1\<rparr>"
    have "user_frames ?s pd {i + 1..<i + 1 + n} \<subseteq> managed_pages (phys ?s)"
      using m(3) ph(3) ph1(4) by simp
    from Suc.IH [OF _ this] ph1 tabs obtain ph' where ph':
      "free_tables ?s pd (i + 1) n = Some (s\<lparr>phys := ph'\<rparr>)" "pmm_inv ph'"
      "managed_pages ph' = managed_pages ph1"
      "free_pages ph' = free_pages ph1 \<union> user_frames s pd {i + 1..<i + 1 + n}" by auto
    have "table_page s False i = Some ?p" by (rule Suc.prems(3)) (use True in auto)
    then have "free_tables s pd i (Suc n) = Some (s\<lparr>phys := ph'\<rparr>)"
      using True ph(1) ph1(1) ph'(1) by (simp add: Let_def frame_def pde_addr_def pte_addr_def)
    moreover have "free_pages ph' = free_pages (phys s) \<union> user_frames s pd {i..<i + Suc n}"
      unfolding interval_Suc user_frames_insert using True ph ph1 ph' by auto
    ultimately show ?thesis using ph' ph1 ph by auto
  qed
qed

text \<open>
  C8: \<open>delete_address_space\<close> gives back exactly what the address space owns: the free pages
  afterwards are those before plus its user page tables plus every present page mapped there
  without the \<open>borrowed\<close> flag; the kernel part is left alone, the processor is back on the
  directory it came from, and the three heap blocks are returned for deletion.
\<close>

theorem delete_address_space_frees_owned:
  assumes inv: "vm_inv s" and old: "translate s (cur_dir_ptr s) = Some e0" "frame e0 = cur_dir s"
      "pte_addr e0 \<noteq> 0"
    and new: "translate s (as_pd a) = Some e1" "pte_addr e1 \<noteq> 0"
      "vm_inv (s\<lparr>cur_dir := frame e1, cur_dir_ptr := as_pd a\<rparr>)"
      "translate (s\<lparr>cur_dir := frame e1, cur_dir_ptr := as_pd a\<rparr>) (cur_dir_ptr s) = Some e0"
    and own: "user_frames s (frame e1) {0..<1024} \<subseteq> managed_pages (phys s)"
  shows "\<exists>ph. delete_address_space s space a =
      Some ([as_pd a, as_pt_rec a, space], s\<lparr>phys := ph\<rparr>) \<and> pmm_inv ph \<and>
    free_pages ph = free_pages (phys s) \<union> user_frames s (frame e1) {0..<1024}"
proof -
  let ?t = "s\<lparr>cur_dir := frame e1, cur_dir_ptr := as_pd a\<rparr>"
  have uf: "user_frames ?t = user_frames s"
    by (auto simp: user_frames_def owned_frames_def fun_eq_iff)
  have sw: "set_pagedir s (as_pd a) = Some ?t"
    using new(2) by (simp add: set_pagedir_def virtual_to_physical_eq [OF inv new(1)] addr_page_pte_addr)
  have tabs: "table_page ?t False t = Some (frame (ptmem ?t (frame e1) t))"
    if "t \<in> {0..<0 + 1024}" "256 \<le> t" "is_present (ptmem ?t (frame e1) t)" for t
    using vm_inv_table(1) [OF new(3), of t False] that by (simp add: page_dir_entry_def)
  have "user_frames ?t (frame e1) {0..<0 + 1024} \<subseteq> managed_pages (phys ?t)" using own uf by simp
  from free_tables_spec [OF vm_invD(2) [OF new(3)] this tabs] obtain ph where ph:
    "free_tables ?t (frame e1) 0 1024 = Some (?t\<lparr>phys := ph\<rparr>)" "pmm_inv ph"
    "free_pages ph = free_pages (phys s) \<union> user_frames s (frame e1) {0..<1024}" using uf by auto
  have v: "virtual_to_physical (?t\<lparr>phys := ph\<rparr>) (cur_dir_ptr s) = virtual_to_physical ?t (cur_dir_ptr s)"
    by (simp add: virtual_to_physical_def get_tab_def current_dir_def Let_def table_page_def)
  have "set_pagedir (?t\<lparr>phys := ph\<rparr>) (cur_dir_ptr s) = Some (s\<lparr>phys := ph\<rparr>)"
    unfolding set_pagedir_def v virtual_to_physical_eq [OF new(3,4)]
    using old(2,3) by (simp add: addr_page_pte_addr)
  with sw ph show ?thesis
    using vm_invD(1) [OF inv]
    by (intro exI [of _ ph]) (simp add: delete_address_space_def Let_def current_dir_ptr_def)
qed

text \<open>The instance: a space whose directory is page 92 and recursive table page 93, made from
  the example space, with one user page it owns (page 40, whose table is page 41).\<close>

definition two_spaces :: vmm where
  "two_spaces = vm_example\<lparr>cur_dir_ptr := 0x403000, ptmem := (ptmem vm_example)
     (11 := (ptmem vm_example 11)(3 := 0x8003),
      92 := (\<lambda>i. if i = 255 then 0x5d003 else if i = 1 then 0xb003 else if i = 300 then 0x29007 else 0),
      93 := (\<lambda>i. if i = 255 then 0x5d003 else if i = 1 then 0xb003 else if i = 300 then 0x29003 else 0),
      41 := (\<lambda>i. if i = 7 then 0x28007 else if i = 8 then 0xb8207 else 0))\<rparr>"

lemma entry_facts2:
  "is_present 0x8003" "frame 0x8003 = 8" "is_present 0x29007" "is_present 0x29003"
  "is_writable 0x29003" "frame 0x29007 = 41" "frame 0x29003 = 41" "is_present 0x28007"
  "\<not> is_borrowed 0x28007" "frame 0x28007 = 40" "is_present 0xb8207" "is_borrowed 0xb8207"
  "is_present 0x5d003" "is_writable 0x5d003" "pte_addr 0x8003 = 0x8000" "pte_addr 0x5c003 = 0x5c000"
  by code_simp+

lemma two_spaces_dirs:
  "page_dir_entry two_spaces t = page_dir_entry vm_example t"
  "page_dir_entry (two_spaces\<lparr>cur_dir := 92, cur_dir_ptr := x\<rparr>) t =
    (if t = 255 then 0x5d003 else if t = 1 then 0xb003 else if t = 300 then 0x29007 else 0)"
  by (auto simp: page_dir_entry_def two_spaces_def vm_example_def)

lemma two_spaces_phys: "phys two_spaces = pmm_example" "paging_enabled two_spaces" "cur_dir two_spaces = 8"
  by (simp_all add: two_spaces_def vm_example_def)

lemma two_spaces_mem:
  "ptmem two_spaces 9 t = ptmem vm_example 9 t"
  "ptmem two_spaces 93 t =
    (if t = 255 then 0x5d003 else if t = 1 then 0xb003 else if t = 300 then 0x29003 else 0)"
  by (simp_all add: two_spaces_def)

lemma two_spaces_inv: "vm_inv two_spaces"
proof -
  have tp: "table_pages two_spaces = table_pages vm_example"
    by (simp add: table_pages_def two_spaces_dirs two_spaces_phys) (simp add: vm_example_def)
  have r: "rec_page two_spaces = 9" "rec_page vm_example = 9" "cur_dir vm_example = 8"
    by (simp_all add: rec_page_def two_spaces_dirs vm_example_dir entry_facts, simp add: vm_example_def)
  have vp: "phys vm_example = pmm_example" "paging_enabled vm_example" by (simp_all add: vm_example_def)
  show ?thesis
    using vm_example_inv
    unfolding vm_inv_def two_spaces_phys vp tp two_spaces_dirs r two_spaces_mem
    by (simp add: two_spaces_phys)
qed

lemma two_spaces_inv2: "vm_inv (two_spaces\<lparr>cur_dir := 92, cur_dir_ptr := x\<rparr>)" (is "vm_inv ?s")
proof -
  have T: "{t. t < 1024 \<and> is_present (page_dir_entry ?s t)} = {1, 255, 300}"
    by (auto simp: two_spaces_dirs entry_facts entry_facts2)
  have tp: "table_pages ?s = {92, 93, 11, 41}"
    unfolding table_pages_def T
    by (simp add: two_spaces_dirs entry_facts entry_facts2 insert_commute)
  have r: "rec_page ?s = 93" by (simp add: rec_page_def two_spaces_dirs entry_facts)
  have ph: "phys ?s = pmm_example" "paging_enabled ?s" "cur_dir ?s = 92" "ptmem ?s = ptmem two_spaces"
    using two_spaces_phys by simp_all
  have "length (bitmap pmm_example) \<le> 32768" by (simp add: pmm_example_def)
  then show ?thesis
    unfolding vm_inv_def T r ph tp pmm_example_free
    by (auto simp: two_spaces_dirs entry_facts entry_facts2 pmm_example_inv inj_on_def two_spaces_mem
      two_spaces_phys split: if_splits)
qed

lemma two_spaces_translate:
  "translate two_spaces 0x403000 = Some 0x8003" "translate two_spaces 0x401000 = Some 0x5c003"
  "translate (two_spaces\<lparr>cur_dir := 92, cur_dir_ptr := x\<rparr>) 0x403000 = Some 0x8003"
proof -
  have v: "addr_tab 0x401000 = 1" "addr_pagei 0x401000 = 1" "addr_tab 0x403000 = 1" "addr_pagei 0x403000 = 3"
    by (simp_all add: addr_tab_nat addr_pagei_nat)
  show "translate two_spaces 0x403000 = Some 0x8003" "translate two_spaces 0x401000 = Some 0x5c003"
    "translate (two_spaces\<lparr>cur_dir := 92, cur_dir_ptr := x\<rparr>) 0x403000 = Some 0x8003"
    by (simp_all add: translate_dir two_spaces_dirs v vm_example_dir entry_facts entry_facts2)
      (simp_all add: two_spaces_def vm_example_def entry_facts entry_facts2)
qed

lemma two_spaces_user: "user_frames two_spaces 92 {0..<1024} = {41, 40}"
proof -
  have T: "{t \<in> {0..<1024}. 256 \<le> t \<and> is_present (ptmem two_spaces 92 t)} = {300}"
    by (auto simp: two_spaces_def entry_facts2 split: if_splits)
  have "ptmem two_spaces 92 300 = 0x29007" by (simp add: two_spaces_def)
  moreover have "owned_frames two_spaces 41 {0..<1024} = {40}"
    by (auto simp: owned_frames_def two_spaces_def entry_facts2 split: if_splits intro!: exI [of _ 7])
  ultimately show ?thesis unfolding user_frames_def T by (simp add: entry_facts2)
qed

theorem delete_address_space_frees_owned_witness:
  "\<exists>ph. delete_address_space two_spaces 0x400100 \<lparr>as_pd = 0x401000, as_pt_rec = 0x402000\<rparr> =
      Some ([0x401000, 0x402000, 0x400100], two_spaces\<lparr>phys := ph\<rparr>) \<and>
    free_pages ph = {34, 36, 64} \<union> {41, 40}"
proof -
  let ?a = "\<lparr>as_pd = 0x401000, as_pt_rec = 0x402000\<rparr>"
  have p: "cur_dir_ptr two_spaces = 0x403000" by (simp add: two_spaces_def)
  have "managed_pages (phys two_spaces) = {0<..<96}"
    by (auto simp: managed_pages_def two_spaces_phys pmm_example_def)
  then have "user_frames two_spaces (frame 0x5c003) {0..<1024} \<subseteq> managed_pages (phys two_spaces)"
    by (simp add: entry_facts two_spaces_user)
  then have "\<exists>ph. delete_address_space two_spaces 0x400100 ?a =
      Some ([as_pd ?a, as_pt_rec ?a, 0x400100], two_spaces\<lparr>phys := ph\<rparr>) \<and> pmm_inv ph \<and>
    free_pages ph = free_pages (phys two_spaces) \<union> user_frames two_spaces (frame 0x5c003) {0..<1024}"
    by (intro delete_address_space_frees_owned [OF two_spaces_inv, where ?e0.0 = "0x8003"])
      (simp_all add: p two_spaces_translate entry_facts entry_facts2 two_spaces_phys two_spaces_inv2)
  then show ?thesis
    by (simp add: entry_facts two_spaces_user two_spaces_phys pmm_example_free) blast
qed

section \<open>The kernel's initial mappings\<close>

text \<open>The address of entry \<open>k\<close> of table \<open>t\<close>, and the entry \<open>init\<close> puts there.\<close>

definition entry_addr :: "nat \<Rightarrow> nat \<Rightarrow> nat" where
  "entry_addr t k = t * 0x400000 + k * 0x1000"

definition identity_entry :: "u32 \<Rightarrow> nat \<Rightarrow> nat \<Rightarrow> u32 \<Rightarrow> u32" where
  "identity_entry image_end t k old =
     (if 0 < entry_addr t k \<and> entry_addr t k < unat image_end
      then make_pte (of_nat (entry_addr t k)) (flag_present OR flag_writable) else old)"

lemma entry_addr_bound: "t < 256 \<Longrightarrow> k < 1024 \<Longrightarrow> entry_addr t k < 2 ^ 32"
  by (simp add: entry_addr_def)

lemma of_nat_entry_less:
  assumes "t < 256" "k < 1024"
  shows "(of_nat (entry_addr t k) :: u32) < e \<longleftrightarrow> entry_addr t k < unat e"
    and "(of_nat (entry_addr t k) :: u32) = 0 \<longleftrightarrow> entry_addr t k = 0"
proof -
  have u: "unat (of_nat (entry_addr t k) :: u32) = entry_addr t k"
    using entry_addr_bound [OF assms] by (intro unat_of_nat_small) simp
  then show "(of_nat (entry_addr t k) :: u32) < e \<longleftrightarrow> entry_addr t k < unat e"
    by (simp only: word_less_nat_alt)
  show "(of_nat (entry_addr t k) :: u32) = 0 \<longleftrightarrow> entry_addr t k = 0"
    by (simp only: unat_eq_zero [symmetric] u)
qed

lemma init_pages_eq:
  assumes "i < 256" "j + n \<le> 1024"
  shows "init_pages s e i j n = s\<lparr>ptmem := (ptmem s)(kernel_tabs s + i :=
    (\<lambda>k. if j \<le> k \<and> k < j + n then identity_entry e i k (ptmem s (kernel_tabs s + i) k)
         else ptmem s (kernel_tabs s + i) k))\<rparr>"
  using assms
proof (induction n arbitrary: s j)
  case 0
  have "(\<lambda>k. if j \<le> k \<and> k < j then x k else y k) = y" for x y :: "nat \<Rightarrow> u32" by (rule ext) auto
  then show ?case by simp
next
  case (Suc n)
  let ?p = "kernel_tabs s + i"
  have j: "j < 1024" using Suc.prems by simp
  note lt = of_nat_entry_less [OF Suc.prems(1) j]
  have code: "init_pages s e i j (Suc n) =
      (if entry_addr i j < unat e
       then init_pages (if entry_addr i j = 0 then s else put_entry s ?p j
         (make_pte (of_nat (entry_addr i j)) (flag_present OR flag_writable))) e i (j + 1) n
       else s)"
    using lt(1) [of e] lt(2) by (simp add: Let_def entry_addr_def [symmetric])
  show ?case
  proof (cases "entry_addr i j < unat e")
    case False
    then have "identity_entry e i k old = old" if "j \<le> k" for k old
      using that by (simp add: identity_entry_def entry_addr_def)
    then have "(\<lambda>k. if j \<le> k \<and> k < j + Suc n then identity_entry e i k (ptmem s ?p k)
        else ptmem s ?p k) = ptmem s ?p" by (rule_tac ext) simp
    with False code show ?thesis by simp
  next
    case True
    define t where "t = (if entry_addr i j = 0 then s else put_entry s ?p j
         (make_pte (of_nat (entry_addr i j)) (flag_present OR flag_writable)))"
    have t: "kernel_tabs t = kernel_tabs s" "t = s\<lparr>ptmem := ptmem t\<rparr>"
        "ptmem t = (ptmem s)(?p := (ptmem s ?p)(j := identity_entry e i j (ptmem s ?p j)))"
      using True by (auto simp: t_def put_entry_def identity_entry_def)
    have "init_pages s e i j (Suc n) = init_pages t e i (j + 1) n"
      using True code by (simp add: t_def)
    also have "\<dots> = t\<lparr>ptmem := (ptmem t)(?p :=
        (\<lambda>k. if j + 1 \<le> k \<and> k < j + 1 + n then identity_entry e i k (ptmem t ?p k)
             else ptmem t ?p k))\<rparr>"
      using Suc.IH [of "j + 1" t] Suc.prems unfolding t(1) by (simp add: fun_upd_def)
    also have "t\<lparr>ptmem := m\<rparr> = s\<lparr>ptmem := m\<rparr>" for m by (subst t(2)) simp
    also have "(ptmem t)(?p := (\<lambda>k. if j + 1 \<le> k \<and> k < j + 1 + n
          then identity_entry e i k (ptmem t ?p k) else ptmem t ?p k)) =
        (ptmem s)(?p := (\<lambda>k. if j \<le> k \<and> k < j + Suc n
          then identity_entry e i k (ptmem s ?p k) else ptmem s ?p k))"
      unfolding t(3) by (auto simp: fun_eq_iff)
    finally show ?thesis .
  qed
qed

lemma identity_entry_high:
  "unat e \<le> 0x30000000 \<Longrightarrow> 192 \<le> t \<Longrightarrow> identity_entry e t k old = old"
  by (simp add: identity_entry_def entry_addr_def)

lemma init_tabs_eq:
  assumes "i + n \<le> 256" "unat e \<le> 0x30000000"
    and "kernel_dir s < kernel_tabs s \<or> kernel_tabs s + 256 \<le> kernel_dir s"
  shows "\<exists>m. init_tabs s e i n = s\<lparr>ptmem := m\<rparr> \<and>
    (\<forall>q k. k < 1024 \<longrightarrow> m q k =
       (if q = kernel_dir s \<and> i \<le> k \<and> k < i + n \<or> q = kernel_tabs s + 255 \<and> i \<le> k \<and> k < i + n
        then make_pte (page_addr (kernel_tabs s + k)) (flag_present OR flag_writable)
        else if kernel_tabs s + i \<le> q \<and> q < kernel_tabs s + i + n
        then identity_entry e (q - kernel_tabs s) k (ptmem s q k)
        else ptmem s q k))"
  using assms
proof (induction n arbitrary: s i)
  case 0
  then show ?case by (intro exI [of _ "ptmem s"]) auto
next
  case (Suc n)
  let ?kd = "kernel_dir s" and ?kt = "kernel_tabs s"
  let ?e = "make_pte (page_addr (?kt + i)) (flag_present OR flag_writable)"
  define t where "t = put_entry (put_entry s ?kd i ?e) (?kt + 255) i ?e"
  have t: "kernel_tabs t = ?kt" "kernel_dir t = ?kd" "t = s\<lparr>ptmem := ptmem t\<rparr>"
      "\<And>q k. ptmem t q k = (if (q = ?kd \<or> q = ?kt + 255) \<and> k = i then ?e else ptmem s q k)"
    by (auto simp: t_def put_entry_def)
  define u where "u = init_pages t e i 0 1024"
  have u: "u = t\<lparr>ptmem := (ptmem t)(?kt + i := (\<lambda>k. if k < 1024
      then identity_entry e i k (ptmem t (?kt + i) k) else ptmem t (?kt + i) k))\<rparr>"
    using init_pages_eq [of i 0 1024 t e] Suc.prems(1) unfolding t(1) by (simp add: u_def)
  have uk: "kernel_tabs u = ?kt" "kernel_dir u = ?kd" using u t by simp_all
  have um: "ptmem u q k = (if (q = ?kd \<or> q = ?kt + 255) \<and> k = i then ?e
      else if q = ?kt + i then identity_entry e i k (ptmem s q k) else ptmem s q k)"
    if "k < 1024" for q k
  proof (cases "q = ?kt + i")
    case False
    then show ?thesis using u t by simp
  next
    case True
    then have "ptmem u q k = identity_entry e i k (ptmem t q k)" using u that by simp
    also have "q \<noteq> ?kd" using True Suc.prems(1,3) by auto
    with t True have "identity_entry e i k (ptmem t q k) =
        (if q = ?kt + 255 \<and> k = i then identity_entry e i k ?e else identity_entry e i k (ptmem s q k))"
      by simp
    finally show ?thesis
      using True \<open>q \<noteq> ?kd\<close> identity_entry_high [OF Suc.prems(2), of 255] by auto
  qed
  have run: "init_tabs s e i (Suc n) = init_tabs u e (i + 1) n"
    by (simp add: Let_def u_def t_def make_pde_pte) (simp add: put_entry_def)
  from Suc.IH [of "i + 1" u] Suc.prems uk obtain m where m:
    "init_tabs u e (i + 1) n = u\<lparr>ptmem := m\<rparr>"
    "\<forall>q k. k < 1024 \<longrightarrow> m q k =
       (if q = ?kd \<and> i + 1 \<le> k \<and> k < i + 1 + n \<or> q = ?kt + 255 \<and> i + 1 \<le> k \<and> k < i + 1 + n
        then make_pte (page_addr (?kt + k)) (flag_present OR flag_writable)
        else if ?kt + (i + 1) \<le> q \<and> q < ?kt + (i + 1) + n
        then identity_entry e (q - ?kt) k (ptmem u q k)
        else ptmem u q k)" by auto
  have us: "u\<lparr>ptmem := m\<rparr> = s\<lparr>ptmem := m\<rparr>" unfolding u by (subst t(3)) simp
  have mm: "m q k =
       (if q = ?kd \<and> i \<le> k \<and> k < i + Suc n \<or> q = ?kt + 255 \<and> i \<le> k \<and> k < i + Suc n
        then make_pte (page_addr (?kt + k)) (flag_present OR flag_writable)
        else if ?kt + i \<le> q \<and> q < ?kt + i + Suc n
        then identity_entry e (q - ?kt) k (ptmem s q k)
        else ptmem s q k)" if k: "k < 1024" for q k
  proof (cases "(q = ?kd \<or> q = ?kt + 255) \<and> i \<le> k \<and> k < i + Suc n")
    case True
    show ?thesis
    proof (cases "k = i")
      case True
      have "identity_entry e (q - ?kt) k ?e = ?e" if "q = ?kt + 255"
        using that identity_entry_high [OF Suc.prems(2), of 255] by simp
      moreover have "q \<noteq> ?kd \<or> \<not> (?kt + (i + 1) \<le> q \<and> q < ?kt + (i + 1) + n)"
        using Suc.prems by auto
      ultimately show ?thesis using True \<open>(q = ?kd \<or> q = ?kt + 255) \<and> i \<le> k \<and> k < i + Suc n\<close> m(2) k um [OF k, of q] by auto
    qed (use True m(2) k in auto)
  next
    case False
    then have no: "\<not> (q = ?kd \<and> i + 1 \<le> k \<and> k < i + 1 + n \<or> q = ?kt + 255 \<and> i + 1 \<le> k \<and> k < i + 1 + n)"
        "\<not> ((q = ?kd \<or> q = ?kt + 255) \<and> k = i)" by auto
    have m': "m q k = (if ?kt + (i + 1) \<le> q \<and> q < ?kt + (i + 1) + n
        then identity_entry e (q - ?kt) k (ptmem u q k) else ptmem u q k)"
      using m(2) [rule_format, OF k, of q] unfolding if_not_P [OF no(1)] .
    have u': "ptmem u q k = (if q = ?kt + i then identity_entry e i k (ptmem s q k) else ptmem s q k)"
      using um [OF k, of q] no(2) by simp
    have r: "\<not> (q = ?kd \<and> i \<le> k \<and> k < i + Suc n \<or> q = ?kt + 255 \<and> i \<le> k \<and> k < i + Suc n)"
      using False by blast
    show ?thesis unfolding m' u' if_not_P [OF r] by auto
  qed
  show ?case
    by (rule exI [of _ m], rule conjI, simp only: run m(1) us, intro allI impI, rule mm)
qed

text \<open>
  \<open>init\<close>. Started with cleared structures that are no free pages, it switches to the kernel
  directory and turns paging on; the recursive mapping is consistent; every kernel address
  from 4 KiB up to the start of the heap maps to the equal physical address, present and
  writable for the kernel only; the null page, the rest of kernel memory and all of user
  memory are not mapped.
\<close>

theorem vm_init_identity:
  assumes off: "\<not> paging_enabled s" and ph: "pmm_inv (phys s)" "length (bitmap (phys s)) \<le> 32768"
    and place: "0 < kernel_dir s" "kernel_dir s < 2 ^ 20" "0 < kernel_tabs s" "kernel_tabs s + 256 \<le> 2 ^ 20"
      "kernel_dir s < kernel_tabs s \<or> kernel_tabs s + 256 \<le> kernel_dir s"
    and nofree: "\<forall>q \<in> free_pages (phys s). q \<noteq> kernel_dir s \<and> (q < kernel_tabs s \<or> kernel_tabs s + 256 \<le> q)"
    and zero: "\<forall>q k. k < 1024 \<and> (q = kernel_dir s \<or> kernel_tabs s \<le> q \<and> q < kernel_tabs s + 256) \<longrightarrow>
      ptmem s q k = 0"
    and hs: "unat hstart \<le> 0x30000000"
  shows "\<exists>s'. vm_init s hstart = Some s' \<and> vm_inv s' \<and> phys s' = phys s \<and>
    (\<forall>v. addr_tab v < 255 \<longrightarrow> translate s' v =
      (let a = addr_page v * 0x1000 in
       if 0 < a \<and> a < unat hstart
       then Some (make_pte (of_nat a) (flag_present OR flag_writable)) else None)) \<and>
    (\<forall>v. 256 \<le> addr_tab v \<longrightarrow> translate s' v = None)"
proof -
  let ?kd = "kernel_dir s" and ?kt = "kernel_tabs s"
  let ?pw = "flag_present OR flag_writable"
  have "(0::nat) + 256 \<le> 256" by simp
  from init_tabs_eq [OF this hs place(5)] obtain m where m0:
    "init_tabs s hstart 0 256 = s\<lparr>ptmem := m\<rparr>"
    "\<forall>q k. k < 1024 \<longrightarrow> m q k =
       (if q = ?kd \<and> 0 \<le> k \<and> k < 0 + 256 \<or> q = ?kt + 255 \<and> 0 \<le> k \<and> k < 0 + 256
        then make_pte (page_addr (?kt + k)) ?pw
        else if ?kt + 0 \<le> q \<and> q < ?kt + 0 + 256
        then identity_entry hstart (q - ?kt) k (ptmem s q k) else ptmem s q k)" by blast
  have m2: "m q k =
       (if (q = ?kd \<or> q = ?kt + 255) \<and> k < 256 then make_pte (page_addr (?kt + k)) ?pw
        else if ?kt \<le> q \<and> q < ?kt + 256 then identity_entry hstart (q - ?kt) k 0
        else ptmem s q k)" if "k < 1024" for q k
    using m0(2) [rule_format, OF that, of q] zero [rule_format, of k q] that by simp
  note m = m0(1) m2
  define s' where "s' = s\<lparr>ptmem := m, cur_dir := ?kd, cur_dir_ptr := page_addr ?kd, paging_enabled := True\<rparr>"
  have "page_addr ?kd \<noteq> 0" using addr_page_page_addr [OF place(2)] place(1)
    by (metis addr_page_nat div_0 unat_0 less_irrefl)
  then have run: "vm_init s hstart = Some s'"
    using m(1) off addr_page_page_addr [OF place(2)]
    by (simp add: vm_init_def kernel_image_region_def set_pagedir_def virtual_to_physical_def s'_def Let_def)
  have d: "page_dir_entry s' t = (if t < 256 then make_pte (page_addr (?kt + t)) ?pw else 0)"
    if "t < 1024" for t
    using m(2) [OF that, of ?kd] that zero place(5) by (auto simp: page_dir_entry_def s'_def)
  have fr: "frame (make_pte (page_addr (?kt + t)) ?pw) = ?kt + t" if "t < 256" for t
    using that place(4) by simp
  have r: "rec_page s' = ?kt + 255" using d [of 255] fr [of 255] by (simp add: rec_page_def)
  have T: "{t. t < 1024 \<and> is_present (page_dir_entry s' t)} = {0..<256}"
    using d by (auto split: if_splits)
  have R: "ptmem s' (?kt + 255) t = make_pte (page_addr (?kt + t)) ?pw" if "t < 256" for t
    using m(2) [of t "?kt + 255"] that by (simp add: s'_def)
  have tp: "table_pages s' = insert ?kd ((\<lambda>t. ?kt + t) ` {0..<256})"
    unfolding table_pages_def T using d fr by (auto simp: s'_def intro!: image_cong)
  have inj: "inj_on (\<lambda>t. frame (page_dir_entry s' t)) {0..<256}"
    using d fr by (auto simp: inj_on_def)
  have inv: "vm_inv s'"
    unfolding vm_inv_def T r tp
    using ph inj nofree place(5) d fr R by (auto simp: s'_def)
  have kern: "translate s' v = (let a = addr_page v * 0x1000 in
       if 0 < a \<and> a < unat hstart then Some (make_pte (of_nat a) ?pw) else None)"
    if v: "addr_tab v < 255" for v
  proof -
    let ?t = "addr_tab v" and ?k = "addr_pagei v"
    have q: "?kt + ?t \<noteq> ?kd" "?kt + ?t \<noteq> ?kt + 255" using v place(5) by auto
    have "ptmem s' (?kt + ?t) ?k = identity_entry hstart ?t ?k 0"
      using m(2) [OF addr_pagei_less, of "?kt + ?t" v] v q by (simp add: s'_def)
    moreover have "entry_addr ?t ?k = addr_page v * 0x1000"
      by (simp add: entry_addr_def addr_page_split)
    ultimately show ?thesis
      using d [OF addr_tab_less, of v] fr [of ?t] v
      by (simp add: translate_dir identity_entry_def Let_def)
  qed
  have usr: "translate s' v = None" if "256 \<le> addr_tab v" for v
    using d [OF addr_tab_less, of v] that by (simp add: translate_dir)
  show ?thesis using run inv kern usr by (intro exI [of _ s']) (simp add: s'_def)
qed

text \<open>The instance: directory in page 256, tables from page 512, heap from 4 MiB on.\<close>

definition vm_boot :: vmm where
  "vm_boot = \<lparr>phys = pmm_example, paging_enabled = False, cur_dir = 0, cur_dir_ptr = 0,
     kernel_dir = 256, kernel_tabs = 512, ptmem = (\<lambda>p i. 0), mmio_mapped = 0\<rparr>"

theorem vm_init_identity_witness:
  "\<exists>s'. vm_init vm_boot 0x400000 = Some s' \<and> vm_inv s' \<and>
     translate s' 0x123456 = Some (make_pte 0x123000 (flag_present OR flag_writable)) \<and>
     translate s' 0x10 = None \<and> translate s' 0x40000000 = None"
proof -
  have v: "addr_tab 0x123456 = 0" "addr_tab 0x10 = 0" "addr_tab 0x40000000 = 256"
      "addr_page 0x123456 = 0x123" "addr_page 0x10 = 0"
    by (simp_all add: addr_tab_nat addr_page_nat)
  have b: "phys vm_boot = pmm_example" "\<not> paging_enabled vm_boot" "kernel_dir vm_boot = 256"
      "kernel_tabs vm_boot = 512" "ptmem vm_boot = (\<lambda>p i. 0)" by (simp_all add: vm_boot_def)
  obtain s' where s': "vm_init vm_boot 0x400000 = Some s'" "vm_inv s'"
    "\<forall>v. addr_tab v < 255 \<longrightarrow> translate s' v =
      (let a = addr_page v * 0x1000 in
       if 0 < a \<and> a < unat (0x400000 :: u32)
       then Some (make_pte (of_nat a) (flag_present OR flag_writable)) else None)"
    "\<forall>v. 256 \<le> addr_tab v \<longrightarrow> translate s' v = None"
    using vm_init_identity [of vm_boot "0x400000"]
    by (auto simp: b pmm_example_inv pmm_example_free) (auto simp: pmm_example_def)
  have "translate s' 0x123456 = Some (make_pte 0x123000 (flag_present OR flag_writable))"
    "translate s' 0x10 = None" "translate s' 0x40000000 = None"
    using s'(3) [rule_format, of "0x123456"] s'(3) [rule_format, of "0x10"]
      s'(4) [rule_format, of "0x40000000"] by (simp_all add: v)
  with s' show ?thesis by blast
qed

end
