(* ===== verification/Dll.thy ===== *)
theory Dll
  imports Prelude
begin

text \<open>
  Intrusive doubly linked lists, as the kernel uses them for the ready queue, the threads of
  a process and the nodes of the heap: \<open>nxt\<close> and \<open>prv\<close> read the link fields of the object at
  an address, 0 is the null pointer. \<open>links nxt prv b xs a\<close> says that the objects \<open>xs\<close> are
  linked in this order, the first one back to \<open>b\<close> and the last one on to \<open>a\<close>.
\<close>

fun links :: "(nat \<Rightarrow> nat) \<Rightarrow> (nat \<Rightarrow> nat) \<Rightarrow> nat \<Rightarrow> nat list \<Rightarrow> nat \<Rightarrow> bool" where
  "links nxt prv b [] a = True"
| "links nxt prv b [x] a = (prv x = b \<and> nxt x = a)"
| "links nxt prv b (x # y # xs) a = (prv x = b \<and> nxt x = y \<and> links nxt prv x (y # xs) a)"

definition first_of :: "nat list \<Rightarrow> nat \<Rightarrow> nat" where
  "first_of xs d = (case xs of [] \<Rightarrow> d | x # _ \<Rightarrow> x)"

definition last_of :: "nat \<Rightarrow> nat list \<Rightarrow> nat" where
  "last_of d xs = (if xs = [] then d else last xs)"

lemma first_of_simps [simp]: "first_of [] d = d" "first_of (x # xs) d = x"
  by (simp_all add: first_of_def)

lemma last_of_simps [simp]: "last_of d [] = d" "last_of d (xs @ [x]) = x" "last_of d [x] = x"
  by (simp_all add: last_of_def)

lemma last_of_Cons [simp]: "last_of d (x # xs) = last_of x xs"
  by (simp add: last_of_def)

lemma first_of_append: "first_of (xs @ ys) d = first_of xs (first_of ys d)"
  by (cases xs) auto

lemma last_of_append: "last_of d (xs @ ys) = last_of (last_of d xs) ys"
  by (simp add: last_of_def)

lemma links_Cons: "links n p b (x # xs) a \<longleftrightarrow> p x = b \<and> n x = first_of xs a \<and> links n p x xs a"
  by (cases xs) auto

lemma links_append: "links n p b (xs @ ys) a \<longleftrightarrow>
    links n p b xs (first_of ys a) \<and> links n p (last_of b xs) ys a"
  by (induction xs arbitrary: b) (auto simp: links_Cons first_of_append)

lemma links_cong:
  "(\<And>x. x \<in> set xs \<Longrightarrow> n x = n' x) \<Longrightarrow> (\<And>x. x \<in> set xs \<Longrightarrow> p x = p' x) \<Longrightarrow>
    links n p b xs a = links n' p' b xs a"
  by (induction xs arbitrary: b) (auto simp: links_Cons)

lemma last_of_in: "last_of d xs \<in> insert d (set xs)"
  by (simp add: last_of_def)

lemma first_of_in: "first_of xs d \<in> insert d (set xs)"
  by (cases xs) auto

text \<open>The last element's forward link and the first one's backward link are the only ones
  that depend on what surrounds the list.\<close>

lemma links_snoc:
  "links n p b (xs @ [x]) a \<longleftrightarrow> links n p b xs x \<and> p x = last_of b xs \<and> n x = a"
  by (auto simp: links_append)

lemma links_change_after:
  assumes "links n p b xs a" "distinct xs" "xs \<noteq> []"
  shows "links (n(last xs := a')) p b xs a'"
proof -
  obtain ys y where xs: "xs = ys @ [y]" using assms(3) by (metis rev_exhaust)
  have "links (n(y := a')) p b ys y"
    using assms(1,2) unfolding xs links_snoc
    by (subst links_cong [where n' = n and p' = p]) auto
  with assms(1) show ?thesis by (simp add: xs links_snoc)
qed

lemma links_change_before:
  assumes "links n p b (x # xs) a" "x \<notin> set xs"
  shows "links n (p(x := b')) b' (x # xs) a"
proof -
  have "links n (p(x := b')) x xs a = links n p x xs a"
    by (rule links_cong) (use assms(2) in auto)
  with assms show ?thesis by (simp add: links_Cons)
qed

text \<open>Unlinking an element in the middle.\<close>

lemma links_remove:
  assumes "links n p b (xs @ x # ys) a" "distinct (xs @ x # ys)"
    and "b \<notin> set (xs @ x # ys)" "a \<notin> set (xs @ x # ys)"
  shows "links (n(last_of b xs := first_of ys a)) (p(first_of ys a := last_of b xs)) b (xs @ ys) a"
proof -
  from assms(1) have l: "links n p b xs x" "links n p x ys a"
    by (auto simp: links_append links_Cons)
  have "links (n(last_of b xs := first_of ys a)) (p(first_of ys a := last_of b xs)) b xs (first_of ys a)"
  proof (cases xs rule: rev_cases)
    case (snoc zs z)
    have ne: "first_of ys a \<notin> set xs" using first_of_in [of ys a] assms(2,4) by auto
    have "links (n(z := first_of ys a)) (p(first_of ys a := z)) b zs z"
      using l(1) assms(2) ne unfolding snoc links_snoc
      by (subst links_cong [where n' = n and p' = p]) auto
    with l(1) ne show ?thesis by (auto simp: snoc links_snoc)
  qed simp
  moreover have "links (n(last_of b xs := first_of ys a)) (p(first_of ys a := last_of b xs))
      (last_of b xs) ys a"
  proof (cases ys)
    case (Cons z zs)
    have ne: "last_of b xs \<notin> set ys" using last_of_in [of b xs] assms(2,3) by auto
    have "links (n(last_of b xs := z)) (p(z := last_of b xs)) z zs a"
      using l(2) assms(2) ne unfolding Cons links_Cons
      by (subst links_cong [where n' = n and p' = p]) auto
    with l(2) ne show ?thesis by (auto simp: Cons links_Cons)
  qed simp
  ultimately show ?thesis by (simp add: links_append)
qed

end
