(* ===== verification/OsQueue.thy ===== *)
theory OsQueue
  imports Prelude
begin

text \<open>
  The fixed-capacity ring buffer \<open>Queue<T, N>\<close> of os-std/queue.hh. A slot is \<open>None\<close> while it
  holds the null item; the capacity \<open>N\<close> is the length of the slot array. The contract the
  clients rely on (the semaphore's waiting list, the pipes) is the locale \<open>bounded_fifo\<close>.
\<close>

section \<open>The ring buffer\<close>

record 'a queue =
  q_items :: "'a option list"
  q_length :: nat
  q_writer :: nat
  q_reader :: nat

definition increment :: "nat \<Rightarrow> nat \<Rightarrow> nat" where
  "increment n i = (if i = n - 1 then 0 else i + 1)"

definition enqueue_item :: "'a queue \<Rightarrow> 'a \<Rightarrow> 'a queue kern" where
  "enqueue_item q item = do {
     items \<leftarrow> aset (q_items q) (q_writer q) (Some item);
     Some (q\<lparr>q_items := items, q_writer := increment (length (q_items q)) (q_writer q),
             q_length := q_length q + 1\<rparr>)
   }"

definition q_enqueue :: "'a queue \<Rightarrow> 'a \<Rightarrow> (bool \<times> 'a queue) kern" where
  "q_enqueue q x =
     (if q_length q = length (q_items q) then Some (False, q)
      else do { q \<leftarrow> enqueue_item q x; Some (True, q) })"

definition dequeue_item :: "'a queue \<Rightarrow> ('a \<times> 'a queue) kern" where
  "dequeue_item q = do {
     slot \<leftarrow> aget (q_items q) (q_reader q);
     item \<leftarrow> slot;
     items \<leftarrow> aset (q_items q) (q_reader q) None;
     Some (item, q\<lparr>q_items := items, q_reader := increment (length (q_items q)) (q_reader q),
                   q_length := q_length q - 1\<rparr>)
   }"

definition q_dequeue :: "'a queue \<Rightarrow> ('a option \<times> 'a queue) kern" where
  "q_dequeue q =
     (if q_length q = 0 then Some (None, q)
      else do { (x, q) \<leftarrow> dequeue_item q; Some (Some x, q) })"

definition q_empty :: "nat \<Rightarrow> 'a queue" where
  "q_empty n = \<lparr>q_items = replicate n None, q_length = 0, q_writer = 0, q_reader = 0\<rparr>"

section \<open>The contract of a bounded queue\<close>

text \<open>What clients do with a queue, and the same calls on a list with a capacity.\<close>

datatype 'a queue_call = Enq 'a | Deq

datatype 'a queue_reply = Enqueued bool | Dequeued "'a option"

fun list_call :: "nat \<Rightarrow> 'a list \<Rightarrow> 'a queue_call \<Rightarrow> 'a queue_reply \<times> 'a list" where
  "list_call n xs (Enq x) = (if length xs = n then (Enqueued False, xs) else (Enqueued True, xs @ [x]))"
| "list_call n [] Deq = (Dequeued None, [])"
| "list_call n (x # xs) Deq = (Dequeued (Some x), xs)"

fun list_run :: "nat \<Rightarrow> 'a list \<Rightarrow> 'a queue_call list \<Rightarrow> 'a queue_reply list \<times> 'a list" where
  "list_run n xs [] = ([], xs)"
| "list_run n xs (c # cs) =
     (let (r, xs) = list_call n xs c; (rs, xs) = list_run n xs cs in (r # rs, xs))"

fun do_call :: "('s \<Rightarrow> 'a \<Rightarrow> (bool \<times> 's) kern) \<Rightarrow> ('s \<Rightarrow> ('a option \<times> 's) kern) \<Rightarrow>
    's \<Rightarrow> 'a queue_call \<Rightarrow> ('a queue_reply \<times> 's) kern" where
  "do_call enq deq s (Enq x) = do { (b, s) \<leftarrow> enq s x; Some (Enqueued b, s) }"
| "do_call enq deq s Deq = do { (x, s) \<leftarrow> deq s; Some (Dequeued x, s) }"

fun queue_run :: "('s \<Rightarrow> 'a \<Rightarrow> (bool \<times> 's) kern) \<Rightarrow> ('s \<Rightarrow> ('a option \<times> 's) kern) \<Rightarrow>
    's \<Rightarrow> 'a queue_call list \<Rightarrow> ('a queue_reply list \<times> 's) kern" where
  "queue_run enq deq s [] = Some ([], s)"
| "queue_run enq deq s (c # cs) = do {
     (r, s) \<leftarrow> do_call enq deq s c;
     (rs, s) \<leftarrow> queue_run enq deq s cs;
     Some (r # rs, s)
   }"

locale bounded_fifo =
  fixes enq :: "'s \<Rightarrow> 'a \<Rightarrow> (bool \<times> 's) kern"
    and deq :: "'s \<Rightarrow> ('a option \<times> 's) kern"
    and contents :: "'s \<Rightarrow> 'a list"
    and capacity :: "'s \<Rightarrow> nat"
    and inv :: "'s \<Rightarrow> bool"
  assumes enq_full: "inv s \<Longrightarrow> length (contents s) = capacity s \<Longrightarrow> enq s x = Some (False, s)"
    and enq_room: "inv s \<Longrightarrow> length (contents s) \<noteq> capacity s \<Longrightarrow>
      \<exists>s'. enq s x = Some (True, s') \<and> inv s' \<and> contents s' = contents s @ [x] \<and> capacity s' = capacity s"
    and deq_empty: "inv s \<Longrightarrow> contents s = [] \<Longrightarrow> deq s = Some (None, s)"
    and deq_item: "inv s \<Longrightarrow> contents s = x # xs \<Longrightarrow>
      \<exists>s'. deq s = Some (Some x, s') \<and> inv s' \<and> contents s' = xs \<and> capacity s' = capacity s"
begin

lemma call_refines:
  assumes "inv s"
  shows "\<exists>r s'. do_call enq deq s c = Some (r, s') \<and> inv s' \<and> capacity s' = capacity s \<and>
    list_call (capacity s) (contents s) c = (r, contents s')"
proof (cases c)
  case (Enq x)
  show ?thesis
  proof (cases "length (contents s) = capacity s")
    case True
    with Enq assms enq_full show ?thesis by simp
  next
    case False
    from enq_room [OF assms this, of x] obtain s' where
      "enq s x = Some (True, s')" "inv s'" "contents s' = contents s @ [x]" "capacity s' = capacity s"
      by blast
    with False Enq show ?thesis by simp
  qed
next
  case Deq
  show ?thesis
  proof (cases "contents s")
    case Nil
    with Deq assms deq_empty show ?thesis by simp
  next
    case (Cons x xs)
    from deq_item [OF assms this] obtain s' where
      "deq s = Some (Some x, s')" "inv s'" "contents s' = xs" "capacity s' = capacity s" by blast
    with Deq Cons show ?thesis by simp
  qed
qed

lemma run_refines:
  "inv s \<Longrightarrow> \<exists>rs s'. queue_run enq deq s cs = Some (rs, s') \<and> inv s' \<and> capacity s' = capacity s \<and>
    list_run (capacity s) (contents s) cs = (rs, contents s')"
proof (induction cs arbitrary: s)
  case Nil
  then show ?case by simp
next
  case (Cons c cs)
  from call_refines [OF Cons.prems, of c] obtain r t where t:
    "do_call enq deq s c = Some (r, t)" "inv t" "capacity t = capacity s"
    "list_call (capacity s) (contents s) c = (r, contents t)" by blast
  from Cons.IH [OF t(2)] t show ?case by fastforce
qed

end

section \<open>The ring buffer meets the contract\<close>

definition q_inv :: "'a queue \<Rightarrow> bool" where
  "q_inv q \<longleftrightarrow>
     (let n = length (q_items q) in
      0 < n \<and> q_length q \<le> n \<and> q_reader q < n \<and> q_writer q = (q_reader q + q_length q) mod n \<and>
      (\<forall>k < q_length q. q_items q ! ((q_reader q + k) mod n) \<noteq> None))"

text \<open>The queued items, from the oldest to the newest.\<close>

definition q_list :: "'a queue \<Rightarrow> 'a list" where
  "q_list q = map (\<lambda>k. the (q_items q ! ((q_reader q + k) mod length (q_items q)))) [0..<q_length q]"

definition q_capacity :: "'a queue \<Rightarrow> nat" where
  "q_capacity q = length (q_items q)"

lemma length_q_list [simp]: "length (q_list q) = q_length q"
  by (simp add: q_list_def)

lemma increment_mod: "0 < n \<Longrightarrow> i < n \<Longrightarrow> increment n i = (i + 1) mod n"
  by (auto simp: increment_def mod_Suc)

lemma mod_add_inj:
  assumes "(r + j) mod n = (r + k) mod n" "j < n" "k < (n::nat)"
  shows "j = k"
proof -
  have le: "b = a" if "(r + a) mod n = (r + b) mod n" "a \<le> b" "b < n" for a b
  proof -
    have "r + a \<le> r + b" using that(2) by simp
    from mod_eq_dvd_iff_nat [OF this, of n] that(1) have d: "n dvd b - a" by simp
    show ?thesis
    proof (rule ccontr)
      assume "b \<noteq> a"
      with that(2) have "0 < b - a" by simp
      with d have "n \<le> b - a" by (rule dvd_imp_le)
      with that(3) show False by simp
    qed
  qed
  show ?thesis
  proof (cases "j \<le> k")
    case True
    from le [OF assms(1) this assms(3)] show ?thesis by simp
  next
    case False
    then have "k \<le> j" by simp
    from le [OF assms(1) [symmetric] this assms(2)] show ?thesis .
  qed
qed

lemma enqueue_item_spec:
  assumes inv: "q_inv q" and room: "q_length q < length (q_items q)"
  shows "\<exists>q'. enqueue_item q x = Some q' \<and> q_inv q' \<and> q_list q' = q_list q @ [x] \<and>
    length (q_items q') = length (q_items q)"
proof -
  let ?n = "length (q_items q)" and ?w = "q_writer q"
  have f: "0 < ?n" "q_reader q < ?n" "?w = (q_reader q + q_length q) mod ?n"
    "\<forall>k < q_length q. q_items q ! ((q_reader q + k) mod ?n) \<noteq> None"
    using inv by (simp_all add: q_inv_def Let_def)
  have w: "?w < ?n" using f(1,3) by simp
  define q' where "q' = q\<lparr>q_items := (q_items q)[?w := Some x],
    q_writer := increment ?n ?w, q_length := q_length q + 1\<rparr>"
  have run: "enqueue_item q x = Some q'" using w by (simp add: enqueue_item_def q'_def)
  have old: "q_items q' ! ((q_reader q + k) mod ?n) = q_items q ! ((q_reader q + k) mod ?n)"
    if "k < q_length q" for k
  proof -
    have "(q_reader q + k) mod ?n \<noteq> ?w"
      using mod_add_inj [of "q_reader q" k ?n "q_length q"] that room f(3) by auto
    then show ?thesis by (simp add: q'_def)
  qed
  have new: "q_items q' ! ((q_reader q + q_length q) mod ?n) = Some x"
    using w f(3) by (simp add: q'_def)
  have "q_list q' = q_list q @ [x]"
    using old new by (simp add: q_list_def q'_def)
  moreover have "q_inv q'"
  proof -
    have "q_writer q' = (q_reader q' + q_length q') mod ?n"
      using f w by (simp add: q'_def increment_mod mod_Suc_eq)
    moreover have "\<forall>k < q_length q'. q_items q' ! ((q_reader q' + k) mod ?n) \<noteq> None"
      using old new f(4) by (auto simp: q'_def less_Suc_eq)
    ultimately show ?thesis using f room by (simp add: q_inv_def q'_def)
  qed
  ultimately show ?thesis using run by (auto simp: q'_def)
qed

lemma dequeue_item_spec:
  assumes inv: "q_inv q" and some: "0 < q_length q"
  shows "\<exists>q'. dequeue_item q = Some (hd (q_list q), q') \<and> q_inv q' \<and> q_list q' = tl (q_list q) \<and>
    length (q_items q') = length (q_items q)"
proof -
  let ?n = "length (q_items q)" and ?r = "q_reader q"
  have f: "0 < ?n" "?r < ?n" "q_writer q = (?r + q_length q) mod ?n" "q_length q \<le> ?n"
    "\<forall>k < q_length q. q_items q ! ((?r + k) mod ?n) \<noteq> None"
    using inv by (simp_all add: q_inv_def Let_def)
  from f(5) [rule_format, of 0] some f(2) obtain x where x: "q_items q ! ?r = Some x" by auto
  obtain m where m: "q_length q = Suc m" using some by (cases "q_length q") auto
  define q' where "q' = q\<lparr>q_items := (q_items q)[?r := None],
    q_reader := increment ?n ?r, q_length := q_length q - 1\<rparr>"
  have run: "dequeue_item q = Some (x, q')" using f(2) x by (simp add: dequeue_item_def q'_def)
  have hd: "hd (q_list q) = x"
    using x f(2) m by (simp add: q_list_def upt_conv_Cons del: upt_Suc)
  have rq: "q_reader q' = (?r + 1) mod ?n" using f(1,2) by (simp add: q'_def increment_mod)
  have r': "(q_reader q' + k) mod ?n = (?r + Suc k) mod ?n" for k
  proof -
    have "(q_reader q' + k) mod ?n = (?r + 1 + k) mod ?n" unfolding rq by (rule mod_add_left_eq)
    then show ?thesis by simp
  qed
  have old: "q_items q' ! ((?r + Suc k) mod ?n) = q_items q ! ((?r + Suc k) mod ?n)"
    if "k < m" for k
  proof -
    have "(?r + Suc k) mod ?n \<noteq> ?r"
    proof
      assume e: "(?r + Suc k) mod ?n = ?r"
      have r0: "(?r + 0) mod ?n = ?r" using f(2) by simp
      have "Suc k < ?n" using that m f(4) by linarith
      from mod_add_inj [OF trans [OF e r0 [symmetric]] this f(1)] show False by simp
    qed
    then show ?thesis by (simp add: q'_def)
  qed
  have len: "length (q_items q') = ?n" by (simp add: q'_def)
  have ql: "q_length q' = m" using m by (simp add: q'_def)
  have "q_list q' = tl (q_list q)"
  proof (rule nth_equalityI)
    show "length (q_list q') = length (tl (q_list q))" by (simp add: ql m)
    fix k assume "k < length (q_list q')"
    then have k: "k < m" by (simp add: ql)
    have "q_list q' ! k = the (q_items q' ! ((q_reader q' + k) mod ?n))"
      using k by (simp add: q_list_def ql len)
    also have "\<dots> = the (q_items q ! ((?r + Suc k) mod ?n))" by (simp only: r' old [OF k])
    also have "\<dots> = q_list q ! Suc k" using k m by (simp add: q_list_def del: upt_Suc)
    also have "\<dots> = tl (q_list q) ! k" using k m by (simp add: nth_tl)
    finally show "q_list q' ! k = tl (q_list q) ! k" .
  qed
  moreover have "q_inv q'"
  proof -
    have "q_writer q' = (q_reader q' + q_length q') mod ?n"
      using f(3) m r' [of m] by (simp add: q'_def)
    moreover have "\<forall>k < q_length q'. q_items q' ! ((q_reader q' + k) mod ?n) \<noteq> None"
      unfolding r' using old f(5) m by (auto simp: q'_def)
    moreover have "q_reader q' < ?n" using f(1,2) by (simp add: q'_def increment_mod)
    ultimately show ?thesis using f(1,4) m by (simp add: q_inv_def len) (simp add: q'_def)
  qed
  ultimately show ?thesis using run hd len by auto
qed

interpretation rb: bounded_fifo q_enqueue q_dequeue q_list q_capacity q_inv
proof
  fix q :: "'a queue" and x y xs
  assume inv: "q_inv q"
  show "length (q_list q) = q_capacity q \<Longrightarrow> q_enqueue q x = Some (False, q)"
    by (simp add: q_enqueue_def q_capacity_def)
  show "\<exists>q'. q_enqueue q x = Some (True, q') \<and> q_inv q' \<and> q_list q' = q_list q @ [x] \<and>
      q_capacity q' = q_capacity q" if "length (q_list q) \<noteq> q_capacity q"
  proof -
    have "q_length q < length (q_items q)"
      using that inv by (simp add: q_capacity_def q_inv_def Let_def)
    from enqueue_item_spec [OF inv this, of x] that show ?thesis
      by (auto simp: q_enqueue_def q_capacity_def)
  qed
  show "q_list q = [] \<Longrightarrow> q_dequeue q = Some (None, q)"
    by (simp add: q_dequeue_def flip: length_q_list)
  show "\<exists>q'. q_dequeue q = Some (Some y, q') \<and> q_inv q' \<and> q_list q' = xs \<and>
      q_capacity q' = q_capacity q" if "q_list q = y # xs"
  proof -
    have "0 < q_length q" using that by (simp flip: length_q_list)
    from dequeue_item_spec [OF inv this] that this show ?thesis
      by (auto simp: q_dequeue_def q_capacity_def)
  qed
qed

lemma q_empty_inv [simp]: "0 < n \<Longrightarrow> q_inv (q_empty n)"
  by (simp add: q_inv_def q_empty_def)

lemma q_empty_list [simp]: "q_list (q_empty n) = []" "q_capacity (q_empty n) = n"
  by (simp_all add: q_list_def q_empty_def q_capacity_def)

text \<open>
  C9: any sequence of enqueue and dequeue calls on a new ring buffer of capacity \<open>n\<close> never reads
  an empty slot or runs outside the array, and gives exactly the replies of a list of at
  most \<open>n\<close> elements used first in, first out: the wrap-around of the two indices is invisible.
\<close>

theorem ring_buffer_refines_list:
  assumes "0 < n"
  shows "\<exists>rs q. queue_run q_enqueue q_dequeue (q_empty n) calls = Some (rs, q) \<and>
    list_run n [] calls = (rs, q_list q) \<and> q_inv q"
  using rb.run_refines [OF q_empty_inv [OF assms], of calls] by auto

theorem ring_buffer_refines_list_witness:
  "\<exists>rs q. queue_run q_enqueue q_dequeue (q_empty 2) [Enq (1::nat), Enq 2, Enq 3, Deq, Enq 4, Deq, Deq, Deq] =
     Some (rs, q) \<and>
   rs = [Enqueued True, Enqueued True, Enqueued False, Dequeued (Some 1), Enqueued True,
     Dequeued (Some 2), Dequeued (Some 4), Dequeued None]"
  using ring_buffer_refines_list [of 2 "[Enq (1::nat), Enq 2, Enq 3, Deq, Enq 4, Deq, Deq, Deq]"] by auto

end
