(* ===== verification/Process.thy ===== *)
theory Process
  imports Dll OsQueue
begin

text \<open>
  Threads, processes and the scheduler (process/proc.cc, process/proc.hh). Thread and process
  objects live in two stores indexed by their address (0 is the null pointer); the links
  between them are the addresses the code keeps. A context switch does not return in the
  code; here an operation that ends in one returns how the processor goes on
  (\<open>resumption\<close>) with the state in which the new thread runs.
\<close>

section \<open>State\<close>

text \<open>\<open>interrupt_frame_t\<close>: the saved registers.\<close>

record interrupt_frame =
  f_ss :: u32
  f_gs :: u32
  f_fs :: u32
  f_es :: u32
  f_ds :: u32
  f_edi :: u32
  f_esi :: u32
  f_ebp :: u32
  f_esp :: u32
  f_ebx :: u32
  f_edx :: u32
  f_ecx :: u32
  f_eax :: u32
  f_int_no :: u32
  f_error_code :: u32
  f_eip :: u32
  f_cs :: u32
  f_eflags :: u32
  f_user_esp :: u32
  f_user_ss :: u32

definition zero_frame :: interrupt_frame where
  "zero_frame = \<lparr>f_ss = 0, f_gs = 0, f_fs = 0, f_es = 0, f_ds = 0, f_edi = 0, f_esi = 0, f_ebp = 0,
     f_esp = 0, f_ebx = 0, f_edx = 0, f_ecx = 0, f_eax = 0, f_int_no = 0, f_error_code = 0,
     f_eip = 0, f_cs = 0, f_eflags = 0, f_user_esp = 0, f_user_ss = 0\<rparr>"

definition frame_size_kernel :: nat where "frame_size_kernel = 20 * 4 - 4 - 4"

definition frame_size_user :: nat where "frame_size_user = 20 * 4"

text \<open>
  \<open>thread_t\<close>. The kernel stack is part of the thread object; only the address of its end
  (\<open>kernel_stack.data() + kernel_stack.size()\<close>) matters here.
\<close>

record thread =
  t_proc :: nat
  t_id :: int
  t_name :: string
  ticks_running :: u64
  prev_in_proc :: nat
  next_in_proc :: nat
  prev_ready :: nat
  next_ready :: nat
  t_frame :: interrupt_frame
  kernel_stack_end :: u32
  kernel_resume_esp :: u32
  started :: bool
  suspended_in_kernel :: bool
  blocked :: bool
  is_kernel_thread :: bool

record semaphore =
  sem_i :: int
  sem_waiting :: "int queue"

definition semaphore_max_waiting :: nat where "semaphore_max_waiting = 32"

definition new_semaphore :: "int \<Rightarrow> semaphore" where
  "new_semaphore i = \<lparr>sem_i = i, sem_waiting = q_empty semaphore_max_waiting\<rparr>"

text \<open>\<open>proc_t\<close>. \<open>p_files\<close> holds the addresses of the process' file handles, 0 for a free slot.\<close>

record proc =
  p_id :: int
  first_thread :: nat
  last_thread :: nat
  p_prev :: nat
  p_next :: nat
  p_name :: string
  p_space :: nat
  p_files :: "nat list"
  working_directory :: string
  exit_code :: int
  exit_sem :: semaphore

record sched =
  threads :: "nat \<Rightarrow> thread option"
  procs :: "nat \<Rightarrow> proc option"
  kernel_proc :: nat
  scheduler_enabled :: bool
  current_thread :: nat
  idle_thread :: nat
  ready_first :: nat
  ready_last :: nat
  proc_first :: nat
  proc_last :: nat
  paused_userspace_queue :: nat
  userspace_paused :: bool
  thread_count :: nat
  process_count :: nat
  cur_space :: nat
  tss_stack :: u32

text \<open>How the processor continues after a dispatch.\<close>

datatype resumption =
  Resume_in_kernel u32
| Enter_frame u32 interrupt_frame nat

section \<open>Field updates through pointers\<close>

definition upd_thread :: "sched \<Rightarrow> nat \<Rightarrow> (thread \<Rightarrow> thread) \<Rightarrow> sched kern" where
  "upd_thread s a f = do { t \<leftarrow> threads s a; Some (s\<lparr>threads := (threads s)(a \<mapsto> f t)\<rparr>) }"

definition upd_proc :: "sched \<Rightarrow> nat \<Rightarrow> (proc \<Rightarrow> proc) \<Rightarrow> sched kern" where
  "upd_proc s a f = do { p \<leftarrow> procs s a; Some (s\<lparr>procs := (procs s)(a \<mapsto> f p)\<rparr>) }"

section \<open>Lookup\<close>

definition is_thread_in_kernel_mode :: "thread \<Rightarrow> bool" where
  "is_thread_in_kernel_mode t \<longleftrightarrow> f_cs (t_frame t) AND 0x3 = 0"

partial_function (option) find_proc :: "sched \<Rightarrow> nat \<Rightarrow> int \<Rightarrow> nat option" where
  "find_proc s a pid =
     (if a = 0 then Some 0
      else do { p \<leftarrow> procs s a; if p_id p = pid then Some a else find_proc s (p_next p) pid })"

definition process_by_pid :: "sched \<Rightarrow> int \<Rightarrow> nat kern" where
  "process_by_pid s pid = find_proc s (kernel_proc s) pid"

partial_function (option) find_thread :: "sched \<Rightarrow> nat \<Rightarrow> int \<Rightarrow> nat option" where
  "find_thread s a tid =
     (if a = 0 then Some 0
      else do { t \<leftarrow> threads s a; if t_id t = tid then Some a else find_thread s (next_in_proc t) tid })"

partial_function (option) find_thread_procs :: "sched \<Rightarrow> nat \<Rightarrow> int \<Rightarrow> nat option" where
  "find_thread_procs s a tid =
     (if a = 0 then Some 0
      else do {
        p \<leftarrow> procs s a;
        t \<leftarrow> find_thread s (first_thread p) tid;
        if t \<noteq> 0 then Some t else find_thread_procs s (p_next p) tid
      })"

definition thread_by_tid :: "sched \<Rightarrow> int \<Rightarrow> nat kern" where
  "thread_by_tid s tid = find_thread_procs s (kernel_proc s) tid"

section \<open>The ready queue\<close>

definition dequeue :: "sched \<Rightarrow> (nat \<times> sched) kern" where
  "dequeue s =
     (if ready_first s \<noteq> 0 then do {
        let next = ready_first s;
        t \<leftarrow> threads s next;
        let s = s\<lparr>ready_first := next_ready t\<rparr>;
        s \<leftarrow> (if ready_first s \<noteq> 0 then upd_thread s (ready_first s) (\<lambda>t. t\<lparr>prev_ready := 0\<rparr>) else Some s);
        s \<leftarrow> upd_thread s next (\<lambda>t. t\<lparr>prev_ready := 0, next_ready := 0\<rparr>);
        let s = (if ready_last s = next then s\<lparr>ready_last := 0\<rparr> else s);
        Some (next, s)
      }
      else Some (0, s))"

text \<open>The branch that both enqueue functions have while user space is paused.\<close>

definition enqueue_paused :: "sched \<Rightarrow> nat \<Rightarrow> sched kern" where
  "enqueue_paused s a = do {
     s \<leftarrow> (if paused_userspace_queue s \<noteq> 0 then do {
            s \<leftarrow> upd_thread s a (\<lambda>t. t\<lparr>next_ready := paused_userspace_queue s, prev_ready := 0\<rparr>);
            upd_thread s (paused_userspace_queue s) (\<lambda>t. t\<lparr>prev_ready := a\<rparr>)
          }
          else upd_thread s a (\<lambda>t. t\<lparr>next_ready := 0, prev_ready := 0\<rparr>));
     Some (s\<lparr>paused_userspace_queue := a\<rparr>)
   }"

definition enqueue :: "sched \<Rightarrow> nat \<Rightarrow> sched kern" where
  "enqueue s a = do {
     t \<leftarrow> threads s a;
     s \<leftarrow> (if userspace_paused s \<and> \<not> is_kernel_thread t then enqueue_paused s a
          else do {
            s \<leftarrow> upd_thread s a (\<lambda>t. t\<lparr>prev_ready := ready_last s\<rparr>);
            s \<leftarrow> (if ready_last s \<noteq> 0 then upd_thread s (ready_last s) (\<lambda>t. t\<lparr>next_ready := a\<rparr>) else Some s);
            let s = (if ready_first s = 0 then s\<lparr>ready_first := a\<rparr> else s);
            Some (s\<lparr>ready_last := a\<rparr>)
          });
     upd_thread s a (\<lambda>t. t\<lparr>blocked := False\<rparr>)
   }"

definition enqueue_front :: "sched \<Rightarrow> nat \<Rightarrow> sched kern" where
  "enqueue_front s a = do {
     t \<leftarrow> threads s a;
     s \<leftarrow> (if \<not> is_kernel_thread t \<and> userspace_paused s then enqueue_paused s a
          else do {
            s \<leftarrow> upd_thread s a (\<lambda>t. t\<lparr>next_ready := ready_first s\<rparr>);
            s \<leftarrow> (if ready_first s \<noteq> 0 then upd_thread s (ready_first s) (\<lambda>t. t\<lparr>prev_ready := a\<rparr>) else Some s);
            let s = (if ready_last s = 0 then s\<lparr>ready_last := a\<rparr> else s);
            Some (s\<lparr>ready_first := a\<rparr>)
          });
     upd_thread s a (\<lambda>t. t\<lparr>blocked := False\<rparr>)
   }"

section \<open>Dispatching\<close>

text \<open>The switch to the address space of a user thread's process.\<close>

definition switch_space :: "sched \<Rightarrow> thread \<Rightarrow> proc \<Rightarrow> sched" where
  "switch_space s t p =
     (if cur_space s \<noteq> p_space p \<and> \<not> is_kernel_thread t then s\<lparr>cur_space := p_space p\<rparr> else s)"

text \<open>The end of \<open>dispatch\<close>: how the processor enters the thread.\<close>

definition resume_thread :: "sched \<Rightarrow> nat \<Rightarrow> (resumption \<times> sched) kern" where
  "resume_thread s a = do {
     t \<leftarrow> threads s a;
     if suspended_in_kernel t then do {
       s \<leftarrow> upd_thread s a (\<lambda>t. t\<lparr>suspended_in_kernel := False\<rparr>);
       Some (Resume_in_kernel (kernel_resume_esp t), s)
     }
     else do {
       let s = (if \<not> is_thread_in_kernel_mode t then s\<lparr>tss_stack := kernel_stack_end t\<rparr> else s);
       let frame =
         (if is_kernel_thread t
          then if started t then (t_frame t)\<lparr>f_esp := f_esp (t_frame t) + 5 * 4\<rparr> else t_frame t
          else (t_frame t)\<lparr>f_esp := kernel_stack_end t\<rparr>);
       s \<leftarrow> upd_thread s a (\<lambda>t. t\<lparr>t_frame := frame, started := True\<rparr>);
       Some (Enter_frame (f_esp frame) frame
               (if is_thread_in_kernel_mode t then frame_size_kernel else frame_size_user), s)
     }
   }"

definition dispatch :: "sched \<Rightarrow> nat \<Rightarrow> (resumption \<times> sched) kern" where
  "dispatch s a = do {
     t \<leftarrow> threads s a;
     p \<leftarrow> procs s (t_proc t);
     let old = current_thread s;
     let s = (switch_space s t p)\<lparr>current_thread := a\<rparr>;
     s \<leftarrow> upd_thread s a (\<lambda>t. t\<lparr>ticks_running := ticks_running t + 1\<rparr>);
     s \<leftarrow> (if old \<noteq> 0 then do {
            o_t \<leftarrow> threads s old;
            if \<not> blocked o_t \<and> old \<noteq> a \<and> old \<noteq> idle_thread s then enqueue s old else Some s
          }
          else Some s);
     resume_thread s a
   }"

definition unblock :: "sched \<Rightarrow> nat \<Rightarrow> sched kern" where
  "unblock s a = do { t \<leftarrow> threads s a; if blocked t then enqueue_front s a else Some s }"

definition dispatch_next_thread :: "sched \<Rightarrow> (resumption \<times> sched) kern" where
  "dispatch_next_thread s =
     (if \<not> scheduler_enabled s then dispatch s (idle_thread s)
      else do {
        (next, s) \<leftarrow> dequeue s;
        if next \<noteq> 0 then dispatch s next
        else if current_thread s \<noteq> 0 then do {
          c \<leftarrow> threads s (current_thread s);
          if \<not> blocked c then dispatch s (current_thread s) else dispatch s (idle_thread s)
        }
        else dispatch s (idle_thread s)
      })"

text \<open>The loop of \<open>pause_userspace\<close> stops the machine (\<open>UNIMPLEMENTED\<close>) at a user thread.\<close>

partial_function (option) pause_loop :: "sched \<Rightarrow> nat \<Rightarrow> unit option" where
  "pause_loop s a =
     (if a = 0 then Some ()
      else do { t \<leftarrow> threads s a; if \<not> is_kernel_thread t then None else pause_loop s (next_ready t) })"

definition pause_userspace :: "sched \<Rightarrow> sched kern" where
  "pause_userspace s =
     (if userspace_paused s then Some s
      else do {
        let s = s\<lparr>userspace_paused := True, paused_userspace_queue := 0\<rparr>;
        if current_thread s = 0 then Some s
        else do { _ \<leftarrow> pause_loop s (ready_first s); Some s }
      })"

definition resume_userspace :: "sched \<Rightarrow> sched kern" where
  "resume_userspace s =
     (if userspace_paused s then do {
        let s = s\<lparr>userspace_paused := False\<rparr>;
        if paused_userspace_queue s \<noteq> 0 then do {
          s \<leftarrow> enqueue s (paused_userspace_queue s);
          Some (s\<lparr>paused_userspace_queue := 0\<rparr>)
        }
        else Some s
      }
      else Some s)"

definition save_frame :: "sched \<Rightarrow> interrupt_frame \<Rightarrow> sched kern" where
  "save_frame s frame =
     (if current_thread s \<noteq> 0 then upd_thread s (current_thread s) (\<lambda>t. t\<lparr>t_frame := frame\<rparr>)
      else Some s)"

definition yield_noreturn :: "sched \<Rightarrow> bool \<Rightarrow> (resumption \<times> sched) kern" where
  "yield_noreturn s block = do {
     s \<leftarrow> (if block then upd_thread s (current_thread s) (\<lambda>t. t\<lparr>blocked := True\<rparr>) else Some s);
     dispatch_next_thread s
   }"

text \<open>
  \<open>suspend_in_kernel\<close> pushes the registers, saves the stack pointer \<open>esp\<close> and dispatches; it
  returns when the thread is resumed.
\<close>

definition suspend_2 :: "sched \<Rightarrow> u32 \<Rightarrow> (resumption \<times> sched) kern" where
  "suspend_2 s esp = do {
     s \<leftarrow> upd_thread s (current_thread s)
            (\<lambda>t. t\<lparr>kernel_resume_esp := esp, suspended_in_kernel := True\<rparr>);
     dispatch_next_thread s
   }"

text \<open>\<open>yield\<close> answers \<open>None\<close> for the resumption when it returns to its caller at once.\<close>

definition yield_thread :: "sched \<Rightarrow> u32 \<Rightarrow> bool \<Rightarrow> (resumption option \<times> sched) kern" where
  "yield_thread s esp block =
     (if current_thread s = 0 then do { kassert (\<not> block); Some (None, s) }
      else do {
        s \<leftarrow> (if block then upd_thread s (current_thread s) (\<lambda>t. t\<lparr>blocked := True\<rparr>) else Some s);
        if block \<or> ready_first s \<noteq> 0
        then do { (r, s) \<leftarrow> suspend_2 s esp; Some (Some r, s) }
        else Some (None, s)
      })"

definition pause_scheduler :: "sched \<Rightarrow> (resumption \<times> sched) kern" where
  "pause_scheduler s = dispatch (s\<lparr>scheduler_enabled := False\<rparr>) (idle_thread s)"

definition resume_scheduler :: "sched \<Rightarrow> sched" where
  "resume_scheduler s = s\<lparr>scheduler_enabled := True\<rparr>"

definition run_scheduler :: "sched \<Rightarrow> (resumption \<times> sched) kern" where
  "run_scheduler s = dispatch (s\<lparr>scheduler_enabled := True\<rparr>) (idle_thread s)"

section \<open>The timer\<close>

definition ticks_per_slice :: nat where "ticks_per_slice = 4"

record timer =
  ticks :: u64
  ticks_in_slice :: u64

text \<open>\<open>irq_handler\<close> of driver/timer/pit.cc: preemption when a time slice is used up.\<close>

definition timer_tick :: "timer \<Rightarrow> sched \<Rightarrow> (resumption option \<times> timer \<times> sched) kern" where
  "timer_tick tm s = do {
     let tm = tm\<lparr>ticks := ticks tm + 1, ticks_in_slice := ticks_in_slice tm + 1\<rparr>;
     if scheduler_enabled s then
       if ticks_in_slice tm \<ge> of_nat ticks_per_slice then do {
         let tm = tm\<lparr>ticks_in_slice := 0\<rparr>;
         (r, s) \<leftarrow> yield_noreturn s False;
         Some (Some r, tm, s)
       }
       else do {
         s \<leftarrow> upd_thread s (current_thread s) (\<lambda>t. t\<lparr>ticks_running := ticks_running t + 1\<rparr>);
         Some (None, tm, s)
       }
     else Some (None, tm, s)
   }"

end
