(* ===== verification/ReadyQueue.thy ===== *)
theory ReadyQueue
  imports Process
begin

text \<open>
  The scheduler's ready queue as a list: \<open>dequeue\<close>, \<open>enqueue\<close> and \<open>enqueue_front\<close> of
  process/proc.cc are the list operations at the two ends, and no thread is lost.
\<close>

section \<open>The list behind the links\<close>

definition nr :: "sched \<Rightarrow> nat \<Rightarrow> nat" where
  "nr s a = (case threads s a of Some t \<Rightarrow> next_ready t | None \<Rightarrow> 0)"

definition pr :: "sched \<Rightarrow> nat \<Rightarrow> nat" where
  "pr s a = (case threads s a of Some t \<Rightarrow> prev_ready t | None \<Rightarrow> 0)"

definition ready_queue :: "sched \<Rightarrow> nat list \<Rightarrow> bool" where
  "ready_queue s xs \<longleftrightarrow> distinct xs \<and> 0 \<notin> set xs \<and> set xs \<subseteq> dom (threads s) \<and>
     links (nr s) (pr s) 0 xs 0 \<and> ready_first s = first_of xs 0 \<and> ready_last s = last_of 0 xs \<and>
     (\<forall>x. x \<notin> set xs \<longrightarrow> nr s x = 0 \<and> pr s x = 0)"

text \<open>A thread without its ready-queue links; a state without its threads and queue ends.\<close>

definition core :: "thread \<Rightarrow> thread" where
  "core t = t\<lparr>prev_ready := 0, next_ready := 0\<rparr>"

definition cores :: "sched \<Rightarrow> nat \<Rightarrow> thread option" where
  "cores s a = map_option core (threads s a)"

definition rest :: "sched \<Rightarrow> sched" where
  "rest s = s\<lparr>threads := Map.empty, ready_first := 0, ready_last := 0\<rparr>"

lemma rest_eqD:
  assumes "rest s' = rest s"
  shows "procs s' = procs s" "kernel_proc s' = kernel_proc s" "scheduler_enabled s' = scheduler_enabled s"
    "current_thread s' = current_thread s" "idle_thread s' = idle_thread s"
    "proc_first s' = proc_first s" "proc_last s' = proc_last s"
    "paused_userspace_queue s' = paused_userspace_queue s" "userspace_paused s' = userspace_paused s"
    "thread_count s' = thread_count s" "process_count s' = process_count s"
    "cur_space s' = cur_space s" "tss_stack s' = tss_stack s"
proof -
  show "procs s' = procs s" using arg_cong [OF assms, of procs] by (simp add: rest_def)
  show "kernel_proc s' = kernel_proc s" using arg_cong [OF assms, of kernel_proc] by (simp add: rest_def)
  show "scheduler_enabled s' = scheduler_enabled s" using arg_cong [OF assms, of scheduler_enabled] by (simp add: rest_def)
  show "current_thread s' = current_thread s" using arg_cong [OF assms, of current_thread] by (simp add: rest_def)
  show "idle_thread s' = idle_thread s" using arg_cong [OF assms, of idle_thread] by (simp add: rest_def)
  show "proc_first s' = proc_first s" using arg_cong [OF assms, of proc_first] by (simp add: rest_def)
  show "proc_last s' = proc_last s" using arg_cong [OF assms, of proc_last] by (simp add: rest_def)
  show "paused_userspace_queue s' = paused_userspace_queue s" using arg_cong [OF assms, of paused_userspace_queue] by (simp add: rest_def)
  show "userspace_paused s' = userspace_paused s" using arg_cong [OF assms, of userspace_paused] by (simp add: rest_def)
  show "thread_count s' = thread_count s" using arg_cong [OF assms, of thread_count] by (simp add: rest_def)
  show "process_count s' = process_count s" using arg_cong [OF assms, of process_count] by (simp add: rest_def)
  show "cur_space s' = cur_space s" using arg_cong [OF assms, of cur_space] by (simp add: rest_def)
  show "tss_stack s' = tss_stack s" using arg_cong [OF assms, of tss_stack] by (simp add: rest_def)
qed

lemma upd_thread_Some [simp]:
  "threads s a = Some t \<Longrightarrow> upd_thread s a f = Some (s\<lparr>threads := (threads s)(a \<mapsto> f t)\<rparr>)"
  by (simp add: upd_thread_def)

lemma upd_proc_Some [simp]:
  "procs s a = Some p \<Longrightarrow> upd_proc s a f = Some (s\<lparr>procs := (procs s)(a \<mapsto> f p)\<rparr>)"
  by (simp add: upd_proc_def)

lemma core_idem [simp]:
  "core (t\<lparr>prev_ready := x\<rparr>) = core t" "core (t\<lparr>next_ready := x\<rparr>) = core t"
  "core (t\<lparr>prev_ready := x, next_ready := y\<rparr>) = core t"
  by (simp_all add: core_def)

lemma nr_upd [simp]: "nr (s\<lparr>threads := (threads s)(a \<mapsto> t)\<rparr>) = (nr s)(a := next_ready t)"
  "pr (s\<lparr>threads := (threads s)(a \<mapsto> t)\<rparr>) = (pr s)(a := prev_ready t)"
  by (auto simp: nr_def pr_def fun_eq_iff)

lemma ready_queue_dom: "ready_queue s xs \<Longrightarrow> x \<in> set xs \<Longrightarrow> \<exists>t. threads s x = Some t"
  by (auto simp: ready_queue_def)

lemma ready_queue_mem0: "ready_queue s xs \<Longrightarrow> 0 \<notin> set xs"
  by (simp add: ready_queue_def)

lemma dequeue_empty: "ready_queue s [] \<Longrightarrow> dequeue s = Some (0, s)"
  by (simp add: dequeue_def ready_queue_def)

lemma dequeue_Cons:
  assumes q: "ready_queue s (x # xs)"
  shows "\<exists>s'. dequeue s = Some (x, s') \<and> ready_queue s' xs \<and> rest s' = rest s \<and> cores s' = cores s"
proof -
  obtain t where t: "threads s x = Some t" using ready_queue_dom [OF q] by auto
  have f: "x \<noteq> 0" "x \<notin> set xs" "distinct xs" "0 \<notin> set xs" "set xs \<subseteq> dom (threads s)"
      "ready_first s = x" "ready_last s = last_of x xs" "next_ready t = first_of xs 0"
      "links (nr s) (pr s) x xs 0" "\<forall>y. y \<notin> set (x # xs) \<longrightarrow> nr s y = 0 \<and> pr s y = 0"
    using q t by (auto simp: ready_queue_def links_Cons nr_def)
  show ?thesis
  proof (cases xs)
    case Nil
    define s' where "s' = s\<lparr>ready_first := 0, threads := (threads s)(x \<mapsto> t\<lparr>prev_ready := 0, next_ready := 0\<rparr>),
      ready_last := 0\<rparr>"
    have "dequeue s = Some (x, s')" using f t Nil by (simp add: dequeue_def s'_def)
    moreover have "ready_queue s' xs"
      using f Nil by (auto simp: ready_queue_def s'_def nr_def pr_def)
    moreover have "rest s' = rest s" "cores s' = cores s"
      using t by (auto simp: s'_def rest_def cores_def fun_eq_iff)
    ultimately show ?thesis by blast
  next
    case (Cons y ys)
    then obtain u where u: "threads s y = Some u" using ready_queue_dom [OF q, of y] by auto
    have ne: "y \<noteq> x" "y \<noteq> 0" using f Cons by auto
    have last: "last_of x xs \<noteq> x" using f(2) Cons last_of_in [of y ys] by auto
    define s1 where "s1 = s\<lparr>threads := (threads s)(y \<mapsto> u\<lparr>prev_ready := 0\<rparr>)\<rparr>"
    define s2 where "s2 = s1\<lparr>threads := (threads s1)(x \<mapsto> t\<lparr>prev_ready := 0, next_ready := 0\<rparr>)\<rparr>"
    define s' where "s' = s2\<lparr>ready_first := y\<rparr>"
    have th1: "threads s1 x = Some t" using t ne by (simp add: s1_def)
    have "dequeue s = Some (x, s')"
      using f t u ne last Cons th1
      by (simp add: dequeue_def s'_def s2_def s1_def fun_upd_twist)
    moreover have nr': "nr s' = (nr s)(x := 0)" and pr': "pr s' = (pr s)(y := 0, x := 0)"
      using t u ne by (auto simp: s'_def s2_def s1_def nr_def pr_def fun_eq_iff)
    have "links (nr s') (pr s') 0 xs 0"
    proof -
      have "links (nr s) ((pr s)(y := 0)) 0 xs 0"
        using links_change_before [of "nr s" "pr s" x y ys 0 0] f(3,9) Cons by simp
      then show ?thesis
        using f(2) by (subst links_cong [where n' = "nr s" and p' = "(pr s)(y := 0)"]) (auto simp: nr' pr')
    qed
    then have "ready_queue s' xs"
      using f Cons nr' pr' by (auto simp: ready_queue_def s'_def s2_def s1_def)
    moreover have "rest s' = rest s" "cores s' = cores s"
      using t u ne by (auto simp: s'_def s2_def s1_def rest_def cores_def fun_eq_iff)
    ultimately show ?thesis by blast
  qed
qed

lemma enqueue_spec:
  assumes q: "ready_queue s xs" and a: "a \<noteq> 0" "a \<notin> set xs" "threads s a = Some t"
    and np: "\<not> userspace_paused s"
  shows "\<exists>s'. enqueue s a = Some s' \<and> ready_queue s' (xs @ [a]) \<and> rest s' = rest s \<and>
    cores s' = (cores s)(a \<mapsto> core (t\<lparr>blocked := False\<rparr>))"
proof -
  have f: "distinct xs" "0 \<notin> set xs" "set xs \<subseteq> dom (threads s)" "links (nr s) (pr s) 0 xs 0"
      "ready_first s = first_of xs 0" "ready_last s = last_of 0 xs"
      "\<forall>y. y \<notin> set xs \<longrightarrow> nr s y = 0 \<and> pr s y = 0"
    using q by (auto simp: ready_queue_def)
  have nt: "next_ready t = 0" using f(7) a by (auto simp: nr_def split: option.splits)
  let ?l = "last_of 0 xs"
  show ?thesis
  proof (cases "xs = []")
    case True
    define s' where "s' = s\<lparr>threads := (threads s)(a \<mapsto> t\<lparr>prev_ready := 0, blocked := False\<rparr>),
      ready_first := a, ready_last := a\<rparr>"
    have "enqueue s a = Some s'" using True f a np by (simp add: enqueue_def s'_def)
    moreover have "ready_queue s' (xs @ [a])"
      using True f a nt by (auto simp: ready_queue_def s'_def nr_def pr_def)
    moreover have "rest s' = rest s" "cores s' = (cores s)(a \<mapsto> core (t\<lparr>blocked := False\<rparr>))"
      by (auto simp: s'_def rest_def cores_def core_def fun_eq_iff)
    ultimately show ?thesis by blast
  next
    case False
    then have l: "?l \<in> set xs" "?l = last xs" by (auto simp: last_of_def)
    then obtain u where u: "threads s ?l = Some u" using ready_queue_dom [OF q] by blast
    have ne: "?l \<noteq> a" "?l \<noteq> 0" using l(1) a(2) f(2) by metis+
    have fo: "first_of xs 0 \<noteq> 0" using False f(2) by (cases xs) auto
    define s' where "s' = s\<lparr>threads := (threads s)(?l \<mapsto> u\<lparr>next_ready := a\<rparr>,
        a \<mapsto> t\<lparr>prev_ready := ?l, blocked := False\<rparr>), ready_last := a\<rparr>"
    have "enqueue s a = Some s'"
      using f a np u ne fo by (simp add: enqueue_def s'_def fun_upd_twist)
    moreover have nr': "nr s' = (nr s)(?l := a, a := 0)" and pr': "pr s' = (pr s)(a := ?l)"
      using u a nt ne by (auto simp: s'_def nr_def pr_def fun_eq_iff)
    have "links (nr s') (pr s') 0 (xs @ [a]) 0"
    proof -
      have "links ((nr s)(?l := a)) (pr s) 0 xs a"
        using links_change_after [OF f(4,1) False] l(2) by simp
      then have "links (nr s') (pr s') 0 xs a"
        using a(2) by (subst links_cong [where n' = "(nr s)(?l := a)" and p' = "pr s"]) (auto simp: nr' pr')
      then show ?thesis using nr' pr' by (simp add: links_snoc)
    qed
    then have "ready_queue s' (xs @ [a])"
      using f a l nr' pr' False by (auto simp: ready_queue_def s'_def first_of_append) (cases xs, auto)
    moreover have "rest s' = rest s" "cores s' = (cores s)(a \<mapsto> core (t\<lparr>blocked := False\<rparr>))"
      using u ne by (auto simp: s'_def rest_def cores_def core_def fun_eq_iff)
    ultimately show ?thesis by blast
  qed
qed

lemma enqueue_front_spec:
  assumes q: "ready_queue s xs" and a: "a \<noteq> 0" "a \<notin> set xs" "threads s a = Some t"
    and np: "\<not> userspace_paused s"
  shows "\<exists>s'. enqueue_front s a = Some s' \<and> ready_queue s' (a # xs) \<and> rest s' = rest s \<and>
    cores s' = (cores s)(a \<mapsto> core (t\<lparr>blocked := False\<rparr>))"
proof -
  have f: "distinct xs" "0 \<notin> set xs" "set xs \<subseteq> dom (threads s)" "links (nr s) (pr s) 0 xs 0"
      "ready_first s = first_of xs 0" "ready_last s = last_of 0 xs"
      "\<forall>y. y \<notin> set xs \<longrightarrow> nr s y = 0 \<and> pr s y = 0"
    using q by (auto simp: ready_queue_def)
  have nt: "prev_ready t = 0" using f(7) a by (auto simp: pr_def split: option.splits)
  show ?thesis
  proof (cases xs)
    case Nil
    define s' where "s' = s\<lparr>threads := (threads s)(a \<mapsto> t\<lparr>next_ready := 0, blocked := False\<rparr>),
      ready_last := a, ready_first := a\<rparr>"
    have "enqueue_front s a = Some s'" using Nil f(5,6) a np by (simp add: enqueue_front_def s'_def)
    moreover have "ready_queue s' (a # xs)"
      using Nil f a nt by (auto simp: ready_queue_def s'_def nr_def pr_def)
    moreover have "rest s' = rest s" "cores s' = (cores s)(a \<mapsto> core (t\<lparr>blocked := False\<rparr>))"
      by (auto simp: s'_def rest_def cores_def core_def fun_eq_iff)
    ultimately show ?thesis by blast
  next
    case (Cons y ys)
    then obtain u where u: "threads s y = Some u" using ready_queue_dom [OF q, of y] by auto
    have ne: "y \<noteq> a" "y \<noteq> 0" using Cons a(2) f(2) by auto
    have "last_of 0 xs \<in> set xs" using Cons last_of_in [of y ys] by auto
    then have lo: "last_of 0 xs \<noteq> 0" using f(2) by metis
    define s' where "s' = s\<lparr>threads := (threads s)(y \<mapsto> u\<lparr>prev_ready := a\<rparr>,
        a \<mapsto> t\<lparr>next_ready := y, blocked := False\<rparr>), ready_first := a\<rparr>"
    have "enqueue_front s a = Some s'"
      using f(5,6) a np u ne lo Cons by (simp add: enqueue_front_def s'_def fun_upd_twist)
    moreover have nr': "nr s' = (nr s)(a := y)" and pr': "pr s' = (pr s)(y := a, a := 0)"
      using u a nt ne by (auto simp: s'_def nr_def pr_def fun_eq_iff)
    have "links (nr s') (pr s') 0 (a # xs) 0"
    proof -
      have "links (nr s) ((pr s)(y := a)) a xs 0"
        using links_change_before [of "nr s" "pr s" 0 y ys 0 a] f(1,4) Cons by simp
      then have "links (nr s') (pr s') a xs 0"
        using a(2) by (subst links_cong [where n' = "nr s" and p' = "(pr s)(y := a)"]) (auto simp: nr' pr')
      then show ?thesis using nr' pr' Cons by (simp add: links_Cons)
    qed
    then have "ready_queue s' (a # xs)"
      using f a nr' pr' Cons lo by (auto simp: ready_queue_def s'_def)
    moreover have "rest s' = rest s" "cores s' = (cores s)(a \<mapsto> core (t\<lparr>blocked := False\<rparr>))"
      using u ne by (auto simp: s'_def rest_def cores_def core_def fun_eq_iff)
    ultimately show ?thesis by blast
  qed
qed

text \<open>Changes of a thread that leave its links alone.\<close>

lemma ready_queue_upd:
  assumes q: "ready_queue s xs" and t: "threads s a = Some t"
    and f: "next_ready (f t) = next_ready t" "prev_ready (f t) = prev_ready t"
  shows "ready_queue (s\<lparr>threads := (threads s)(a \<mapsto> f t)\<rparr>) xs"
proof -
  have "(nr s)(a := next_ready (f t)) = nr s" "(pr s)(a := prev_ready (f t)) = pr s"
    using t f by (auto simp: nr_def pr_def fun_eq_iff)
  with q t show ?thesis by (auto simp: ready_queue_def)
qed

lemma ready_queue_cong:
  assumes "threads s' = threads s" "ready_first s' = ready_first s" "ready_last s' = ready_last s"
  shows "ready_queue s' xs = ready_queue s xs"
  using assms by (simp add: ready_queue_def nr_def [abs_def] pr_def [abs_def])

section \<open>No thread is lost\<close>

text \<open>
  The scheduler's invariant while user space is not paused: the ready queue is a proper list,
  the running and the idle thread exist, and a thread other than the idle thread is in the
  queue exactly when it is neither blocked nor running.
\<close>

definition sched_ok :: "sched \<Rightarrow> nat list \<Rightarrow> bool" where
  "sched_ok s xs \<longleftrightarrow> ready_queue s xs \<and> \<not> userspace_paused s \<and> scheduler_enabled s \<and>
     current_thread s \<noteq> 0 \<and> idle_thread s \<noteq> 0 \<and> threads s 0 = None \<and>
     (\<exists>t. threads s (current_thread s) = Some t \<and> \<not> blocked t) \<and>
     (\<exists>t. threads s (idle_thread s) = Some t \<and> \<not> blocked t) \<and>
     (\<forall>a t. threads s a = Some t \<longrightarrow> procs s (t_proc t) \<noteq> None) \<and>
     (\<forall>a t. threads s a = Some t \<and> a \<noteq> idle_thread s \<longrightarrow>
        (a \<in> set xs \<longleftrightarrow> \<not> blocked t \<and> a \<noteq> current_thread s))"

text \<open>The fields of a thread that scheduling never changes.\<close>

definition fixed :: "thread \<Rightarrow> nat \<times> int \<times> nat \<times> nat \<times> bool" where
  "fixed t = (t_proc t, t_id t, prev_in_proc t, next_in_proc t, is_kernel_thread t)"

lemma fixed_upd [simp]:
  "fixed (t\<lparr>ticks_running := a\<rparr>) = fixed t" "fixed (t\<lparr>blocked := b\<rparr>) = fixed t"
  "fixed (t\<lparr>suspended_in_kernel := b\<rparr>) = fixed t" "fixed (t\<lparr>kernel_resume_esp := e\<rparr>) = fixed t"
  "fixed (t\<lparr>t_frame := f\<rparr>) = fixed t" "fixed (t\<lparr>started := b\<rparr>) = fixed t"
  "fixed (t\<lparr>next_ready := n\<rparr>) = fixed t" "fixed (t\<lparr>prev_ready := n\<rparr>) = fixed t"
  by (simp_all add: fixed_def)

lemma fixed_proc: "fixed t = fixed u \<Longrightarrow> t_proc t = t_proc u"
  by (simp add: fixed_def)

lemma core_fields:
  "blocked (core t) = blocked t" "fixed (core t) = fixed t" "is_kernel_thread (core t) = is_kernel_thread t"
  by (simp_all add: core_def fixed_def)

text \<open>\<open>dispatch\<close> of a thread that is not queued: it runs, and the previous thread goes to the end
  of the queue unless it is blocked, the same, or the idle thread.\<close>

definition requeued :: "sched \<Rightarrow> nat \<Rightarrow> nat list" where
  "requeued s a =
     (case threads s (current_thread s) of
        None \<Rightarrow> []
      | Some t \<Rightarrow> if \<not> blocked t \<and> current_thread s \<noteq> a \<and> current_thread s \<noteq> idle_thread s
                  then [current_thread s] else [])"

lemma dispatch_spec:
  assumes q: "ready_queue s xs" and np: "\<not> userspace_paused s"
    and cur: "current_thread s \<notin> set xs \<or> current_thread s = idle_thread s"
      "current_thread s \<noteq> 0" "threads s (current_thread s) = Some c"
    and a: "threads s a = Some t" "procs s (t_proc t) = Some p"
  shows "\<exists>r s'. dispatch s a = Some (r, s') \<and> ready_queue s' (xs @ requeued s a) \<and>
    current_thread s' = a \<and> idle_thread s' = idle_thread s \<and> (procs s' = procs s \<and> kernel_proc s' = kernel_proc s) \<and>
    scheduler_enabled s' = scheduler_enabled s \<and> \<not> userspace_paused s' \<and>
    (\<forall>b. map_option blocked (threads s' b) = map_option blocked (threads s b)) \<and>
    (\<forall>b. map_option fixed (threads s' b) = map_option fixed (threads s b))"
proof -
  define s1 where "s1 = (switch_space s t p)\<lparr>current_thread := a\<rparr>"
  have s1: "threads s1 = threads s" "idle_thread s1 = idle_thread s" "procs s1 = procs s" "kernel_proc s1 = kernel_proc s"
    "current_thread s1 = a" "scheduler_enabled s1 = scheduler_enabled s" "\<not> userspace_paused s1"
    using np by (simp_all add: s1_def switch_space_def)
  have q1: "ready_queue s1 xs"
    using q by (subst ready_queue_cong [of s1 s]) (simp_all add: s1_def switch_space_def)
  define s2 where "s2 = s1\<lparr>threads := (threads s1)(a \<mapsto> t\<lparr>ticks_running := ticks_running t + 1\<rparr>)\<rparr>"
  have s2: "idle_thread s2 = idle_thread s" "procs s2 = procs s \<and> kernel_proc s2 = kernel_proc s" "current_thread s2 = a"
    "scheduler_enabled s2 = scheduler_enabled s" "\<not> userspace_paused s2"
    "threads s2 = (threads s)(a \<mapsto> t\<lparr>ticks_running := ticks_running t + 1\<rparr>)"
    using s1 by (simp_all add: s2_def)
  have q2: "ready_queue s2 xs"
    unfolding s2_def using a(1) s1(1) by (intro ready_queue_upd [OF q1]) simp_all
  obtain c2 where c2: "threads s2 (current_thread s) = Some c2" "blocked c2 = blocked c" "fixed c2 = fixed c"
    using cur(3) a(1) by (cases "current_thread s = a") (auto simp: s2)
  obtain s3 where s3: "(if \<not> blocked c2 \<and> current_thread s \<noteq> a \<and> current_thread s \<noteq> idle_thread s2
      then enqueue s2 (current_thread s) else Some s2) = Some s3"
    "ready_queue s3 (xs @ requeued s a)" "rest s3 = rest s2"
    "\<And>b. map_option blocked (threads s3 b) = map_option blocked (threads s2 b)"
    "\<And>b. map_option fixed (threads s3 b) = map_option fixed (threads s2 b)"
  proof (cases "\<not> blocked c2 \<and> current_thread s \<noteq> a \<and> current_thread s \<noteq> idle_thread s2")
    case False
    then have "requeued s a = []" using cur(3) c2(2) s2(1) by (simp add: requeued_def)
    then show thesis using that [of s2] False q2 by simp
  next
    case True
    then have "current_thread s \<notin> set xs" using cur(1) s2(1) by simp
    from enqueue_spec [OF q2 cur(2) this c2(1) s2(5)] obtain s3 where e:
      "enqueue s2 (current_thread s) = Some s3" "ready_queue s3 (xs @ [current_thread s])"
      "rest s3 = rest s2" "cores s3 = (cores s2)(current_thread s \<mapsto> core (c2\<lparr>blocked := False\<rparr>))" by blast
    have req: "requeued s a = [current_thread s]" using True cur(3) c2(2) s2(1) by (simp add: requeued_def)
    have b: "map_option blocked (threads s3 b) = map_option blocked (cores s3 b)"
      "map_option fixed (threads s3 b) = map_option fixed (cores s3 b)"
      "map_option blocked (threads s2 b) = map_option blocked (cores s2 b)"
      "map_option fixed (threads s2 b) = map_option fixed (cores s2 b)" for b
      by (simp_all add: cores_def option.map_comp comp_def core_fields)
    have "cores s2 (current_thread s) = Some (core c2)" using c2(1) by (simp add: cores_def)
    then have "map_option blocked (threads s3 b) = map_option blocked (threads s2 b)"
      "map_option fixed (threads s3 b) = map_option fixed (threads s2 b)" for b
      unfolding b e(4) using True by (simp_all add: core_fields)
    then show thesis using that [of s3] True e req by simp
  qed
  have s3a: "current_thread s3 = a" "idle_thread s3 = idle_thread s" "procs s3 = procs s \<and> kernel_proc s3 = kernel_proc s"
    "scheduler_enabled s3 = scheduler_enabled s" "\<not> userspace_paused s3"
    using rest_eqD [OF s3(3)] s2 by simp_all
  from s3(4) [of a] s2(6) obtain u where u: "threads s3 a = Some u" by (cases "threads s3 a") auto
  have "upd_thread s1 a (\<lambda>t. t\<lparr>ticks_running := ticks_running t + 1\<rparr>) = Some s2"
    using a(1) s1(1) by (simp add: s2_def)
  then have "dispatch s a = resume_thread s3 a"
    using a cur(2) c2(1) s3(1) unfolding dispatch_def Let_def by (simp add: s1_def [symmetric])
  then have d: "dispatch s a = (if suspended_in_kernel u
     then Some (Resume_in_kernel (kernel_resume_esp u),
       s3\<lparr>threads := (threads s3)(a \<mapsto> u\<lparr>suspended_in_kernel := False\<rparr>)\<rparr>)
     else do {
       let s = (if \<not> is_thread_in_kernel_mode u then s3\<lparr>tss_stack := kernel_stack_end u\<rparr> else s3);
       let frame =
         (if is_kernel_thread u
          then if started u then (t_frame u)\<lparr>f_esp := f_esp (t_frame u) + 5 * 4\<rparr> else t_frame u
          else (t_frame u)\<lparr>f_esp := kernel_stack_end u\<rparr>);
       s \<leftarrow> upd_thread s a (\<lambda>t. t\<lparr>t_frame := frame, started := True\<rparr>);
       Some (Enter_frame (f_esp frame) frame
               (if is_thread_in_kernel_mode u then frame_size_kernel else frame_size_user), s)
     })"
    using u by (simp add: resume_thread_def)
  have fin: ?thesis if r: "dispatch s a = Some (r, s4\<lparr>threads := (threads s4)(a \<mapsto> f u)\<rparr>)"
    and s4: "s4 = s3 \<or> s4 = s3\<lparr>tss_stack := x\<rparr>"
    and f: "next_ready (f u) = next_ready u" "prev_ready (f u) = prev_ready u" "blocked (f u) = blocked u"
      "fixed (f u) = fixed u" for r s4 f x
  proof -
    have th: "threads s4 = threads s3" using s4 by auto
    have "ready_queue s4 (xs @ requeued s a)"
      using s3(2) by (subst ready_queue_cong [of s4 s3]) (use s4 in auto)
    then have "ready_queue (s4\<lparr>threads := (threads s4)(a \<mapsto> f u)\<rparr>) (xs @ requeued s a)"
      using f(1,2) u th by (intro ready_queue_upd) simp_all
    moreover have "map_option blocked (((threads s4)(a \<mapsto> f u)) b) = map_option blocked (threads s b)"
      "map_option fixed (((threads s4)(a \<mapsto> f u)) b) = map_option fixed (threads s b)" for b
      using s3(4,5) [of b] s2(6) a(1) u f(3,4) th by (auto split: if_splits)
    ultimately show ?thesis
      using r s3a s4 by (intro exI [of _ r] exI [of _ "s4\<lparr>threads := (threads s4)(a \<mapsto> f u)\<rparr>"]) auto
  qed
  show ?thesis
  proof (cases "suspended_in_kernel u")
    case True
    then show ?thesis
      using d u by (intro fin [of "Resume_in_kernel (kernel_resume_esp u)" s3 "\<lambda>t. t\<lparr>suspended_in_kernel := False\<rparr>"]) simp_all
  next
    case False
    define fr where "fr = (if is_kernel_thread u
          then if started u then (t_frame u)\<lparr>f_esp := f_esp (t_frame u) + 5 * 4\<rparr> else t_frame u
          else (t_frame u)\<lparr>f_esp := kernel_stack_end u\<rparr>)"
    define s4 where "s4 = (if \<not> is_thread_in_kernel_mode u then s3\<lparr>tss_stack := kernel_stack_end u\<rparr> else s3)"
    have th: "threads s4 a = Some u" using u by (simp add: s4_def)
    show ?thesis
      using d False th
      by (intro fin [of _ s4 "\<lambda>t. t\<lparr>t_frame := fr, started := True\<rparr>" "kernel_stack_end u"])
        (simp_all add: fr_def [symmetric] s4_def [symmetric] Let_def, simp add: s4_def)
  qed
qed

text \<open>The thread \<open>dispatch_next_thread\<close> chooses.\<close>

definition next_choice :: "sched \<Rightarrow> nat list \<Rightarrow> nat" where
  "next_choice s xs =
     (case xs of
        x # _ \<Rightarrow> x
      | [] \<Rightarrow> if map_option blocked (threads s (current_thread s)) = Some False
             then current_thread s else idle_thread s)"

text \<open>A state between two threads: the running thread may just have been marked blocked.\<close>

definition sched_pre :: "sched \<Rightarrow> nat list \<Rightarrow> bool" where
  "sched_pre s xs \<longleftrightarrow> ready_queue s xs \<and> \<not> userspace_paused s \<and> scheduler_enabled s \<and>
     current_thread s \<noteq> 0 \<and> idle_thread s \<noteq> 0 \<and> threads s 0 = None \<and>
     current_thread s \<in> dom (threads s) \<and> idle_thread s \<in> dom (threads s) \<and>
     (current_thread s \<noteq> idle_thread s \<longrightarrow> map_option blocked (threads s (idle_thread s)) = Some False) \<and>
     (\<forall>a t. threads s a = Some t \<longrightarrow> procs s (t_proc t) \<noteq> None) \<and>
     (\<forall>a t. threads s a = Some t \<and> a \<noteq> idle_thread s \<and> a \<noteq> current_thread s \<longrightarrow>
        (a \<in> set xs \<longleftrightarrow> \<not> blocked t)) \<and>
     (current_thread s \<noteq> idle_thread s \<longrightarrow> current_thread s \<notin> set xs)"

lemma dispatch_next_spec:
  assumes pre: "sched_pre s xs"
  shows "\<exists>r s'. dispatch_next_thread s = Some (r, s') \<and>
    ready_queue s' (tl xs @ requeued s (next_choice s xs)) \<and>
    current_thread s' = next_choice s xs \<and> idle_thread s' = idle_thread s \<and> (procs s' = procs s \<and> kernel_proc s' = kernel_proc s) \<and>
    scheduler_enabled s' = scheduler_enabled s \<and> \<not> userspace_paused s' \<and>
    (\<forall>b. map_option blocked (threads s' b) = map_option blocked (threads s b)) \<and>
    (\<forall>b. map_option fixed (threads s' b) = map_option fixed (threads s b))"
proof -
  have q: "ready_queue s xs" and np: "\<not> userspace_paused s" and en: "scheduler_enabled s"
    and c0: "current_thread s \<noteq> 0" "idle_thread s \<noteq> 0"
    and cx: "current_thread s \<notin> set xs \<or> current_thread s = idle_thread s"
    and pd: "\<And>a t. threads s a = Some t \<Longrightarrow> procs s (t_proc t) \<noteq> None"
    using pre by (auto simp: sched_pre_def)
  obtain c where c: "threads s (current_thread s) = Some c" using pre by (auto simp: sched_pre_def)
  obtain i where i: "threads s (idle_thread s) = Some i" using pre by (auto simp: sched_pre_def)
  show ?thesis
  proof (cases xs)
    case Nil
    have "next_choice s xs = current_thread s \<or> next_choice s xs = idle_thread s"
      by (simp add: next_choice_def Nil)
    with c i obtain t where t: "threads s (next_choice s xs) = Some t" by metis
    from pd [OF this] obtain p where p: "procs s (t_proc t) = Some p" by blast
    have n: "dispatch_next_thread s = dispatch s (next_choice s xs)"
      using en c0 c dequeue_empty [of s] q Nil
      by (simp add: dispatch_next_thread_def next_choice_def)
    from dispatch_spec [OF q np cx c0(1) c t p] show ?thesis unfolding n Nil by simp
  next
    case (Cons x ys)
    from dequeue_Cons [of s x ys] q Cons obtain s1 where s1:
      "dequeue s = Some (x, s1)" "ready_queue s1 ys" "rest s1 = rest s" "cores s1 = cores s" by blast
    note r = rest_eqD [OF s1(3)]
    have x: "x \<noteq> 0" "next_choice s xs = x" using ready_queue_mem0 [OF q] Cons by (auto simp: next_choice_def)
    have co: "map_option blocked (threads s1 b) = map_option blocked (threads s b)"
      "map_option fixed (threads s1 b) = map_option fixed (threads s b)" for b
    proof -
      have "map_option f (threads u b) = map_option f (cores u b)"
        if "\<And>t. f (core t) = f t" for f :: "thread \<Rightarrow> 'z" and u
        by (simp add: cores_def option.map_comp comp_def that)
      from this [of blocked] this [of fixed]
      show "map_option blocked (threads s1 b) = map_option blocked (threads s b)"
        "map_option fixed (threads s1 b) = map_option fixed (threads s b)"
        by (simp_all add: core_fields s1(4))
    qed
    obtain t where t: "threads s1 x = Some t"
      using ready_queue_dom [OF q, of x] Cons co(1) [of x] by (cases "threads s1 x") auto
    obtain t0 where t0: "threads s x = Some t0" "t_proc t0 = t_proc t"
      using co(2) [of x] t by (cases "threads s x") (auto simp: fixed_def)
    from pd [OF t0(1)] t0(2) r(1) obtain p where p: "procs s1 (t_proc t) = Some p" by auto
    obtain c1 where c1: "threads s1 (current_thread s1) = Some c1" "blocked c1 = blocked c"
      using co(1) [of "current_thread s"] c r(4) by (cases "threads s1 (current_thread s)") auto
    have n: "dispatch_next_thread s = dispatch s1 x"
      using en s1(1) x(1) by (simp add: dispatch_next_thread_def)
    have req: "requeued s1 x = requeued s x"
      using c c1 r(4,5) by (simp add: requeued_def)
    have cx1: "current_thread s1 \<notin> set ys \<or> current_thread s1 = idle_thread s1"
      using cx r(4,5) Cons by auto
    from dispatch_spec [OF s1(2) _ cx1 _ c1(1) t p] show ?thesis
      unfolding n x(2) using np c0(1) r co req Cons by simp
  qed
qed

text \<open>The queue after a switch, and that it keeps the scheduler's invariant.\<close>

lemma dispatch_next_ok:
  assumes pre: "sched_pre s xs"
    and idle: "map_option blocked (threads s (idle_thread s)) = Some False"
  shows "\<exists>r s'. dispatch_next_thread s = Some (r, s') \<and> sched_ok s' (tl xs @ requeued s (next_choice s xs)) \<and>
    current_thread s' = next_choice s xs \<and> idle_thread s' = idle_thread s \<and>
    (\<forall>b. map_option blocked (threads s' b) = map_option blocked (threads s b)) \<and>
    (\<forall>b. map_option fixed (threads s' b) = map_option fixed (threads s b)) \<and> (procs s' = procs s \<and> kernel_proc s' = kernel_proc s)"
proof -
  let ?n = "next_choice s xs" and ?ys = "tl xs @ requeued s (next_choice s xs)"
  from dispatch_next_spec [OF pre] obtain r s' where s':
    "dispatch_next_thread s = Some (r, s')" "ready_queue s' ?ys"
    "current_thread s' = ?n" "idle_thread s' = idle_thread s" "(procs s' = procs s \<and> kernel_proc s' = kernel_proc s)"
    "scheduler_enabled s' = scheduler_enabled s" "\<not> userspace_paused s'"
    "\<And>b. map_option blocked (threads s' b) = map_option blocked (threads s b)"
    "\<And>b. map_option fixed (threads s' b) = map_option fixed (threads s b)" by blast
  have f: "ready_queue s xs" "scheduler_enabled s" "current_thread s \<noteq> 0" "idle_thread s \<noteq> 0"
    "threads s 0 = None" "current_thread s \<in> dom (threads s)" "idle_thread s \<in> dom (threads s)"
    "\<And>a t. threads s a = Some t \<Longrightarrow> procs s (t_proc t) \<noteq> None"
    "\<And>a t. threads s a = Some t \<Longrightarrow> a \<noteq> idle_thread s \<Longrightarrow> a \<noteq> current_thread s \<Longrightarrow>
        (a \<in> set xs \<longleftrightarrow> \<not> blocked t)"
    "current_thread s \<noteq> idle_thread s \<Longrightarrow> current_thread s \<notin> set xs"
    using pre by (auto simp: sched_pre_def)
  obtain c where c: "threads s (current_thread s) = Some c" using f(6) by auto
  have dist: "distinct xs" using f(1) by (simp add: ready_queue_def)
  have n: "?n \<noteq> 0" "?n \<in> dom (threads s)"
    using f(3,4,6,7) ready_queue_mem0 [OF f(1)] ready_queue_dom [OF f(1)]
    by (auto simp: next_choice_def split: list.splits)
  have dom: "threads s' b = None \<longleftrightarrow> threads s b = None" for b
    using s'(8) [of b] by (metis option.map_disc_iff)
  have iff: "a \<in> set ?ys \<longleftrightarrow> \<not> blocked t \<and> a \<noteq> ?n" if t: "threads s a = Some t" "a \<noteq> idle_thread s" for a t
  proof (cases "a = current_thread s")
    case True
    then have ax: "a \<notin> set xs" using f(10) t(2) by auto
    then have "a \<notin> set (tl xs)" by (cases xs) auto
    moreover have "a = ?n \<Longrightarrow> xs = []" using ax by (auto simp: next_choice_def split: list.splits)
    ultimately show ?thesis
      using True t c by (auto simp: requeued_def split: if_splits)
  next
    case False
    then have m: "a \<in> set xs \<longleftrightarrow> \<not> blocked t" using f(9) [OF t] by simp
    have "a \<notin> set (requeued s ?n)" using False by (simp add: requeued_def c)
    then have "a \<in> set ?ys \<longleftrightarrow> a \<in> set (tl xs)" by simp
    also have "\<dots> \<longleftrightarrow> a \<in> set xs \<and> a \<noteq> ?n"
    proof (cases xs)
      case Nil
      then show ?thesis by simp
    next
      case (Cons x ys)
      then show ?thesis using dist by (auto simp: next_choice_def)
    qed
    finally show ?thesis using m by simp
  qed
  have "sched_ok s' ?ys"
    unfolding sched_ok_def
  proof (intro conjI allI impI)
    show "ready_queue s' ?ys" "\<not> userspace_paused s'" "scheduler_enabled s'" "current_thread s' \<noteq> 0"
      "idle_thread s' \<noteq> 0" "threads s' 0 = None" using s' f n dom by simp_all
    have "map_option blocked (threads s ?n) = Some False"
    proof (cases xs)
      case Nil
      then show ?thesis using idle by (simp add: next_choice_def)
    next
      case (Cons x ys)
      then have x: "?n = x" "x \<in> set xs" by (auto simp: next_choice_def)
      then obtain u where u: "threads s x = Some u" using ready_queue_dom [OF f(1)] by blast
      show ?thesis
      proof (cases "x = idle_thread s")
        case False
        with f(10) x(2) have "x \<noteq> current_thread s" by blast
        with f(9) [OF u False] x u show ?thesis by simp
      qed (use idle x in simp)
    qed
    then show "\<exists>t. threads s' (current_thread s') = Some t \<and> \<not> blocked t"
      using s'(3) s'(8) [of ?n] by auto
    show "\<exists>t. threads s' (idle_thread s') = Some t \<and> \<not> blocked t"
      using idle s'(4) s'(8) [of "idle_thread s"] by auto
  next
    fix a t assume "threads s' a = Some t"
    then obtain u where "threads s a = Some u" "t_proc u = t_proc t"
      using s'(9) [of a] by (cases "threads s a") (auto simp: fixed_def)
    with f(8) [of a u] s'(5) show "procs s' (t_proc t) \<noteq> None" by simp
  next
    fix a t assume a: "threads s' a = Some t \<and> a \<noteq> idle_thread s'"
    then obtain u where u: "threads s a = Some u" "blocked u = blocked t"
      using s'(8) [of a] by (cases "threads s a") auto
    with iff [OF u(1)] a s'(3,4) show "a \<in> set ?ys \<longleftrightarrow> \<not> blocked t \<and> a \<noteq> current_thread s'"
      by simp
  qed
  with s' show ?thesis by blast
qed

section \<open>Yielding, blocking, waking\<close>

lemma sched_okD:
  assumes "sched_ok s xs"
  shows "ready_queue s xs" "\<not> userspace_paused s" "scheduler_enabled s" "current_thread s \<noteq> 0"
    "idle_thread s \<noteq> 0" "threads s 0 = None" "\<exists>t. threads s (current_thread s) = Some t \<and> \<not> blocked t"
    "map_option blocked (threads s (idle_thread s)) = Some False"
    "threads s a = Some t \<Longrightarrow> procs s (t_proc t) \<noteq> None"
    "threads s a = Some t \<Longrightarrow> a \<noteq> idle_thread s \<Longrightarrow>
      (a \<in> set xs \<longleftrightarrow> \<not> blocked t \<and> a \<noteq> current_thread s)"
  using assms unfolding sched_ok_def by auto

lemma sched_ok_pre: "sched_ok s xs \<Longrightarrow> sched_pre s xs"
  unfolding sched_pre_def using sched_okD [of s xs] by (auto simp: domIff)

text \<open>The running thread marked blocked, or its saved stack pointer changed.\<close>

lemma sched_pre_upd:
  assumes ok: "sched_ok s xs" and t: "threads s (current_thread s) = Some t"
    and f: "next_ready (f t) = next_ready t" "prev_ready (f t) = prev_ready t" "fixed (f t) = fixed t"
  shows "sched_pre (s\<lparr>threads := (threads s)(current_thread s \<mapsto> f t)\<rparr>) xs"
proof -
  note d = sched_okD [OF ok]
  have "ready_queue (s\<lparr>threads := (threads s)(current_thread s \<mapsto> f t)\<rparr>) xs"
    by (rule ready_queue_upd [where f = f, OF d(1) t f(1,2)])
  moreover have "procs s (t_proc (f t)) \<noteq> None" using d(9) [OF t] fixed_proc [OF f(3)] by simp
  moreover have "idle_thread s \<in> dom (threads s)" using d(8) by auto
  moreover have "current_thread s \<noteq> idle_thread s \<Longrightarrow> current_thread s \<notin> set xs"
    using d(10) [OF t] by blast
  ultimately show ?thesis
    unfolding sched_pre_def using d t by (auto split: if_splits)
qed

text \<open>The queue and the choice when the running thread gives up the processor.\<close>

definition rotated :: "sched \<Rightarrow> nat list \<Rightarrow> nat list" where
  "rotated s xs = (if current_thread s = idle_thread s then xs else xs @ [current_thread s])"

lemma yield_noreturn_spec:
  assumes ok: "sched_ok s xs"
  shows "\<exists>r s'. yield_noreturn s False = Some (r, s') \<and> sched_ok s' (tl (rotated s xs)) \<and>
    current_thread s' = hd (rotated s xs @ [current_thread s]) \<and> idle_thread s' = idle_thread s \<and>
    (\<forall>b. map_option blocked (threads s' b) = map_option blocked (threads s b)) \<and>
    (\<forall>b. map_option fixed (threads s' b) = map_option fixed (threads s b)) \<and> (procs s' = procs s \<and> kernel_proc s' = kernel_proc s)"
proof -
  note d = sched_okD [OF ok]
  obtain c where c: "threads s (current_thread s) = Some c" "\<not> blocked c" using d(7) by blast
  have r: "tl xs @ requeued s (next_choice s xs) = tl (rotated s xs)"
    "next_choice s xs = hd (rotated s xs @ [current_thread s])"
  proof (atomize (full), cases xs)
    case Nil
    then show "tl xs @ requeued s (next_choice s xs) = tl (rotated s xs) \<and>
        next_choice s xs = hd (rotated s xs @ [current_thread s])"
      using c by (simp add: next_choice_def requeued_def rotated_def)
  next
    case (Cons x ys)
    then have "x \<noteq> current_thread s" if "current_thread s \<noteq> idle_thread s"
      using d(10) [OF c(1) that] by auto
    then show "tl xs @ requeued s (next_choice s xs) = tl (rotated s xs) \<and>
        next_choice s xs = hd (rotated s xs @ [current_thread s])"
      using c Cons by (auto simp: next_choice_def requeued_def rotated_def)
  qed
  from dispatch_next_ok [OF sched_ok_pre [OF ok] d(8)] show ?thesis
    unfolding r(1) unfolding r(2) by (simp add: yield_noreturn_def)
qed

text \<open>Blocking the running thread, by a plain yield or from within kernel code.\<close>

lemma block_spec:
  assumes ok: "sched_ok s xs" and cur: "current_thread s \<noteq> idle_thread s"
    and t: "threads s (current_thread s) = Some t"
    and f: "next_ready (f t) = next_ready t" "prev_ready (f t) = prev_ready t" "fixed (f t) = fixed t"
      "blocked (f t)"
  shows "\<exists>r s'. dispatch_next_thread (s\<lparr>threads := (threads s)(current_thread s \<mapsto> f t)\<rparr>) = Some (r, s') \<and>
    sched_ok s' (tl xs) \<and> current_thread s' = hd (xs @ [idle_thread s]) \<and> idle_thread s' = idle_thread s \<and>
    (\<forall>b. map_option blocked (threads s' b) =
      (if b = current_thread s then Some True else map_option blocked (threads s b))) \<and>
    (\<forall>b. map_option fixed (threads s' b) = map_option fixed (threads s b)) \<and> (procs s' = procs s \<and> kernel_proc s' = kernel_proc s)"
proof -
  let ?s = "s\<lparr>threads := (threads s)(current_thread s \<mapsto> f t)\<rparr>"
  have pre: "sched_pre ?s xs" by (rule sched_pre_upd [where f = f, OF ok t f(1-3)])
  have idle: "map_option blocked (threads ?s (idle_thread ?s)) = Some False"
    using sched_okD(8) [OF ok] cur by simp
  have r: "tl xs @ requeued ?s (next_choice ?s xs) = tl xs" "next_choice ?s xs = hd (xs @ [idle_thread s])"
    using f(4) by (auto simp: requeued_def next_choice_def split: list.splits)
  from dispatch_next_ok [OF pre idle] obtain q s' where s':
    "dispatch_next_thread ?s = Some (q, s')" "sched_ok s' (tl xs)"
    "current_thread s' = hd (xs @ [idle_thread s])" "idle_thread s' = idle_thread s"
    "\<And>b. map_option blocked (threads s' b) = map_option blocked (threads ?s b)"
    "\<And>b. map_option fixed (threads s' b) = map_option fixed (threads ?s b)" "(procs s' = procs s \<and> kernel_proc s' = kernel_proc s)"
    unfolding r(1) unfolding r(2) by auto
  have "map_option fixed (threads s' b) = map_option fixed (threads s b)" for b
    using s'(6) [of b] t f(3) by (auto split: if_splits)
  moreover have "map_option blocked (threads s' b) =
      (if b = current_thread s then Some True else map_option blocked (threads s b))" for b
    using s'(5) [of b] f(4) by (auto split: if_splits)
  ultimately show ?thesis using s' by blast
qed

lemma unblock_spec:
  assumes ok: "sched_ok s xs" and t: "threads s a = Some t" "blocked t"
  shows "\<exists>s'. unblock s a = Some s' \<and> sched_ok s' (a # xs) \<and>
    current_thread s' = current_thread s \<and> idle_thread s' = idle_thread s \<and>
    (\<forall>b. map_option blocked (threads s' b) =
      (if b = a then Some False else map_option blocked (threads s b))) \<and>
    (\<forall>b. map_option fixed (threads s' b) = map_option fixed (threads s b)) \<and> (procs s' = procs s \<and> kernel_proc s' = kernel_proc s)"
proof -
  note d = sched_okD [OF ok]
  have "a \<noteq> 0" using t(1) d(6) by (metis option.distinct(1))
  moreover have "a \<noteq> idle_thread s" "a \<noteq> current_thread s" using t d(7,8) by auto
  ultimately have a0: "a \<noteq> 0" "a \<noteq> idle_thread s" "a \<noteq> current_thread s" by auto
  have ax: "a \<notin> set xs" using d(10) [OF t(1) a0(2)] t(2) by simp
  from enqueue_front_spec [OF d(1) a0(1) ax t(1) d(2)] obtain s' where s':
    "enqueue_front s a = Some s'" "ready_queue s' (a # xs)" "rest s' = rest s"
    "cores s' = (cores s)(a \<mapsto> core (t\<lparr>blocked := False\<rparr>))" by blast
  note r = rest_eqD [OF s'(3)]
  have proj: "map_option f (threads s' b) = (if b = a then Some (f (t\<lparr>blocked := False\<rparr>)) else map_option f (threads s b))"
    if "\<And>t. f (core t) = f t" for f :: "thread \<Rightarrow> 'z" and b
  proof -
    have "map_option f (threads u b) = map_option f (cores u b)" for u
      by (simp add: cores_def option.map_comp comp_def that)
    then show ?thesis by (simp add: s'(4) that)
  qed
  have bl: "map_option blocked (threads s' b) =
      (if b = a then Some False else map_option blocked (threads s b))" for b
    by (subst proj) (simp_all add: core_fields)
  have fx: "map_option fixed (threads s' b) = map_option fixed (threads s b)" for b
    using t(1) by (subst proj) (simp_all add: core_fields)
  have orig: "\<exists>u. threads s b = Some u \<and> fixed u = fixed v \<and> (b \<noteq> a \<longrightarrow> blocked u = blocked v) \<and>
      (b = a \<longrightarrow> \<not> blocked v)" if "threads s' b = Some v" for b v
    using fx [of b] bl [of b] that by (cases "threads s b") (auto split: if_splits)
  have "sched_ok s' (a # xs)"
    unfolding sched_ok_def
  proof (intro conjI allI impI)
    show "ready_queue s' (a # xs)" "\<not> userspace_paused s'" "scheduler_enabled s'" "current_thread s' \<noteq> 0"
      "idle_thread s' \<noteq> 0" using s'(2) r d by simp_all
    show "threads s' 0 = None" using bl [of 0] a0(1) d(6) by simp
    show "\<exists>t. threads s' (current_thread s') = Some t \<and> \<not> blocked t"
      using bl [of "current_thread s"] a0(3) d(7) r(4) by auto
    show "\<exists>t. threads s' (idle_thread s') = Some t \<and> \<not> blocked t"
      using bl [of "idle_thread s"] a0(2) d(8) r(5) by auto
  next
    fix b v assume "threads s' b = Some v"
    from orig [OF this] obtain u where u: "threads s b = Some u" "fixed u = fixed v" by blast
    from d(9) [OF u(1)] fixed_proc [OF u(2)] r(1) show "procs s' (t_proc v) \<noteq> None" by simp
  next
    fix b v assume b: "threads s' b = Some v \<and> b \<noteq> idle_thread s'"
    then obtain u where u: "threads s b = Some u" "b \<noteq> a \<longrightarrow> blocked u = blocked v" "b = a \<longrightarrow> \<not> blocked v"
      using orig by blast
    from d(10) [OF u(1)] b r u a0 show "b \<in> set (a # xs) \<longleftrightarrow> \<not> blocked v \<and> b \<noteq> current_thread s'"
      by auto
  qed
  moreover have "unblock s a = Some s'" using t s'(1) by (simp add: unblock_def)
  ultimately show ?thesis using r bl fx by auto
qed

text \<open>
  no thread is lost at preemption. From a consistent scheduler state the timer's yield
  succeeds, the running thread (unless it is the idle thread) goes to the end of the ready
  queue, the thread at its front runs, and the state is consistent again: every thread other
  than the idle thread is in the queue exactly when it is neither blocked nor running.
\<close>

theorem preemption_rotates:
  assumes "sched_ok s xs"
  shows "\<exists>r s'. yield_noreturn s False = Some (r, s') \<and>
    sched_ok s' (tl (if current_thread s = idle_thread s then xs else xs @ [current_thread s])) \<and>
    current_thread s' = hd (xs @ [current_thread s])"
proof -
  have "hd (rotated s xs @ [current_thread s]) = hd (xs @ [current_thread s])"
    by (cases xs) (simp_all add: rotated_def)
  with yield_noreturn_spec [OF assms] show ?thesis by (auto simp: rotated_def)
qed

text \<open>A run of \<open>n\<close> preemptions.\<close>

primrec preemptions :: "nat \<Rightarrow> sched \<Rightarrow> sched kern" where
  "preemptions 0 s = Some s"
| "preemptions (Suc n) s = do { (r, s) \<leftarrow> yield_noreturn s False; preemptions n s }"

lemma preemptions_front:
  "sched_ok s xs \<Longrightarrow> k < length xs \<Longrightarrow>
    \<exists>s' ys. preemptions (Suc k) s = Some s' \<and> sched_ok s' ys \<and> current_thread s' = xs ! k"
proof (induction k arbitrary: s xs)
  case 0
  from yield_noreturn_spec [OF 0(1)] obtain r s' where
    "yield_noreturn s False = Some (r, s')" "sched_ok s' (tl (rotated s xs))"
    "current_thread s' = hd (rotated s xs @ [current_thread s])" by blast
  with 0(2) show ?case by (cases xs) (auto simp: rotated_def)
next
  case (Suc k)
  from yield_noreturn_spec [OF Suc.prems(1)] obtain r s1 where s1:
    "yield_noreturn s False = Some (r, s1)" "sched_ok s1 (tl (rotated s xs))" by blast
  have "k < length (tl (rotated s xs))" "tl (rotated s xs) ! k = xs ! Suc k"
    using Suc.prems(2) by (cases xs; simp add: rotated_def nth_append)+
  from Suc.IH [OF s1(2) this(1)] this(2) s1(1) show ?case by auto
qed

text \<open>
  C10: round-robin fairness. The thread at position \<open>k\<close> of the ready queue is running after
  exactly \<open>k + 1\<close> preemptions: no ready thread waits longer than the number of threads in
  front of it, whatever they do with their time slices.
\<close>

theorem ready_thread_runs:
  assumes "sched_ok s xs" "k < length xs"
  shows "\<exists>s'. preemptions (k + 1) s = Some s' \<and> current_thread s' = xs ! k"
  using preemptions_front [OF assms] by auto

section \<open>An example state\<close>

text \<open>The idle thread at 1, a running thread at 2 and two ready ones at 3 and 4.\<close>

definition example_thread :: "int \<Rightarrow> nat \<Rightarrow> nat \<Rightarrow> nat \<Rightarrow> nat \<Rightarrow> thread" where
  "example_thread tid prev next nproc pproc = \<lparr>t_proc = 9, t_id = tid, t_name = ''t'', ticks_running = 0,
     prev_in_proc = pproc, next_in_proc = nproc, prev_ready = prev, next_ready = next,
     t_frame = zero_frame, kernel_stack_end = 0, kernel_resume_esp = 0, started = True,
     suspended_in_kernel = True, blocked = False, is_kernel_thread = True\<rparr>"

definition example_proc :: proc where
  "example_proc = \<lparr>p_id = 0, first_thread = 1, last_thread = 4, p_prev = 0, p_next = 0, p_name = ''kernel'',
     p_space = 0, p_files = [], working_directory = ''/'', exit_code = -1, exit_sem = new_semaphore 0\<rparr>"

definition example_sched :: sched where
  "example_sched = \<lparr>threads = [1 \<mapsto> example_thread 0 0 0 2 0, 2 \<mapsto> example_thread 1 0 0 3 1,
       3 \<mapsto> example_thread 2 0 4 4 2, 4 \<mapsto> example_thread 3 3 0 0 3],
     procs = [9 \<mapsto> example_proc], kernel_proc = 9, scheduler_enabled = True, current_thread = 2,
     idle_thread = 1, ready_first = 3, ready_last = 4, proc_first = 9, proc_last = 9,
     paused_userspace_queue = 0, userspace_paused = False, thread_count = 4, process_count = 1,
     cur_space = 0, tss_stack = 0\<rparr>"

lemma example_sched_ok: "sched_ok example_sched [3, 4]"
proof -
  have "ready_queue example_sched [3, 4]"
    by (auto simp: ready_queue_def example_sched_def example_thread_def nr_def pr_def)
  then show ?thesis
    by (auto simp: sched_ok_def) (auto simp: example_sched_def example_thread_def split: if_splits)
qed

theorem preemption_rotates_witness:
  "\<exists>r s'. yield_noreturn example_sched False = Some (r, s') \<and> sched_ok s' [4, 2] \<and> current_thread s' = 3"
proof -
  have "current_thread example_sched = 2" "idle_thread example_sched = 1" by (simp_all add: example_sched_def)
  with preemption_rotates [OF example_sched_ok] show ?thesis by simp
qed

theorem ready_thread_runs_witness:
  "\<exists>s'. preemptions 2 example_sched = Some s' \<and> current_thread s' = 4"
  using ready_thread_runs [OF example_sched_ok, of 1] by (simp add: numeral_2_eq_2)

end
