(* ===== verification/Semaphore.thy ===== *)
theory Semaphore
  imports ReadyQueue
begin

text \<open>
  Semaphores and mutexes (ipc/semaphore.cc, ipc/semaphore.hh) and the blocking queue built
  on them (ipc/queue.hh). A semaphore hands its unit directly to a waiting thread: \<open>signal\<close>
  wakes a waiter without touching the counter.

  \<open>esp\<close> is the stack pointer the running thread would be suspended with. An operation that may
  block also returns how the processor goes on if it did (\<open>None\<close>: it returned at once).
\<close>

section \<open>Operations\<close>

lemma dequeue_item_less: "dequeue_item q = Some (x, q') \<Longrightarrow> q_length q \<noteq> 0 \<Longrightarrow> q_length q' < q_length q"
  by (auto simp: dequeue_item_def bind_Some_iff)

lemma q_dequeue_less: "q_dequeue q = Some (Some x, q') \<Longrightarrow> q_length q' < q_length q"
  by (auto simp: q_dequeue_def bind_Some_iff split: if_splits dest: dequeue_item_less)

text \<open>The loop of \<open>signal\<close>: the first waiter that still exists (0 if there is none).\<close>

function signal_loop :: "sched \<Rightarrow> int queue \<Rightarrow> (nat \<times> int queue) kern" where
  "signal_loop s q =
     (case q_dequeue q of
        None \<Rightarrow> None
      | Some (None, q') \<Rightarrow> Some (0, q')
      | Some (Some tid, q') \<Rightarrow>
          (case thread_by_tid s tid of
             None \<Rightarrow> None
           | Some t \<Rightarrow> if t \<noteq> 0 then Some (t, q') else signal_loop s q'))"
  by pat_completeness auto
termination
  by (relation "measure (\<lambda>(s, q). q_length q)") (auto dest: q_dequeue_less)

declare signal_loop.simps [simp del]

definition sem_signal :: "sched \<Rightarrow> semaphore \<Rightarrow> (semaphore \<times> sched) kern" where
  "sem_signal s sem = do {
     (t, q) \<leftarrow> signal_loop s (sem_waiting sem);
     let sem = sem\<lparr>sem_waiting := q\<rparr>;
     if t \<noteq> 0 then do { s \<leftarrow> unblock s t; Some (sem, s) }
     else Some (sem\<lparr>sem_i := sem_i sem + 1\<rparr>, s)
   }"

function signal_all_loop :: "sched \<Rightarrow> int queue \<Rightarrow> (int queue \<times> sched) kern" where
  "signal_all_loop s q =
     (case q_dequeue q of
        None \<Rightarrow> None
      | Some (None, q') \<Rightarrow> Some (q', s)
      | Some (Some tid, q') \<Rightarrow>
          (case thread_by_tid s tid of
             None \<Rightarrow> None
           | Some t \<Rightarrow>
               (case (if t \<noteq> 0 then unblock s t else Some s) of
                  None \<Rightarrow> None
                | Some s' \<Rightarrow> signal_all_loop s' q')))"
  by pat_completeness auto
termination
  by (relation "measure (\<lambda>(s, q). q_length q)") (auto dest: q_dequeue_less)

declare signal_all_loop.simps [simp del]

definition signal_all :: "sched \<Rightarrow> semaphore \<Rightarrow> (semaphore \<times> sched) kern" where
  "signal_all s sem = do {
     (q, s) \<leftarrow> signal_all_loop s (sem_waiting sem);
     Some (sem\<lparr>sem_waiting := q\<rparr>, s)
   }"

definition sem_wait :: "sched \<Rightarrow> u32 \<Rightarrow> semaphore \<Rightarrow> (resumption option \<times> semaphore \<times> sched) kern" where
  "sem_wait s esp sem =
     (if sem_i sem > 0 then Some (None, sem\<lparr>sem_i := sem_i sem - 1\<rparr>, s)
      else do {
        t \<leftarrow> threads s (current_thread s);
        (ok, q) \<leftarrow> q_enqueue (sem_waiting sem) (t_id t);
        kassert ok;
        (r, s) \<leftarrow> yield_thread s esp True;
        Some (r, sem\<lparr>sem_waiting := q\<rparr>, s)
      })"

definition try_wait :: "semaphore \<Rightarrow> bool \<times> semaphore" where
  "try_wait sem =
     (if sem_i sem > 0 then (True, sem\<lparr>sem_i := sem_i sem - 1\<rparr>) else (False, sem))"

text \<open>A mutex is a semaphore that starts at 1.\<close>

definition new_mutex :: semaphore where "new_mutex = new_semaphore 1"

definition mutex_lock :: "sched \<Rightarrow> u32 \<Rightarrow> semaphore \<Rightarrow> (resumption option \<times> semaphore \<times> sched) kern" where
  "mutex_lock s esp mut = sem_wait s esp mut"

definition mutex_try_lock :: "semaphore \<Rightarrow> bool \<times> semaphore" where
  "mutex_try_lock mut = try_wait mut"

definition mutex_unlock :: "sched \<Rightarrow> semaphore \<Rightarrow> (semaphore \<times> sched) kern" where
  "mutex_unlock s mut = sem_signal s mut"

section \<open>The blocking queue\<close>

record 'a kqueue =
  kq_queue :: "'a queue"
  items_available :: semaphore
  space_available :: semaphore

definition new_kqueue :: "nat \<Rightarrow> 'a kqueue" where
  "new_kqueue n = \<lparr>kq_queue = q_empty n, items_available = new_semaphore 0,
     space_available = new_semaphore (int n)\<rparr>"

text \<open>
  The two overloads of \<open>enqueue_\<close>: only the one for an item that may be moved from (\<open>lvalue = False\<close>)
  signals \<open>items_available\<close>.
\<close>

definition kq_put :: "sched \<Rightarrow> 'a kqueue \<Rightarrow> bool \<Rightarrow> 'a \<Rightarrow> ('a kqueue \<times> sched) kern" where
  "kq_put s k lvalue item = do {
     q \<leftarrow> enqueue_item (kq_queue k) item;
     let k = k\<lparr>kq_queue := q\<rparr>;
     if lvalue then Some (k, s)
     else do {
       (sem, s) \<leftarrow> sem_signal s (items_available k);
       Some (k\<lparr>items_available := sem\<rparr>, s)
     }
   }"

definition kq_try_enqueue :: "sched \<Rightarrow> 'a kqueue \<Rightarrow> bool \<Rightarrow> 'a \<Rightarrow> (bool \<times> 'a kqueue \<times> sched) kern" where
  "kq_try_enqueue s k lvalue item =
     (let (ok, sem) = try_wait (space_available k); k = k\<lparr>space_available := sem\<rparr> in
      if ok then do { (k, s) \<leftarrow> kq_put s k lvalue item; Some (True, k, s) }
      else Some (False, k, s))"

definition kq_get :: "sched \<Rightarrow> 'a kqueue \<Rightarrow> ('a \<times> 'a kqueue \<times> sched) kern" where
  "kq_get s k = do {
     (x, q) \<leftarrow> dequeue_item (kq_queue k);
     let k = k\<lparr>kq_queue := q\<rparr>;
     (sem, s) \<leftarrow> sem_signal s (space_available k);
     Some (x, k\<lparr>space_available := sem\<rparr>, s)
   }"

definition kq_try_dequeue :: "sched \<Rightarrow> 'a kqueue \<Rightarrow> ('a option \<times> 'a kqueue \<times> sched) kern" where
  "kq_try_dequeue s k =
     (let (ok, sem) = try_wait (items_available k); k = k\<lparr>items_available := sem\<rparr> in
      if ok then do { (x, k, s) \<leftarrow> kq_get s k; Some (Some x, k, s) }
      else Some (None, k, s))"

text \<open>
  The blocking forms, up to the wait: \<open>Inr\<close> is the finished call, \<open>Inl\<close> says that the caller
  was suspended in the wait; \<open>kq_put\<close> (\<open>kq_get\<close>) is what it does when it is resumed.
\<close>

definition kq_enqueue :: "sched \<Rightarrow> u32 \<Rightarrow> 'a kqueue \<Rightarrow> bool \<Rightarrow> 'a \<Rightarrow>
    ((resumption \<times> 'a kqueue \<times> sched) + ('a kqueue \<times> sched)) kern" where
  "kq_enqueue s esp k lvalue item = do {
     (r, sem, s) \<leftarrow> sem_wait s esp (space_available k);
     let k = k\<lparr>space_available := sem\<rparr>;
     case r of
       Some r \<Rightarrow> Some (Inl (r, k, s))
     | None \<Rightarrow> do { (k, s) \<leftarrow> kq_put s k lvalue item; Some (Inr (k, s)) }
   }"

definition kq_dequeue :: "sched \<Rightarrow> u32 \<Rightarrow> 'a kqueue \<Rightarrow>
    ((resumption \<times> 'a kqueue \<times> sched) + ('a \<times> 'a kqueue \<times> sched)) kern" where
  "kq_dequeue s esp k = do {
     (r, sem, s) \<leftarrow> sem_wait s esp (items_available k);
     let k = k\<lparr>items_available := sem\<rparr>;
     case r of
       Some r \<Rightarrow> Some (Inl (r, k, s))
     | None \<Rightarrow> do { (x, k, s) \<leftarrow> kq_get s k; Some (Inr (x, k, s)) }
   }"

section \<open>Lookup is stable\<close>

text \<open>Scheduling does not change what \<open>thread_by_tid\<close> finds.\<close>

lemma find_thread_transfer:
  "find_thread s a tid = Some r \<Longrightarrow>
    (\<And>b. map_option fixed (threads s' b) = map_option fixed (threads s b)) \<Longrightarrow>
    find_thread s' a tid = Some r"
proof (induction rule: find_thread.raw_induct [rotated, consumes 1, case_names step])
  case (step find_thread' s a tid r)
  show ?case
  proof (cases "a = 0")
    case True
    with step(2) show ?thesis by (simp add: find_thread.simps)
  next
    case False
    with step(2) obtain t where t: "threads s a = Some t"
      "(if t_id t = tid then Some a else find_thread' s (next_in_proc t) tid) = Some r"
      by (auto simp: bind_Some_iff)
    with step(3) [of a] obtain t' where t': "threads s' a = Some t'" "t_id t' = t_id t"
      "next_in_proc t' = next_in_proc t" by (cases "threads s' a") (auto simp: fixed_def)
    with t step(1) [of s "next_in_proc t" tid r] step(3) False show ?thesis
      by (subst find_thread.simps) (auto split: if_splits)
  qed
qed

lemma find_thread_procs_transfer:
  "find_thread_procs s a tid = Some r \<Longrightarrow>
    (\<And>b. map_option fixed (threads s' b) = map_option fixed (threads s b)) \<Longrightarrow> procs s' = procs s \<Longrightarrow>
    find_thread_procs s' a tid = Some r"
proof (induction rule: find_thread_procs.raw_induct [rotated, consumes 1, case_names step])
  case (step find' s a tid r)
  show ?case
  proof (cases "a = 0")
    case True
    with step(2) show ?thesis by (simp add: find_thread_procs.simps)
  next
    case False
    with step(2) obtain p t where p: "procs s a = Some p" "find_thread s (first_thread p) tid = Some t"
      "(if t \<noteq> 0 then Some t else find' s (p_next p) tid) = Some r" by (auto simp: bind_Some_iff)
    with find_thread_transfer [OF p(2) step(3)] step(1) [of s "p_next p" tid r] step(3,4) False
    show ?thesis by (subst find_thread_procs.simps) (auto split: if_splits)
  qed
qed

lemma thread_by_tid_transfer:
  assumes "thread_by_tid s tid = Some r" "kernel_proc s' = kernel_proc s" "procs s' = procs s"
    "\<And>b. map_option fixed (threads s' b) = map_option fixed (threads s b)"
  shows "thread_by_tid s' tid = Some r"
  using find_thread_procs_transfer [of s "kernel_proc s" tid r s'] assms by (simp add: thread_by_tid_def)

end
