(* ===== verification/Mutex.thy ===== *)
theory Mutex
  imports Semaphore
begin

text \<open>
  Mutual exclusion: threads that lock and unlock one mutex while the timer preempts them, as a
  step relation over the scheduler and the semaphore of ipc/semaphore.cc. \<open>inside\<close> is a ghost
  set, the threads between \<open>lock\<close> and \<open>unlock\<close>. A thread that \<open>signal\<close> wakes is inside from
  then on: its call of \<open>wait\<close> has nothing left to do but return.
\<close>

record mutex_sys =
  m_sched :: sched
  m_sem :: semaphore
  inside :: "nat set"

inductive mutex_step :: "mutex_sys \<Rightarrow> mutex_sys \<Rightarrow> bool" where
  lock:
    "mutex_lock (m_sched c) esp (m_sem c) = Some (None, sem, s) \<Longrightarrow>
     mutex_step c \<lparr>m_sched = s, m_sem = sem, inside = insert (current_thread (m_sched c)) (inside c)\<rparr>"
| lock_blocks:
    "mutex_lock (m_sched c) esp (m_sem c) = Some (Some r, sem, s) \<Longrightarrow>
     current_thread (m_sched c) \<noteq> idle_thread (m_sched c) \<Longrightarrow>
     mutex_step c \<lparr>m_sched = s, m_sem = sem, inside = inside c\<rparr>"
| try_lock:
    "mutex_try_lock (m_sem c) = (ok, sem) \<Longrightarrow>
     mutex_step c \<lparr>m_sched = m_sched c, m_sem = sem,
       inside = (if ok then insert (current_thread (m_sched c)) (inside c) else inside c)\<rparr>"
| unlock:
    "current_thread (m_sched c) \<in> inside c \<Longrightarrow>
     signal_loop (m_sched c) (sem_waiting (m_sem c)) = Some (woken, q) \<Longrightarrow>
     mutex_unlock (m_sched c) (m_sem c) = Some (sem, s) \<Longrightarrow>
     mutex_step c \<lparr>m_sched = s, m_sem = sem,
       inside = (inside c - {current_thread (m_sched c)}) \<union> (if woken = 0 then {} else {woken})\<rparr>"
| preempt:
    "yield_noreturn (m_sched c) False = Some (r, s) \<Longrightarrow>
     mutex_step c \<lparr>m_sched = s, m_sem = m_sem c, inside = inside c\<rparr>"

inductive mutex_reachable :: "mutex_sys \<Rightarrow> mutex_sys \<Rightarrow> bool" for c0 where
  start: "mutex_reachable c0 c0"
| step: "mutex_reachable c0 c \<Longrightarrow> mutex_step c c' \<Longrightarrow> mutex_reachable c0 c'"

inductive_cases mutex_stepE: "mutex_step c c'"

section \<open>The invariant\<close>

text \<open>Every thread is found by its own number, and by no other.\<close>

definition lookup_ok :: "sched \<Rightarrow> bool" where
  "lookup_ok s \<longleftrightarrow> (\<forall>a t. threads s a = Some t \<longrightarrow> thread_by_tid s (t_id t) = Some a)"

text \<open>The waiting numbers belong to blocked threads.\<close>

definition waiters_blocked :: "sched \<Rightarrow> int list \<Rightarrow> bool" where
  "waiters_blocked s tids \<longleftrightarrow>
     distinct tids \<and> (\<forall>tid \<in> set tids. \<exists>a t. threads s a = Some t \<and> t_id t = tid \<and> blocked t)"

definition mutex_inv :: "mutex_sys \<Rightarrow> bool" where
  "mutex_inv c \<longleftrightarrow>
     (\<exists>xs. sched_ok (m_sched c) xs) \<and> lookup_ok (m_sched c) \<and>
     q_inv (sem_waiting (m_sem c)) \<and>
     waiters_blocked (m_sched c) (q_list (sem_waiting (m_sem c))) \<and>
     (sem_i (m_sem c) = 1 \<and> inside c = {} \<and> q_list (sem_waiting (m_sem c)) = [] \<or>
      sem_i (m_sem c) = 0 \<and> (\<exists>a. inside c = {a}))"

lemma lookup_ok_transfer:
  assumes "lookup_ok s" "kernel_proc s' = kernel_proc s" "procs s' = procs s"
    "\<And>b. map_option fixed (threads s' b) = map_option fixed (threads s b)"
  shows "lookup_ok s'"
  unfolding lookup_ok_def
proof (intro allI impI)
  fix a t assume "threads s' a = Some t"
  with assms(4) [of a] obtain u where u: "threads s a = Some u" "t_id u = t_id t"
    by (cases "threads s a") (auto simp: fixed_def)
  from assms(1) [unfolded lookup_ok_def, rule_format, OF u(1)] u(2)
  have "thread_by_tid s (t_id t) = Some a" by simp
  with thread_by_tid_transfer [OF _ assms(2,3,4)] show "thread_by_tid s' (t_id t) = Some a" by blast
qed

lemma waiters_transfer:
  assumes "waiters_blocked s tids"
    "\<And>b. map_option fixed (threads s' b) = map_option fixed (threads s b)"
    "\<And>b t. threads s b = Some t \<Longrightarrow> t_id t \<in> set tids' \<Longrightarrow> blocked t \<Longrightarrow> map_option blocked (threads s' b) = Some True"
    and sub: "set tids' \<subseteq> set tids" "distinct tids'"
  shows "waiters_blocked s' tids'"
  unfolding waiters_blocked_def
proof (intro conjI ballI)
  show "distinct tids'" by (rule sub)
  fix tid assume tid: "tid \<in> set tids'"
  with assms(1) sub(1) obtain a t where t: "threads s a = Some t" "t_id t = tid" "blocked t"
    unfolding waiters_blocked_def by blast
  with assms(2) [of a] assms(3) [OF t(1)] tid obtain t' where "threads s' a = Some t'" "t_id t' = tid" "blocked t'"
    by (cases "threads s' a") (auto simp: fixed_def)
  then show "\<exists>a t. threads s' a = Some t \<and> t_id t = tid \<and> blocked t" by blast
qed

text \<open>Waking: the first waiter exists, so the loop of \<open>signal\<close> stops at it.\<close>

lemma signal_loop_spec:
  assumes "q_inv q" "lookup_ok s" "waiters_blocked s (q_list q)" "threads s 0 = None"
  shows "case q_list q of
      [] \<Rightarrow> signal_loop s q = Some (0, q)
    | tid # tids \<Rightarrow> \<exists>a t q'. signal_loop s q = Some (a, q') \<and> a \<noteq> 0 \<and> threads s a = Some t \<and> t_id t = tid \<and>
        blocked t \<and> q_inv q' \<and> q_list q' = tids"
proof (cases "q_list q")
  case Nil
  with rb.deq_empty [OF assms(1)] show ?thesis by (simp add: signal_loop.simps)
next
  case (Cons tid tids)
  from rb.deq_item [OF assms(1) Cons] obtain q' where q':
    "q_dequeue q = Some (Some tid, q')" "q_inv q'" "q_list q' = tids" by blast
  from assms(3) Cons obtain a t where t: "threads s a = Some t" "t_id t = tid" "blocked t"
    unfolding waiters_blocked_def by auto
  then have "thread_by_tid s tid = Some a" using assms(2) unfolding lookup_ok_def by blast
  moreover have "a \<noteq> 0" using t(1) assms(4) by (metis option.distinct(1))
  ultimately have "signal_loop s q = Some (a, q')" using q'(1) by (subst signal_loop.simps) simp
  with t q' \<open>a \<noteq> 0\<close> Cons show ?thesis by auto
qed

lemma tid_unique:
  assumes "lookup_ok s" "threads s a = Some t" "threads s b = Some u" "t_id t = t_id u"
  shows "a = b"
  using assms unfolding lookup_ok_def by (metis option.inject)

lemma mutex_inv_step:
  assumes "mutex_step c c'" "mutex_inv c"
  shows "mutex_inv c'"
proof -
  let ?s = "m_sched c" and ?m = "m_sem c"
  from assms(2) obtain xs where inv: "sched_ok ?s xs" "lookup_ok ?s" "q_inv (sem_waiting ?m)"
    "waiters_blocked ?s (q_list (sem_waiting ?m))"
    "sem_i ?m = 1 \<and> inside c = {} \<and> q_list (sem_waiting ?m) = [] \<or> sem_i ?m = 0 \<and> (\<exists>a. inside c = {a})"
    unfolding mutex_inv_def by blast
  note d = sched_okD [OF inv(1)]
  from assms(1) show ?thesis
  proof (cases rule: mutex_stepE [consumes 1, case_names lock lock_blocks try_lock unlock preempt])
    case (lock esp sem s)
    then have "sem_i ?m > 0 \<and> sem = ?m\<lparr>sem_i := sem_i ?m - 1\<rparr> \<and> s = ?s"
      by (auto simp: mutex_lock_def sem_wait_def yield_thread_def bind_Some_iff d(4) split: if_splits)
    with lock inv show ?thesis unfolding mutex_inv_def by auto
  next
    case (lock_blocks esp r sem s)
    have i0: "\<not> sem_i ?m > 0" using lock_blocks(2) by (auto simp: mutex_lock_def sem_wait_def)
    then have i: "sem_i ?m = 0" using inv(5) by auto
    obtain t where t: "threads ?s (current_thread ?s) = Some t" "\<not> blocked t" using d(7) by blast
    from lock_blocks(2) t(1) i0 obtain q where q: "q_enqueue (sem_waiting ?m) (t_id t) = Some (True, q)"
      "yield_thread ?s esp True = Some (Some r, s)" "sem = ?m\<lparr>sem_waiting := q\<rparr>"
      by (auto simp: mutex_lock_def sem_wait_def bind_Some_iff split: if_splits)
    have "q_inv q \<and> q_list q = q_list (sem_waiting ?m) @ [t_id t]"
    proof (cases "length (q_list (sem_waiting ?m)) = q_capacity (sem_waiting ?m)")
      case True
      from rb.enq_full [OF inv(3) True, of "t_id t"] q(1) show ?thesis by simp
    next
      case False
      from rb.enq_room [OF inv(3) False, of "t_id t"] q(1) show ?thesis by auto
    qed
    note q' = conjunct1 [OF this] conjunct2 [OF this]
    let ?f = "\<lambda>t. t\<lparr>blocked := True, kernel_resume_esp := esp, suspended_in_kernel := True\<rparr>"
    have y: "dispatch_next_thread (?s\<lparr>threads := (threads ?s)(current_thread ?s \<mapsto> ?f t)\<rparr>) = Some (r, s)"
      using q(2) t(1) d(4) by (auto simp: yield_thread_def suspend_2_def bind_Some_iff)
    have f: "next_ready (?f t) = next_ready t" "prev_ready (?f t) = prev_ready t"
      "fixed (?f t) = fixed t" "blocked (?f t)" by simp_all
    from block_spec [where f = ?f, OF inv(1) lock_blocks(3) t(1) f] y have s: "sched_ok s (tl xs)"
      "\<And>b. map_option blocked (threads s b) =
        (if b = current_thread ?s then Some True else map_option blocked (threads ?s b))"
      "\<And>b. map_option fixed (threads s b) = map_option fixed (threads ?s b)" "procs s = procs ?s"
      "kernel_proc s = kernel_proc ?s" by auto
    have fresh: "t_id t \<notin> set (q_list (sem_waiting ?m))"
      using inv(4) tid_unique [OF inv(2) t(1)] t(2) unfolding waiters_blocked_def
      by (metis t(1) option.inject)
    have "waiters_blocked s (q_list (sem_waiting ?m))"
      using inv(4) s(2,3) by (intro waiters_transfer [OF inv(4)]) (auto simp: waiters_blocked_def)
    moreover have "\<exists>a u. threads s a = Some u \<and> t_id u = t_id t \<and> blocked u"
      using s(2) [of "current_thread ?s"] s(3) [of "current_thread ?s"] t(1)
      by (cases "threads s (current_thread ?s)") (auto simp: fixed_def)
    ultimately have "waiters_blocked s (q_list q)"
      unfolding q'(2) waiters_blocked_def using fresh by auto
    moreover have "lookup_ok s" by (rule lookup_ok_transfer [OF inv(2) s(5,4,3)])
    ultimately show ?thesis
      unfolding lock_blocks(1) mutex_inv_def using s(1) q' q(3) i inv(5) by auto
  next
    case (try_lock ok sem)
    then show ?thesis using inv unfolding mutex_inv_def mutex_try_lock_def try_wait_def
      by (auto split: if_splits)
  next
    case (unlock woken q sem s)
    then have i: "sem_i ?m = 0" "inside c = {current_thread ?s}" using inv(5) by auto
    note sl = signal_loop_spec [OF inv(3,2,4) d(6)]
    show ?thesis
    proof (cases "q_list (sem_waiting ?m)")
      case Nil
      with sl unlock(3) have w: "woken = 0" "q = sem_waiting ?m" by auto
      with unlock(3,4) have "sem = ?m\<lparr>sem_waiting := sem_waiting ?m, sem_i := sem_i ?m + 1\<rparr>" "s = ?s"
        by (auto simp: mutex_unlock_def sem_signal_def)
      then show ?thesis
        unfolding unlock(1) mutex_inv_def using w i inv Nil by auto
    next
      case (Cons tid tids)
      with sl unlock(3) obtain t where t: "woken \<noteq> 0" "threads ?s woken = Some t" "t_id t = tid" "blocked t"
        "q_inv q" "q_list q = tids" by auto
      from unblock_spec [OF inv(1) t(2,4)] obtain s' where u: "unblock ?s woken = Some s'"
        "sched_ok s' (woken # xs)"
        "\<And>b. map_option blocked (threads s' b) =
          (if b = woken then Some False else map_option blocked (threads ?s b))"
        "\<And>b. map_option fixed (threads s' b) = map_option fixed (threads ?s b)"
        "procs s' = procs ?s" "kernel_proc s' = kernel_proc ?s" by blast
      from unlock(3,4) t(1) u(1) have s: "s = s'" "sem = ?m\<lparr>sem_waiting := q\<rparr>"
        by (auto simp: mutex_unlock_def sem_signal_def)
      have dist: "distinct tids" "tid \<notin> set tids"
        using inv(4) Cons unfolding waiters_blocked_def by auto
      have "waiters_blocked s' tids"
      proof (rule waiters_transfer [OF inv(4) u(4)])
        show "set tids \<subseteq> set (q_list (sem_waiting ?m))" "distinct tids" using Cons dist by auto
        fix b v assume v: "threads ?s b = Some v" "t_id v \<in> set tids" "blocked v"
        then have "b \<noteq> woken" using t(2,3) dist(2) by auto
        with u(3) [of b] v show "map_option blocked (threads s' b) = Some True" by simp
      qed
      moreover have "lookup_ok s'" by (rule lookup_ok_transfer [OF inv(2) u(6,5,4)])
      ultimately show ?thesis
        unfolding unlock(1) mutex_inv_def s using u(2) t i by auto
    qed
  next
    case (preempt r s)
    from yield_noreturn_spec [OF inv(1)] preempt(2) have s: "sched_ok s (tl (rotated ?s xs))"
      "\<And>b. map_option blocked (threads s b) = map_option blocked (threads ?s b)"
      "\<And>b. map_option fixed (threads s b) = map_option fixed (threads ?s b)" "procs s = procs ?s"
      "kernel_proc s = kernel_proc ?s" by auto
    have "waiters_blocked s (q_list (sem_waiting ?m))"
      using inv(4) s(2,3) by (intro waiters_transfer [OF inv(4)]) (auto simp: waiters_blocked_def)
    moreover have "lookup_ok s" by (rule lookup_ok_transfer [OF inv(2) s(5,4,3)])
    ultimately show ?thesis unfolding preempt(1) mutex_inv_def using s(1) inv(3,5) by auto
  qed
qed

text \<open>Nobody is inside a new mutex.\<close>

definition mutex_init :: "sched \<Rightarrow> mutex_sys" where
  "mutex_init s = \<lparr>m_sched = s, m_sem = new_mutex, inside = {}\<rparr>"

lemma mutex_init_inv: "sched_ok s xs \<Longrightarrow> lookup_ok s \<Longrightarrow> mutex_inv (mutex_init s)"
  by (auto simp: mutex_inv_def mutex_init_def new_mutex_def new_semaphore_def waiters_blocked_def
    semaphore_max_waiting_def)

lemma mutex_inv_reachable:
  "mutex_reachable c0 c \<Longrightarrow> mutex_inv c0 \<Longrightarrow> mutex_inv c"
  by (induction rule: mutex_reachable.induct) (auto intro: mutex_inv_step)

text \<open>
  C11: mutual exclusion. However the threads interleave their calls of \<open>lock\<close>, \<open>try_lock\<close> and
  \<open>unlock\<close>, and whenever the timer preempts them, at most one thread is between \<open>lock\<close> and
  \<open>unlock\<close>; when none is, the mutex is free and nobody waits for it; and the scheduler stays
  consistent.
\<close>

theorem mutual_exclusion:
  assumes "sched_ok s xs" "lookup_ok s" "mutex_reachable (mutex_init s) c"
  shows "(\<forall>a b. a \<in> inside c \<and> b \<in> inside c \<longrightarrow> a = b) \<and>
    (inside c = {} \<longrightarrow> sem_i (m_sem c) = 1 \<and> q_list (sem_waiting (m_sem c)) = []) \<and>
    (\<exists>ys. sched_ok (m_sched c) ys)"
  using mutex_inv_reachable [OF assms(3) mutex_init_inv [OF assms(1,2)]]
  unfolding mutex_inv_def by auto

text \<open>
  an unlock wakes the longest waiting thread and passes the mutex on to it: when threads
  wait, the one at the front of the waiting list leaves it, is made ready, and is the one
  inside; the counter stays 0, so nobody can get in between.
\<close>

theorem unlock_hands_over:
  assumes "mutex_inv c" "current_thread (m_sched c) \<in> inside c"
    and "q_list (sem_waiting (m_sem c)) = tid # tids"
  shows "\<exists>a t sem s. threads (m_sched c) a = Some t \<and> t_id t = tid \<and>
    mutex_unlock (m_sched c) (m_sem c) = Some (sem, s) \<and>
    mutex_step c \<lparr>m_sched = s, m_sem = sem, inside = {a}\<rparr> \<and>
    sem_i sem = 0 \<and> q_list (sem_waiting sem) = tids \<and>
    (\<exists>ys. sched_ok s (a # ys)) \<and> map_option blocked (threads s a) = Some False"
proof -
  from assms(1) obtain xs where inv: "sched_ok (m_sched c) xs" "lookup_ok (m_sched c)"
    "q_inv (sem_waiting (m_sem c))" "waiters_blocked (m_sched c) (q_list (sem_waiting (m_sem c)))"
    "sem_i (m_sem c) = 0" "inside c = {current_thread (m_sched c)}"
    using assms(2) unfolding mutex_inv_def by auto
  from signal_loop_spec [OF inv(3,2,4) sched_okD(6) [OF inv(1)]] assms(3) obtain a t q where t:
    "signal_loop (m_sched c) (sem_waiting (m_sem c)) = Some (a, q)" "a \<noteq> 0"
    "threads (m_sched c) a = Some t" "t_id t = tid" "blocked t" "q_list q = tids" by auto
  from unblock_spec [OF inv(1) t(3,5)] obtain s where s0: "unblock (m_sched c) a = Some s"
    "sched_ok s (a # xs)" "\<forall>b. map_option blocked (threads s b) =
       (if b = a then Some False else map_option blocked (threads (m_sched c) b))" by blast
  have "map_option blocked (threads s a) = Some False" using s0(3) [rule_format, of a] by simp
  note s = s0(1,2) this
  have u: "mutex_unlock (m_sched c) (m_sem c) = Some ((m_sem c)\<lparr>sem_waiting := q\<rparr>, s)"
    using t(1,2) s(1) by (simp add: mutex_unlock_def sem_signal_def)
  from mutex_step.unlock [OF assms(2) t(1) u] t(2) inv(6)
  have "mutex_step c \<lparr>m_sched = s, m_sem = (m_sem c)\<lparr>sem_waiting := q\<rparr>, inside = {a}\<rparr>" by simp
  with t s u inv(5) show ?thesis by auto
qed

section \<open>Instances\<close>

lemma example_lookup: "lookup_ok example_sched"
  unfolding lookup_ok_def
proof (intro allI impI)
  fix a t assume "threads example_sched a = Some t"
  then have "a = 1 \<and> t = example_thread 0 0 0 2 0 \<or> a = 2 \<and> t = example_thread 1 0 0 3 1 \<or>
      a = 3 \<and> t = example_thread 2 0 4 4 2 \<or> a = 4 \<and> t = example_thread 3 3 0 0 3"
    by (auto simp: example_sched_def split: if_splits)
  then show "thread_by_tid example_sched (t_id t) = Some a"
    by (elim disjE conjE)
      (simp_all add: thread_by_tid_def find_thread_procs.simps find_thread.simps example_sched_def
        example_proc_def example_thread_def)
qed

theorem mutual_exclusion_witness:
  "\<exists>c. mutex_reachable (mutex_init example_sched) c \<and> inside c = {2} \<and>
     (\<forall>a b. a \<in> inside c \<and> b \<in> inside c \<longrightarrow> a = b)"
proof -
  let ?c = "mutex_init example_sched"
  have "mutex_lock (m_sched ?c) 0 (m_sem ?c) = Some (None, new_semaphore 0, example_sched)"
    by (simp add: mutex_lock_def sem_wait_def mutex_init_def new_mutex_def new_semaphore_def)
  from mutex_reachable.step [OF mutex_reachable.start mutex_step.lock [OF this]]
  have r: "mutex_reachable ?c \<lparr>m_sched = example_sched, m_sem = new_semaphore 0, inside = {2}\<rparr>"
    by (simp add: mutex_init_def example_sched_def)
  from mutual_exclusion [OF example_sched_ok example_lookup r] r show ?thesis by force
qed

text \<open>Thread 4 waits for the mutex, thread 2 holds it and runs, thread 3 is ready.\<close>

definition contended_sched :: sched where
  "contended_sched = example_sched\<lparr>threads := (threads example_sched)
     (3 \<mapsto> example_thread 2 0 0 4 2, 4 \<mapsto> (example_thread 3 0 0 0 3)\<lparr>blocked := True\<rparr>),
     ready_last := 3\<rparr>"

definition contended :: mutex_sys where
  "contended = \<lparr>m_sched = contended_sched, m_sem = \<lparr>sem_i = 0, sem_waiting =
      \<lparr>q_items = Some 3 # replicate 31 None, q_length = 1, q_writer = 1, q_reader = 0\<rparr>\<rparr>, inside = {2}\<rparr>"

lemma contended_ok: "sched_ok contended_sched [3]"
proof -
  have "ready_queue contended_sched [3]"
    by (auto simp: ready_queue_def contended_sched_def example_sched_def example_thread_def nr_def pr_def)
  then show ?thesis
    by (auto simp: sched_ok_def)
      (auto simp: contended_sched_def example_sched_def example_thread_def split: if_splits)
qed

lemma contended_lookup: "lookup_ok contended_sched"
proof (rule lookup_ok_transfer [OF example_lookup])
  show "map_option fixed (threads contended_sched b) = map_option fixed (threads example_sched b)" for b
    by (simp add: contended_sched_def example_sched_def example_thread_def fixed_def)
qed (simp_all add: contended_sched_def)

lemma contended_queue: "q_list (sem_waiting (m_sem contended)) = [3]"
  by (simp add: q_list_def contended_def)

lemma contended_inv: "mutex_inv contended"
proof -
  have "q_inv (sem_waiting (m_sem contended))" by (simp add: q_inv_def contended_def)
  moreover have "waiters_blocked (m_sched contended) [3]"
    by (auto simp: waiters_blocked_def contended_def contended_sched_def example_thread_def
      intro!: exI [of _ 4])
  ultimately show ?thesis
    unfolding mutex_inv_def contended_queue using contended_ok contended_lookup
    by (auto simp: contended_def)
qed

theorem unlock_hands_over_witness:
  "\<exists>a t sem s. threads contended_sched a = Some t \<and> t_id t = 3 \<and>
     mutex_unlock contended_sched (m_sem contended) = Some (sem, s) \<and> sem_i sem = 0 \<and>
     q_list (sem_waiting sem) = [] \<and> map_option blocked (threads s a) = Some False"
proof -
  have c: "m_sched contended = contended_sched" "current_thread (m_sched contended) \<in> inside contended"
    by (simp_all add: contended_def contended_sched_def example_sched_def)
  from unlock_hands_over [OF contended_inv c(2) contended_queue] show ?thesis
    unfolding c(1) by blast
qed

end
