(* ===== verification/OsString.thy ===== *)
theory OsString
  imports OsMath "HOL-Library.Sublist"
begin

text \<open>
  Characters, the fixed-capacity \<open>String<N>\<close>, \<open>StringView\<close> and the number parsers of
  os-std/string.hh. A \<open>String<N>\<close> is the list of its \<open>length_\<close> characters; the capacity is an
  argument of the operations that can fill it. A \<open>StringView\<close> is a pointer with a length: it
  keeps the memory that starts at the pointer, because some operations read past the length.
\<close>

section \<open>Characters\<close>

text \<open>\<open>char\<close> is signed on the target.\<close>

definition schar :: "char \<Rightarrow> int" where
  "schar c = (let n = int (of_char c) in if n < 128 then n else n - 256)"

definition in_range :: "char \<Rightarrow> char \<Rightarrow> char \<Rightarrow> bool" where
  "in_range mi ma x \<longleftrightarrow> schar mi \<le> schar x \<and> schar x \<le> schar ma"

definition to_lower :: "char \<Rightarrow> char" where
  "to_lower c = (if in_range CHR ''A'' CHR ''Z'' c then char_of (of_char c - 65 + 97 :: nat) else c)"

definition to_upper :: "char \<Rightarrow> char" where
  "to_upper c = (if in_range CHR ''a'' CHR ''z'' c then char_of (of_char c - 97 + 65 :: nat) else c)"

definition is_space :: "char \<Rightarrow> bool" where
  "is_space c \<longleftrightarrow> c \<in> {CHR '' '', CHR 0x09, CHR 0x0A, CHR 0x0D}"

definition is_lower :: "char \<Rightarrow> bool" where "is_lower c = in_range CHR ''a'' CHR ''z'' c"

definition is_upper :: "char \<Rightarrow> bool" where "is_upper c = in_range CHR ''A'' CHR ''Z'' c"

definition is_alpha :: "char \<Rightarrow> bool" where "is_alpha c \<longleftrightarrow> is_lower c \<or> is_upper c"

definition is_num :: "char \<Rightarrow> bool" where "is_num c = in_range CHR ''0'' CHR ''9'' c"

definition is_hexnum :: "char \<Rightarrow> bool" where
  "is_hexnum c \<longleftrightarrow> is_num c \<or> in_range CHR ''a'' CHR ''f'' (to_lower c)"

definition is_alnum :: "char \<Rightarrow> bool" where "is_alnum c \<longleftrightarrow> is_alpha c \<or> is_num c"

definition is_print :: "char \<Rightarrow> bool" where "is_print c = in_range CHR '' '' CHR ''~'' c"

definition ascii_ctrl :: "char \<Rightarrow> char" where
  "ascii_ctrl c = (let ch = schar (to_upper c) - 0x40 in
     char_of (nat ((if ch < 0 then 0x80 + ch else ch) mod 256)))"

section \<open>Strings\<close>

definition nul :: char where "nul = CHR 0x00"

record string_view =
  sv_mem :: string
  sv_len :: nat

text \<open>The view of a whole \<open>String\<close> or literal: NUL-terminated, with the right length.\<close>

definition view_of :: "string \<Rightarrow> string_view" where
  "view_of s = \<lparr>sv_mem = s @ [nul], sv_len = length s\<rparr>"

definition view_text :: "string_view \<Rightarrow> string" where
  "view_text v = take (sv_len v) (sv_mem v)"

definition str_pop :: "nat \<Rightarrow> string \<Rightarrow> string" where
  "str_pop n s = (if n \<ge> length s then [] else take (length s - n) s)"

definition str_pop_front :: "nat \<Rightarrow> string \<Rightarrow> string" where
  "str_pop_front n s = (if n \<ge> length s then [] else map (\<lambda>i. s ! (i + n)) [0..<length s - n])"

primrec rtrim_loop :: "nat \<Rightarrow> string \<Rightarrow> string" where
  "rtrim_loop 0 s = s"
| "rtrim_loop (Suc i) s = (if \<not> is_space (s ! i) then s else rtrim_loop i (take (length s - 1) s))"

definition str_rtrim :: "string \<Rightarrow> string" where
  "str_rtrim s = rtrim_loop (length s) s"

definition str_to_lower :: "string \<Rightarrow> string" where "str_to_lower s = map to_lower s"

definition str_to_upper :: "string \<Rightarrow> string" where "str_to_upper s = map to_upper s"

definition char_pos :: "string \<Rightarrow> char \<Rightarrow> nat \<Rightarrow> int" where
  "char_pos s c start =
     (case find_index_from start (\<lambda>x. x = c) (drop start s) of None \<Rightarrow> -1 | Some i \<Rightarrow> int i)"

definition starts_with :: "string \<Rightarrow> string \<Rightarrow> bool" where
  "starts_with s p = (if length p > length s then False else list_all (\<lambda>(x, y). x = y) (zip s p))"

definition ends_with :: "string \<Rightarrow> string \<Rightarrow> bool" where
  "ends_with s p = (if length p > length s then False
     else list_all (\<lambda>i. s ! (length s - 1 - i) = p ! (length p - 1 - i)) [0..<length p])"

text \<open>
  The copying loop of \<open>operator=\<close> and \<open>operator+=\<close>: stops at a NUL or when the capacity is
  used up (in this order); the length of a view plays no role.
\<close>

fun copy_chars :: "nat \<Rightarrow> string \<Rightarrow> string kern" where
  "copy_chars n [] = None"
| "copy_chars n (c # cs) =
     (if c = nul \<or> n = 0 then Some []
      else do { r \<leftarrow> copy_chars (n - 1) cs; Some (c # r) })"

definition str_assign :: "nat \<Rightarrow> string_view \<Rightarrow> string kern" where
  "str_assign cap v = copy_chars cap (sv_mem v)"

definition str_append :: "nat \<Rightarrow> string \<Rightarrow> string_view \<Rightarrow> string kern" where
  "str_append cap s v = do { r \<leftarrow> copy_chars (cap - length s) (sv_mem v); Some (s @ r) }"

definition str_append_char :: "nat \<Rightarrow> string \<Rightarrow> char \<Rightarrow> string" where
  "str_append_char cap s c = (if length s < cap then s @ [c] else s)"

text \<open>\<open>str_copy\<close> of os-std/memory.hh: the bytes written to the destination, without the NUL.\<close>

definition str_copy :: "nat \<Rightarrow> string \<Rightarrow> string kern" where
  "str_copy dst_size src = (if dst_size = 0 then Some [] else copy_chars (dst_size - 1) src)"

section \<open>Parsing numbers\<close>

text \<open>On failure the result variable of the code is 0.\<close>

fun u64_loop :: "u64 \<Rightarrow> string \<Rightarrow> u64 option" where
  "u64_loop x [] = Some x"
| "u64_loop x (c # cs) =
     (if \<not> is_num c then None
      else case safe_mul x 10 of
        None \<Rightarrow> None
      | Some y \<Rightarrow>
          (case safe_add y (of_int (schar c - schar CHR ''0'')) of
             None \<Rightarrow> None
           | Some z \<Rightarrow> u64_loop z cs))"

definition string_to_u64 :: "string \<Rightarrow> u64 option" where
  "string_to_u64 s = (if s = [] then None else u64_loop 0 s)"

text \<open>\<open>string_to_num\<close> for a signed and for an unsigned type with largest value \<open>mx\<close>.\<close>

definition string_to_signed :: "nat \<Rightarrow> string \<Rightarrow> int option" where
  "string_to_signed mx s =
     (if s = [] then None
      else let (sign, r) = (if s ! 0 = CHR ''+'' then (1, tl s)
                            else if s ! 0 = CHR ''-'' then (-1, tl s) else (1, s)) in
        case string_to_u64 r of
          None \<Rightarrow> None
        | Some x \<Rightarrow> if unat x > mx then None else Some (sign * int (unat x)))"

definition string_to_unsigned :: "nat \<Rightarrow> string \<Rightarrow> int option" where
  "string_to_unsigned mx s =
     (if s = [] then None
      else case string_to_u64 s of
          None \<Rightarrow> None
        | Some x \<Rightarrow> if unat x > mx then None else Some (int (unat x)))"

section \<open>What the operations compute\<close>

lemma copy_chars_text:
  assumes "nul \<notin> set s"
  shows "copy_chars n (s @ nul # rest) = Some (take n s)"
  using assms
proof (induction s arbitrary: n)
  case Nil
  then show ?case by simp
next
  case (Cons c s)
  then show ?case by (cases n) auto
qed

lemma str_assign_view_of: "nul \<notin> set s \<Longrightarrow> str_assign cap (view_of s) = Some (take cap s)"
  by (simp add: str_assign_def view_of_def copy_chars_text)

lemma str_append_view_of:
  "nul \<notin> set s \<Longrightarrow> str_append cap t (view_of s) = Some (t @ take (cap - length t) s)"
  by (simp add: str_append_def view_of_def copy_chars_text)

lemma str_pop_front_drop: "str_pop_front n s = drop n s"
  by (auto simp: str_pop_front_def intro!: nth_equalityI) (simp add: add.commute)

lemma str_pop_take: "str_pop n s = take (length s - n) s"
  by (simp add: str_pop_def)

lemma rtrim_loop_eq: "rtrim_loop (length s) s = rev (dropWhile is_space (rev s))"
proof (induction s rule: rev_induct)
  case Nil
  then show ?case by simp
next
  case (snoc c s)
  then show ?case by simp
qed

lemma str_rtrim_eq: "str_rtrim s = rev (dropWhile is_space (rev s))"
  by (simp add: str_rtrim_def rtrim_loop_eq)

lemma starts_with_prefix: "starts_with s p \<longleftrightarrow> prefix p s"
proof -
  have "length p \<le> length s \<Longrightarrow> list_all (\<lambda>(x, y). x = y) (zip s p) \<longleftrightarrow> prefix p s"
  proof (induction p arbitrary: s)
    case Nil
    then show ?case by simp
  next
    case (Cons c p)
    then show ?case by (cases s) auto
  qed
  then show ?thesis
    by (auto simp: starts_with_def not_le dest: prefix_length_le)
qed

lemma ends_with_suffix: "ends_with s p \<longleftrightarrow> suffix p s"
proof -
  { assume le: "length p \<le> length s"
    have "list_all (\<lambda>i. s ! (length s - 1 - i) = p ! (length p - 1 - i)) [0..<length p]
        \<longleftrightarrow> (\<forall>i < length p. rev s ! i = rev p ! i)"
      using le by (auto simp: list_all_iff rev_nth)
    also have "\<dots> \<longleftrightarrow> take (length p) (rev s) = rev p"
      using le by (auto simp: list_eq_iff_nth_eq)
    also have "\<dots> \<longleftrightarrow> prefix (rev p) (rev s)"
      by (metis append_eq_conv_conj length_rev prefix_def take_is_prefix)
    also have "\<dots> \<longleftrightarrow> suffix p s" by (simp add: suffix_to_prefix)
    finally have "list_all (\<lambda>i. s ! (length s - 1 - i) = p ! (length p - 1 - i)) [0..<length p]
        \<longleftrightarrow> suffix p s" . }
  then show ?thesis
    by (auto simp: ends_with_def not_le dest: suffix_length_le)
qed

text \<open>
  The text a \<open>String<cap>\<close> holds after it was assigned a whole string: cut at a NUL and at the
  capacity.
\<close>

definition assign_text :: "nat \<Rightarrow> string \<Rightarrow> string" where
  "assign_text cap s = takeWhile (\<lambda>c. c \<noteq> nul) (take cap s)"

lemma copy_chars_assign: "copy_chars n (s @ [nul]) = Some (assign_text n s)"
proof (induction s arbitrary: n)
  case Nil
  then show ?case by (simp add: assign_text_def)
next
  case (Cons c s)
  then show ?case by (cases n) (auto simp: assign_text_def)
qed

lemma str_assign_whole: "str_assign cap (view_of s) = Some (assign_text cap s)"
  by (simp add: str_assign_def view_of_def copy_chars_assign)

lemma assign_text_small: "nul \<notin> set s \<Longrightarrow> length s \<le> cap \<Longrightarrow> assign_text cap s = s"
  by (auto simp: assign_text_def takeWhile_eq_all_conv)

lemma length_assign_text: "length (assign_text cap s) \<le> cap"
  by (metis assign_text_def length_take length_takeWhile_le min.cobounded2 order_trans)

text \<open>Digits, and the value of a string of them.\<close>

definition digit_val :: "char \<Rightarrow> nat" where
  "digit_val c = of_char c - 48"

definition dec_value :: "string \<Rightarrow> nat" where
  "dec_value s = foldl (\<lambda>v c. 10 * v + digit_val c) 0 s"

lemma schar_eq: "schar c = (if (of_char c :: nat) < 128 then int (of_char c) else int (of_char c) - 256)"
  by (simp only: schar_def Let_def) simp

lemma is_num_iff: "is_num c \<longleftrightarrow> 48 \<le> (of_char c :: nat) \<and> (of_char c :: nat) \<le> 57"
proof -
  obtain n :: nat where n: "of_char c = n" "n < 256" using nat_of_char_less_256 [of c] by blast
  have "int (of_char c) = int n" by (simp only: n(1))
  with n show ?thesis unfolding is_num_def in_range_def schar_eq by (auto split: if_splits)
qed

lemma digit_val_less: "is_num c \<Longrightarrow> digit_val c < 10"
  by (auto simp: is_num_iff digit_val_def)

lemma schar_digit: "is_num c \<Longrightarrow> schar c - schar CHR ''0'' = int (digit_val c)"
  by (auto simp: is_num_iff schar_def digit_val_def Let_def)

lemma foldl_dec_mono: "v \<le> foldl (\<lambda>v c. 10 * v + digit_val c) v s" for v :: nat
proof (induction s arbitrary: v)
  case Nil
  then show ?case by simp
next
  case (Cons c s)
  have "v \<le> 10 * v + digit_val c" by simp
  with Cons.IH [of "10 * v + digit_val c"] show ?case by simp
qed

lemma u64_loop_correct:
  "u64_loop x s =
     (if (\<forall>c \<in> set s. is_num c) \<and> foldl (\<lambda>v c. 10 * v + digit_val c) (unat x) s < 2 ^ 64
      then Some (of_nat (foldl (\<lambda>v c. 10 * v + digit_val c) (unat x) s)) else None)"
proof (induction s arbitrary: x)
  case Nil
  then show ?case using unsigned_less [of x] by simp
next
  case (Cons c s)
  let ?f = "foldl (\<lambda>v c. 10 * v + digit_val c)"
  show ?case
  proof (cases "is_num c")
    case False
    then show ?thesis by simp
  next
    case True
    let ?d = "of_int (schar c - schar CHR ''0'') :: u64"
    have d: "?d = of_nat (digit_val c)" using True by (simp add: schar_digit)
    have ud: "unat ?d = digit_val c"
      unfolding d using digit_val_less [OF True] by (simp add: unat_of_nat_small)
    let ?v = "10 * unat x + digit_val c"
    have mono: "?v \<le> ?f ?v s" by (rule foldl_dec_mono)
    show ?thesis
    proof (cases "?v < 2 ^ 64")
      case True
      then have m: "unat x * 10 < 2 ^ 64" by simp
      then have um: "unat (x * 10) = unat x * 10" by (simp add: unat_word_ariths)
      have s: "safe_mul x 10 = Some (x * 10)" using m by (simp add: safe_mul_def)
      have a: "safe_add (x * 10) ?d = Some (x * 10 + ?d)"
        using True by (simp add: safe_add_def um ud del: of_int_diff)
      have ua: "unat (x * 10 + ?d) = ?v"
        using True by (subst unat_add_small) (simp_all add: um ud del: of_int_diff)
      show ?thesis using \<open>is_num c\<close> s a Cons.IH [of "x * 10 + ?d"]
        by (simp add: ua del: of_int_diff)
    next
      case False
      then have big: "\<not> ?f ?v s < 2 ^ 64" using mono by linarith
      have "u64_loop x (c # s) = None"
      proof (cases "unat x * 10 < 2 ^ 64")
        case True
        then have um: "unat (x * 10) = unat x * 10" by (simp add: unat_word_ariths)
        have "safe_add (x * 10) ?d = None"
          using False by (simp add: safe_add_def um ud del: of_int_diff)
        then show ?thesis using True \<open>is_num c\<close> by (simp add: safe_mul_def del: of_int_diff)
      qed (simp add: safe_mul_def)
      then show ?thesis using big by simp
    qed
  qed
qed

section \<open>Properties\<close>

text \<open>
  \<open>string_to_u64\<close> accepts exactly the nonempty strings of decimal digits whose value fits
  in 64 bits, and returns that value: it never wraps around and never accepts anything else.
\<close>

theorem string_to_u64_correct:
  "string_to_u64 s =
     (if s \<noteq> [] \<and> (\<forall>c \<in> set s. is_num c) \<and> dec_value s < 2 ^ 64
      then Some (of_nat (dec_value s)) else None)"
  using u64_loop_correct [of 0 s] by (simp add: string_to_u64_def dec_value_def)

theorem string_to_u64_correct_witness:
  "string_to_u64 ''18446744073709551615'' = Some (- 1) \<and> string_to_u64 ''18446744073709551616'' = None"
  unfolding string_to_u64_correct
  by (simp add: dec_value_def digit_val_def is_num_iff)

text \<open>
  an assignment ignores the length of the view it copies from. For a view of the first
  \<open>k\<close> characters of a NUL-terminated string, \<open>operator=\<close> copies the whole string up to the
  capacity, whatever \<open>k\<close> is; the copy is the view's text only when the view ends at the NUL
  (or when the capacity cuts the copy there).
\<close>

theorem assign_ignores_view_length:
  assumes "nul \<notin> set s" "k \<le> length s"
  shows "str_assign cap \<lparr>sv_mem = s @ [nul], sv_len = k\<rparr> = Some (take cap s)
       \<and> (take cap s = take cap (view_text \<lparr>sv_mem = s @ [nul], sv_len = k\<rparr>)
            \<longleftrightarrow> k = length s \<or> cap \<le> k)"
proof -
  have "take cap s = take cap (take k s) \<longleftrightarrow> k = length s \<or> cap \<le> k"
  proof
    assume "take cap s = take cap (take k s)"
    then have "length (take cap s) = length (take cap (take k s))" by simp
    then show "k = length s \<or> cap \<le> k" using assms(2) by (auto simp: min_def split: if_splits)
  next
    assume "k = length s \<or> cap \<le> k"
    then show "take cap s = take cap (take k s)" by (auto simp: min_def)
  qed
  then show ?thesis
    using assms by (simp add: str_assign_def copy_chars_text view_text_def)
qed

theorem assign_ignores_view_length_witness:
  "str_assign 32 \<lparr>sv_mem = ''file.txt'' @ [nul], sv_len = 4\<rparr> = Some ''file.txt''"
  using assign_ignores_view_length [of "''file.txt''" 4 32] by (simp add: nul_def)

end
