(* ===== verification/Lifecycle.thy ===== *)
theory Lifecycle
  imports Semaphore OsString
begin

text \<open>
  Creation and deletion of threads and processes (process/proc.cc). The address a new object
  gets from the heap is an argument (0 when the heap is exhausted), as are the values of the
  processor's registers. Deletion goes on in theory Exit, because it closes files and deletes
  address spaces.
\<close>

section \<open>Threads and processes\<close>

record cpu =
  c_eflags :: u32
  c_cs :: u32
  c_ss :: u32
  c_ds :: u32
  c_es :: u32
  c_fs :: u32
  c_gs :: u32

definition i_kernel_code :: nat where "i_kernel_code = 1"
definition i_kernel_data :: nat where "i_kernel_data = 2"
definition i_user_code :: nat where "i_user_code = 3"
definition i_user_data :: nat where "i_user_data = 4"

text \<open>A thread object as its default member initialisers make it.\<close>

definition blank_thread :: "u32 \<Rightarrow> thread" where
  "blank_thread stack_end = \<lparr>t_proc = 0, t_id = 0, t_name = [], ticks_running = 0, prev_in_proc = 0,
     next_in_proc = 0, prev_ready = 0, next_ready = 0, t_frame = zero_frame,
     kernel_stack_end = stack_end, kernel_resume_esp = 0, started = False,
     suspended_in_kernel = False, blocked = False, is_kernel_thread = False\<rparr>"

definition blank_proc :: proc where
  "blank_proc = \<lparr>p_id = 0, first_thread = 0, last_thread = 0, p_prev = 0, p_next = 0, p_name = [],
     p_space = 0, p_files = replicate max_proc_files 0, working_directory = ''/'', exit_code = -1,
     exit_sem = new_semaphore 0\<rparr>"

definition generate_thread_id :: "sched \<Rightarrow> int \<times> sched" where
  "generate_thread_id s = (int (thread_count s), s\<lparr>thread_count := thread_count s + 1\<rparr>)"

definition generate_process_id :: "sched \<Rightarrow> int \<times> sched" where
  "generate_process_id s = (int (process_count s), s\<lparr>process_count := process_count s + 1\<rparr>)"

text \<open>\<open>threadpoline\<close> and \<open>entry\<close> are code addresses, \<open>stack_end\<close> the end of the new object's stack.\<close>

definition kernel_frame :: "cpu \<Rightarrow> u32 \<Rightarrow> u32 \<Rightarrow> u32 \<Rightarrow> u32 \<Rightarrow> u32 \<Rightarrow> interrupt_frame" where
  "kernel_frame c stack_end entry arg thread threadpoline = zero_frame\<lparr>f_esp := stack_end,
     f_eflags := (c_eflags c AND 0xffc0802a) AND NOT (push_bit 9 1),
     f_cs := c_cs c, f_ss := c_ss c, f_ds := c_ds c, f_es := c_es c, f_fs := c_fs c, f_gs := c_gs c,
     f_eax := entry, f_ebx := arg, f_ecx := thread, f_eip := threadpoline\<rparr>"

definition make_kernel_thread ::
  "cpu \<Rightarrow> sched \<Rightarrow> nat \<Rightarrow> u32 \<Rightarrow> u32 \<Rightarrow> u32 \<Rightarrow> string \<Rightarrow> u32 \<Rightarrow> sched kern" where
  "make_kernel_thread c s t stack_end threadpoline entry name arg = do {
     kassert (t \<noteq> 0);
     let (tid, s) = generate_thread_id s;
     let th = (blank_thread stack_end)\<lparr>t_id := tid, t_name := assign_text max_proc_name name, t_proc := kernel_proc s,
       is_kernel_thread := True, t_frame := kernel_frame c stack_end entry arg (of_nat t) threadpoline\<rparr>;
     let s = s\<lparr>threads := (threads s)(t \<mapsto> th)\<rparr>;
     kp \<leftarrow> procs s (kernel_proc s);
     s \<leftarrow> (if last_thread kp \<noteq> 0 then do {
            s \<leftarrow> upd_thread s (last_thread kp) (\<lambda>x. x\<lparr>next_in_proc := t\<rparr>);
            s \<leftarrow> upd_thread s t (\<lambda>x. x\<lparr>prev_in_proc := last_thread kp\<rparr>);
            upd_proc s (kernel_proc s) (\<lambda>p. p\<lparr>last_thread := t\<rparr>)
          }
          else upd_proc s (kernel_proc s) (\<lambda>p. p\<lparr>first_thread := t, last_thread := t\<rparr>));
     s \<leftarrow> upd_thread s t (\<lambda>x. x\<lparr>started := False, next_ready := 0\<rparr>);
     enqueue s t
   }"

text \<open>
  \<open>make_proc\<close>: the new process' address (0 if none), the blocks given back on failure, and the
  state.
\<close>

definition user_frame :: "cpu \<Rightarrow> u32 \<Rightarrow> u32 \<Rightarrow> interrupt_frame" where
  "user_frame c stack_end entry = zero_frame\<lparr>f_esp := stack_end,
     f_eflags := (c_eflags c AND 0xffc0802a) OR push_bit 9 1,
     f_cs := of_nat (i_user_code * 8 + 3), f_user_ss := of_nat (i_user_data * 8 + 3),
     f_user_esp := 0, f_ss := of_nat (i_kernel_data * 8), f_ds := of_nat (i_user_data * 8 + 3),
     f_es := of_nat (i_user_data * 8 + 3), f_fs := of_nat (i_user_data * 8 + 3),
     f_gs := of_nat (i_user_data * 8 + 3), f_eip := entry\<rparr>"

definition make_proc ::
  "cpu \<Rightarrow> sched \<Rightarrow> nat \<Rightarrow> nat \<Rightarrow> u32 \<Rightarrow> nat \<Rightarrow> u32 \<Rightarrow> string \<Rightarrow> (nat \<times> nat list \<times> sched) kern" where
  "make_proc c s p t stack_end space entry name =
     (if p = 0 then Some (0, [], s)
      else
        let (pid, s) = generate_process_id s;
            pr = blank_proc\<lparr>p_id := pid, p_name := assign_text max_proc_name name, p_space := space\<rparr> in
        if t = 0 then Some (0, [p], s)
        else do {
          let (tid, s) = generate_thread_id s;
          let pr = pr\<lparr>first_thread := t, last_thread := t\<rparr>;
          let th = (blank_thread stack_end)\<lparr>t_id := tid, t_name := ''main'', t_proc := p,
            is_kernel_thread := False, t_frame := user_frame c stack_end entry\<rparr>;
          kassert (proc_first s \<noteq> 0 \<and> proc_last s \<noteq> 0);
          s \<leftarrow> upd_proc s (proc_last s) (\<lambda>x. x\<lparr>p_next := p\<rparr>);
          let pr = pr\<lparr>p_prev := proc_last s\<rparr>;
          let s = s\<lparr>proc_last := p\<rparr>;
          cur \<leftarrow> threads s (current_thread s);
          cp \<leftarrow> procs s (t_proc cur);
          let pr = pr\<lparr>working_directory := working_directory cp\<rparr>;
          let s = s\<lparr>procs := (procs s)(p \<mapsto> pr), threads := (threads s)(t \<mapsto> th)\<rparr>;
          s \<leftarrow> enqueue s t;
          Some (p, [], s)
        })"

text \<open>The list updates of \<open>delete_thread\<close>.\<close>

definition unlink_thread :: "sched \<Rightarrow> nat \<Rightarrow> sched kern" where
  "unlink_thread s t = do {
     th \<leftarrow> threads s t;
     pr \<leftarrow> procs s (t_proc th);
     s \<leftarrow> (if first_thread pr = t then upd_proc s (t_proc th) (\<lambda>x. x\<lparr>first_thread := next_in_proc th\<rparr>) else Some s);
     s \<leftarrow> (if last_thread pr = t then upd_proc s (t_proc th) (\<lambda>x. x\<lparr>last_thread := prev_in_proc th\<rparr>) else Some s);
     s \<leftarrow> (if next_ready th \<noteq> 0 then upd_thread s (next_ready th) (\<lambda>x. x\<lparr>prev_ready := prev_ready th\<rparr>) else Some s);
     s \<leftarrow> (if prev_ready th \<noteq> 0 then upd_thread s (prev_ready th) (\<lambda>x. x\<lparr>next_ready := next_ready th\<rparr>) else Some s);
     s \<leftarrow> (if next_in_proc th \<noteq> 0 then upd_thread s (next_in_proc th) (\<lambda>x. x\<lparr>prev_in_proc := prev_in_proc th\<rparr>) else Some s);
     s \<leftarrow> (if prev_in_proc th \<noteq> 0 then upd_thread s (prev_in_proc th) (\<lambda>x. x\<lparr>next_in_proc := next_in_proc th\<rparr>) else Some s);
     let s = (if ready_last s = t then s\<lparr>ready_last := prev_ready th\<rparr> else s);
     Some (if ready_first s = t then s\<lparr>ready_first := next_ready th\<rparr> else s)
   }"

definition process_init :: "cpu \<Rightarrow> sched \<Rightarrow> nat \<Rightarrow> u32 \<Rightarrow> u32 \<Rightarrow> u32 \<Rightarrow> nat \<Rightarrow> sched kern" where
  "process_init c s t stack_end threadpoline idle_entry kernel_space = do {
     s \<leftarrow> upd_proc s (kernel_proc s)
            (\<lambda>p. p\<lparr>p_id := 0, p_name := ''kernel'', p_space := kernel_space\<rparr>);
     let s = s\<lparr>proc_first := kernel_proc s, proc_last := kernel_proc s\<rparr>;
     s \<leftarrow> make_kernel_thread c s t stack_end threadpoline idle_entry ''idle'' 0;
     Some (s\<lparr>idle_thread := t\<rparr>)
   }"

end
