(* ===== verification/Heap.thy ===== *)
theory Heap
  imports OsMath
begin

text \<open>
  The kernel heap (memory/kernel-heap.cc): an address-ordered doubly linked list of nodes that
  covers the heap region without gaps, with first-fit allocation, splitting and merging, and
  three statistics counters that the code checks against the list after every step.

  Addresses are \<open>nat\<close> (0 is the null pointer) and lie below \<open>2 ^ 32\<close>; where the code adds
  an unchecked size to an address, and where it rounds a size up, the 32-bit wrap-around is
  written out. The counters are 32-bit words. \<open>nodes h a\<close> is the node structure that was last
  written at address \<open>a\<close>, or \<open>None\<close> if none ever was; the data bytes are not kept.
\<close>

section \<open>State and operations\<close>

record node =
  n_prev :: nat
  n_next :: nat
  n_used :: bool
  n_sentinel :: string

record heap =
  heap_start :: nat
  heap_end :: nat
  nodes :: "nat \<Rightarrow> node option"
  first_node :: nat
  last_node :: nat
  total_allocated :: u32
  total_hole_size :: u32
  total_overhead :: u32

definition sentinel_value :: string where "sentinel_value = ''UUU''"

definition invalidated_sentinel :: string where "invalidated_sentinel = ''VVV''"

definition sizeof_node :: nat where "sizeof_node = 12"

definition alignof_node :: nat where "alignof_node = 4"

definition node_split_threshold :: nat where "node_split_threshold = sizeof_node + 32"

definition set_node :: "heap \<Rightarrow> nat \<Rightarrow> node \<Rightarrow> heap" where
  "set_node h a n = h\<lparr>nodes := (nodes h)(a \<mapsto> n)\<rparr>"

definition set_prev :: "heap \<Rightarrow> nat \<Rightarrow> nat \<Rightarrow> heap kern" where
  "set_prev h a p = do { n \<leftarrow> nodes h a; Some (set_node h a (n\<lparr>n_prev := p\<rparr>)) }"

definition set_next :: "heap \<Rightarrow> nat \<Rightarrow> nat \<Rightarrow> heap kern" where
  "set_next h a p = do { n \<leftarrow> nodes h a; Some (set_node h a (n\<lparr>n_next := p\<rparr>)) }"

text \<open>\<open>used_at\<close> is \<open>p && p->used\<close> for the null-guarded reads, \<open>free_at\<close> is \<open>p && !p->used\<close>.\<close>

definition used_at :: "heap \<Rightarrow> nat \<Rightarrow> bool kern" where
  "used_at h a = (if a = 0 then Some False else do { n \<leftarrow> nodes h a; Some (n_used n) })"

definition free_at :: "heap \<Rightarrow> nat \<Rightarrow> bool kern" where
  "free_at h a = (if a = 0 then Some False else do { n \<leftarrow> nodes h a; Some (\<not> n_used n) })"

definition verify_node :: "heap \<Rightarrow> nat \<Rightarrow> bool kern" where
  "verify_node h a = do {
     n \<leftarrow> nodes h a;
     pf \<leftarrow> free_at h (n_prev n);
     nf \<leftarrow> free_at h (n_next n);
     Some (\<not> (n_sentinel n \<noteq> sentinel_value
             \<or> \<not> n_used n \<and> (pf \<or> nf)
             \<or> n_next n \<noteq> 0 \<and> n_next n \<le> a
             \<or> n_prev n \<noteq> 0 \<and> n_prev n \<ge> a))
   }"

definition node_size :: "heap \<Rightarrow> nat \<Rightarrow> nat kern" where
  "node_size h a = do {
     n \<leftarrow> nodes h a;
     Some (if n_next n \<noteq> 0 then n_next n - (a + sizeof_node)
           else heap_end h + 1 - (a + sizeof_node))
   }"

text \<open>The sums \<open>verify_stats\<close> makes over the list: overhead, allocated, hole size.\<close>

partial_function (option) stats_loop :: "heap \<Rightarrow> nat \<Rightarrow> u32 \<Rightarrow> u32 \<Rightarrow> u32 \<Rightarrow> (u32 \<times> u32 \<times> u32) option" where
  "stats_loop h a overhead allocated hole_size =
     (if a = 0 then Some (overhead, allocated, hole_size)
      else do {
        n \<leftarrow> nodes h a;
        nsz \<leftarrow> node_size h a;
        stats_loop h (n_next n) (overhead + of_nat sizeof_node)
          (if n_used n then allocated + of_nat nsz else allocated)
          (if \<not> n_used n \<and> n_next n \<noteq> 0 then hole_size + of_nat nsz else hole_size)
      })"

definition verify_stats :: "heap \<Rightarrow> unit kern" where
  "verify_stats h = do {
     (overhead, allocated, hole_size) \<leftarrow>
       stats_loop h (first_node h) (of_nat (first_node h) - of_nat (heap_start h)) 0 0;
     kassert (overhead = total_overhead h);
     kassert (allocated = total_allocated h);
     kassert (hole_size = total_hole_size h)
   }"

definition init_node :: "heap \<Rightarrow> nat \<Rightarrow> nat \<Rightarrow> nat \<Rightarrow> bool \<Rightarrow> heap" where
  "init_node h a prev next used =
     set_node h a \<lparr>n_prev = prev, n_next = next, n_used = used, n_sentinel = sentinel_value\<rparr>"

definition invalidate_node :: "heap \<Rightarrow> nat \<Rightarrow> heap kern" where
  "invalidate_node h a = do {
     n \<leftarrow> nodes h a;
     Some (set_node h a (n\<lparr>n_used := False, n_sentinel := invalidated_sentinel\<rparr>))
   }"

text \<open>\<open>fit_node\<close> returns the node address for the data, or 0 when the data does not fit.\<close>

definition fit_node :: "heap \<Rightarrow> nat \<Rightarrow> nat \<Rightarrow> nat \<Rightarrow> nat kern" where
  "fit_node h a sz alignment = do {
     nsz \<leftarrow> node_size h a;
     let data = unat (align_up (of_nat (a + sizeof_node) :: u32) (of_nat alignment));
     Some (if (data + sz) mod 2 ^ 32 \<le> a + sizeof_node + nsz then data - sizeof_node else 0)
   }"

text \<open>
  \<open>insert_node\<close>. In its first branch the free node \<open>prev\<close> is moved to \<open>dst\<close>; the copy keeps
  the links, and the old bytes stay behind unreferenced.
\<close>

definition insert_node :: "heap \<Rightarrow> nat \<Rightarrow> nat \<Rightarrow> nat \<Rightarrow> bool \<Rightarrow> heap kern" where
  "insert_node h dst prev next used = do {
     pu \<leftarrow> used_at h prev;
     kassert (\<not> pu);
     let prev_dst_diff = dst - prev;
     (h, prev, node_created) \<leftarrow>
       (if used \<and> prev \<noteq> 0 \<and> prev_dst_diff < node_split_threshold then do {
          n \<leftarrow> nodes h prev;
          let h = set_node h dst (n\<lparr>n_used := used\<rparr>);
          let prev = n_prev n;
          let h = (if prev \<noteq> 0
                   then h\<lparr>total_allocated := total_allocated h + of_nat prev_dst_diff\<rparr>
                   else h\<lparr>total_overhead := total_overhead h + of_nat prev_dst_diff\<rparr>);
          let h = (if next \<noteq> 0
                   then h\<lparr>total_hole_size := total_hole_size h - of_nat prev_dst_diff\<rparr> else h);
          Some (h, prev, False)
        }
        else do {
          let h = init_node h dst prev next used;
          let h = h\<lparr>total_overhead := total_overhead h + of_nat sizeof_node\<rparr>;
          let h = (if next \<noteq> 0
                   then h\<lparr>total_hole_size := total_hole_size h - of_nat sizeof_node\<rparr> else h);
          Some (h, prev, True)
        });
     h \<leftarrow> (if prev \<noteq> 0 then set_next h prev dst else Some (h\<lparr>first_node := dst\<rparr>));
     h \<leftarrow> (if next \<noteq> 0 then set_prev h next dst else Some (h\<lparr>last_node := dst\<rparr>));
     data_size \<leftarrow> node_size h dst;
     if used then
       let h = h\<lparr>total_allocated := total_allocated h + of_nat data_size\<rparr> in
       Some (if next \<noteq> 0 then h\<lparr>total_hole_size := total_hole_size h - of_nat data_size\<rparr> else h)
     else if node_created \<and> prev \<noteq> 0 \<and> next = 0 then do {
       psz \<leftarrow> node_size h prev;
       Some (h\<lparr>total_hole_size := total_hole_size h + of_nat psz\<rparr>)
     }
     else Some h
   }"

definition merge_into_prev_block :: "heap \<Rightarrow> nat \<Rightarrow> (nat \<times> heap) kern" where
  "merge_into_prev_block h a = do {
     n \<leftarrow> nodes h a;
     h \<leftarrow> (if n_next n \<noteq> 0 then do {
            h \<leftarrow> set_prev h (n_next n) (n_prev n);
            Some (h\<lparr>total_hole_size := total_hole_size h + of_nat sizeof_node\<rparr>)
          }
          else do {
            psz \<leftarrow> node_size h (n_prev n);
            Some (h\<lparr>total_hole_size := total_hole_size h - of_nat psz\<rparr>)
          });
     let h = h\<lparr>total_overhead := total_overhead h - of_nat sizeof_node\<rparr>;
     h \<leftarrow> set_next h (n_prev n) (n_next n);
     h \<leftarrow> invalidate_node h a;
     n \<leftarrow> nodes h a;
     Some (n_prev n, h)
   }"

definition maybe_merge_with_adjacents :: "heap \<Rightarrow> nat \<Rightarrow> (nat \<times> heap) kern" where
  "maybe_merge_with_adjacents h a = do {
     n \<leftarrow> nodes h a;
     if n_used n then Some (a, h)
     else do {
       verify_stats h;
       nf \<leftarrow> free_at h (n_next n);
       (a, h) \<leftarrow> (if nf then merge_into_prev_block h (n_next n) else Some (a, h));
       verify_stats h;
       n \<leftarrow> nodes h a;
       pf \<leftarrow> free_at h (n_prev n);
       (a, h) \<leftarrow> (if pf then merge_into_prev_block h a else Some (a, h));
       verify_stats h;
       Some (a, h)
     }
   }"

definition heap_free :: "heap \<Rightarrow> nat \<Rightarrow> heap kern" where
  "heap_free h p = do {
     kassert (\<not> p < heap_start h + sizeof_node);
     let a = p - sizeof_node;
     ok \<leftarrow> verify_node h a;
     n \<leftarrow> nodes h a;
     kassert (ok \<and> n_used n);
     let h = set_node h a (n\<lparr>n_used := False\<rparr>);
     sz \<leftarrow> node_size h a;
     let h = h\<lparr>total_allocated := total_allocated h - of_nat sz,
               total_hole_size := total_hole_size h + of_nat sz\<rparr>;
     (a, h) \<leftarrow> maybe_merge_with_adjacents h a;
     verify_stats h;
     Some h
   }"

text \<open>The part of \<open>alloc\<close> after a fitting node was found; the result is the data's address.\<close>

definition alloc_in_node :: "heap \<Rightarrow> nat \<Rightarrow> nat \<Rightarrow> nat \<Rightarrow> nat \<Rightarrow> (nat \<times> heap) kern" where
  "alloc_in_node h a dst sz align = do {
     node_space_available \<leftarrow> node_size h a;
     let unused_bytes_after =
       (sizeof_node + node_space_available + 2 ^ 33 - (dst - a) - (sizeof_node + sz)) mod 2 ^ 32;
     n \<leftarrow> nodes h a;
     (h, sz) \<leftarrow>
       (if unused_bytes_after > node_split_threshold then do {
          h \<leftarrow> insert_node h (dst + sizeof_node + sz) a (n_next n) False;
          verify_stats h;
          fit \<leftarrow> fit_node h a sz align;
          kassert (fit = dst);
          Some (h, sz)
        }
        else Some (h, sz + unused_bytes_after));
     n \<leftarrow> nodes h a;
     h \<leftarrow> (if dst \<noteq> a then do {
            h \<leftarrow> insert_node h dst a (n_next n) True;
            verify_stats h;
            Some h
          }
          else do {
            let h = set_node h dst (n\<lparr>n_used := True\<rparr>);
            let h = h\<lparr>total_allocated := total_allocated h + of_nat sz\<rparr>;
            Some (if n_next n \<noteq> 0
                  then h\<lparr>total_hole_size := total_hole_size h - of_nat sz\<rparr> else h)
          });
     d \<leftarrow> nodes h dst;
     h \<leftarrow> (if n_prev d \<noteq> 0 then do {
            (p, h) \<leftarrow> maybe_merge_with_adjacents h (n_prev d);
            set_prev h dst p
          } else Some h);
     d \<leftarrow> nodes h dst;
     h \<leftarrow> (if n_next d \<noteq> 0 then do {
            (p, h) \<leftarrow> maybe_merge_with_adjacents h (n_next d);
            set_next h dst p
          } else Some h);
     verify_stats h;
     Some (dst + sizeof_node, h)
   }"

partial_function (option) alloc_loop :: "heap \<Rightarrow> nat \<Rightarrow> nat \<Rightarrow> nat \<Rightarrow> (nat \<times> heap) option" where
  "alloc_loop h a sz align =
     (if a = 0 then Some (0, h)
      else do {
        ok \<leftarrow> verify_node h a;
        kassert ok;
        n \<leftarrow> nodes h a;
        if n_used n then alloc_loop h (n_next n) sz align
        else do {
          dst \<leftarrow> fit_node h a sz align;
          if dst \<noteq> 0 then alloc_in_node h a dst sz align
          else alloc_loop h (n_next n) sz align
        }
      })"

definition round_align :: "nat \<Rightarrow> nat" where
  "round_align align =
     (let align = max align alignof_node in
      if bit_count (of_nat align :: u32) \<noteq> 1
      then unat (drop_bit (count_leading_0s (of_nat align :: u32) - 1) (2 ^ 31 :: u32))
      else align)"

definition round_size :: "nat \<Rightarrow> nat" where
  "round_size sz =
     (let sz = unat (align_up (of_nat sz :: u32) (of_nat alignof_node)) in
      if sz = 0 then alignof_node else sz)"

definition heap_alloc :: "heap \<Rightarrow> nat \<Rightarrow> nat \<Rightarrow> (nat \<times> heap) kern" where
  "heap_alloc h sz align = alloc_loop h (first_node h) (round_size sz) (round_align align)"

definition heap_init :: "nat \<Rightarrow> nat \<Rightarrow> heap kern" where
  "heap_init start sz =
     (let h = \<lparr>heap_start = start, heap_end = start + (sz - 1), nodes = Map.empty,
               first_node = start, last_node = start, total_allocated = 0,
               total_hole_size = 0, total_overhead = 0\<rparr> in
      insert_node h start 0 0 False)"

end
