(* ===== verification/Inode.thy ===== *)
theory Inode
  imports OsString
begin

text \<open>
  What all file systems share: inodes, directory entries, permission and open flags
  (filesystem/types.hh, os-std/fs-types.hh) and the default \<open>seek\<close> of \<open>FileSystem::Fs\<close>
  (filesystem/filesystem.cc). A file system is named by the address of its object, 0 for none.
\<close>

datatype ftype = t_regular | t_dir | t_dev | t_pipe

record inode =
  i_no :: u64
  i_type :: ftype
  i_perm :: u32
  i_size :: u64
  i_fs :: nat
  context1 :: u64
  context2 :: u64
  context3 :: u64
  context4 :: u64

text \<open>\<open>inode_t {}\<close>: the default member initialisers.\<close>

definition blank_inode :: inode where
  "blank_inode = \<lparr>i_no = 0, i_type = t_regular, i_perm = 0, i_size = 0, i_fs = 0,
     context1 = 0, context2 = 0, context3 = 0, context4 = 0\<rparr>"

record dir_entry =
  de_name :: string
  de_inode :: inode

definition perm_ur :: u32 where "perm_ur = 0x100"
definition perm_uw :: u32 where "perm_uw = 0x80"
definition perm_ux :: u32 where "perm_ux = 0x40"
definition perm_gr :: u32 where "perm_gr = 0x20"
definition perm_gw :: u32 where "perm_gw = 0x10"
definition perm_gx :: u32 where "perm_gx = 0x08"
definition perm_or :: u32 where "perm_or = 0x04"
definition perm_ow :: u32 where "perm_ow = 0x02"
definition perm_ox :: u32 where "perm_ox = 0x01"

definition o_read :: u32 where "o_read = push_bit 0 1"
definition o_write :: u32 where "o_write = push_bit 1 1"
definition o_append :: u32 where "o_append = push_bit 2 1"
definition o_truncate :: u32 where "o_truncate = push_bit 3 1"
definition o_create :: u32 where "o_create = push_bit 4 1"
definition o_dir :: u32 where "o_dir = push_bit 5 1"

lemmas perm_defs = perm_ur_def perm_uw_def perm_ux_def perm_gr_def perm_gw_def perm_gx_def
  perm_or_def perm_ow_def perm_ox_def

lemmas open_flag_defs = o_read_def o_write_def o_append_def o_truncate_def o_create_def o_dir_def

definition has_flag :: "u32 \<Rightarrow> u32 \<Rightarrow> bool" where
  "has_flag flags f \<longleftrightarrow> flags AND f \<noteq> 0"

text \<open>\<open>format_inode_mode\<close> builds a \<open>String<10>\<close> character by character.\<close>

definition format_inode_mode :: "inode \<Rightarrow> string" where
  "format_inode_mode inode =
     (let p = i_perm inode;
          add = str_append_char 10;
          s = add [] (case i_type inode of t_regular \<Rightarrow> CHR ''-'' | t_dir \<Rightarrow> CHR ''d''
                      | t_dev \<Rightarrow> CHR ''b'' | t_pipe \<Rightarrow> CHR ''?'') in
      fold (\<lambda>(f, c) s. add s (if has_flag p f then c else CHR ''-''))
        [(perm_ur, CHR ''r''), (perm_uw, CHR ''w''), (perm_ux, CHR ''x''),
         (perm_gr, CHR ''r''), (perm_gw, CHR ''w''), (perm_gx, CHR ''x''),
         (perm_or, CHR ''r''), (perm_ow, CHR ''w''), (perm_ox, CHR ''x'')] s)"

section \<open>The default seek\<close>

datatype seek_dir = seek_set | seek_end | seek_cur

text \<open>
  \<open>Fs::seek\<close>. The offset is a signed 64-bit value, the position and the size are unsigned; sums
  and differences wrap. The result is the error and the new position.
\<close>

definition fs_seek :: "inode \<Rightarrow> u64 \<Rightarrow> seek_dir \<Rightarrow> u64 \<Rightarrow> errno \<times> u64" where
  "fs_seek inode pos dir off =
     (case dir of
        seek_set \<Rightarrow>
          if sint off < 0 \<or> off \<ge> i_size inode then (ERR_invalid, pos) else (ERR_success, off)
      | seek_end \<Rightarrow>
          if sint off < 0 \<or> off \<ge> i_size inode then (ERR_invalid, pos)
          else (ERR_success, i_size inode - 1 - off)
      | seek_cur \<Rightarrow>
          if (sint off < 0 \<and> - off > pos) \<or> pos + off \<ge> i_size inode then (ERR_invalid, pos)
          else (ERR_success, i_size inode - 1 - off))"

lemma unat_sub_one_sub:
  "off < n \<Longrightarrow> unat (n - 1 - off) = unat n - 1 - unat off" for n off :: "'a::len word"
proof -
  assume lt: "off < n"
  then have "unat n \<noteq> 0" by (auto simp: word_less_nat_alt)
  then have n: "1 \<le> n" by (simp add: word_le_nat_alt)
  then have u: "unat (n - 1) = unat n - 1" by (simp add: unat_sub)
  have "off \<le> n - 1" using lt n by (simp add: word_le_nat_alt word_less_nat_alt u)
  then show ?thesis by (simp add: unat_sub u)
qed

text \<open>
  \<open>seek\<close> from the start and from the end stay inside the file: they fail with \<open>ERR_invalid\<close>
  and leave the position alone exactly when the offset is not in the file, and otherwise the new
  position is the offset, or the last position minus the offset.
\<close>

theorem seek_absolute:
  "fs_seek inode pos seek_set off
     = (if 0 \<le> sint off \<and> unat off < unat (i_size inode) then (ERR_success, off) else (ERR_invalid, pos))
   \<and> (\<exists>p. fs_seek inode pos seek_end off
        = (if 0 \<le> sint off \<and> unat off < unat (i_size inode) then (ERR_success, p) else (ERR_invalid, pos))
      \<and> (unat off < unat (i_size inode) \<longrightarrow> unat p = unat (i_size inode) - 1 - unat off))"
  using unat_sub_one_sub [of off "i_size inode"]
  by (auto simp: fs_seek_def word_less_nat_alt word_le_nat_alt not_le)

theorem seek_absolute_witness:
  "fs_seek (blank_inode\<lparr>i_size := 100\<rparr>) 7 seek_set 42 = (ERR_success, 42)
   \<and> (\<exists>p. fs_seek (blank_inode\<lparr>i_size := 100\<rparr>) 7 seek_end 9 = (ERR_success, p) \<and> unat p = 90)"
  using seek_absolute [of "blank_inode\<lparr>i_size := 100\<rparr>" 7 42]
    seek_absolute [of "blank_inode\<lparr>i_size := 100\<rparr>" 7 9] by auto

text \<open>
  a relative \<open>seek\<close> checks that \<open>pos + off\<close> is inside the file and then goes somewhere else:
  the new position is \<open>size - 1 - off\<close>, the formula of a seek from the end. With a negative offset
  it always lands past the end of the file, and with offset 0 it moves to the last byte.
\<close>

theorem seek_cur_position:
  assumes "off = 0 \<or> sint off < 0" "fs_seek inode pos seek_cur off = (ERR_success, p)"
    and "sint (i_size inode) > 0"
  shows "p = i_size inode - 1 - off \<and> (sint off < 0 \<longrightarrow> i_size inode \<le> p)
       \<and> (off = 0 \<longrightarrow> unat p = unat (i_size inode) - 1)"
proof -
  let ?n = "i_size inode"
  have p: "p = ?n - 1 - off"
    using assms(2) by (auto simp: fs_seek_def errno_defs split: if_splits)
  have past: "?n \<le> p" if neg: "sint off < 0"
  proof -
    have lo: "- (2 ^ 63) \<le> sint off" using sint_ge [of off] by simp
    have hi: "sint ?n < 2 ^ 63" using sint_lt [of ?n] by simp
    have n: "?n = word_of_int (sint ?n)" and "off = word_of_int (sint off)" by simp_all
    then have "p = word_of_int (sint ?n - 1 - sint off)" unfolding p by (metis wi_hom_sub word_1_wi)
    then have "uint p = take_bit 64 (sint ?n - 1 - sint off)"
      by (simp only: uint_word_of_int_eq) simp
    also have "\<dots> = sint ?n - 1 - sint off"
      using neg lo hi assms(3) by (intro take_bit_int_eq_self) auto
    finally have up: "uint p = sint ?n - 1 - sint off" .
    have "uint ?n = take_bit 64 (sint ?n)" using uint_sint [of ?n] by simp
    also have "\<dots> = sint ?n" using hi assms(3) by (intro take_bit_int_eq_self) auto
    finally show ?thesis using up neg by (simp add: word_le_def)
  qed
  have "unat p = unat ?n - 1" if "off = 0"
  proof -
    have "?n \<noteq> 0" using assms(3) by auto
    then show ?thesis using that p unat_sub_one_sub [of 0 ?n] by (simp add: word_gt_0)
  qed
  with p past show ?thesis by blast
qed

theorem seek_cur_position_witness:
  "fs_seek (blank_inode\<lparr>i_size := 100\<rparr>) 50 seek_cur (- 10) = (ERR_success, 109) \<and> (100 :: u64) \<le> 109"
proof -
  have s: "fs_seek (blank_inode\<lparr>i_size := 100\<rparr>) 50 seek_cur (- 10) = (ERR_success, 109)"
    by (simp add: fs_seek_def blank_inode_def)
  have "sint (- 10 :: u64) < 0" "0 < sint (100 :: u64)" by simp_all
  with s seek_cur_position [of "- 10" "blank_inode\<lparr>i_size := 100\<rparr>" 50 109] show ?thesis
    by (simp add: blank_inode_def)
qed

end
