(* ===== verification/Device.thy ===== *)
theory Device
  imports Inode Layout
begin

text \<open>
  Devices: the classes derived from \<open>DevFs::device_t\<close> (filesystem/devfs.hh, filesystem/devfs.cc),
  the disk device of driver/disk/ata.cc and the pseudo-random numbers of common/debug.cc.

  The port protocol of a disk and the drivers with queues of their own are not under this
  interface; they are functions of an argument \<open>hw\<close>, on a state \<open>'x\<close> of their own. A read returns
  the count the code returns, and the bytes it puts at the start of the caller's buffer (which
  need not be as many).
\<close>

section \<open>State\<close>

datatype device =
  Dev_null
| Dev_zero
| Dev_full
| Dev_random
| Dev_partition device u64 u64
| Dev_memory region
| Dev_ata nat nat u64
| Dev_driver nat

text \<open>\<open>hw_read_block bus drive lba\<close> is \<open>Ata::Protocol::read_blocks\<close> for one block.\<close>

record 'x hw =
  hw_read_block :: "nat \<Rightarrow> nat \<Rightarrow> u64 \<Rightarrow> 'x \<Rightarrow> errno \<times> u8 list \<times> 'x"
  hw_write_block :: "nat \<Rightarrow> nat \<Rightarrow> u64 \<Rightarrow> u8 list \<Rightarrow> 'x \<Rightarrow> errno \<times> 'x"
  drv_read :: "nat \<Rightarrow> u64 \<Rightarrow> nat \<Rightarrow> 'x \<Rightarrow> int \<times> u8 list \<times> 'x"
  drv_write :: "nat \<Rightarrow> u64 \<Rightarrow> u8 list \<Rightarrow> 'x \<Rightarrow> int \<times> 'x"

text \<open>
  \<open>io_disks\<close> is the table \<open>buses[bus].disks[drive]\<close> of the disk driver, with the number of
  blocks of each disk that exists.
\<close>

record 'x io =
  io_mem :: "u32 \<Rightarrow> u8"
  io_seed :: u32
  io_disks :: "u64 option list list"
  io_state :: 'x

text \<open>A \<open>size_t\<close> returned as an \<open>ssize_t\<close>.\<close>

definition ssize :: "nat \<Rightarrow> int" where
  "ssize n = sint (of_nat n :: u32)"

section \<open>Built-in devices\<close>

definition kernel_rand :: "'x io \<Rightarrow> u32 \<times> 'x io" where
  "kernel_rand s = (let seed = io_seed s * 1103515245 + 12345 in (seed AND 0x7FFFFFFF, s\<lparr>io_seed := seed\<rparr>))"

primrec random_bytes :: "nat \<Rightarrow> 'x io \<Rightarrow> u8 list \<times> 'x io" where
  "random_bytes 0 s = ([], s)"
| "random_bytes (Suc n) s =
     (let (r, s) = kernel_rand s; (bs, s) = random_bytes n s in (ucast (drop_bit 16 r) # bs, s))"

text \<open>\<open>memcpy\<close> from and to memory.\<close>

definition mem_bytes :: "(u32 \<Rightarrow> u8) \<Rightarrow> u32 \<Rightarrow> nat \<Rightarrow> u8 list" where
  "mem_bytes m a n = map (\<lambda>i. m (a + of_nat i)) [0..<n]"

primrec mem_store :: "(u32 \<Rightarrow> u8) \<Rightarrow> u32 \<Rightarrow> u8 list \<Rightarrow> (u32 \<Rightarrow> u8)" where
  "mem_store m a [] = m"
| "mem_store m a (b # bs) = mem_store (m(a := b)) (a + 1) bs"

definition memory_read :: "region \<Rightarrow> u64 \<Rightarrow> nat \<Rightarrow> 'x io \<Rightarrow> int \<times> u8 list \<times> 'x io" where
  "memory_read r off n s =
     (if off \<ge> ucast (r_size r) then (0, [], s)
      else let to_copy = min n (unat (r_size r - ucast off)) in
        (ssize to_copy, mem_bytes (io_mem s) (r_start r + ucast off) n, s))"

definition memory_write :: "region \<Rightarrow> u64 \<Rightarrow> u8 list \<Rightarrow> 'x io \<Rightarrow> int \<times> 'x io" where
  "memory_write r off buf s =
     (if off \<ge> ucast (r_size r) then (ERR_nospace, s)
      else let to_copy = min (length buf) (unat (r_size r - ucast off)) in
        (ssize to_copy, s\<lparr>io_mem := mem_store (io_mem s) (r_start r + ucast off) buf\<rparr>))"

section \<open>Disks\<close>

definition disk_block_size :: nat where "disk_block_size = 512"

text \<open>A transfer is tried again after a timeout, ten times at most.\<close>

primrec retry_op :: "('s \<Rightarrow> errno \<times> 'r \<times> 's) \<Rightarrow> nat \<Rightarrow> 's \<Rightarrow> errno \<times> 'r \<times> 's" where
  "retry_op f 0 s = f s"
| "retry_op f (Suc k) s =
     (let (err, r, s') = f s in if err = ERR_timeout then retry_op f k s' else (err, r, s'))"

text \<open>
  The two directions of \<open>make_job\<close>, block by block; \<open>n\<close> blocks are left, starting with \<open>lba\<close>. The
  test that the disk exists comes first; \<open>io_disks\<close> has two buses with two drives each, and the
  code's comparisons let the index 2 through.
\<close>

primrec read_job :: "'x hw \<Rightarrow> nat \<Rightarrow> nat \<Rightarrow> u64 \<Rightarrow> u64 \<Rightarrow> nat \<Rightarrow> 'x \<Rightarrow> errno \<times> u8 list \<times> 'x" where
  "read_job hw bus drive max_lba lba 0 x = (ERR_success, [], x)"
| "read_job hw bus drive max_lba lba (Suc n) x =
     (if lba \<ge> max_lba then (ERR_io, [], x)
      else let (err, bs, x) = retry_op (hw_read_block hw bus drive lba) 10 x in
        if err < 0 then (err, bs, x)
        else let (err, rest, x) = read_job hw bus drive max_lba (lba + 1) n x in (err, bs @ rest, x))"

primrec write_job :: "'x hw \<Rightarrow> nat \<Rightarrow> nat \<Rightarrow> u64 \<Rightarrow> u64 \<Rightarrow> nat \<Rightarrow> u8 list \<Rightarrow> 'x \<Rightarrow> errno \<times> 'x" where
  "write_job hw bus drive max_lba lba 0 buf x = (ERR_success, x)"
| "write_job hw bus drive max_lba lba (Suc n) buf x =
     (if lba \<ge> max_lba then (ERR_io, x)
      else let (err, u, x) = retry_op (\<lambda>x. let (e, x) = hw_write_block hw bus drive lba
                                                   (take disk_block_size buf) x in (e, (), x)) 10 x in
        if err < 0 then (err, x)
        else write_job hw bus drive max_lba (lba + 1) n (drop disk_block_size buf) x)"

definition find_disk :: "'x io \<Rightarrow> nat \<Rightarrow> u64 option kern" where
  "find_disk s disk_no =
     (let bus = disk_no div 2; drive = disk_no mod 2 in
      if bus > 2 \<or> drive > 2 then Some None
      else do { disks \<leftarrow> aget (io_disks s) bus; aget disks drive })"

definition ata_read :: "'x hw \<Rightarrow> nat \<Rightarrow> u64 \<Rightarrow> nat \<Rightarrow> 'x io \<Rightarrow> (errno \<times> u8 list \<times> 'x io) kern" where
  "ata_read hw disk_no lba n s = do {
     d \<leftarrow> find_disk s disk_no;
     case d of
       None \<Rightarrow> Some (ERR_io, [], s)
     | Some max_lba \<Rightarrow>
         let (err, bs, x) = read_job hw (disk_no div 2) (disk_no mod 2) max_lba lba n (io_state s) in
         Some (err, bs, s\<lparr>io_state := x\<rparr>)
   }"

definition ata_write :: "'x hw \<Rightarrow> nat \<Rightarrow> u64 \<Rightarrow> nat \<Rightarrow> u8 list \<Rightarrow> 'x io \<Rightarrow> (errno \<times> 'x io) kern" where
  "ata_write hw disk_no lba n buf s = do {
     d \<leftarrow> find_disk s disk_no;
     case d of
       None \<Rightarrow> Some (ERR_io, s)
     | Some max_lba \<Rightarrow>
         let (err, x) = write_job hw (disk_no div 2) (disk_no mod 2) max_lba lba n buf (io_state s) in
         Some (err, s\<lparr>io_state := x\<rparr>)
   }"

definition disk_read :: "'x hw \<Rightarrow> nat \<Rightarrow> nat \<Rightarrow> u64 \<Rightarrow> u64 \<Rightarrow> nat \<Rightarrow> 'x io \<Rightarrow> (int \<times> u8 list \<times> 'x io) kern" where
  "disk_read hw bus drive max_lba off n s =
     (if unat off mod disk_block_size \<noteq> 0 then Some (ERR_io, [], s)
      else if n mod disk_block_size \<noteq> 0 then Some (ERR_io, [], s)
      else if off \<ge> max_lba * of_nat disk_block_size then Some (0, [], s)
      else do {
        (err, bs, s) \<leftarrow> ata_read hw (bus * 2 + drive) (off div of_nat disk_block_size) (n div disk_block_size) s;
        Some (if err \<noteq> 0 then err else ssize n, bs, s)
      })"

definition disk_write :: "'x hw \<Rightarrow> nat \<Rightarrow> nat \<Rightarrow> u64 \<Rightarrow> u64 \<Rightarrow> u8 list \<Rightarrow> 'x io \<Rightarrow> (int \<times> 'x io) kern" where
  "disk_write hw bus drive max_lba off buf s =
     (if unat off mod disk_block_size \<noteq> 0 then Some (ERR_io, s)
      else if length buf mod disk_block_size \<noteq> 0 then Some (ERR_io, s)
      else if off \<ge> max_lba * of_nat disk_block_size then Some (ERR_nospace, s)
      else do {
        (err, s) \<leftarrow> ata_write hw (bus * 2 + drive) (off div of_nat disk_block_size)
                       (length buf div disk_block_size) buf s;
        Some (if err \<noteq> 0 then err else ssize (length buf), s)
      })"

section \<open>All devices\<close>

text \<open>\<open>min(nbytes, u32(part_size - offset))\<close>.\<close>

definition part_bytes :: "u64 \<Rightarrow> u64 \<Rightarrow> nat \<Rightarrow> nat" where
  "part_bytes ps off n = min n (unat (ucast (ps - off) :: u32))"

primrec dev_read :: "'x hw \<Rightarrow> device \<Rightarrow> u64 \<Rightarrow> nat \<Rightarrow> 'x io \<Rightarrow> (int \<times> u8 list \<times> 'x io) kern" where
  "dev_read hw Dev_null off n s = Some (0, [], s)"
| "dev_read hw Dev_zero off n s = Some (ssize n, replicate n 0, s)"
| "dev_read hw Dev_full off n s = Some (ssize n, replicate n 0xFF, s)"
| "dev_read hw Dev_random off n s = (let (bs, s) = random_bytes n s in Some (ssize n, bs, s))"
| "dev_read hw (Dev_partition d po ps) off n s =
     (if off \<ge> ps then Some (0, [], s) else dev_read hw d (po + off) (part_bytes ps off n) s)"
| "dev_read hw (Dev_memory r) off n s = Some (memory_read r off n s)"
| "dev_read hw (Dev_ata bus drive max_lba) off n s = disk_read hw bus drive max_lba off n s"
| "dev_read hw (Dev_driver k) off n s =
     (let (r, bs, x) = drv_read hw k off n (io_state s) in Some (r, bs, s\<lparr>io_state := x\<rparr>))"

primrec dev_write :: "'x hw \<Rightarrow> device \<Rightarrow> u64 \<Rightarrow> u8 list \<Rightarrow> 'x io \<Rightarrow> (int \<times> 'x io) kern" where
  "dev_write hw Dev_null off buf s = Some (ssize (length buf), s)"
| "dev_write hw Dev_zero off buf s = Some (ssize (length buf), s)"
| "dev_write hw Dev_full off buf s = Some (ERR_nospace, s)"
| "dev_write hw Dev_random off buf s = Some (ERR_nospace, s)"
| "dev_write hw (Dev_partition d po ps) off buf s =
     (if off \<ge> ps then Some (ERR_nospace, s)
      else dev_write hw d (po + off) (take (part_bytes ps off (length buf)) buf) s)"
| "dev_write hw (Dev_memory r) off buf s = Some (memory_write r off buf s)"
| "dev_write hw (Dev_ata bus drive max_lba) off buf s = disk_write hw bus drive max_lba off buf s"
| "dev_write hw (Dev_driver k) off buf s =
     (let (r, x) = drv_write hw k off buf (io_state s) in Some (r, s\<lparr>io_state := x\<rparr>))"

text \<open>Sizes are signed 64-bit values.\<close>

primrec dev_size :: "device \<Rightarrow> u64" where
  "dev_size Dev_null = 0"
| "dev_size Dev_zero = 0"
| "dev_size Dev_full = 0"
| "dev_size Dev_random = 0"
| "dev_size (Dev_partition d po ps) = ps"
| "dev_size (Dev_memory r) = ucast (r_size r)"
| "dev_size (Dev_ata bus drive max_lba) = max_lba * of_nat disk_block_size"
| "dev_size (Dev_driver k) = 0"

text \<open>
  \<open>line_device_t<N>\<close>: a device that produces and accepts one line; \<open>got\<close> is what the driver's
  \<open>get\<close> returned, \<open>set_line\<close> its \<open>set\<close>.
\<close>

definition line_read :: "errno \<times> string \<Rightarrow> u64 \<Rightarrow> nat \<Rightarrow> int \<times> string" where
  "line_read got off n =
     (let (err, str) = got in
      if err < 0 then (err, [])
      else if unat off \<ge> length str then (0, [])
      else let to_copy = min n (length str - unat off) in (ssize to_copy, take to_copy (drop (unat off) str)))"

definition line_write :: "nat \<Rightarrow> (string \<Rightarrow> errno) \<Rightarrow> string \<Rightarrow> int" where
  "line_write cap set_line buf =
     (let to_copy = min (length buf) cap;
          input = fold (\<lambda>c s. str_append_char cap s c)
                    (takeWhile (\<lambda>c. c \<noteq> CHR 0x0A) (take to_copy buf)) [];
          err = set_line input in
      if err \<noteq> 0 then err else ssize to_copy)"

section \<open>Properties\<close>

lemma part_bytes_le: "part_bytes ps off n \<le> n"
  by (simp add: part_bytes_def)

lemma part_bytes_inside: "off < ps \<Longrightarrow> unat off + part_bytes ps off n \<le> unat ps"
proof -
  assume lt: "off < ps"
  have "unat (ucast (ps - off) :: u32) = unat (ps - off) mod 2 ^ 32"
    by (simp add: unsigned_ucast_eq take_bit_eq_mod)
  also have "\<dots> \<le> unat (ps - off)" by (rule mod_less_eq_dividend)
  also have "\<dots> = unat ps - unat off" using lt by (simp add: unat_sub)
  finally have "part_bytes ps off n \<le> unat ps - unat off" by (simp add: part_bytes_def)
  then show ?thesis using lt by (simp add: word_less_nat_alt)
qed

lemma ssize_small [simp]: "k < 2 ^ 31 \<Longrightarrow> ssize k = int k"
proof -
  assume k: "k < 2 ^ 31"
  have "sint (word_of_int (int k) :: u32) = signed_take_bit 31 (int k)"
    by (simp only: sint_sbintrunc') simp
  then have "ssize k = signed_take_bit 31 (int k)" by (simp add: ssize_def)
  also have "\<dots> = int k" using k by (intro signed_take_bit_int_eq_self) simp_all
  finally show ?thesis .
qed

lemma mem_store_other: "(\<And>i. i < length bs \<Longrightarrow> x \<noteq> a + of_nat i) \<Longrightarrow> mem_store m a bs x = m x"
proof (induction bs arbitrary: m a)
  case Nil
  then show ?case by simp
next
  case (Cons b bs)
  have "x \<noteq> a" using Cons.prems [of 0] by simp
  have "x \<noteq> (a + 1) + of_nat i" if "i < length bs" for i
    using Cons.prems [of "Suc i"] that by (simp add: add.assoc)
  then have "mem_store (m(a := b)) (a + 1) bs x = (m(a := b)) x" by (rule Cons.IH)
  with \<open>x \<noteq> a\<close> show ?case by (metis fun_upd_other mem_store.simps(2))
qed

lemma mem_store_at:
  "length bs \<le> 2 ^ 32 \<Longrightarrow> i < length bs \<Longrightarrow> mem_store m a bs (a + of_nat i) = bs ! i"
proof (induction bs arbitrary: m a i)
  case Nil
  then show ?case by simp
next
  case (Cons b bs)
  show ?case
  proof (cases i)
    case 0
    have "a \<noteq> (a + 1) + of_nat j" if "j < length bs" for j
    proof
      assume "a = (a + 1) + of_nat j"
      then have "(of_nat (Suc j) :: u32) = 0" by (simp add: algebra_simps)
      moreover have "unat (of_nat (Suc j) :: u32) = Suc j"
        using that Cons.prems(1) by (intro unat_of_nat_small) simp
      ultimately show False by (metis nat.distinct(1) unsigned_0)
    qed
    then show ?thesis using 0 by (simp add: mem_store_other)
  next
    case (Suc j)
    have "a + of_nat i = (a + 1) + of_nat j" using Suc by (simp add: add.assoc)
    moreover have "mem_store (m(a := b)) (a + 1) bs ((a + 1) + of_nat j) = bs ! j"
      using Cons.prems Suc by (intro Cons.IH) simp_all
    ultimately show ?thesis using Suc by (simp only: mem_store.simps nth_Cons_Suc)
  qed
qed

text \<open>
  a partition confines its accesses. Whatever offset and size a caller asks for, the read (or
  write) of the underlying device that results lies inside the partition: it starts at
  \<open>part_offset + offset\<close>, and its offset plus its length is at most \<open>part_size\<close>; nothing happens
  for an offset past the end.
\<close>

theorem partition_confines:
  "dev_read hw (Dev_partition d po ps) off n s
     = (if unat ps \<le> unat off then Some (0, [], s) else dev_read hw d (po + off) (part_bytes ps off n) s)
   \<and> dev_write hw (Dev_partition d po ps) off buf s
     = (if unat ps \<le> unat off then Some (ERR_nospace, s)
        else dev_write hw d (po + off) (take (part_bytes ps off (length buf)) buf) s)
   \<and> (unat off < unat ps \<longrightarrow> part_bytes ps off n \<le> n \<and> unat off + part_bytes ps off n \<le> unat ps)"
  using part_bytes_le [of ps off n] part_bytes_inside [of off ps n]
  by (simp add: word_le_nat_alt word_less_nat_alt)

definition no_hw :: "unit hw" where
  "no_hw = \<lparr>hw_read_block = \<lambda>b d l x. (ERR_success, replicate 512 0, x),
     hw_write_block = \<lambda>b d l bs x. (ERR_success, x),
     drv_read = \<lambda>k off n x. (0, [], x), drv_write = \<lambda>k off bs x. (0, x)\<rparr>"

definition no_io :: "unit io" where
  "no_io = \<lparr>io_mem = \<lambda>a. ucast a, io_seed = 0, io_disks = [[Some 1000, None], [None, None]], io_state = ()\<rparr>"

theorem partition_confines_witness:
  "dev_read no_hw (Dev_partition Dev_zero 100 10) 8 5 no_io = Some (2, [0, 0], no_io)
   \<and> part_bytes 10 8 5 = 2"
proof -
  have b: "part_bytes 10 8 5 = 2" by (simp add: part_bytes_def)
  have "dev_read no_hw (Dev_partition Dev_zero 100 10) 8 5 no_io
      = dev_read no_hw Dev_zero (100 + 8) (part_bytes 10 8 5) no_io"
    using partition_confines [of no_hw Dev_zero 100 10 8 5 no_io "[]"] by simp
  then show ?thesis unfolding b by (simp add: ssize_def eval_nat_numeral)
qed

text \<open>
  a memory device does not confine its accesses. It computes how many bytes are left in its
  region and returns that number, but copies as many bytes as were asked for: a read puts the
  memory after the region into the caller's buffer, a write changes the memory after it.
\<close>

theorem memory_device_overruns:
  assumes "unat off < unat (r_size r)" "unat (r_size r) - unat off \<le> i" "i < n" "n < 2 ^ 31"
    and "length buf = n"
  shows "(\<exists>bs. memory_read r off n s = (int (unat (r_size r) - unat off), bs, s) \<and> length bs = n
            \<and> bs ! i = io_mem s (r_start r + ucast off + of_nat i))
       \<and> (\<exists>s'. memory_write r off buf s = (int (unat (r_size r) - unat off), s')
            \<and> io_mem s' (r_start r + ucast off + of_nat i) = buf ! i)"
proof -
  have uo: "unat (ucast off :: u32) = unat off"
  proof -
    have "unat off < 2 ^ 32" using less_trans [OF assms(1) unat_u32_less] by simp
    then show ?thesis by (simp only: unsigned_ucast_eq take_bit_nat_eq_self) (simp add: take_bit_nat_eq_self)
  qed
  have us: "unat (ucast (r_size r) :: u64) = unat (r_size r)"
  proof -
    have "unat (r_size r) < 2 ^ 64" by (rule less_trans [OF unat_u32_less]) simp
    then have "take_bit 64 (unat (r_size r)) = unat (r_size r)" by (rule take_bit_nat_eq_self)
    then show ?thesis by (simp add: unsigned_ucast_eq)
  qed
  have lt: "\<not> off \<ge> ucast (r_size r)" using assms(1) by (simp add: word_le_nat_alt us)
  have sub: "unat (r_size r - ucast off) = unat (r_size r) - unat off"
    using assms(1) by (subst unat_sub) (simp_all add: word_le_nat_alt uo)
  have m: "min n (unat (r_size r) - unat off) = unat (r_size r) - unat off"
    using assms(2,3) by simp
  have small: "unat (r_size r) - unat off < 2 ^ 31" using assms(2-4) by linarith
  show ?thesis
    using lt assms m small sub
    by (simp add: memory_read_def memory_write_def ssize_small mem_bytes_def mem_store_at)
qed

theorem memory_device_overruns_witness:
  "\<exists>bs. memory_read \<lparr>r_start = 100, r_size = 4\<rparr> 2 5 no_io = (2, bs, no_io) \<and> length bs = 5 \<and> bs ! 3 = 105"
  using memory_device_overruns [of 2 "\<lparr>r_start = 100, r_size = 4\<rparr>" 3 5 "[1, 2, 3, 4, 5]" no_io]
  by (simp add: no_io_def)

end
