(* ===== verification/DevFs.thy ===== *)
theory DevFs
  imports Device
begin

text \<open>
  The file system of device files (filesystem/devfs.cc), and the default \<open>lookup\<close> that
  \<open>FileSystem::Fs\<close> builds on \<open>read_dir\<close> (filesystem/filesystem.cc). The contract of \<open>read_dir\<close> that
  filesystem.hh states (starting at 0, every entry is returned exactly once) is the locale
  \<open>directory\<close>; the default lookup is correct for everything that keeps it.
\<close>

section \<open>Directories and the default lookup\<close>

text \<open>
  \<open>read_dir i s\<close> returns the count, the next position, the entry and the state. The lookup loop
  never ends for a directory that never ends.
\<close>

partial_function (option) lookup_loop ::
  "(u64 \<Rightarrow> 's \<Rightarrow> (int \<times> u64 \<times> dir_entry \<times> 's) kern) \<Rightarrow> string \<Rightarrow> u64 \<Rightarrow> 's \<Rightarrow>
     (errno \<times> inode \<times> 's) kern" where
  "lookup_loop read_dir name i s =
     (case read_dir i s of
        None \<Rightarrow> None
      | Some (err, i', entry, s') \<Rightarrow>
          if err > 0 then
            if de_name entry = name then Some (ERR_success, de_inode entry, s')
            else lookup_loop read_dir name i' s'
          else if err = 0 then Some (ERR_not_exists, blank_inode, s')
          else Some (err, blank_inode, s'))"

definition default_lookup ::
  "(u64 \<Rightarrow> 's \<Rightarrow> (int \<times> u64 \<times> dir_entry \<times> 's) kern) \<Rightarrow> string \<Rightarrow> 's \<Rightarrow> (errno \<times> inode \<times> 's) kern" where
  "default_lookup read_dir name s = lookup_loop read_dir name 0 s"

text \<open>\<open>remaining i s es\<close>: from position \<open>i\<close> in state \<open>s\<close> the directory still has the entries \<open>es\<close>.\<close>

locale directory =
  fixes read_dir :: "u64 \<Rightarrow> 's \<Rightarrow> (int \<times> u64 \<times> dir_entry \<times> 's) kern"
    and remaining :: "u64 \<Rightarrow> 's \<Rightarrow> dir_entry list \<Rightarrow> bool"
  assumes at_end: "remaining i s [] \<Longrightarrow> \<exists>i' e s'. read_dir i s = Some (0, i', e, s')"
    and at_entry: "remaining i s (e # es) \<Longrightarrow>
      \<exists>i' s'. read_dir i s = Some (1, i', e, s') \<and> remaining i' s' es"
begin

lemma lookup_loop_finds:
  "remaining i s es \<Longrightarrow>
     \<exists>s'. lookup_loop read_dir name i s
       = Some (case find (\<lambda>e. de_name e = name) es of
                 Some e \<Rightarrow> (ERR_success, de_inode e, s')
               | None \<Rightarrow> (ERR_not_exists, blank_inode, s'))"
proof (induction es arbitrary: i s)
  case Nil
  with at_end obtain i' e s' where "read_dir i s = Some (0, i', e, s')" by blast
  then show ?case by (simp add: lookup_loop.simps [of read_dir name i s])
next
  case (Cons e es)
  with at_entry obtain i' s' where
    r: "read_dir i s = Some (1, i', e, s')" "remaining i' s' es" by blast
  from Cons.IH [OF r(2)] obtain s'' where
    "lookup_loop read_dir name i' s' = Some (case find (\<lambda>e. de_name e = name) es of
                 Some e \<Rightarrow> (ERR_success, de_inode e, s'')
               | None \<Rightarrow> (ERR_not_exists, blank_inode, s''))" by blast
  with r(1) show ?case by (auto simp: lookup_loop.simps [of read_dir name i s])
qed

end

section \<open>Operations of DevFs\<close>

record device_entry =
  dn_name :: string
  dn_dev :: device
  dn_perm :: u32

definition max_devices :: nat where "max_devices = 64"

text \<open>The table \<open>devices\<close>; entry 0 stands for the root directory and is never used.\<close>

type_synonym devfs = "device_entry option list"

definition devfs_root :: "nat \<Rightarrow> inode" where
  "devfs_root self = blank_inode\<lparr>i_no := 0, i_type := t_dir, i_perm := 0x140, i_size := 0, i_fs := self\<rparr>"

primrec entry_named :: "string \<Rightarrow> device_entry option \<Rightarrow> bool" where
  "entry_named name None = False"
| "entry_named name (Some e) = (dn_name e = name)"

definition get_device_i :: "devfs \<Rightarrow> string \<Rightarrow> int" where
  "get_device_i devs name =
     (case find_index (entry_named name) devs of
        Some i \<Rightarrow> int i | None \<Rightarrow> ERR_not_exists)"

text \<open>The inode of a device file, as \<open>lookup\<close> and \<open>read_dir\<close> fill it in.\<close>

definition device_inode :: "nat \<Rightarrow> nat \<Rightarrow> device_entry \<Rightarrow> inode" where
  "device_inode self i e = blank_inode\<lparr>i_no := of_nat i, i_type := t_dev, i_perm := dn_perm e,
     i_size := dev_size (dn_dev e), i_fs := self\<rparr>"

definition devfs_lookup :: "nat \<Rightarrow> devfs \<Rightarrow> inode \<Rightarrow> string \<Rightarrow> (errno \<times> inode) kern" where
  "devfs_lookup self devs inode name = do {
     kassert (i_no inode = 0);
     let dev_i = get_device_i devs name;
     if dev_i < 0 then Some (dev_i, blank_inode)
     else do {
       d \<leftarrow> aget devs (nat dev_i);
       e \<leftarrow> d;
       Some (ERR_success, device_inode self (nat dev_i) e)
     }
   }"

fun devfs_scan :: "nat \<Rightarrow> nat \<Rightarrow> nat \<Rightarrow> u64 \<Rightarrow> devfs \<Rightarrow> dir_entry option" where
  "devfs_scan self i k pos [] = None"
| "devfs_scan self i k pos (None # ds) = devfs_scan self (i + 1) k pos ds"
| "devfs_scan self i k pos (Some e # ds) =
     (if of_nat k = pos then Some \<lparr>de_name = dn_name e, de_inode = device_inode self i e\<rparr>
      else devfs_scan self (i + 1) (k + 1) pos ds)"

definition devfs_read_dir :: "nat \<Rightarrow> devfs \<Rightarrow> inode \<Rightarrow> u64 \<Rightarrow> dir_entry \<Rightarrow> int \<times> u64 \<times> dir_entry" where
  "devfs_read_dir self devs inode pos dest =
     (if i_no inode = 0 then
        case devfs_scan self 0 0 pos devs of
          Some e \<Rightarrow> (1, pos + 1, e)
        | None \<Rightarrow> (0, pos, dest)
      else (ERR_not_exists, pos, dest))"

definition devfs_device :: "devfs \<Rightarrow> inode \<Rightarrow> device kern" where
  "devfs_device devs inode = do {
     kassert (unat (i_no inode) < max_devices);
     d \<leftarrow> aget devs (unat (i_no inode));
     e \<leftarrow> d;
     Some (dn_dev e)
   }"

definition devfs_read :: "'x hw \<Rightarrow> devfs \<Rightarrow> inode \<Rightarrow> u64 \<Rightarrow> nat \<Rightarrow> 'x io \<Rightarrow> (int \<times> u8 list \<times> 'x io) kern" where
  "devfs_read hw devs inode off n s = do { d \<leftarrow> devfs_device devs inode; dev_read hw d off n s }"

definition devfs_write :: "'x hw \<Rightarrow> devfs \<Rightarrow> inode \<Rightarrow> u64 \<Rightarrow> u8 list \<Rightarrow> 'x io \<Rightarrow> (int \<times> 'x io) kern" where
  "devfs_write hw devs inode off buf s = do { d \<leftarrow> devfs_device devs inode; dev_write hw d off buf s }"

text \<open>
  The loop of \<open>register_device\<close> over the entries from index \<open>i\<close> on: \<open>Inl\<close> when the name is taken,
  otherwise the first free index (or \<open>ERR_limit\<close>).
\<close>

fun register_scan :: "string \<Rightarrow> nat \<Rightarrow> int \<Rightarrow> devfs \<Rightarrow> errno + int" where
  "register_scan name i device_i [] = Inr device_i"
| "register_scan name i device_i (d # ds) =
     (if i = 0 then register_scan name (i + 1) device_i ds
      else case d of
        Some e \<Rightarrow> if dn_name e = name then Inl ERR_exists else register_scan name (i + 1) device_i ds
      | None \<Rightarrow> register_scan name (i + 1) (if device_i = ERR_limit then int i else device_i) ds)"

text \<open>\<open>mem_ok\<close> says whether the heap has room for the new entry.\<close>

definition register_device :: "bool \<Rightarrow> devfs \<Rightarrow> string \<Rightarrow> device \<Rightarrow> u32 \<Rightarrow> errno \<times> devfs" where
  "register_device mem_ok devs name dev perm =
     (case register_scan name 0 ERR_limit devs of
        Inl err \<Rightarrow> (err, devs)
      | Inr device_i \<Rightarrow>
          if device_i < 0 then (device_i, devs)
          else if \<not> mem_ok then (ERR_nomem, devs[nat device_i := None])
          else (ERR_success, devs[nat device_i :=
                 Some \<lparr>dn_name = assign_text max_file_name_length name, dn_dev = dev, dn_perm = perm\<rparr>]))"

text \<open>The constructor; the results of the registrations are not looked at.\<close>

definition new_devfs :: devfs where
  "new_devfs =
     (let reg = (\<lambda>name dev perm devs. snd (register_device True devs name dev perm)) in
      reg ''random'' Dev_random 0x100 (reg ''full'' Dev_full 0x180
        (reg ''zero'' Dev_zero 0x180 (reg ''null'' Dev_null 0x180 (replicate max_devices None)))))"

section \<open>What the operations compute\<close>

text \<open>The registered devices with their numbers, in the order of the table.\<close>

definition registered :: "devfs \<Rightarrow> (nat \<times> device_entry) list" where
  "registered devs = [(i, e). (i, Some e) \<leftarrow> enumerate 0 devs]"

definition devfs_entry :: "nat \<Rightarrow> nat \<times> device_entry \<Rightarrow> dir_entry" where
  "devfs_entry self = (\<lambda>(i, e). \<lparr>de_name = dn_name e, de_inode = device_inode self i e\<rparr>)"

definition registered_from :: "nat \<Rightarrow> devfs \<Rightarrow> (nat \<times> device_entry) list" where
  "registered_from i devs = [(j, e). (j, Some e) \<leftarrow> enumerate i devs]"

lemma registered_from_simps [simp]:
  "registered_from i [] = []"
  "registered_from i (None # ds) = registered_from (Suc i) ds"
  "registered_from i (Some e # ds) = (i, e) # registered_from (Suc i) ds"
  by (simp_all add: registered_from_def)

lemma registered_from_length: "length (registered_from i ds) \<le> length ds"
proof (induction ds arbitrary: i)
  case Nil
  then show ?case by simp
next
  case (Cons d ds)
  then show ?case by (cases d) (auto simp: le_SucI)
qed

lemma devfs_scan_nth:
  "k + length ds < 2 ^ 64 \<Longrightarrow> unat pos \<ge> k \<Longrightarrow>
     devfs_scan self i k pos ds =
       (if unat pos - k < length (registered_from i ds)
        then Some (devfs_entry self (registered_from i ds ! (unat pos - k))) else None)"
proof (induction self i k pos ds rule: devfs_scan.induct)
  case (1 self i k pos)
  then show ?case by simp
next
  case (2 self i k pos ds)
  then show ?case by simp
next
  case (3 self i k pos e ds)
  have k: "unat (of_nat k :: u64) = k" using "3.prems"(1) by (intro unat_of_nat_small) simp
  show ?case
  proof (cases "of_nat k = pos")
    case True
    then show ?thesis using k by (auto simp: devfs_entry_def)
  next
    case False
    then have "unat pos \<noteq> k" by auto
    then have gt: "Suc k \<le> unat pos" "unat pos - k = Suc (unat pos - Suc k)" using "3.prems"(2) by simp_all
    then show ?thesis using 3 False by simp
  qed
qed

definition devfs_remaining :: "nat \<Rightarrow> devfs \<Rightarrow> inode \<Rightarrow> u64 \<Rightarrow> 's \<Rightarrow> dir_entry list \<Rightarrow> bool" where
  "devfs_remaining self devs inode pos s es \<longleftrightarrow>
     i_no inode = 0 \<and> length devs < 2 ^ 63 \<and> unat pos \<le> length (registered devs)
     \<and> es = map (devfs_entry self) (drop (unat pos) (registered devs))"

definition devfs_dir :: "nat \<Rightarrow> devfs \<Rightarrow> inode \<Rightarrow> u64 \<Rightarrow> 's \<Rightarrow> (int \<times> u64 \<times> dir_entry \<times> 's) kern" where
  "devfs_dir self devs inode pos s =
     (let (n, pos', e) = devfs_read_dir self devs inode pos \<lparr>de_name = [], de_inode = blank_inode\<rparr> in
      Some (n, pos', e, s))"

lemma devfs_read_dir_nth:
  "i_no inode = 0 \<Longrightarrow> length devs < 2 ^ 63 \<Longrightarrow>
     devfs_read_dir self devs inode pos dest =
       (if unat pos < length (registered devs)
        then (1, pos + 1, devfs_entry self (registered devs ! unat pos)) else (0, pos, dest))"
  using devfs_scan_nth [of 0 devs pos self 0]
  by (simp add: devfs_read_dir_def registered_def registered_from_def)

lemma registered_length: "length (registered devs) \<le> length devs"
  using registered_from_length [of 0 devs] by (simp add: registered_def registered_from_def)

interpretation dd: directory "devfs_dir self devs inode" "devfs_remaining self devs inode"
  for self devs inode
proof
  fix i :: u64 and s :: 'a
  assume "devfs_remaining self devs inode i s []"
  then show "\<exists>i' e s'. devfs_dir self devs inode i s = Some (0, i', e, s')"
    by (auto simp: devfs_remaining_def devfs_dir_def devfs_read_dir_nth Let_def)
next
  fix i :: u64 and s :: 'a and e es
  assume r: "devfs_remaining self devs inode i s (e # es)"
  then have lt: "unat i < length (registered devs)"
    by (metis devfs_remaining_def drop_eq_Nil leI list.distinct(1) list.simps(8))
  have small: "length (registered devs) < 2 ^ 63"
    using r registered_length [of devs] by (auto simp: devfs_remaining_def)
  have ui: "unat (i + 1) = Suc (unat i)"
    using lt small by (subst unat_add_small) simp_all
  have "e # es = devfs_entry self (registered devs ! unat i) # map (devfs_entry self) (drop (Suc (unat i)) (registered devs))"
    using r lt by (simp add: devfs_remaining_def flip: Cons_nth_drop_Suc)
  then show "\<exists>i' s'. devfs_dir self devs inode i s = Some (1, i', e, s') \<and> devfs_remaining self devs inode i' s' es"
    using r lt ui by (auto simp: devfs_remaining_def devfs_dir_def devfs_read_dir_nth Let_def)
qed

section \<open>Properties\<close>

lemma find_registered:
  "case find (\<lambda>(i, e). dn_name e = name) (registered_from k devs) of
     None \<Rightarrow> find_index_from k (entry_named name) devs = None
   | Some (i, e) \<Rightarrow> find_index_from k (entry_named name) devs = Some i
       \<and> k \<le> i \<and> i < k + length devs \<and> devs ! (i - k) = Some e"
proof (induction devs arbitrary: k)
  case Nil
  then show ?case by simp
next
  case (Cons d ds)
  show ?case
  proof (cases d)
    case None
    with Cons.IH [of "Suc k"] show ?thesis
      by (auto split: option.splits simp: nth_Cons')
  next
    case (Some e)
    with Cons.IH [of "Suc k"] show ?thesis
      by (auto split: option.splits simp: nth_Cons')
  qed
qed

lemma find_map_entry:
  "find (\<lambda>e. de_name e = name) (map (devfs_entry self) xs)
     = map_option (devfs_entry self) (find (\<lambda>(i, e). dn_name e = name) xs)"
  by (induction xs) (auto simp: devfs_entry_def)

text \<open>
  C13: the lookup that DevFs has of its own is equivalent to the one it would inherit, the search
  through \<open>read_dir\<close>: on the root directory both return the same error or the same inode.
\<close>

theorem devfs_lookup_is_default:
  assumes "i_no inode = 0" "length devs < 2 ^ 63"
  shows "\<exists>err ino s'. devfs_lookup self devs inode name = Some (err, ino)
       \<and> default_lookup (devfs_dir self devs inode) name s = Some (err, ino, s')"
proof -
  let ?reg = "registered_from 0 devs"
  have "devfs_remaining self devs inode 0 s (map (devfs_entry self) ?reg)"
    using assms by (simp add: devfs_remaining_def registered_def registered_from_def)
  from dd.lookup_loop_finds [where name = name, OF this] obtain s' where
    d: "default_lookup (devfs_dir self devs inode) name s
      = Some (case map_option (devfs_entry self) (find (\<lambda>(i, e). dn_name e = name) ?reg) of
                 Some e \<Rightarrow> (ERR_success, de_inode e, s')
               | None \<Rightarrow> (ERR_not_exists, blank_inode, s'))"
    unfolding default_lookup_def find_map_entry by blast
  show ?thesis
  proof (cases "find (\<lambda>(i, e). dn_name e = name) ?reg")
    case None
    then have "devfs_lookup self devs inode name = Some (ERR_not_exists, blank_inode)"
      using find_registered [where name = name and k = 0 and devs = devs] assms(1)
      by (simp add: devfs_lookup_def get_device_i_def find_index_def ERR_not_exists_def)
    then show ?thesis using d None by simp
  next
    case (Some ie)
    obtain i e where ie: "ie = (i, e)" by (cases ie)
    have "devfs_lookup self devs inode name = Some (ERR_success, device_inode self i e)"
      using find_registered [where name = name and k = 0 and devs = devs] assms(1) Some ie
      by (simp add: devfs_lookup_def get_device_i_def find_index_def)
    then show ?thesis using d Some ie by (simp add: devfs_entry_def)
  qed
qed

theorem devfs_lookup_is_default_witness:
  "\<exists>err ino s'. devfs_lookup 7 new_devfs (devfs_root 7) ''zero'' = Some (err, ino)
     \<and> default_lookup (devfs_dir 7 new_devfs (devfs_root 7)) ''zero'' () = Some (err, ino, s')"
proof (rule devfs_lookup_is_default)
  show "i_no (devfs_root 7) = 0" by (simp add: devfs_root_def)
  have len: "length (snd (register_device m devs n d p)) = length devs" for m devs n d p
    by (auto simp: register_device_def split: sum.splits)
  show "length new_devfs < 2 ^ 63" by (simp add: new_devfs_def Let_def len max_devices_def)
qed

lemma register_scan_spec:
  "0 < i \<Longrightarrow> register_scan name i j ds =
     (if \<exists>d \<in> set ds. entry_named name d then Inl ERR_exists
      else Inr (if j \<noteq> ERR_limit then j
                else case find_index_from i (\<lambda>d. d = None) ds of None \<Rightarrow> ERR_limit | Some k \<Rightarrow> int k))"
proof (induction ds arbitrary: i j)
  case Nil
  then show ?case by simp
next
  case (Cons d ds)
  have "int i \<noteq> ERR_limit" by (simp add: ERR_limit_def)
  then show ?case using Cons.prems Cons.IH [of "Suc i"]
    by (cases d) (simp_all split: option.splits)
qed

text \<open>When \<open>register_device\<close> succeeds: the name was free and a free entry is used.\<close>

lemma register_device_success:
  assumes "register_device m devs name dev perm = (ERR_success, devs')" "devs \<noteq> []"
  obtains k where "0 < k" "k < length devs" "devs ! k = None" "\<forall>d \<in> set (tl devs). \<not> entry_named name d"
    "devs' = devs[k := Some \<lparr>dn_name = assign_text max_file_name_length name, dn_dev = dev, dn_perm = perm\<rparr>]"
proof -
  obtain d ds where devs: "devs = d # ds" using assms(2) by (cases devs) auto
  have scan: "register_scan name 0 ERR_limit devs = register_scan name 1 ERR_limit ds"
    using devs by simp
  have e: "ERR_exists \<noteq> ERR_success" "ERR_limit \<noteq> ERR_success" "ERR_nomem \<noteq> ERR_success" "ERR_limit < 0"
    by (simp_all add: errno_defs)
  have no: "\<not> (\<exists>d \<in> set ds. entry_named name d)"
  proof
    assume ex: "\<exists>d \<in> set ds. entry_named name d"
    have "register_scan name 0 ERR_limit devs = Inl ERR_exists"
      unfolding scan using ex by (subst register_scan_spec) simp_all
    with assms(1) e show False by (simp add: register_device_def)
  qed
  then have r: "register_scan name 0 ERR_limit devs
      = Inr (case find_index_from 1 (\<lambda>d. d = None) ds of None \<Rightarrow> ERR_limit | Some k \<Rightarrow> int k)"
    unfolding scan by (subst register_scan_spec) auto
  then obtain k where k: "find_index_from 1 (\<lambda>d. d = None) ds = Some k"
    using assms(1) e by (auto simp: register_device_def split: option.splits)
  from find_index_from_Some [OF k] devs have kd: "0 < k" "k < length devs" "devs ! k = None"
    by (auto simp: nth_Cons')
  have "devs' = devs[k := Some \<lparr>dn_name = assign_text max_file_name_length name, dn_dev = dev, dn_perm = perm\<rparr>]"
    using assms(1) r k e by (auto simp: register_device_def split: if_splits)
  with kd no devs that show thesis by auto
qed

lemma find_index_from_map: "find_index_from i P xs = find_index_from i (\<lambda>b. b) (map P xs)"
  by (induction i P xs rule: find_index_from.induct) auto

lemma find_index_unchanged: "map P xs = map P ys \<Longrightarrow> find_index P xs = find_index P ys"
  unfolding find_index_def by (metis find_index_from_map)

lemma find_index_only:
  assumes "k < length xs" "P (xs ! k)" "\<And>j. j < length xs \<Longrightarrow> j \<noteq> k \<Longrightarrow> \<not> P (xs ! j)"
  shows "find_index P xs = Some k"
proof (cases "find_index P xs")
  case None
  with assms(1,2) show ?thesis by (auto simp: find_index_None)
next
  case (Some i)
  from find_index_Some [OF this] assms(3) have "i = k" by blast
  with Some show ?thesis by simp
qed

text \<open>
  registering a device. After a successful \<open>register_device\<close> the new name resolves to an inode
  with the given permissions and the device's size, reading that inode reads this device, and
  every other name resolves as before; a name that is taken was refused.
\<close>

theorem register_then_lookup:
  assumes reg: "register_device m devs name dev perm = (ERR_success, devs')"
    and devs: "length devs = max_devices" "devs ! 0 = None"
    and name: "nul \<notin> set name" "length name \<le> max_file_name_length"
  shows "get_device_i devs name = ERR_not_exists
    \<and> (\<exists>ino. devfs_lookup self devs' (devfs_root self) name = Some (ERR_success, ino)
        \<and> i_type ino = t_dev \<and> i_perm ino = perm \<and> i_size ino = dev_size dev \<and> i_fs ino = self
        \<and> devfs_device devs' ino = Some dev)
    \<and> (\<forall>other. other \<noteq> name \<longrightarrow>
        devfs_lookup self devs' (devfs_root self) other = devfs_lookup self devs (devfs_root self) other)"
proof -
  have ne: "devs \<noteq> []" using devs(1) by (auto simp: max_devices_def)
  let ?e = "\<lparr>dn_name = name, dn_dev = dev, dn_perm = perm\<rparr>"
  from register_device_success [OF reg ne] name obtain k where
    k: "0 < k" "k < length devs" "devs ! k = None" "\<forall>d \<in> set (tl devs). \<not> entry_named name d"
      "devs' = devs[k := Some ?e]" by (metis assign_text_small)
  have none: "\<not> entry_named name (devs ! j)" if "j < length devs" for j
  proof (cases j)
    case 0
    then show ?thesis using devs(2) by simp
  next
    case (Suc i)
    then have i: "i < length (tl devs)" using that by simp
    then have "devs ! j \<in> set (tl devs)" using Suc nth_mem [OF i] by (simp add: nth_tl)
    then show ?thesis using k(4) by blast
  qed
  have "find_index (entry_named name) devs = None"
    using none by (auto simp: find_index_None in_set_conv_nth)
  then have before: "get_device_i devs name = ERR_not_exists" by (simp add: get_device_i_def)
  have "find_index (entry_named name) devs' = Some k"
    using k none by (intro find_index_only) auto
  then have gi: "get_device_i devs' name = int k" by (simp add: get_device_i_def)
  let ?ino = "device_inode self k ?e"
  have lk: "devfs_lookup self devs' (devfs_root self) name = Some (ERR_success, ?ino)"
    using gi k(2,5) by (simp add: devfs_lookup_def devfs_root_def)
  have uk: "unat (of_nat k :: u64) = k" using k(2) devs(1) by (intro unat_of_nat_small) (simp add: max_devices_def)
  have "devfs_device devs' ?ino = Some dev"
    using k(2,5) devs(1) uk by (simp add: devfs_device_def device_inode_def)
  then have new: "\<exists>ino. devfs_lookup self devs' (devfs_root self) name = Some (ERR_success, ino)
        \<and> i_type ino = t_dev \<and> i_perm ino = perm \<and> i_size ino = dev_size dev \<and> i_fs ino = self
        \<and> devfs_device devs' ino = Some dev"
    using lk by (intro exI [of _ ?ino]) (simp add: device_inode_def)
  have old: "devfs_lookup self devs' (devfs_root self) other = devfs_lookup self devs (devfs_root self) other"
    if "other \<noteq> name" for other
  proof -
    have "map (entry_named other) devs' = map (entry_named other) devs"
      using k(2,3,5) that by (simp add: map_update list_update_same_conv)
    then have fi: "find_index (entry_named other) devs' = find_index (entry_named other) devs"
      by (rule find_index_unchanged)
    show ?thesis
    proof (cases "find_index (entry_named other) devs")
      case None
      then show ?thesis using fi by (simp add: devfs_lookup_def get_device_i_def ERR_not_exists_def devfs_root_def)
    next
      case (Some j)
      from find_index_Some [OF this] k(3) have "j < length devs" "j \<noteq> k" by auto
      then show ?thesis using fi Some k(5) by (simp add: devfs_lookup_def get_device_i_def devfs_root_def)
    qed
  qed
  from before new old show ?thesis by blast
qed

theorem register_then_lookup_witness:
  "\<exists>devs' ino. register_device True (replicate max_devices None) ''uart0'' (Dev_driver 3) 0x180 = (ERR_success, devs')
     \<and> devfs_lookup 7 devs' (devfs_root 7) ''uart0'' = Some (ERR_success, ino)
     \<and> devfs_device devs' ino = Some (Dev_driver 3)"
proof -
  let ?devs = "replicate max_devices None :: devfs"
  have two: "max_devices = Suc (Suc 62)" by (simp add: max_devices_def)
  have "register_scan ''uart0'' 2 1 (replicate 62 None) = Inr 1"
    by (subst register_scan_spec) (simp_all add: ERR_limit_def)
  then have "register_scan ''uart0'' 0 ERR_limit ?devs = Inr 1"
    unfolding two replicate_Suc by (simp add: numeral_2_eq_2)
  then obtain devs' where
    r: "register_device True ?devs ''uart0'' (Dev_driver 3) 0x180 = (ERR_success, devs')"
    by (simp add: register_device_def)
  have h: "length ?devs = max_devices" "?devs ! 0 = None"
    "nul \<notin> set ''uart0''" "length ''uart0'' \<le> max_file_name_length"
    by (simp_all add: max_devices_def max_file_name_length_def nul_def)
  from register_then_lookup [OF r h, of 7] r show ?thesis by blast
qed

end
