(* ===== verification/Bytes.thy ===== *)
theory Bytes
  imports Prelude
begin

text \<open>
  Little-endian fields of byte arrays, as the code reads them by casting a buffer to a packed
  structure. The position of a field is its offset in the structure.
\<close>

definition le16 :: "u8 list \<Rightarrow> nat \<Rightarrow> u16" where
  "le16 bs i = ucast (bs ! i) OR push_bit 8 (ucast (bs ! (i + 1)))"

definition le32 :: "u8 list \<Rightarrow> nat \<Rightarrow> u32" where
  "le32 bs i = ucast (le16 bs i) OR push_bit 16 (ucast (le16 bs (i + 2)))"

text \<open>Storing a 32-bit value.\<close>

definition put_le32 :: "u8 list \<Rightarrow> nat \<Rightarrow> u32 \<Rightarrow> u8 list" where
  "put_le32 bs i v = bs[i := ucast v, i + 1 := ucast (drop_bit 8 v), i + 2 := ucast (drop_bit 16 v),
     i + 3 := ucast (drop_bit 24 v)]"

definition byte_char :: "u8 \<Rightarrow> char" where "byte_char b = char_of (unat b)"

text \<open>A buffer after bytes were copied to its start, or to a position in it.\<close>

definition overlay :: "u8 list \<Rightarrow> u8 list \<Rightarrow> u8 list" where
  "overlay bs old = bs @ drop (length bs) old"

definition splice :: "u8 list \<Rightarrow> nat \<Rightarrow> u8 list \<Rightarrow> u8 list" where
  "splice old i bs = take i old @ bs @ drop (i + length bs) old"

lemma length_overlay: "length bs \<le> length old \<Longrightarrow> length (overlay bs old) = length old"
  by (simp add: overlay_def)

lemma overlay_full [simp]: "length bs = length old \<Longrightarrow> overlay bs old = bs"
  by (simp add: overlay_def)

lemma length_splice: "i + length bs \<le> length old \<Longrightarrow> length (splice old i bs) = length old"
  by (simp add: splice_def)

end
