(* ===== verification/Fat32.thy ===== *)
theory Fat32
  imports DevFs Bytes
begin

text \<open>
  The FAT32 file system (filesystem/fat32.cc, filesystem/fat32.hh): its two block caches, the
  chains of clusters in the file allocation table, directories, reading and writing of file data
  and the checks of the boot record. A union of the cache entries (FAT words or data bytes) is the
  list of its bytes. The mutex \<open>fat_lock\<close> only orders accesses and is left out.
\<close>

section \<open>State\<close>

record cache_entry =
  ce_data :: "u8 list"
  ce_lba :: u32
  ce_hit :: u32

record cache =
  cache_entries :: "cache_entry list"
  last_hit :: u32

record fat32 =
  fat_name :: string
  fat_dev :: device
  fat_cache :: cache
  data_cache :: cache
  block_count :: u32
  cluster_size :: u32
  fat_lba :: u32
  fat_size :: u32
  data_lba :: u32
  root_cluster :: u32
  cluster_count :: u32

definition block_size :: nat where "block_size = 512"

definition cache_size :: nat where "cache_size = 1024"

text \<open>\<open>intmax<u32>::value\<close>, the lba of an entry that holds nothing.\<close>

definition no_lba :: u32 where "no_lba = - 1"

definition empty_cache :: cache where
  "empty_cache = \<lparr>cache_entries = replicate cache_size
      \<lparr>ce_data = replicate block_size 0, ce_lba = no_lba, ce_hit = 0\<rparr>, last_hit = 0\<rparr>"

section \<open>The block cache\<close>

text \<open>
  The loop of \<open>get_cache_entry\<close>: the entry of the block if there is one, otherwise the least
  recently used entry.
\<close>

fun cache_scan :: "cache_entry list \<Rightarrow> u32 \<Rightarrow> nat \<Rightarrow> nat \<Rightarrow> cache_entry list \<Rightarrow> nat" where
  "cache_scan es lba lru i [] = lru"
| "cache_scan es lba lru i (e # rest) =
     (let lru = (if ce_hit e < ce_hit (es ! lru) then i else lru) in
      if ce_lba e = lba then i else cache_scan es lba lru (i + 1) rest)"

definition get_cache_entry :: "cache \<Rightarrow> u32 \<Rightarrow> nat \<times> cache" where
  "get_cache_entry c lba =
     (let i = cache_scan (cache_entries c) lba 0 0 (cache_entries c);
          h = last_hit c + 1;
          e = cache_entries c ! i in
      (i, c\<lparr>cache_entries := (cache_entries c)[i := e\<lparr>ce_hit := h\<rparr>], last_hit := h\<rparr>))"

text \<open>
  \<open>get_fat_block\<close> and \<open>get_data_block\<close> on their cache: \<open>fetch\<close> reads the block into the entry's
  buffer. The result has the index of the entry, which the code returns a pointer to.
\<close>

definition set_entry :: "cache \<Rightarrow> nat \<Rightarrow> (cache_entry \<Rightarrow> cache_entry) \<Rightarrow> cache" where
  "set_entry c i f = c\<lparr>cache_entries := (cache_entries c)[i := f (cache_entries c ! i)]\<rparr>"

definition get_cached ::
  "(u32 \<Rightarrow> 's \<Rightarrow> (errno \<times> u8 list \<times> 's) kern) \<Rightarrow> cache \<Rightarrow> u32 \<Rightarrow> 's \<Rightarrow> (errno \<times> nat \<times> cache \<times> 's) kern" where
  "get_cached fetch c lba s =
     (let (i, c) = get_cache_entry c lba in
      if ce_lba (cache_entries c ! i) \<noteq> lba then do {
        let c = set_entry c i (\<lambda>e. e\<lparr>ce_lba := no_lba\<rparr>);
        (err, bs, s) \<leftarrow> fetch lba s;
        let c = set_entry c i (\<lambda>e. e\<lparr>ce_data := overlay bs (ce_data e)\<rparr>);
        if err \<noteq> 0 then Some (err, i, c, s)
        else Some (ERR_success, i, set_entry c i (\<lambda>e. e\<lparr>ce_lba := lba\<rparr>), s)
      }
      else Some (ERR_success, i, c, s))"

section \<open>Blocks and clusters\<close>

text \<open>\<open>lba*block_size\<close> is a 32-bit product.\<close>

definition block_offset :: "u32 \<Rightarrow> u64" where
  "block_offset lba = ucast (lba * of_nat block_size)"

definition read_block :: "'x hw \<Rightarrow> fat32 \<Rightarrow> u32 \<Rightarrow> 'x io \<Rightarrow> (errno \<times> u8 list \<times> 'x io) kern" where
  "read_block hw f lba s =
     (if lba < block_count f then do {
        (n, bs, s) \<leftarrow> dev_read hw (fat_dev f) (block_offset lba) block_size s;
        Some (min 0 n, bs, s)
      }
      else Some (ERR_io, [], s))"

definition write_block :: "'x hw \<Rightarrow> fat32 \<Rightarrow> u32 \<Rightarrow> u8 list \<Rightarrow> 'x io \<Rightarrow> (errno \<times> 'x io) kern" where
  "write_block hw f lba buf s =
     (if lba < block_count f then do {
        (n, s) \<leftarrow> dev_write hw (fat_dev f) (block_offset lba) buf s;
        Some (min 0 n, s)
      }
      else Some (ERR_io, s))"

definition write_data_block :: "'x hw \<Rightarrow> fat32 \<Rightarrow> u32 \<Rightarrow> u8 list \<Rightarrow> 'x io \<Rightarrow> (errno \<times> 'x io) kern" where
  "write_data_block hw f block_i buf s = write_block hw f (data_lba f + block_i) buf s"

definition write_fat_block :: "'x hw \<Rightarrow> fat32 \<Rightarrow> u32 \<Rightarrow> u8 list \<Rightarrow> 'x io \<Rightarrow> (errno \<times> 'x io) kern" where
  "write_fat_block hw f block_i buf s = write_block hw f (fat_lba f + block_i) buf s"

text \<open>The index of the cache entry, with the file system and the devices afterwards.\<close>

definition get_fat_block :: "'x hw \<Rightarrow> fat32 \<Rightarrow> u32 \<Rightarrow> 'x io \<Rightarrow> (errno \<times> nat \<times> fat32 \<times> 'x io) kern" where
  "get_fat_block hw f block_i s = do {
     (err, i, c, s) \<leftarrow> get_cached (read_block hw f) (fat_cache f) (fat_lba f + block_i) s;
     Some (err, i, f\<lparr>fat_cache := c\<rparr>, s)
   }"

definition get_data_block :: "'x hw \<Rightarrow> fat32 \<Rightarrow> u32 \<Rightarrow> 'x io \<Rightarrow> (errno \<times> nat \<times> fat32 \<times> 'x io) kern" where
  "get_data_block hw f block_i s = do {
     (err, i, c, s) \<leftarrow> get_cached (read_block hw f) (data_cache f) (data_lba f + block_i) s;
     Some (err, i, f\<lparr>data_cache := c\<rparr>, s)
   }"

lemma get_data_block_frame:
  "get_data_block hw f block_i s = Some (err, i, f', s') \<Longrightarrow>
     block_count f' = block_count f \<and> cluster_size f' = cluster_size f \<and> fat_lba f' = fat_lba f
     \<and> data_lba f' = data_lba f \<and> fat_dev f' = fat_dev f \<and> fat_cache f' = fat_cache f"
  by (auto simp: get_data_block_def bind_Some_iff)

definition is_eoc :: "u32 \<Rightarrow> bool" where
  "is_eoc cluster_n \<longleftrightarrow> cluster_n < 2 \<or> cluster_n \<ge> 0x0FFFFFF0"

text \<open>There are 128 words in a block of the table. \<open>get_next_cluster_n\<close> follows \<open>inc\<close> links.\<close>

definition fat_words :: u32 where "fat_words = 128"

fun next_cluster :: "'x hw \<Rightarrow> fat32 \<Rightarrow> u32 \<Rightarrow> nat \<Rightarrow> 'x io \<Rightarrow> (errno \<times> u32 \<times> fat32 \<times> 'x io) kern" where
  "next_cluster hw f n 0 s = Some (ERR_success, n, f, s)"
| "next_cluster hw f n (Suc inc) s =
     (if is_eoc n then Some (ERR_not_exists, n, f, s)
      else do {
        (err, i, f, s) \<leftarrow> get_fat_block hw f (n div fat_words) s;
        if err < 0 then Some (err, n, f, s)
        else next_cluster hw f (le32 (ce_data (cache_entries (fat_cache f) ! i)) (4 * unat (n mod fat_words))) inc s
      })"

definition get_next_cluster_n :: "'x hw \<Rightarrow> fat32 \<Rightarrow> u32 \<Rightarrow> u32 \<Rightarrow> 'x io \<Rightarrow> (errno \<times> u32 \<times> fat32 \<times> 'x io) kern" where
  "get_next_cluster_n hw f cluster_n inc s = next_cluster hw f cluster_n (unat inc) s"

definition set_next_cluster_n :: "'x hw \<Rightarrow> fat32 \<Rightarrow> u32 \<Rightarrow> u32 \<Rightarrow> 'x io \<Rightarrow> (errno \<times> fat32 \<times> 'x io) kern" where
  "set_next_cluster_n hw f cluster_n nxt s = do {
     (err, i, f, s) \<leftarrow> get_fat_block hw f (cluster_n div fat_words) s;
     if err < 0 then Some (err, f, s)
     else do {
       let f = f\<lparr>fat_cache := set_entry (fat_cache f) i
                 (\<lambda>e. e\<lparr>ce_data := put_le32 (ce_data e) (4 * unat (cluster_n mod fat_words)) nxt\<rparr>)\<rparr>;
       (err, s) \<leftarrow> write_fat_block hw f (cluster_n div fat_words)
                      (ce_data (cache_entries (fat_cache f) ! i)) s;
       Some (err, f, s)
     }
   }"

text \<open>Allocation is not implemented in the code.\<close>

definition allocate_cluster :: "u32 \<Rightarrow> errno" where "allocate_cluster cluster = ERR_nospace"

text \<open>The block of a cluster, relative to \<open>data_lba\<close>.\<close>

definition cluster_block :: "fat32 \<Rightarrow> u32 \<Rightarrow> u32 \<Rightarrow> u32" where
  "cluster_block f cluster block_i = (cluster - 2) * cluster_size f + block_i"

section \<open>Directories\<close>

definition fat_root :: "nat \<Rightarrow> fat32 \<Rightarrow> inode" where
  "fat_root self f = blank_inode\<lparr>i_no := ucast (root_cluster f), i_type := t_dir, i_perm := 0x1C0,
     i_size := 0, i_fs := self, context1 := 0, context2 := 0\<rparr>"

definition dirent_size :: nat where "dirent_size = 32"

definition dirents_per_block :: nat where "dirents_per_block = 16"

definition dirent_name :: "u8 list \<Rightarrow> string" where
  "dirent_name e =
     (let add = fold (\<lambda>c s. str_append_char max_file_name_length s c);
          name = str_rtrim (add (map byte_char (take 8 e)) []);
          ext = map byte_char (take 3 (drop 8 e));
          name = (if ext ! 0 \<noteq> CHR '' '' then add ext (str_append_char max_file_name_length name CHR ''.'') else name) in
      str_to_lower (str_rtrim name))"

text \<open>The attribute byte: bit 3 volume label, bit 4 directory, bit 6 disk. A skipped entry is \<open>None\<close>.\<close>

definition dirent_parse :: "nat \<Rightarrow> inode \<Rightarrow> u64 \<Rightarrow> u8 list \<Rightarrow> dir_entry option" where
  "dirent_parse self inode i e =
     (if bit (e ! 11) 6 \<or> bit (e ! 11) 3 \<or> e ! 0 = 0xE5 then None
      else let name = dirent_name e in
        if name \<noteq> [] \<and> name ! 0 \<noteq> CHR ''.'' \<and> char_pos name CHR ''/'' 0 = -1
        then Some \<lparr>de_name = name, de_inode = blank_inode\<lparr>i_fs := self,
               i_no := ucast (push_bit 16 (ucast (le16 e 20)) OR ucast (le16 e 26) :: u32),
               i_type := (if bit (e ! 11) 4 then t_dir else t_regular), i_perm := 0x1C0,
               i_size := ucast (le32 e 28), context1 := i_no inode, context2 := i\<rparr>\<rparr>
        else None)"

datatype dir_scan =
  Scan_end
| Scan_found u64 dir_entry
| Scan_next u64

function scan_dirents :: "nat \<Rightarrow> inode \<Rightarrow> u8 list \<Rightarrow> nat \<Rightarrow> u64 \<Rightarrow> dir_scan" where
  "scan_dirents self inode block entry_i i =
     (if entry_i \<ge> dirents_per_block then Scan_next i
      else let e = take dirent_size (drop (dirent_size * entry_i) block) in
        if e ! 0 = 0 then Scan_end
        else case dirent_parse self inode i e of
          Some d \<Rightarrow> Scan_found (i + 1) d
        | None \<Rightarrow> scan_dirents self inode block (entry_i + 1) (i + 1))"
  by pat_completeness auto
termination
  by (relation "measure (\<lambda>(self, inode, block, entry_i, i). dirents_per_block - entry_i)") auto

declare scan_dirents.simps [simp del]

text \<open>
  The loop over the blocks of a cluster, from block \<open>b\<close> on: \<open>Inl\<close> is a return of \<open>read_dir\<close> (count,
  position, entry), \<open>Inr\<close> the position to go on with in the next cluster. The entry is meaningful
  only with the count 1.
\<close>

definition no_entry :: dir_entry where "no_entry = \<lparr>de_name = [], de_inode = blank_inode\<rparr>"

function dir_blocks :: "'x hw \<Rightarrow> nat \<Rightarrow> inode \<Rightarrow> u32 \<Rightarrow> nat \<Rightarrow> u64 \<Rightarrow> fat32 \<Rightarrow> 'x io \<Rightarrow>
    (((int \<times> u64 \<times> dir_entry) + u64) \<times> fat32 \<times> 'x io) kern" where
  "dir_blocks hw self inode cluster b i f s =
     (if b \<ge> unat (cluster_size f) then Some (Inr i, f, s)
      else case get_data_block hw f (cluster_block f cluster (of_nat b)) s of
        None \<Rightarrow> None
      | Some (err, k, f', s) \<Rightarrow>
          if err \<noteq> 0 then Some (Inl (err, i, no_entry), f', s)
          else case scan_dirents self inode (ce_data (cache_entries (data_cache f') ! k))
                      (unat i mod dirents_per_block) i of
            Scan_end \<Rightarrow> Some (Inl (0, i, no_entry), f', s)
          | Scan_found i d \<Rightarrow> Some (Inl (1, i, d), f', s)
          | Scan_next i \<Rightarrow> dir_blocks hw self inode cluster (b + 1) i f' s)"
  by pat_completeness auto
termination
  by (relation "measure (\<lambda>(hw, self, inode, cluster, b, i, f, s). unat (cluster_size f) - b)")
    (auto dest: get_data_block_frame)

declare dir_blocks.simps [simp del]

text \<open>The number of the block and of the cluster in the directory that position \<open>i\<close> is in.\<close>

definition dir_block :: "u64 \<Rightarrow> u64" where
  "dir_block i = i * of_nat dirent_size div of_nat block_size"

partial_function (option) fat_read_dir ::
  "'x hw \<Rightarrow> nat \<Rightarrow> inode \<Rightarrow> u64 \<Rightarrow> fat32 \<Rightarrow> 'x io \<Rightarrow> (int \<times> u64 \<times> dir_entry \<times> fat32 \<times> 'x io) kern" where
  "fat_read_dir hw self inode i f s =
     (if cluster_size f = 0 then None
      else let dir_cluster_i = (ucast (dir_block i div ucast (cluster_size f)) :: u32) in
        case (if dir_cluster_i \<noteq> 0 then get_next_cluster_n hw f (ucast (i_no inode)) dir_cluster_i s
              else Some (ERR_success, ucast (i_no inode), f, s)) of
          None \<Rightarrow> None
        | Some (err, cluster, f, s) \<Rightarrow>
            if dir_cluster_i \<noteq> 0 \<and> (is_eoc cluster \<or> err = ERR_not_exists) then Some (0, i, no_entry, f, s)
            else if err \<noteq> 0 then Some (err, i, no_entry, f, s)
            else (case dir_blocks hw self inode cluster
                        (unat (ucast (dir_block i mod ucast (cluster_size f)) :: u32)) i f s of
              None \<Rightarrow> None
            | Some (Inl (n, i, d), f, s) \<Rightarrow> Some (n, i, d, f, s)
            | Some (Inr i, f, s) \<Rightarrow> fat_read_dir hw self inode i f s))"

section \<open>File data\<close>

text \<open>The bytes to copy from (or to) the block that file position \<open>p\<close> is in.\<close>

definition copy_count :: "nat \<Rightarrow> nat \<Rightarrow> u64 \<Rightarrow> u64 \<Rightarrow> nat" where
  "copy_count nbytes so_far sz p =
     min (unat (ucast (min (of_nat nbytes - of_nat so_far) (sz - p)) :: u32)) (block_size - unat p mod block_size)"

text \<open>The block loop of \<open>read\<close> in one cluster; \<open>Inl\<close> is an early return.\<close>

function file_blocks :: "'x hw \<Rightarrow> inode \<Rightarrow> u64 \<Rightarrow> nat \<Rightarrow> u32 \<Rightarrow> nat \<Rightarrow> u8 list \<Rightarrow> fat32 \<Rightarrow> 'x io \<Rightarrow>
    ((errno option) \<times> u8 list \<times> fat32 \<times> 'x io) kern" where
  "file_blocks hw inode off nbytes cluster b got f s =
     (if b \<ge> unat (cluster_size f) then Some (None, got, f, s)
      else case get_data_block hw f (cluster_block f cluster (of_nat b)) s of
        None \<Rightarrow> None
      | Some (err, k, f', s) \<Rightarrow>
          if err \<noteq> 0 then Some (Some err, got, f', s)
          else let p = off + of_nat (length got);
                   n = copy_count nbytes (length got) (i_size inode) p;
                   blk = ce_data (cache_entries (data_cache f') ! k) in
            file_blocks hw inode off nbytes cluster (b + 1)
              (got @ take n (drop (unat p mod block_size) blk)) f' s)"
  by pat_completeness auto
termination
  by (relation "measure (\<lambda>(hw, inode, off, nbytes, cluster, b, got, f, s). unat (cluster_size f) - b)")
    (auto dest: get_data_block_frame)

declare file_blocks.simps [simp del]

text \<open>The number of the block of file position \<open>p\<close>, and its cluster.\<close>

definition file_block :: "u64 \<Rightarrow> u64" where "file_block p = p div of_nat block_size"

text \<open>
  The cluster loop of \<open>read\<close>. The result has the bytes that were put in the buffer, which are there
  also when an error or 0 is returned.
\<close>

partial_function (option) read_clusters ::
  "'x hw \<Rightarrow> inode \<Rightarrow> u64 \<Rightarrow> nat \<Rightarrow> u32 \<Rightarrow> u8 list \<Rightarrow> fat32 \<Rightarrow> 'x io \<Rightarrow>
     (int \<times> u8 list \<times> fat32 \<times> 'x io) kern" where
  "read_clusters hw inode off nbytes cluster got f s =
     (if length got \<ge> nbytes then Some (ssize (length got), got, f, s)
      else if off + of_nat (length got) \<ge> i_size inode then Some (ssize (length got), got, f, s)
      else if cluster_size f = 0 then None
      else let p = off + of_nat (length got);
               file_cluster_i = (ucast (file_block p div ucast (cluster_size f)) :: u32) in
        case (if file_cluster_i \<noteq> 0 then get_next_cluster_n hw f (ucast (i_no inode)) file_cluster_i s
              else Some (ERR_success, cluster, f, s)) of
          None \<Rightarrow> None
        | Some (err, cluster, f, s) \<Rightarrow>
            if file_cluster_i \<noteq> 0 \<and> is_eoc cluster then Some (0, got, f, s)
            else if err \<noteq> 0 then Some (err, got, f, s)
            else (case file_blocks hw inode off nbytes cluster
                        (unat (ucast (file_block p mod ucast (cluster_size f)) :: u32)) got f s of
              None \<Rightarrow> None
            | Some (Some err, got, f, s) \<Rightarrow> Some (err, got, f, s)
            | Some (None, got, f, s) \<Rightarrow> read_clusters hw inode off nbytes cluster got f s))"

definition fat_read ::
  "'x hw \<Rightarrow> fat32 \<Rightarrow> inode \<Rightarrow> u64 \<Rightarrow> nat \<Rightarrow> 'x io \<Rightarrow> (int \<times> u8 list \<times> fat32 \<times> 'x io) kern" where
  "fat_read hw f inode off nbytes s =
     (if off \<ge> i_size inode then Some (0, [], f, s)
      else read_clusters hw inode off nbytes (ucast (i_no inode)) [] f s)"

text \<open>Writing; \<open>done\<close> counts the bytes written so far. The result of the block write is ignored.\<close>

function file_write_blocks :: "'x hw \<Rightarrow> inode \<Rightarrow> u64 \<Rightarrow> u8 list \<Rightarrow> u32 \<Rightarrow> nat \<Rightarrow> nat \<Rightarrow> fat32 \<Rightarrow> 'x io \<Rightarrow>
    ((errno option) \<times> nat \<times> fat32 \<times> 'x io) kern" where
  "file_write_blocks hw inode off buf cluster b wr f s =
     (if b \<ge> unat (cluster_size f) then Some (None, wr, f, s)
      else case get_data_block hw f (cluster_block f cluster (of_nat b)) s of
        None \<Rightarrow> None
      | Some (err, k, f', s) \<Rightarrow>
          if err \<noteq> 0 then Some (Some err, wr, f', s)
          else let p = off + of_nat wr;
                   n = copy_count (length buf) wr (i_size inode) p;
                   f' = f'\<lparr>data_cache := set_entry (data_cache f') k
                     (\<lambda>e. e\<lparr>ce_data := splice (ce_data e) (unat p mod block_size) (take n (drop wr buf))\<rparr>)\<rparr> in
            case write_data_block hw f' (cluster_block f cluster (of_nat b))
                   (ce_data (cache_entries (data_cache f') ! k)) s of
              None \<Rightarrow> None
            | Some (_, s) \<Rightarrow> file_write_blocks hw inode off buf cluster (b + 1) (wr + n) f' s)"
  by pat_completeness auto
termination
  by (relation "measure (\<lambda>(hw, inode, off, buf, cluster, b, wr, f, s). unat (cluster_size f) - b)")
    (auto dest: get_data_block_frame simp: Let_def)

declare file_write_blocks.simps [simp del]

partial_function (option) write_clusters ::
  "'x hw \<Rightarrow> inode \<Rightarrow> u64 \<Rightarrow> u8 list \<Rightarrow> nat \<Rightarrow> fat32 \<Rightarrow> 'x io \<Rightarrow> (int \<times> fat32 \<times> 'x io) kern" where
  "write_clusters hw inode off buf wr f s =
     (if wr \<ge> length buf then Some (ssize wr, f, s)
      else if off + of_nat wr \<ge> i_size inode then Some (ERR_nospace, f, s)
      else if cluster_size f = 0 then None
      else let file_cluster_i = (ucast (file_block off div ucast (cluster_size f)) :: u32) in
        case (if file_cluster_i \<noteq> 0 then get_next_cluster_n hw f (ucast (i_no inode)) file_cluster_i s
              else Some (ERR_success, ucast (i_no inode), f, s)) of
          None \<Rightarrow> None
        | Some (err, cluster, f, s) \<Rightarrow>
            if file_cluster_i \<noteq> 0 \<and> is_eoc cluster then Some (ERR_nospace, f, s)
            else if err \<noteq> 0 then Some (err, f, s)
            else (case file_write_blocks hw inode off buf cluster
                        (unat (ucast (file_block (off + of_nat wr) mod ucast (cluster_size f)) :: u32)) wr f s of
              None \<Rightarrow> None
            | Some (Some err, wr, f, s) \<Rightarrow> Some (err, f, s)
            | Some (None, wr, f, s) \<Rightarrow> write_clusters hw inode off buf wr f s))"

definition fat_write ::
  "'x hw \<Rightarrow> fat32 \<Rightarrow> inode \<Rightarrow> u64 \<Rightarrow> u8 list \<Rightarrow> 'x io \<Rightarrow> (int \<times> fat32 \<times> 'x io) kern" where
  "fat_write hw f inode off buf s =
     (if off \<ge> i_size inode then Some (ERR_nospace, f, s)
      else write_clusters hw inode off buf 0 f s)"

section \<open>Mounting\<close>

text \<open>The fields of the boot record, by their offsets.\<close>

record boot_record =
  br_block_size :: u16
  br_cluster_size :: u8
  br_reserved_blocks :: u16
  br_fat_count :: u8
  br_root_dir_entry_count :: u16
  br_fat_size_short :: u16
  br_block_count :: u32
  br_fat_size :: u32
  br_root_cluster :: u32
  br_signature :: u16

definition parse_boot_record :: "u8 list \<Rightarrow> boot_record" where
  "parse_boot_record bs = \<lparr>br_block_size = le16 bs 11, br_cluster_size = bs ! 13,
     br_reserved_blocks = le16 bs 14, br_fat_count = bs ! 16, br_root_dir_entry_count = le16 bs 17,
     br_fat_size_short = le16 bs 22, br_block_count = le32 bs 32, br_fat_size = le32 bs 36,
     br_root_cluster = le32 bs 44, br_signature = le16 bs 510\<rparr>"

text \<open>\<open>dev.size()/block_size\<close>: a signed division.\<close>

definition device_blocks :: "device \<Rightarrow> int" where
  "device_blocks dev = (let n = sint (dev_size dev) in if n < 0 then - ((- n) div 512) else n div 512)"

definition check_boot_record :: "device \<Rightarrow> string \<Rightarrow> boot_record \<Rightarrow> fat32 option" where
  "check_boot_record dev devname br =
     (if br_signature br \<noteq> 0xAA55 then None
      else if br_block_size br \<noteq> of_nat block_size then None
      else if int (unat (br_block_count br)) > device_blocks dev then None
      else if br_reserved_blocks br = 0 \<or> br_cluster_size br = 0 \<or> br_block_count br = 0
             \<or> br_fat_count br = 0 then None
      else if br_root_dir_entry_count br \<noteq> 0 \<or> br_fat_size_short br \<noteq> 0 then None
      else if br_fat_size br > br_block_count br then None
      else let fl = ucast (br_reserved_blocks br) :: u32;
               fs = br_fat_size br;
               dl = fl + fs * ucast (br_fat_count br) in
        if dl \<ge> br_block_count br then None
        else let cs = ucast (br_cluster_size br) :: u32;
                 data_clusters = (br_block_count br - dl) div cs in
          if data_clusters = 0 then None
          else if br_root_cluster br = 0 \<or> br_root_cluster br \<ge> data_clusters then None
          else Some \<lparr>fat_name = assign_text max_file_name_length devname, fat_dev = dev,
                 fat_cache = empty_cache, data_cache = empty_cache,
                 block_count = br_block_count br, cluster_size = cs, fat_lba = fl, fat_size = fs,
                 data_lba = dl, root_cluster = br_root_cluster br, cluster_count = fs div 4\<rparr>)"

text \<open>\<open>try_mount\<close> up to the registration of the new file system with the Vfs.\<close>

definition probe_fat32 :: "'x hw \<Rightarrow> device \<Rightarrow> string \<Rightarrow> 'x io \<Rightarrow> (fat32 option \<times> 'x io) kern" where
  "probe_fat32 hw dev devname s = do {
     (n, bs, s) \<leftarrow> dev_read hw dev 0 block_size s;
     if n \<noteq> int block_size then Some (None, s)
     else do {
       kassert (length bs = block_size);
       Some (check_boot_record dev devname (parse_boot_record bs), s)
     }
   }"

end
