(* ===== verification/Fat32Read.thy ===== *)
theory Fat32Read
  imports Fat32
begin

text \<open>
  The block caches are transparent, and reading a file returns its bytes. What is assumed of the
  device is one predicate, \<open>serves\<close>: in the states \<open>P\<close>, a read of block \<open>lba\<close> succeeds, gives
  \<open>content lba\<close> and leaves a state of \<open>P\<close>.
\<close>

section \<open>The caches\<close>

definition coherent :: "(u32 \<Rightarrow> u8 list) \<Rightarrow> cache \<Rightarrow> bool" where
  "coherent content c \<longleftrightarrow> cache_entries c \<noteq> [] \<and>
     (\<forall>e \<in> set (cache_entries c). length (ce_data e) = block_size \<and>
        (ce_lba e \<noteq> no_lba \<longrightarrow> ce_data e = content (ce_lba e)))"

lemma cache_scan_less:
  "lru < length es \<Longrightarrow> i + length rest = length es \<Longrightarrow> cache_scan es lba lru i rest < length es"
  by (induction es lba lru i rest rule: cache_scan.induct) (auto simp: Let_def)

lemma get_cache_entry_spec:
  assumes "cache_entries c \<noteq> []"
  obtains i h where "get_cache_entry c lba
      = (i, c\<lparr>cache_entries := (cache_entries c)[i := (cache_entries c ! i)\<lparr>ce_hit := h\<rparr>], last_hit := h\<rparr>)"
    "i < length (cache_entries c)"
  using cache_scan_less [of 0 "cache_entries c" 0 "cache_entries c" lba] assms
  by (simp add: get_cache_entry_def Let_def)

locale block_source =
  fixes fetch :: "u32 \<Rightarrow> 's \<Rightarrow> (errno \<times> u8 list \<times> 's) kern"
    and content :: "u32 \<Rightarrow> u8 list"
    and ready :: "'s \<Rightarrow> bool"
    and valid :: "u32 \<Rightarrow> bool"
  assumes fetch_valid: "ready s \<Longrightarrow> valid lba \<Longrightarrow> \<exists>s'. fetch lba s = Some (ERR_success, content lba, s') \<and> ready s'"
    and content_length: "valid lba \<Longrightarrow> length (content lba) = block_size"
begin

lemma get_cached_content:
  assumes "ready s" "coherent content c" "valid lba" "lba \<noteq> no_lba"
  shows "\<exists>i c' s'. get_cached fetch c lba s = Some (ERR_success, i, c', s') \<and> coherent content c' \<and> ready s'
    \<and> i < length (cache_entries c') \<and> ce_data (cache_entries c' ! i) = content lba"
proof -
  have ne: "cache_entries c \<noteq> []" using assms(2) by (simp add: coherent_def)
  obtain i h where g: "get_cache_entry c lba
      = (i, c\<lparr>cache_entries := (cache_entries c)[i := (cache_entries c ! i)\<lparr>ce_hit := h\<rparr>], last_hit := h\<rparr>)"
    and i: "i < length (cache_entries c)" using get_cache_entry_spec [OF ne] .
  let ?e = "cache_entries c ! i"
  have e: "length (ce_data ?e) = block_size" "ce_lba ?e \<noteq> no_lba \<longrightarrow> ce_data ?e = content (ce_lba ?e)"
    using assms(2) i by (simp_all add: coherent_def)
  have upd: "coherent content (c\<lparr>cache_entries := (cache_entries c)[i := x], last_hit := k\<rparr>)"
    if "length (ce_data x) = block_size" "ce_lba x \<noteq> no_lba \<longrightarrow> ce_data x = content (ce_lba x)" for x k
    using assms(2) that set_update_subset_insert [of "cache_entries c" i x] by (auto simp: coherent_def)
  show ?thesis
  proof (cases "ce_lba ?e = lba")
    case True
    then have "get_cached fetch c lba s = Some (ERR_success, i,
        c\<lparr>cache_entries := (cache_entries c)[i := ?e\<lparr>ce_hit := h\<rparr>], last_hit := h\<rparr>, s)"
      using g i by (simp add: get_cached_def)
    moreover have "coherent content (c\<lparr>cache_entries := (cache_entries c)[i := ?e\<lparr>ce_hit := h\<rparr>], last_hit := h\<rparr>)"
      using e by (intro upd) simp_all
    ultimately show ?thesis using True e(2) assms(1,4) i by auto
  next
    case False
    obtain s' where f: "fetch lba s = Some (ERR_success, content lba, s')" "ready s'"
      using fetch_valid [OF assms(1,3)] by blast
    have len: "length (content lba) = block_size" by (rule content_length [OF assms(3)])
    let ?x = "?e\<lparr>ce_hit := h, ce_data := content lba, ce_lba := lba\<rparr>"
    have "get_cached fetch c lba s = Some (ERR_success, i,
        c\<lparr>last_hit := h, cache_entries := (cache_entries c)[i := ?x]\<rparr>, s')"
      using g i False f(1) len e(1) by (simp add: get_cached_def set_entry_def ERR_success_def)
    moreover have "coherent content (c\<lparr>last_hit := h, cache_entries := (cache_entries c)[i := ?x]\<rparr>)"
      using len upd [of ?x h] by (simp add: coherent_def)
    ultimately show ?thesis using f(2) i by auto
  qed
qed

end

text \<open>The requirement on the device, and the interpretation for the reads of \<open>fat32.cc\<close>.\<close>

definition serves :: "'x hw \<Rightarrow> fat32 \<Rightarrow> (u32 \<Rightarrow> u8 list) \<Rightarrow> ('x io \<Rightarrow> bool) \<Rightarrow> bool" where
  "serves hw f content P \<longleftrightarrow>
     (\<forall>s lba. P s \<and> lba < block_count f \<longrightarrow> length (content lba) = block_size \<and>
        (\<exists>s'. dev_read hw (fat_dev f) (block_offset lba) block_size s = Some (int block_size, content lba, s') \<and> P s'))"

definition served :: "fat32 \<Rightarrow> (u32 \<Rightarrow> u8 list) \<Rightarrow> u32 \<Rightarrow> bool" where
  "served f content lba \<longleftrightarrow> lba < block_count f \<and> length (content lba) = block_size"

interpretation bc: block_source "read_block hw f" content "\<lambda>s. P s \<and> serves hw f content P" "served f content"
  for hw :: "'x hw" and f content P
proof
  fix s :: "'x io" and lba
  assume P: "P s \<and> serves hw f content P" and lba: "served f content lba"
  then obtain s' where
    "dev_read hw (fat_dev f) (block_offset lba) block_size s = Some (int block_size, content lba, s')" "P s'"
    unfolding serves_def served_def by blast
  with P lba show "\<exists>s'. read_block hw f lba s = Some (ERR_success, content lba, s') \<and> P s' \<and> serves hw f content P"
    by (auto simp: served_def read_block_def ERR_success_def)
next
  fix lba
  assume "served f content lba"
  then show "length (content lba) = block_size" by (simp add: served_def)
qed

section \<open>Blocks, links and chains\<close>

definition geometry :: "fat32 \<Rightarrow> device \<times> u32 \<times> u32 \<times> u32 \<times> u32" where
  "geometry f = (fat_dev f, block_count f, cluster_size f, fat_lba f, data_lba f)"

definition fat_ready :: "'x hw \<Rightarrow> (u32 \<Rightarrow> u8 list) \<Rightarrow> ('x io \<Rightarrow> bool) \<Rightarrow> fat32 \<Rightarrow> 'x io \<Rightarrow> bool" where
  "fat_ready hw content P f s \<longleftrightarrow>
     P s \<and> serves hw f content P \<and> coherent content (fat_cache f) \<and> coherent content (data_cache f)"

text \<open>A block that can be read through a cache.\<close>

definition readable :: "fat32 \<Rightarrow> (u32 \<Rightarrow> u8 list) \<Rightarrow> u32 \<Rightarrow> bool" where
  "readable f content lba \<longleftrightarrow> lba < block_count f \<and> lba \<noteq> no_lba"

lemma geometry_cong:
  "geometry f' = geometry f \<Longrightarrow> serves hw f' content P = serves hw f content P"
  by (simp add: geometry_def serves_def)

lemma served_if: "fat_ready hw content P f s \<Longrightarrow> readable f content lba \<Longrightarrow> served f content lba"
  by (auto simp: fat_ready_def readable_def served_def serves_def)

lemma get_data_block_content:
  assumes "fat_ready hw content P f s" "readable f content (data_lba f + bi)"
  obtains k f' s' where "get_data_block hw f bi s = Some (ERR_success, k, f', s')"
    "geometry f' = geometry f" "fat_ready hw content P f' s'"
    "ce_data (cache_entries (data_cache f') ! k) = content (data_lba f + bi)"
proof -
  have r: "P s \<and> serves hw f content P" "coherent content (data_cache f)" "data_lba f + bi \<noteq> no_lba"
    using assms by (simp_all add: fat_ready_def readable_def)
  from bc.get_cached_content [where f = f, OF r(1,2) served_if [OF assms] r(3)] obtain i c' s' where
    g: "get_cached (read_block hw f) (data_cache f) (data_lba f + bi) s = Some (ERR_success, i, c', s')"
      "coherent content c'" "P s'" "ce_data (cache_entries c' ! i) = content (data_lba f + bi)" by blast
  have "geometry (f\<lparr>data_cache := c'\<rparr>) = geometry f" by (simp add: geometry_def)
  with g assms(1) geometry_cong [OF this, of hw content P] show thesis
    by (intro that [of i "f\<lparr>data_cache := c'\<rparr>" s']) (simp_all add: get_data_block_def fat_ready_def)
qed

lemma get_fat_block_content:
  assumes "fat_ready hw content P f s" "readable f content (fat_lba f + bi)"
  obtains k f' s' where "get_fat_block hw f bi s = Some (ERR_success, k, f', s')"
    "geometry f' = geometry f" "fat_ready hw content P f' s'"
    "ce_data (cache_entries (fat_cache f') ! k) = content (fat_lba f + bi)"
proof -
  have r: "P s \<and> serves hw f content P" "coherent content (fat_cache f)" "fat_lba f + bi \<noteq> no_lba"
    using assms by (simp_all add: fat_ready_def readable_def)
  from bc.get_cached_content [where f = f, OF r(1,2) served_if [OF assms] r(3)] obtain i c' s' where
    g: "get_cached (read_block hw f) (fat_cache f) (fat_lba f + bi) s = Some (ERR_success, i, c', s')"
      "coherent content c'" "P s'" "ce_data (cache_entries c' ! i) = content (fat_lba f + bi)" by blast
  have "geometry (f\<lparr>fat_cache := c'\<rparr>) = geometry f" by (simp add: geometry_def)
  with g assms(1) geometry_cong [OF this, of hw content P] show thesis
    by (intro that [of i "f\<lparr>fat_cache := c'\<rparr>" s']) (simp_all add: get_fat_block_def fat_ready_def)
qed

text \<open>The entry of a cluster in the allocation table, and the \<open>k\<close>-th cluster of a chain.\<close>

definition fat_link :: "(u32 \<Rightarrow> u8 list) \<Rightarrow> fat32 \<Rightarrow> u32 \<Rightarrow> u32" where
  "fat_link content f n = le32 (content (fat_lba f + n div fat_words)) (4 * unat (n mod fat_words))"

primrec cluster_at :: "(u32 \<Rightarrow> u8 list) \<Rightarrow> fat32 \<Rightarrow> u32 \<Rightarrow> nat \<Rightarrow> u32" where
  "cluster_at content f first 0 = first"
| "cluster_at content f first (Suc k) = fat_link content f (cluster_at content f first k)"

lemma cluster_at_shift:
  "cluster_at content f first (Suc k) = cluster_at content f (fat_link content f first) k"
  by (induction k) simp_all

lemma cluster_at_geometry: "geometry f' = geometry f \<Longrightarrow> cluster_at content f' first k = cluster_at content f first k"
  by (induction k) (simp_all add: geometry_def fat_link_def)

text \<open>The first \<open>K\<close> links of a chain can be followed.\<close>

definition chain_ok :: "(u32 \<Rightarrow> u8 list) \<Rightarrow> fat32 \<Rightarrow> u32 \<Rightarrow> nat \<Rightarrow> bool" where
  "chain_ok content f first K \<longleftrightarrow> (\<forall>k < K. \<not> is_eoc (cluster_at content f first k)
     \<and> readable f content (fat_lba f + cluster_at content f first k div fat_words))"

lemma next_cluster_follows:
  "fat_ready hw content P f s \<Longrightarrow> chain_ok content f n k \<Longrightarrow>
     \<exists>f' s'. next_cluster hw f n k s = Some (ERR_success, cluster_at content f n k, f', s')
       \<and> geometry f' = geometry f \<and> fat_ready hw content P f' s'"
proof (induction k arbitrary: n f s)
  case 0
  then show ?case by simp
next
  case (Suc k)
  have n: "\<not> is_eoc n" "readable f content (fat_lba f + n div fat_words)"
    using Suc.prems(2) by (auto simp: chain_ok_def dest: spec [of _ 0])
  from get_fat_block_content [OF Suc.prems(1) n(2)] obtain i f1 s1 where
    g: "get_fat_block hw f (n div fat_words) s = Some (ERR_success, i, f1, s1)"
      "geometry f1 = geometry f" "fat_ready hw content P f1 s1"
      "ce_data (cache_entries (fat_cache f1) ! i) = content (fat_lba f + n div fat_words)" .
  let ?n = "fat_link content f n"
  have eq: "readable f1 = readable f" "fat_lba f1 = fat_lba f"
    using g(2) by (auto simp: geometry_def readable_def fun_eq_iff)
  have "chain_ok content f1 ?n k"
    unfolding chain_ok_def
  proof (intro allI impI)
    fix j assume "j < k"
    then have "Suc j < Suc k" by simp
    with Suc.prems(2) show "\<not> is_eoc (cluster_at content f1 ?n j)
      \<and> readable f1 content (fat_lba f1 + cluster_at content f1 ?n j div fat_words)"
      unfolding chain_ok_def cluster_at_geometry [OF g(2)] eq
      by (metis cluster_at_shift)
  qed
  from Suc.IH [OF g(3) this] obtain f' s' where
    "next_cluster hw f1 ?n k s1 = Some (ERR_success, cluster_at content f1 ?n k, f', s')"
    "geometry f' = geometry f1" "fat_ready hw content P f' s'" by blast
  moreover have "next_cluster hw f n (Suc k) s = next_cluster hw f1 ?n k s1"
    using n(1) g(1,4) by (simp add: ERR_success_def fat_link_def)
  moreover have "cluster_at content f1 ?n k = cluster_at content f n (Suc k)"
    unfolding cluster_at_geometry [OF g(2)] by (rule cluster_at_shift [symmetric])
  ultimately show ?case using g(2) by auto
qed

section \<open>Reading\<close>

text \<open>
  The bytes of a file: byte \<open>p\<close> is in block \<open>p div 512\<close> of the file, that block is in cluster
  \<open>p div 512 div cluster_size\<close> of its chain.
\<close>

definition file_lba :: "(u32 \<Rightarrow> u8 list) \<Rightarrow> fat32 \<Rightarrow> u32 \<Rightarrow> nat \<Rightarrow> u32" where
  "file_lba content f first blk =
     data_lba f + cluster_block f (cluster_at content f first (blk div unat (cluster_size f)))
                    (of_nat (blk mod unat (cluster_size f)))"

definition file_byte :: "(u32 \<Rightarrow> u8 list) \<Rightarrow> fat32 \<Rightarrow> u32 \<Rightarrow> nat \<Rightarrow> u8" where
  "file_byte content f first p = content (file_lba content f first (p div block_size)) ! (p mod block_size)"

text \<open>The clusters of the file up to number \<open>K\<close> are in the chain and their blocks on the device.\<close>

definition file_ok :: "(u32 \<Rightarrow> u8 list) \<Rightarrow> fat32 \<Rightarrow> u32 \<Rightarrow> nat \<Rightarrow> bool" where
  "file_ok content f first K \<longleftrightarrow> chain_ok content f first K
     \<and> (\<forall>k \<le> K. \<not> is_eoc (cluster_at content f first k))
     \<and> (\<forall>blk < (K + 1) * unat (cluster_size f). readable f content (file_lba content f first blk))"

lemma copy_count_eq:
  assumes "n < 2 ^ 31" "g \<le> n" "unat p \<le> unat sz" "unat sz < 2 ^ 32"
  shows "copy_count n g sz p = min (min (n - g) (unat sz - unat p)) (block_size - unat p mod block_size)"
proof -
  have un: "unat (of_nat n :: u64) = n" "unat (of_nat g :: u64) = g"
    using assms(1,2) by (simp_all add: unat_of_nat_small)
  have a: "unat (of_nat n - of_nat g :: u64) = n - g"
    using assms(2) un by (subst unat_sub) (simp_all add: word_le_nat_alt)
  have b: "unat (sz - p) = unat sz - unat p"
    using assms(3) by (simp add: unat_sub word_le_nat_alt)
  have m: "unat (min (of_nat n - of_nat g) (sz - p)) = min (n - g) (unat sz - unat p)"
    using a b by (auto simp: min_def word_le_nat_alt)
  have "min (n - g) (unat sz - unat p) < 2 ^ 32" using assms(1) by simp
  then have "unat (ucast (min (of_nat n - of_nat g) (sz - p)) :: u32) = min (n - g) (unat sz - unat p)"
    by (simp only: unsigned_ucast_eq m) (simp add: take_bit_nat_eq_self)
  then show ?thesis by (simp add: copy_count_def)
qed

lemma file_geometry:
  assumes "geometry f' = geometry f"
  shows "file_lba content f' first = file_lba content f first"
    and "file_byte content f' first = file_byte content f first"
    and "readable f' = readable f" and "cluster_size f' = cluster_size f"
proof -
  have g: "data_lba f' = data_lba f" "cluster_size f' = cluster_size f" "block_count f' = block_count f"
    using assms by (simp_all add: geometry_def)
  show l: "file_lba content f' first = file_lba content f first"
    by (simp add: fun_eq_iff file_lba_def cluster_block_def g cluster_at_geometry [OF assms])
  show "file_byte content f' first = file_byte content f first" by (simp add: fun_eq_iff file_byte_def l)
  show "readable f' = readable f" by (simp add: fun_eq_iff readable_def g)
  show "cluster_size f' = cluster_size f" by (rule g)
qed

text \<open>One block's share of the file, as a slice of the block.\<close>

lemma file_bytes_in_block:
  assumes "p div block_size = blk" "p mod block_size + k \<le> block_size"
    and "length (content (file_lba content f first blk)) = block_size"
  shows "take k (drop (p mod block_size) (content (file_lba content f first blk)))
       = map (file_byte content f first) [p..<p + k]"
proof (rule nth_equalityI)
  show len: "length (take k (drop (p mod block_size) (content (file_lba content f first blk))))
      = length (map (file_byte content f first) [p..<p + k])"
    using assms(2,3) by simp
  fix i assume "i < length (take k (drop (p mod block_size) (content (file_lba content f first blk))))"
  then have i: "i < k" by simp
  have bs: "0 < block_size" by (simp add: block_size_def)
  have lt: "p mod block_size + i < block_size" using i assms(2) by simp
  define r where "r = p mod block_size"
  have pi: "p + i = (r + i) + block_size * blk"
    using mult_div_mod_eq [of block_size p] unfolding assms(1) r_def by linarith
  have "(p + i) div block_size = blk" "(p + i) mod block_size = p mod block_size + i"
    unfolding pi using lt bs unfolding r_def [symmetric] by simp_all
  then show "take k (drop (p mod block_size) (content (file_lba content f first blk))) ! i
      = map (file_byte content f first) [p..<p + k] ! i"
    using i assms(2,3) by (simp add: file_byte_def)
qed

lemma next_block_position:
  "p div block_size = blk \<Longrightarrow> p + (block_size - p mod block_size) = (blk + 1) * block_size"
proof -
  assume "p div block_size = blk"
  moreover have "p mod block_size < block_size" by (simp add: block_size_def)
  ultimately show ?thesis using mult_div_mod_eq [of block_size p] by (simp add: algebra_simps)
qed

text \<open>
  The block loop in cluster number \<open>K\<close>. Either all \<open>m\<close> bytes are there already and the remaining
  blocks add nothing, or block \<open>b\<close> of this cluster is the one of the next byte.
\<close>

definition in_cluster :: "nat \<Rightarrow> nat \<Rightarrow> nat \<Rightarrow> nat \<Rightarrow> bool" where
  "in_cluster cs K b p \<longleftrightarrow> (if b < cs then p div block_size = K * cs + b else p = (K + 1) * cs * block_size)"

lemma file_blocks_content:
  assumes n: "n < 2 ^ 31" and sz: "unat (i_size inode) < 2 ^ 32"
    and m: "m = min n (unat (i_size inode) - unat off)" "unat off \<le> unat (i_size inode)"
  shows "fat_ready hw content P f s \<Longrightarrow> cs = unat (cluster_size f) \<Longrightarrow>
    \<forall>blk < (K + 1) * cs. readable f content (file_lba content f first blk) \<Longrightarrow>
    g \<le> m \<Longrightarrow> b \<le> cs \<Longrightarrow> g = m \<or> in_cluster cs K b (unat off + g) \<Longrightarrow>
    \<exists>f' s' g'. file_blocks hw inode off n (cluster_at content f first K) b
            (map (file_byte content f first) [unat off..<unat off + g]) f s
        = Some (None, map (file_byte content f first) [unat off..<unat off + g'], f', s')
      \<and> geometry f' = geometry f \<and> fat_ready hw content P f' s' \<and> g \<le> g' \<and> g' \<le> m
      \<and> (g' = m \<or> unat off + g' = (K + 1) * cs * block_size)"
proof (induction "cs - b" arbitrary: b g f s)
  case 0
  then have b: "b = cs" by simp
  let ?got = "map (file_byte content f first) [unat off..<unat off + g]"
  have "file_blocks hw inode off n (cluster_at content f first K) b ?got f s = Some (None, ?got, f, s)"
    using b 0 by (subst file_blocks.simps) simp
  moreover have "g = m \<or> unat off + g = (K + 1) * cs * block_size"
    using 0 b by (simp add: in_cluster_def)
  ultimately show ?case using 0 by blast
next
  case (Suc d)
  have b: "b < cs" using Suc.hyps(2) by simp
  let ?blk = "K * cs + b" and ?c = "cluster_at content f first K"
  let ?got = "map (file_byte content f first) [unat off..<unat off + g]"
  have blk: "?blk div cs = K" "?blk mod cs = b" "?blk < (K + 1) * cs" using b by simp_all
  have lba: "data_lba f + cluster_block f ?c (of_nat b) = file_lba content f first ?blk"
    using Suc.prems(2) blk by (simp add: file_lba_def)
  have rd: "readable f content (data_lba f + cluster_block f ?c (of_nat b))"
    unfolding lba using Suc.prems(3) blk(3) by blast
  from get_data_block_content [OF Suc.prems(1) rd] obtain k f1 s1 where
    gd: "get_data_block hw f (cluster_block f ?c (of_nat b)) s = Some (ERR_success, k, f1, s1)"
      "geometry f1 = geometry f" "fat_ready hw content P f1 s1"
      "ce_data (cache_entries (data_cache f1) ! k) = content (file_lba content f first ?blk)"
    unfolding lba .
  have len: "length (content (file_lba content f first ?blk)) = block_size"
    using served_if [OF Suc.prems(1) rd] unfolding lba by (simp add: served_def)
  have "g \<le> unat (i_size inode) - unat off" using Suc.prems(4) m(1) by simp
  then have bound: "unat off + g \<le> unat (i_size inode)" using m(2) by linarith
  then have small: "unat off + g < 2 ^ 64" using sz by simp
  have ug: "unat (of_nat g :: u64) = g" using small by (intro unat_of_nat_small) simp
  have up: "unat (off + of_nat (length ?got)) = unat off + g"
    using small ug by (subst unat_add_small) simp_all
  let ?p = "unat off + g" and ?q = "off + of_nat (length ?got)"
  let ?n = "copy_count n (length ?got) (i_size inode) ?q"
  have "?n = min (min (n - g) (unat (i_size inode) - ?p)) (block_size - ?p mod block_size)"
    using copy_count_eq [OF n, of "length ?got" ?q "i_size inode"] sz m Suc.prems(4) up bound by simp
  also have "min (n - g) (unat (i_size inode) - ?p) = m - g" using m by simp
  finally have cc: "?n = min (m - g) (block_size - ?p mod block_size)" .
  define g1 where "g1 = g + ?n"
  have g1: "g \<le> g1" "g1 \<le> m" using cc Suc.prems(4) by (simp_all add: g1_def)
  have bytes: "take ?n (drop (unat ?q mod block_size) (content (file_lba content f first ?blk)))
      = map (file_byte content f first) [?p..<?p + ?n]"
  proof (cases "g = m")
    case True
    then have "?n = 0" using cc by simp
    then show ?thesis by simp
  next
    case False
    then have "?p div block_size = ?blk" using Suc.prems(6) b by (simp add: in_cluster_def)
    moreover have "?p mod block_size + ?n \<le> block_size"
    proof -
      have "?p mod block_size < block_size" by (simp add: block_size_def)
      moreover have "?n \<le> block_size - ?p mod block_size" unfolding cc by simp
      ultimately show ?thesis by linarith
    qed
    ultimately show ?thesis unfolding up using len by (rule file_bytes_in_block)
  qed
  have got1: "?got @ map (file_byte content f first) [?p..<?p + ?n]
      = map (file_byte content f1 first) [unat off..<unat off + g1]"
  proof -
    have "[unat off..<?p + ?n] = [unat off..<?p] @ [?p..<?p + ?n]" by (rule upt_add_eq_append) simp
    then show ?thesis unfolding file_geometry [OF gd(2)] g1_def by (simp add: add.assoc)
  qed
  have pos: "g1 = m \<or> in_cluster cs K (b + 1) (unat off + g1)"
  proof (cases "g1 = m")
    case False
    then have "g \<noteq> m" using g1 by simp
    then have d: "?p div block_size = ?blk" using Suc.prems(6) b by (simp add: in_cluster_def)
    have "\<not> m - g \<le> block_size - ?p mod block_size"
    proof
      assume "m - g \<le> block_size - ?p mod block_size"
      then have "?n = m - g" using cc by simp
      then show False using False Suc.prems(4) by (simp add: g1_def)
    qed
    then have "?n = block_size - ?p mod block_size" using cc by simp
    then have e: "unat off + g1 = (?blk + 1) * block_size"
      using next_block_position [OF d] by (simp add: g1_def)
    then show ?thesis using b by (auto simp: in_cluster_def block_size_def algebra_simps)
  qed simp
  have step: "file_blocks hw inode off n ?c b ?got f s
      = file_blocks hw inode off n ?c (b + 1) (map (file_byte content f1 first) [unat off..<unat off + g1]) f1 s1"
    using gd(1,4) b Suc.prems(2) bytes got1
    by (subst file_blocks.simps) (simp add: ERR_success_def)
  have c1: "?c = cluster_at content f1 first K" by (simp add: cluster_at_geometry [OF gd(2)])
  have "d = cs - (b + 1)" "cs = unat (cluster_size f1)" "b + 1 \<le> cs"
    "\<forall>blk < (K + 1) * cs. readable f1 content (file_lba content f1 first blk)"
    using Suc.hyps(2) Suc.prems(2,3) b by (simp_all add: file_geometry [OF gd(2)])
  from Suc.hyps(1) [OF this(1) gd(3) this(2,4) g1(2) this(3) pos] obtain f' s' g' where
    "file_blocks hw inode off n (cluster_at content f1 first K) (b + 1)
        (map (file_byte content f1 first) [unat off..<unat off + g1]) f1 s1
      = Some (None, map (file_byte content f1 first) [unat off..<unat off + g'], f', s')"
    "geometry f' = geometry f1" "fat_ready hw content P f' s'" "g1 \<le> g'" "g' \<le> m"
    "g' = m \<or> unat off + g' = (K + 1) * cs * block_size" by blast
  then show ?case
    using step g1 gd(2) unfolding c1 by (auto simp: file_geometry [OF gd(2)])
qed

text \<open>The cluster loop, from a position that starts a cluster or is the start of the read.\<close>

lemma div_u32:
  "unat p < 2 ^ 32 \<Longrightarrow> 0 < unat cs \<Longrightarrow>
     unat (ucast (file_block p div ucast cs) :: u32) = unat p div block_size div unat cs
   \<and> unat (ucast (file_block p mod ucast cs) :: u32) = unat p div block_size mod unat cs"
  for p :: u64 and cs :: u32
proof -
  assume p: "unat p < 2 ^ 32" and cs: "0 < unat cs"
  have "unat cs < 2 ^ 64" by (rule less_trans [OF unat_u32_less]) simp
  then have c: "unat (ucast cs :: u64) = unat cs"
    by (simp only: unsigned_ucast_eq) (simp add: take_bit_nat_eq_self)
  have b: "unat (file_block p) = unat p div block_size"
    by (simp add: file_block_def unat_div block_size_def)
  have d: "unat (file_block p div ucast cs) = unat p div block_size div unat cs"
    "unat (file_block p mod ucast cs) = unat p div block_size mod unat cs"
    by (simp_all only: unat_div unat_mod b c)
  have "unat p div block_size div unat cs \<le> unat p" "unat p div block_size mod unat cs \<le> unat p"
    by (metis div_le_dividend order_trans) (metis div_le_dividend mod_less_eq_dividend order_trans)
  with p d show ?thesis
    by (simp add: unsigned_ucast_eq take_bit_nat_eq_self order_le_less_trans)
qed

lemma read_clusters_content:
  assumes n: "n < 2 ^ 31" and sz: "unat (i_size inode) < 2 ^ 32"
    and m: "m = min n (unat (i_size inode) - unat off)" "unat off < unat (i_size inode)"
    and first: "first = ucast (i_no inode)"
    and K: "unat off + m \<le> (K + 1) * cs * block_size" and cs: "0 < cs"
  shows "fat_ready hw content P f s \<Longrightarrow> cs = unat (cluster_size f) \<Longrightarrow> file_ok content f first K \<Longrightarrow>
    g \<le> m \<Longrightarrow> g = m \<or> ((unat off + g) div block_size div cs = 0 \<longrightarrow> c = first) \<Longrightarrow>
    \<exists>f' s'. read_clusters hw inode off n c (map (file_byte content f first) [unat off..<unat off + g]) f s
        = Some (int m, map (file_byte content f first) [unat off..<unat off + m], f', s')
      \<and> geometry f' = geometry f \<and> fat_ready hw content P f' s'"
proof (induction "m - g" arbitrary: g f s c rule: less_induct)
  case less
  let ?got = "\<lambda>f g. map (file_byte content f first) [unat off..<unat off + g]"
  have g: "g \<le> m" by (rule less.prems(4))
  have mn: "m \<le> n" "m \<le> unat (i_size inode) - unat off" using m(1) by simp_all
  have bound: "unat off + g \<le> unat (i_size inode)" using g mn(2) m(2) by linarith
  have ug: "unat (of_nat g :: u64) = g" using bound sz by (intro unat_of_nat_small) simp
  have up: "unat (off + of_nat g) = unat off + g" using bound sz ug by (subst unat_add_small) simp_all
  show ?case
  proof (cases "g = m")
    case True
    have "g \<ge> n \<or> off + of_nat g \<ge> i_size inode"
      using True m(1) m(2) up by (auto simp: word_le_nat_alt min_def split: if_splits)
    then have "read_clusters hw inode off n c (?got f g) f s = Some (ssize g, ?got f g, f, s)"
      by (subst read_clusters.simps) auto
    moreover have "ssize g = int m" using True mn n by simp
    ultimately show ?thesis using True less.prems(1) by auto
  next
    case False
    with g have lt: "g < m" by simp
    define k where "k = (unat off + g) div block_size div cs"
    define b where "b = (unat off + g) div block_size mod cs"
    have csf: "unat (cluster_size f) = cs" "cluster_size f \<noteq> 0" using less.prems(2) cs by auto
    have lo: "\<not> g \<ge> n" "\<not> off + of_nat g \<ge> i_size inode"
      using lt mn m(2) up by (auto simp: word_le_nat_alt)
    have p32: "unat (off + of_nat g) < 2 ^ 32" using up bound sz by simp
    have fc: "unat (ucast (file_block (off + of_nat g) div ucast (cluster_size f)) :: u32) = k"
      "unat (ucast (file_block (off + of_nat g) mod ucast (cluster_size f)) :: u32) = b"
      using div_u32 [OF p32, of "cluster_size f"] cs csf(1) up by (simp_all add: k_def b_def)
    have "unat off + g < (K + 1) * cs * block_size" using lt K by linarith
    then have kK: "k \<le> K" unfolding k_def
      by (metis Suc_eq_plus1 div_mult2_eq less_Suc_eq_le less_mult_imp_div_less mult.assoc mult.commute)
    have ok: "chain_ok content f first k" "\<not> is_eoc (cluster_at content f first k)"
      using less.prems(3) kK by (auto simp: file_ok_def chain_ok_def)
    have "(k + 1) * cs \<le> (K + 1) * cs" using kK by (intro mult_le_mono1) simp
    then have rd: "\<forall>blk < (k + 1) * cs. readable f content (file_lba content f first blk)"
      using less.prems(3) csf(1) unfolding file_ok_def by (meson less_le_trans)
    have "\<exists>f1 s1. (if (ucast (file_block (off + of_nat g) div ucast (cluster_size f)) :: u32) \<noteq> 0
          then get_next_cluster_n hw f (ucast (i_no inode)) (ucast (file_block (off + of_nat g) div ucast (cluster_size f))) s
          else Some (ERR_success, c, f, s)) = Some (ERR_success, cluster_at content f first k, f1, s1)
        \<and> geometry f1 = geometry f \<and> fat_ready hw content P f1 s1"
    proof (cases "k = 0")
      case True
      then have "(ucast (file_block (off + of_nat g) div ucast (cluster_size f)) :: u32) = 0"
        using fc(1) by (simp add: unat_eq_zero)
      moreover have "c = first" using less.prems(5) lt True by (simp add: k_def)
      ultimately show ?thesis using less.prems(1) True by simp
    next
      case False
      then have "(ucast (file_block (off + of_nat g) div ucast (cluster_size f)) :: u32) \<noteq> 0"
        using fc(1) by auto
      with next_cluster_follows [OF less.prems(1) ok(1)] fc(1) first show ?thesis
        by (simp add: get_next_cluster_n_def)
    qed
    then obtain f1 s1 where nx: "(if (ucast (file_block (off + of_nat g) div ucast (cluster_size f)) :: u32) \<noteq> 0
          then get_next_cluster_n hw f (ucast (i_no inode)) (ucast (file_block (off + of_nat g) div ucast (cluster_size f))) s
          else Some (ERR_success, c, f, s)) = Some (ERR_success, cluster_at content f first k, f1, s1)"
        "geometry f1 = geometry f" "fat_ready hw content P f1 s1" by blast
    have "in_cluster cs k b (unat off + g)" "b \<le> cs"
      using cs by (simp_all add: in_cluster_def b_def k_def less_imp_le)
    note rb = file_blocks_content [OF n sz m(1) less_imp_le [OF m(2)] nx(3), where cs = cs and K = k and first = first and g = g and b = b]
    have "\<exists>f2 s2 g'. file_blocks hw inode off n (cluster_at content f1 first k) b (?got f1 g) f1 s1
        = Some (None, ?got f1 g', f2, s2) \<and> geometry f2 = geometry f1 \<and> fat_ready hw content P f2 s2
        \<and> g \<le> g' \<and> g' \<le> m \<and> (g' = m \<or> unat off + g' = (k + 1) * cs * block_size)"
      using rb csf(1) rd g \<open>in_cluster cs k b (unat off + g)\<close> \<open>b \<le> cs\<close>
      by (simp add: file_geometry [OF nx(2)])
    then obtain f2 s2 g' where r: "file_blocks hw inode off n (cluster_at content f first k) b (?got f g) f1 s1
        = Some (None, ?got f g', f2, s2)" "geometry f2 = geometry f" "fat_ready hw content P f2 s2"
        "g' \<le> m" "g' = m \<or> unat off + g' = (k + 1) * cs * block_size"
      unfolding file_geometry [OF nx(2)] cluster_at_geometry [OF nx(2)] using nx(2) by auto
    have "(unat off + g) div block_size < (k + 1) * cs"
      using cs unfolding k_def by (metis Suc_eq_plus1 dividend_less_times_div mult.commute mult_Suc_right plus_1_eq_Suc)
    then have "unat off + g < (k + 1) * cs * block_size"
      by (simp add: block_size_def div_less_iff_less_mult)
    then have gg: "g < g'" using r(5) lt by auto
    have step: "read_clusters hw inode off n c (?got f g) f s
        = read_clusters hw inode off n (cluster_at content f first k) (?got f g') f2 s2"
      using lo csf(2) nx(1) ok(2) r(1) fc(2) file_geometry(4) [OF nx(2)]
      by (subst read_clusters.simps) (simp add: ERR_success_def)
    have "g' = m \<or> ((unat off + g') div block_size div cs = 0 \<longrightarrow> cluster_at content f first k = first)"
      using r(5) cs by (auto simp: block_size_def)
    moreover have "m - g' < m - g" using gg lt by simp
    moreover have "cs = unat (cluster_size f2)" "file_ok content f2 first K"
      using less.prems(2,3) file_geometry [OF r(2)] cluster_at_geometry [OF r(2)] r(2)
      by (simp_all add: file_ok_def chain_ok_def geometry_def)
    ultimately show ?thesis
      using less.hyps [of g' f2 s2 "cluster_at content f first k"] r(2-4) step
      by (auto simp: file_geometry [OF r(2)])
  qed
qed

section \<open>Properties\<close>

text \<open>
  C14: the block cache is transparent. On a device that serves its blocks, getting a data block or a
  block of the allocation table succeeds, gives the content of that block whatever was cached
  before, and leaves both caches coherent and the geometry of the file system unchanged.
\<close>

theorem cache_transparent:
  assumes "fat_ready hw content P f s"
    and "readable f content (data_lba f + bi)" "readable f content (fat_lba f + bj)"
  shows "(\<exists>k f' s'. get_data_block hw f bi s = Some (ERR_success, k, f', s')
        \<and> ce_data (cache_entries (data_cache f') ! k) = content (data_lba f + bi)
        \<and> geometry f' = geometry f \<and> fat_ready hw content P f' s')
   \<and> (\<exists>k f' s'. get_fat_block hw f bj s = Some (ERR_success, k, f', s')
        \<and> ce_data (cache_entries (fat_cache f') ! k) = content (fat_lba f + bj)
        \<and> geometry f' = geometry f \<and> fat_ready hw content P f' s')"
  using get_data_block_content [OF assms(1,2)] get_fat_block_content [OF assms(1,3)] by metis

lemma fat_read_content:
  assumes "fat_ready hw content P f s" "cluster_size f \<noteq> 0"
    and "n < 2 ^ 31" "unat (i_size inode) < 2 ^ 32" "unat off < unat (i_size inode)"
    and "m = min n (unat (i_size inode) - unat off)"
    and "file_ok content f (ucast (i_no inode)) K"
    and "unat off + m \<le> (K + 1) * unat (cluster_size f) * block_size"
  shows "\<exists>f' s'. fat_read hw f inode off n s
      = Some (int m, map (file_byte content f (ucast (i_no inode))) [unat off..<unat off + m], f', s')
    \<and> geometry f' = geometry f \<and> fat_ready hw content P f' s'"
proof -
  have cs: "0 < unat (cluster_size f)" using assms(2) by (simp add: unat_gt_0)
  have "\<not> off \<ge> i_size inode" using assms(5) by (simp add: word_le_nat_alt)
  then have "fat_read hw f inode off n s = read_clusters hw inode off n (ucast (i_no inode))
      (map (file_byte content f (ucast (i_no inode))) [unat off..<unat off + 0]) f s"
    by (simp add: fat_read_def)
  with read_clusters_content [OF assms(3,4,6,5) refl assms(8) cs assms(1) refl assms(7), of 0 "ucast (i_no inode)"]
  show ?thesis by simp
qed

lemma file_ok_geometry: "geometry f' = geometry f \<Longrightarrow> file_ok content f' first K = file_ok content f first K"
  using file_geometry [of f' f] cluster_at_geometry [of f' f content]
  by (simp add: file_ok_def chain_ok_def geometry_def)

text \<open>
  C15: reading a file. If the clusters that hold the bytes asked for are in the chain of the file
  and on the device, \<open>read\<close> returns as many bytes as are asked for and left in the file, and they are
  the bytes of the file from the offset on; it ends, and the caches stay coherent.
\<close>

theorem fat_read_correct:
  assumes "fat_ready hw content P f s" "cluster_size f \<noteq> 0"
    and "n < 2 ^ 31" "unat (i_size inode) < 2 ^ 32" "unat off < unat (i_size inode)"
    and "m = min n (unat (i_size inode) - unat off)"
    and "file_ok content f (ucast (i_no inode)) K"
    and "unat off + m \<le> (K + 1) * unat (cluster_size f) * block_size"
  shows "\<exists>f' s'. fat_read hw f inode off n s
      = Some (int m, map (file_byte content f (ucast (i_no inode))) [unat off..<unat off + m], f', s')
    \<and> geometry f' = geometry f \<and> fat_ready hw content P f' s'"
  by (rule fat_read_content [OF assms])

text \<open>A small file system on a memory device, for the witnesses: eight blocks, one per cluster.\<close>

definition ram_fs :: fat32 where
  "ram_fs = \<lparr>fat_name = ''ram'', fat_dev = Dev_memory \<lparr>r_start = 0, r_size = 4096\<rparr>,
     fat_cache = empty_cache, data_cache = empty_cache, block_count = 8, cluster_size = 1, fat_lba = 1,
     fat_size = 1, data_lba = 2, root_cluster = 2, cluster_count = 0\<rparr>"

definition ram_content :: "u32 \<Rightarrow> u8 list" where
  "ram_content lba = mem_bytes (io_mem no_io) (lba * 512) block_size"

definition ram_inode :: inode where
  "ram_inode = blank_inode\<lparr>i_no := 2, i_size := 5\<rparr>"

lemma ram_serves: "serves no_hw ram_fs ram_content (\<lambda>s. io_mem s = io_mem no_io)"
  unfolding serves_def
proof (intro allI impI conjI)
  fix s :: "unit io" and lba :: u32
  assume a: "io_mem s = io_mem no_io \<and> lba < block_count ram_fs"
  then have l: "unat lba < 8" by (simp add: ram_fs_def word_less_nat_alt)
  show "length (ram_content lba) = block_size" by (simp add: ram_content_def mem_bytes_def)
  have p: "unat (lba * 512) = unat lba * 512" using l by (simp add: unat_word_ariths)
  have "unat (block_offset lba) = unat lba * 512"
    using l p by (simp add: block_offset_def block_size_def unsigned_ucast_eq take_bit_nat_eq_self)
  then have o: "block_offset lba < 4096" using l by (simp add: word_less_nat_alt)
  have u: "ucast (block_offset lba) = lba * 512"
    by (simp add: block_offset_def block_size_def bit_eq_iff bit_unsigned_iff)
  have "unat (4096 - lba * 512) = 4096 - unat lba * 512"
    using l p by (subst unat_sub) (simp_all add: word_le_nat_alt)
  then have m: "min block_size (unat (4096 - lba * 512)) = block_size"
    using l by (simp add: block_size_def min_def)
  have "dev_read no_hw (fat_dev ram_fs) (block_offset lba) block_size s = Some (int block_size, ram_content lba, s)"
    using a o u m by (simp add: ram_fs_def memory_read_def ram_content_def block_size_def not_le)
  with a show "\<exists>s'. dev_read no_hw (fat_dev ram_fs) (block_offset lba) block_size s
      = Some (int block_size, ram_content lba, s') \<and> io_mem s' = io_mem no_io" by blast
qed

lemma ram_ready: "fat_ready no_hw ram_content (\<lambda>s. io_mem s = io_mem no_io) ram_fs no_io"
  using ram_serves by (simp add: fat_ready_def ram_fs_def coherent_def empty_cache_def cache_size_def)

lemma ram_file: "file_ok ram_content ram_fs 2 0"
  by (simp add: file_ok_def chain_ok_def is_eoc_def readable_def file_lba_def cluster_block_def
      ram_fs_def no_lba_def)

theorem cache_transparent_witness:
  "\<exists>k f' s'. get_data_block no_hw ram_fs 3 no_io = Some (ERR_success, k, f', s')
     \<and> ce_data (cache_entries (data_cache f') ! k) = ram_content 5"
proof -
  have "readable ram_fs ram_content (data_lba ram_fs + 3)" "readable ram_fs ram_content (fat_lba ram_fs + 0)"
    by (simp_all add: readable_def ram_fs_def no_lba_def)
  from cache_transparent [OF ram_ready this] show ?thesis by (auto simp: ram_fs_def)
qed

theorem fat_read_correct_witness:
  "\<exists>f' s'. fat_read no_hw ram_fs ram_inode 1 3 no_io = Some (3, [1, 2, 3], f', s')"
proof -
  have "\<exists>f' s'. fat_read no_hw ram_fs ram_inode 1 3 no_io
      = Some (int 3, map (file_byte ram_content ram_fs (ucast (i_no ram_inode))) [unat (1 :: u64)..<unat (1 :: u64) + 3], f', s')
    \<and> geometry f' = geometry ram_fs \<and> fat_ready no_hw ram_content (\<lambda>s. io_mem s = io_mem no_io) f' s'"
    using ram_file
    by (intro fat_read_correct [OF ram_ready, where K = 0])
      (simp_all add: ram_fs_def ram_inode_def blank_inode_def block_size_def)
  moreover have "[unat (1 :: u64)..<unat (1 :: u64) + 3] = [1, 2, 3]" by (simp add: upt_conv_Cons)
  moreover have "file_byte ram_content ram_fs (ucast (i_no ram_inode)) 1 = 1"
    "file_byte ram_content ram_fs (ucast (i_no ram_inode)) 2 = 2"
    "file_byte ram_content ram_fs (ucast (i_no ram_inode)) 3 = 3"
    by (simp_all add: file_byte_def file_lba_def cluster_block_def ram_fs_def ram_inode_def
        ram_content_def mem_bytes_def no_io_def block_size_def)
  ultimately show ?thesis by auto
qed

end
