(* ===== verification/FatMount.thy ===== *)
theory FatMount
  imports Fat32Read
begin

text \<open>
  What the checks of \<open>Fat32::try_mount\<close> establish, what they let through, and where 32-bit products
  go wrong on disks of more than 4 GiB.
\<close>

lemma cluster_block_inside:
  assumes "unat (data_lba f) < unat (block_count f)" "2 \<le> unat c" "b < unat (cluster_size f)"
    and "unat c < (unat (block_count f) - unat (data_lba f)) div unat (cluster_size f) + 2"
  shows "unat (data_lba f + cluster_block f c (of_nat b)) = unat (data_lba f) + (unat c - 2) * unat (cluster_size f) + b"
    and "unat (data_lba f) + (unat c - 2) * unat (cluster_size f) + b < unat (block_count f)"
proof -
  let ?cs = "unat (cluster_size f)" and ?n = "unat (block_count f) - unat (data_lba f)"
  have "unat c - 2 < ?n div ?cs" using assms(2,4) by linarith
  then have "Suc (unat c - 2) * ?cs \<le> ?n div ?cs * ?cs" by (intro mult_le_mono1) simp
  also have "\<dots> \<le> ?n" by (rule div_mult_le)
  finally have le: "(unat c - 2) * ?cs + ?cs \<le> ?n" by simp
  then show in_range: "unat (data_lba f) + (unat c - 2) * ?cs + b < unat (block_count f)"
    using assms(1,3) by linarith
  then have small: "unat (data_lba f) + (unat c - 2) * ?cs + b < 2 ^ 32"
    by (rule less_trans) (use unsigned_less [of "block_count f"] in simp)
  have c: "unat (c - 2) = unat c - 2" using assms(2) by (subst unat_sub) (simp_all add: word_le_nat_alt)
  have p: "unat ((c - 2) * cluster_size f) = (unat c - 2) * ?cs"
    using small by (simp add: unat_word_ariths c)
  have b: "unat (of_nat b :: u32) = b" using small by (intro unat_of_nat_small) simp
  have q: "unat ((c - 2) * cluster_size f + of_nat b) = (unat c - 2) * ?cs + b"
    using small by (subst unat_add_small) (simp_all add: p b)
  show "unat (data_lba f + cluster_block f c (of_nat b)) = unat (data_lba f) + (unat c - 2) * ?cs + b"
    unfolding cluster_block_def using small by (subst unat_add_small) (simp_all add: q)
qed

text \<open>The number of whole clusters between the start of the data area and the end.\<close>

definition data_clusters :: "fat32 \<Rightarrow> nat" where
  "data_clusters f = (unat (block_count f) - unat (data_lba f)) div unat (cluster_size f)"

text \<open>
  C16: the geometry of a file system whose boot record passes the checks. It has as many blocks as
  the boot record says, at most those of its device. The first table starts behind the boot
  record, a table is not larger than the file system, and the data area starts inside the file
  system, at the end of the last table computed in 32 bits: when that sum does not wrap, every
  block of every copy of the table lies before the data area. The root directory's cluster is not
  0 and below the number of clusters. The block \<open>b\<close> of a cluster \<open>c\<close>, from 2 up to the number
  of clusters plus one, is the block \<open>(c - 2) * cluster_size + b\<close> behind the start of the data
  area, so clusters do not overlap, and it is a block of the file system: reading it cannot fail
  with the bounds check.
\<close>

theorem mounted_geometry:
  assumes "check_boot_record dev name br = Some f"
  shows "fat_dev f = dev \<and> block_count f = br_block_count br
    \<and> int (unat (block_count f)) \<le> device_blocks dev
    \<and> 1 \<le> unat (fat_lba f) \<and> unat (fat_lba f) = unat (br_reserved_blocks br)
    \<and> fat_size f = br_fat_size br \<and> fat_size f \<le> block_count f
    \<and> 1 \<le> unat (cluster_size f) \<and> unat (cluster_size f) = unat (br_cluster_size br)
    \<and> unat (data_lba f) = (unat (fat_lba f) + unat (br_fat_count br) * unat (fat_size f)) mod 2 ^ 32
    \<and> data_lba f < block_count f
    \<and> (unat (fat_lba f) + unat (br_fat_count br) * unat (fat_size f) < 2 ^ 32 \<longrightarrow>
        (\<forall>k b. k < unat (br_fat_count br) \<and> b < unat (fat_size f) \<longrightarrow>
          unat (fat_lba f) + k * unat (fat_size f) + b < unat (data_lba f)))
    \<and> root_cluster f = br_root_cluster br \<and> 1 \<le> unat (root_cluster f)
    \<and> unat (root_cluster f) < data_clusters f
    \<and> (\<forall>c b. 2 \<le> unat c \<and> unat c < data_clusters f + 2 \<and> b < unat (cluster_size f) \<longrightarrow>
        unat (data_lba f + cluster_block f c (of_nat b))
          = unat (data_lba f) + (unat c - 2) * unat (cluster_size f) + b
        \<and> data_lba f + cluster_block f c (of_nat b) < block_count f)"
proof -
  have g: "fat_dev f = dev" "block_count f = br_block_count br"
    "int (unat (block_count f)) \<le> device_blocks dev" "fat_lba f = ucast (br_reserved_blocks br)"
    "br_reserved_blocks br \<noteq> 0" "fat_size f = br_fat_size br" "fat_size f \<le> block_count f"
    "cluster_size f = ucast (br_cluster_size br)" "br_cluster_size br \<noteq> 0"
    "data_lba f = fat_lba f + fat_size f * ucast (br_fat_count br)" "data_lba f < block_count f"
    "root_cluster f = br_root_cluster br" "root_cluster f \<noteq> 0"
    "root_cluster f < (block_count f - data_lba f) div cluster_size f"
    using assms by (auto simp: check_boot_record_def Let_def not_le not_less split: if_splits)
  have u: "unat (fat_lba f) = unat (br_reserved_blocks br)"
    "unat (cluster_size f) = unat (br_cluster_size br)"
    "unat (ucast (br_fat_count br) :: u32) = unat (br_fat_count br)"
    unfolding g(4,8) by (simp_all add: unsigned_ucast_eq take_bit_nat_eq_self less_trans [OF unsigned_less])
  have pos: "1 \<le> unat (fat_lba f)" "1 \<le> unat (cluster_size f)" "1 \<le> unat (root_cluster f)"
    unfolding u using g(5,9,13) by (simp_all add: Suc_le_eq unat_gt_0)
  have dl: "unat (data_lba f) = (unat (fat_lba f) + unat (br_fat_count br) * unat (fat_size f)) mod 2 ^ 32"
    unfolding g(10) by (simp add: unat_word_ariths u mult.commute mod_add_right_eq)
  have before: "unat (fat_lba f) + k * unat (fat_size f) + b < unat (data_lba f)"
    if "unat (fat_lba f) + unat (br_fat_count br) * unat (fat_size f) < 2 ^ 32"
      "k < unat (br_fat_count br)" "b < unat (fat_size f)" for k b
  proof -
    have "Suc k * unat (fat_size f) \<le> unat (br_fat_count br) * unat (fat_size f)"
      using that(2) by (intro mult_le_mono1) simp
    with that(1,3) show ?thesis unfolding dl by simp
  qed
  have rc: "unat (root_cluster f) < data_clusters f"
    using g(11,14) by (simp add: data_clusters_def word_less_nat_alt unat_div unat_sub less_imp_le)
  have "unat (data_lba f) < unat (block_count f)" using g(11) by (simp add: word_less_nat_alt)
  from cluster_block_inside [OF this, folded data_clusters_def]
  have inside: "unat (data_lba f + cluster_block f c (of_nat b))
        = unat (data_lba f) + (unat c - 2) * unat (cluster_size f) + b
      \<and> data_lba f + cluster_block f c (of_nat b) < block_count f"
    if "2 \<le> unat c \<and> unat c < data_clusters f + 2 \<and> b < unat (cluster_size f)" for c b
    using that by (simp add: word_less_nat_alt)
  show ?thesis
    using g(1,2,3,6,7,11,12) u(1,2) pos dl before rc inside by blast
qed

definition sample_boot_record :: boot_record where
  "sample_boot_record = \<lparr>br_block_size = 512, br_cluster_size = 1, br_reserved_blocks = 1,
     br_fat_count = 1, br_root_dir_entry_count = 0, br_fat_size_short = 0, br_block_count = 8,
     br_fat_size = 1, br_root_cluster = 2, br_signature = 0xAA55\<rparr>"

theorem mounted_geometry_witness:
  "\<exists>f. check_boot_record (Dev_memory \<lparr>r_start = 0, r_size = 4096\<rparr>) ''ram'' sample_boot_record = Some f
     \<and> unat (data_lba f) = 2 \<and> unat (root_cluster f) < data_clusters f
     \<and> int (unat (block_count f)) \<le> device_blocks (Dev_memory \<lparr>r_start = 0, r_size = 4096\<rparr>)"
proof -
  obtain f where f: "check_boot_record (Dev_memory \<lparr>r_start = 0, r_size = 4096\<rparr>) ''ram'' sample_boot_record = Some f"
    by (simp add: check_boot_record_def sample_boot_record_def block_size_def device_blocks_def)
  from mounted_geometry [OF f] have "unat (data_lba f) = 2" by (simp add: sample_boot_record_def)
  with mounted_geometry [OF f] f show ?thesis by blast
qed

text \<open>
  Two boot records that the checks should refuse. With 128 tables of \<open>2 ^ 25\<close> blocks the 32-bit
  product is 0 and the data area is said to start right behind the boot record, inside the first
  table. And the root directory may be said to be in cluster 1, which does not exist: its first
  block comes out before the data area.
\<close>

definition big_device :: device where
  "big_device = Dev_ata 0 0 0x4000000"

lemma big_device_blocks: "device_blocks big_device = 0x4000000"
  by code_simp

lemma data_area_inside_table:
  "\<exists>f. check_boot_record big_device ''disk'' (sample_boot_record\<lparr>br_fat_count := 128,
       br_fat_size := 0x2000000, br_block_count := 0x4000000\<rparr>) = Some f
     \<and> data_lba f = fat_lba f"
  by (simp add: check_boot_record_def sample_boot_record_def block_size_def big_device_blocks)

lemma root_cluster_one_accepted:
  "\<exists>f. check_boot_record big_device ''disk'' (sample_boot_record\<lparr>br_root_cluster := 1\<rparr>) = Some f
     \<and> data_lba f + cluster_block f (root_cluster f) 0 < data_lba f"
  by (simp add: check_boot_record_def sample_boot_record_def block_size_def big_device_blocks
    cluster_block_def word_le_nat_alt word_less_nat_alt)

text \<open>
  block numbers above 4 GiB wrap around. The byte offset of a block is computed in 32 bits, so
  block \<open>lba + 2^23\<close> is read from (and written to) the place of block \<open>lba\<close>, although both pass the
  bounds check.
\<close>

theorem block_offset_wraps:
  assumes "lba < block_count f" "lba + 0x800000 < block_count f"
  shows "read_block hw f (lba + 0x800000) s = read_block hw f lba s
    \<and> write_block hw f (lba + 0x800000) buf s = write_block hw f lba buf s"
proof -
  have "(lba + 0x800000) * 512 = lba * 512" by (simp add: distrib_right)
  then have "block_offset (lba + 0x800000) = block_offset lba"
    unfolding block_offset_def block_size_def of_nat_numeral by (rule arg_cong)
  then show ?thesis using assms by (simp add: read_block_def write_block_def)
qed

theorem block_offset_wraps_witness:
  "read_block no_hw (ram_fs\<lparr>block_count := 0x1000000\<rparr>) 0x800003 no_io
     = read_block no_hw (ram_fs\<lparr>block_count := 0x1000000\<rparr>) 3 no_io"
  using block_offset_wraps [of 3 "ram_fs\<lparr>block_count := 0x1000000\<rparr>" no_hw no_io "[]"] by simp

end
