(* ===== verification/OsFormat.thy ===== *)
theory OsFormat
  imports OsString
begin

text \<open>
  Formatted printing (os-std/fmt.hh). The callback that receives the output is modelled by
  the list of characters it is given; every formatter returns that list together with the
  count it reports to its caller.
\<close>

section \<open>Formatters\<close>

text \<open>\<open>Flags\<close>; \<open>radix\<close> and \<open>scale\<close> share one byte in the code, so they are one field.\<close>

record flags =
  fl_width :: int
  fl_radix :: u8
  explicit_sign :: bool
  unsign :: bool
  prefix_radix :: bool
  align_left :: bool
  prefix_zero :: bool
  fl_repeat :: bool
  size_unit :: bool

definition default_flags :: flags where
  "default_flags = \<lparr>fl_width = 0, fl_radix = 10, explicit_sign = False, unsign = False,
     prefix_radix = False, align_left = False, prefix_zero = False, fl_repeat = False, size_unit = False\<rparr>"

definition padding :: "char \<Rightarrow> int \<Rightarrow> string" where
  "padding c n = replicate (nat n) c"

definition format_text :: "flags \<Rightarrow> string \<Rightarrow> string \<times> int" where
  "format_text f s =
     (let pad = (if fl_width f \<noteq> 0 then fl_width f - int (length s) else 0);
          before = (if \<not> align_left f \<and> pad > 0 then padding CHR '' '' pad else []);
          after = (if align_left f \<and> pad > 0 then padding CHR '' '' pad else []) in
      (before @ s @ after, int (length before) + int (length s) + int (length after)))"

definition format_bool :: "flags \<Rightarrow> bool \<Rightarrow> string \<times> int" where
  "format_bool f b = format_text f (if b then ''true'' else ''false'')"

definition fmtdigit :: "nat \<Rightarrow> char" where
  "fmtdigit m = (if m < 10 then char_of (m + 48) else char_of (m - 10 + 97))"

text \<open>
  The digit loop fills \<open>buf\<close> (\<open>2 * 64 + 3\<close> characters) from the front, least significant
  digit first. A radix of 0 divides by zero and a radix of 1 runs past the buffer.
\<close>

definition buf_size :: nat where "buf_size = 2 * 64 + 3"

function digit_loop :: "u64 \<Rightarrow> u64 \<Rightarrow> string \<Rightarrow> string kern" where
  "digit_loop radix n buf =
     (if n = 0 then Some buf
      else if radix = 0 \<or> buf_size \<le> length buf then None
      else digit_loop radix (n div radix) (buf @ [fmtdigit (unat (n mod radix))]))"
  by pat_completeness auto
termination by (relation "measure (\<lambda>(radix, n, buf). buf_size - length buf)") auto

declare digit_loop.simps [simp del]

definition radix_prefix :: "u8 \<Rightarrow> string" where
  "radix_prefix r = [CHR ''0'', if r = 10 then CHR ''d'' else if r = 16 then CHR ''x''
     else if r = 8 then CHR ''o'' else if r = 2 then CHR ''b'' else CHR ''?'']"

definition size_char :: "nat \<Rightarrow> char" where
  "size_char scale = (if scale = 1 then CHR ''K'' else if scale = 2 then CHR ''M''
     else if scale = 3 then CHR ''G'' else if scale = 4 then CHR ''T''
     else if scale = 5 then CHR ''P'' else if scale = 6 then CHR ''E'' else CHR ''B'')"

definition size_scale :: "flags \<Rightarrow> u64 \<Rightarrow> nat kern" where
  "size_scale f n = (if fl_radix f = 0 then do { k \<leftarrow> logn 1024 (unat n); Some (min k 6) }
     else Some (unat (fl_radix f)))"

definition format_u64 :: "flags \<Rightarrow> u64 \<Rightarrow> bool \<Rightarrow> (string \<times> int) kern" where
  "format_u64 f n sign = do {
     scale \<leftarrow> (if size_unit f then size_scale f n else Some (unat (fl_radix f)));
     let radix = (if size_unit f then 10 else fl_radix f);
     n \<leftarrow> (if size_unit f
           then let d = pow (1024 :: u64) (of_nat scale) in
                if d = 0 then None else Some (of_nat (div_round (unat n) (unat d)))
           else Some n);
     let prefix_len = (if size_unit f then 2 else 0)
                    + (if sign \<or> explicit_sign f then 1 else 0)
                    + (if prefix_radix f then 2 else 0);
     buf \<leftarrow> (if n \<noteq> 0 then digit_loop (ucast radix) n [] else Some [CHR ''0'']);
     let count = int (length buf);
     let pad = (if fl_width f \<noteq> 0 then fl_width f - count else 0);
     let count = count + prefix_len;
     let out = (if pad > 0 \<and> \<not> align_left f \<and> \<not> prefix_zero f then padding CHR '' '' pad else []);
     let out = out @ (if sign \<or> explicit_sign f then [if sign then CHR ''-'' else CHR ''+''] else []);
     let out = out @ (if prefix_radix f then radix_prefix radix else []);
     let count = count + (if prefix_radix f then 2 else 0);
     let out = out @ (if pad > 0 \<and> \<not> align_left f \<and> prefix_zero f then padding CHR ''0'' pad else []);
     let out = out @ rev buf;
     let out = out @ (if size_unit f then [CHR '' '', size_char scale] else []);
     let out = out @ (if pad > 0 \<and> align_left f then padding CHR '' '' pad else []);
     Some (out, count + pad)
   }"

definition format_s64 :: "flags \<Rightarrow> u64 \<Rightarrow> (string \<times> int) kern" where
  "format_s64 f n = (if 0 \<le> sint n then format_u64 f n False else format_u64 f (- n) (\<not> unsign f))"

definition format_char :: "flags \<Rightarrow> char \<Rightarrow> (string \<times> int) kern" where
  "format_char f c =
     (if unsign f \<or> fl_radix f \<noteq> 10 then format_u64 f (of_nat (of_char c)) False
      else if fl_repeat f then Some (padding c (fl_width f), fl_width f)
      else let pad = (if fl_width f \<noteq> 0 then fl_width f - 1 else 0) in
        Some ((if \<not> align_left f then padding CHR '' '' pad else []) @ [c]
              @ (if align_left f then padding CHR '' '' pad else []), 1 + pad))"

definition format_ptr :: "flags \<Rightarrow> u32 \<Rightarrow> (string \<times> int) kern" where
  "format_ptr f a =
     (let f = f\<lparr>fl_radix := 16, prefix_zero := True, unsign := True, fl_width := 8\<rparr>;
          f = (if prefix_radix f then f\<lparr>fl_width := fl_width f + 2\<rparr> else f) in
      format_u64 f (ucast a) False)"

section \<open>Format strings\<close>

record parse_result =
  pr_write :: nat
  pr_skip :: nat
  write_arg :: bool
  pr_flags :: flags

definition parse_flag :: "char \<Rightarrow> flags \<Rightarrow> flags" where
  "parse_flag c f =
     (if c = CHR ''0'' \<and> fl_width f = 0 then f\<lparr>prefix_zero := True\<rparr>
      else if c = CHR ''r'' \<and> fl_width f > 1
      then f\<lparr>fl_radix := of_int (fl_width f), fl_width := 0\<rparr>
      else if is_num c then f\<lparr>fl_width := fl_width f * 10 + int (digit_val c)\<rparr>
      else if c = CHR ''u'' then f\<lparr>unsign := True\<rparr>
      else if c = CHR ''x'' then f\<lparr>unsign := True, fl_radix := 16\<rparr>
      else if c = CHR ''o'' then f\<lparr>unsign := True, fl_radix := 8\<rparr>
      else if c = CHR ''b'' then f\<lparr>unsign := True, fl_radix := 2\<rparr>
      else if c = CHR ''S'' then f\<lparr>size_unit := True, fl_radix := 0\<rparr>
      else if c = CHR ''K'' then f\<lparr>size_unit := True, fl_radix := 1\<rparr>
      else if c = CHR ''M'' then f\<lparr>size_unit := True, fl_radix := 2\<rparr>
      else if c = CHR ''G'' then f\<lparr>size_unit := True, fl_radix := 3\<rparr>
      else if c = CHR ''T'' then f\<lparr>size_unit := True, fl_radix := 4\<rparr>
      else if c = CHR ''-'' then f\<lparr>align_left := True\<rparr>
      else if c = CHR ''+'' then f\<lparr>explicit_sign := True\<rparr>
      else if c = CHR ''#'' then f\<lparr>prefix_radix := True\<rparr>
      else if c = CHR ''~'' then f\<lparr>fl_repeat := True\<rparr>
      else f)"

fun parse_loop :: "bool \<Rightarrow> parse_result \<Rightarrow> string \<Rightarrow> parse_result" where
  "parse_loop in_brace res [] = res"
| "parse_loop in_brace res (c # s) =
     (if in_brace then
        let res = res\<lparr>pr_skip := pr_skip res + 1\<rparr> in
        if c = CHR ''}'' then res\<lparr>write_arg := True\<rparr>
        else if c = CHR ''{'' then res\<lparr>pr_write := pr_write res + 1, pr_skip := 1\<rparr>
        else parse_loop True (res\<lparr>pr_flags := parse_flag c (pr_flags res)\<rparr>) s
      else if c = CHR ''{'' then parse_loop True (res\<lparr>pr_skip := pr_skip res + 1\<rparr>) s
      else parse_loop False (res\<lparr>pr_write := pr_write res + 1\<rparr>) s)"

definition parse_one :: "string \<Rightarrow> parse_result" where
  "parse_one s = parse_loop False
     \<lparr>pr_write = 0, pr_skip = 0, write_arg = False, pr_flags = default_flags\<rparr> s"

text \<open>
  An argument is its formatter, a function of the flags. \<open>format_one\<close> returns the rest of the
  format string in place of the number of characters read.
\<close>

type_synonym fmt_arg = "flags \<Rightarrow> (string \<times> int) kern"

lemma parse_loop_progress:
  "s \<noteq> [] \<Longrightarrow> 0 < pr_write (parse_loop b res s) + pr_skip (parse_loop b res s)"
proof (induction b res s rule: parse_loop.induct)
  case (1 b res)
  then show ?case by simp
next
  case (2 b res c s)
  then show ?case by (cases "s = []") (auto simp: Let_def)
qed

lemma parse_one_progress: "s \<noteq> [] \<Longrightarrow> 0 < pr_write (parse_one s) + pr_skip (parse_one s)"
  unfolding parse_one_def by (rule parse_loop_progress)

function format_one :: "fmt_arg \<Rightarrow> string \<Rightarrow> (string \<times> string \<times> int) kern" where
  "format_one a s =
     (if s = [] then Some ([], [], 0)
      else let res = parse_one s;
               lit = take (pr_write res) s;
               s' = drop (pr_write res + pr_skip res) s in
        if write_arg res
        then (case a (pr_flags res) of
                None \<Rightarrow> None
              | Some (out, n) \<Rightarrow> Some (s', lit @ out, int (pr_write res) + n))
        else (case format_one a s' of
                None \<Rightarrow> None
              | Some (r, out, n) \<Rightarrow> Some (r, lit @ out, int (pr_write res) + n)))"
  by pat_completeness auto
termination
proof (relation "measure (\<lambda>(a, s). length s)", goal_cases)
  case 1
  then show ?case by simp
next
  case (2 a s)
  then show ?case using parse_one_progress [of s] by (cases s) auto
qed

declare format_one.simps [simp del]

fun run_format :: "fmt_arg list \<Rightarrow> string \<Rightarrow> (string \<times> int) kern" where
  "run_format [] s = Some (s, int (length s))"
| "run_format (a # as) s = do {
     (r, out, n) \<leftarrow> format_one a s;
     (out', n') \<leftarrow> run_format as r;
     Some (out @ out', n + n')
   }"

text \<open>
  \<open>fmt\<close> into a buffer of \<open>dest_size\<close> characters (\<open>StringPrinter\<close>): everything that does not fit
  is dropped, but the count says how much was printed. \<open>fmt\<close> into a \<open>String\<close> adds the count to
  its length.
\<close>

definition fmt_buffer :: "nat \<Rightarrow> fmt_arg list \<Rightarrow> string \<Rightarrow> (string \<times> int) kern" where
  "fmt_buffer dest_size as s = do {
     (out, n) \<leftarrow> run_format as s;
     if as = [] then Some (take (dest_size - 1) out, int (length (take (dest_size - 1) out)))
     else Some (take (dest_size - 1) out, n)
   }"

definition fmt_string_length :: "nat \<Rightarrow> string \<Rightarrow> fmt_arg list \<Rightarrow> string \<Rightarrow> int kern" where
  "fmt_string_length cap dest as s = do {
     (out, n) \<leftarrow> fmt_buffer (cap + 1 - length dest) as s;
     Some (int (length dest) + n)
   }"

text \<open>Arguments of the usual types.\<close>

definition text_arg :: "string \<Rightarrow> fmt_arg" where "text_arg s = (\<lambda>f. Some (format_text f s))"

definition nat_arg :: "nat \<Rightarrow> fmt_arg" where "nat_arg n = (\<lambda>f. format_u64 f (of_nat n) False)"

definition int_arg :: "int \<Rightarrow> fmt_arg" where "int_arg n = (\<lambda>f. format_s64 f (of_int n))"

definition ptr_arg :: "u32 \<Rightarrow> fmt_arg" where "ptr_arg a = (\<lambda>f. format_ptr f a)"

definition char_arg :: "char \<Rightarrow> fmt_arg" where "char_arg c = (\<lambda>f. format_char f c)"

section \<open>Digits\<close>

definition digits_value :: "nat \<Rightarrow> nat list \<Rightarrow> nat" where
  "digits_value r xs = foldr (\<lambda>d v. d + r * v) xs 0"

text \<open>
  Up to \<open>k\<close> digits are enough for a value below \<open>2 ^ k\<close> in any radix of at least 2, so the
  buffer of 131 characters always suffices.
\<close>

lemma digit_loop_digits:
  assumes "2 \<le> unat r" "unat n < 2 ^ k" "length buf + k \<le> buf_size"
  shows "\<exists>xs. digit_loop r n buf = Some (buf @ map fmtdigit xs) \<and> (n \<noteq> 0 \<longrightarrow> xs \<noteq> [])
    \<and> (\<forall>d \<in> set xs. d < unat r) \<and> digits_value (unat r) xs = unat n"
  using assms(2,3)
proof (induction k arbitrary: n buf)
  case 0
  then have "n = 0" by (simp add: unat_eq_zero)
  then show ?case
    by (intro exI [of _ "[]"]) (simp add: digit_loop.simps digits_value_def)
next
  case (Suc k)
  show ?case
  proof (cases "n = 0")
    case True
    then show ?thesis
      by (intro exI [of _ "[]"]) (simp add: digit_loop.simps digits_value_def)
  next
    case False
    have "unat n div unat r \<le> unat n div 2" using assms(1) by (simp add: div_le_mono2)
    also have "\<dots> < 2 ^ k" using Suc.prems(1) by (simp add: less_mult_imp_div_less)
    finally have lt: "unat (n div r) < 2 ^ k" by (simp add: unat_div)
    let ?d = "unat (n mod r)"
    have len: "length (buf @ [fmtdigit ?d]) + k \<le> buf_size" using Suc.prems(2) by simp
    from Suc.IH [OF lt len] obtain xs where
      xs: "digit_loop r (n div r) (buf @ [fmtdigit ?d]) = Some ((buf @ [fmtdigit ?d]) @ map fmtdigit xs)"
        "\<forall>d \<in> set xs. d < unat r" "digits_value (unat r) xs = unat (n div r)" by blast
    have r0: "r \<noteq> 0" using assms(1) by auto
    have nb: "\<not> buf_size \<le> length buf" using Suc.prems(2) by simp
    have step: "digit_loop r n buf = digit_loop r (n div r) (buf @ [fmtdigit ?d])"
      using False r0 nb by (simp add: digit_loop.simps [of r n buf])
    have "digit_loop r n buf = Some (buf @ map fmtdigit (?d # xs))"
      using step xs(1) by simp
    moreover have "\<forall>d \<in> set (?d # xs). d < unat r"
      using xs(2) assms(1) by (auto simp: unat_mod)
    moreover have "digits_value (unat r) (?d # xs) = unat n"
      using xs(3) by (simp add: digits_value_def unat_mod unat_div mult.commute)
    ultimately show ?thesis by blast
  qed
qed

lemma fmtdigit_num: "d < 10 \<Longrightarrow> is_num (fmtdigit d) \<and> digit_val (fmtdigit d) = d"
  by (simp add: fmtdigit_def is_num_iff digit_val_def)

lemma dec_value_digits:
  "\<forall>d \<in> set xs. d < 10 \<Longrightarrow> dec_value (rev (map fmtdigit xs)) = digits_value 10 xs"
  unfolding dec_value_def digits_value_def foldl_conv_foldr rev_rev_ident
  by (induction xs) (simp_all add: fmtdigit_num)

lemma decimal_digits:
  "n \<noteq> 0 \<Longrightarrow> \<exists>buf. digit_loop 10 n [] = Some buf \<and> buf \<noteq> [] \<and> (\<forall>c \<in> set buf. is_num c)
     \<and> dec_value (rev buf) = unat n"
proof -
  assume n: "n \<noteq> 0"
  have "unat n < 2 ^ 64" using unsigned_less [of n] by simp
  then obtain xs where xs: "digit_loop 10 n [] = Some ([] @ map fmtdigit xs)" "xs \<noteq> []"
      "\<forall>d \<in> set xs. d < unat (10 :: u64)" "digits_value (unat (10 :: u64)) xs = unat n"
    using digit_loop_digits [of 10 n 64 "[]"] n by (auto simp: buf_size_def)
  then have d: "\<forall>d \<in> set xs. d < 10" by simp
  have "\<forall>c \<in> set (map fmtdigit xs). is_num c" using d by (auto simp: fmtdigit_num)
  with xs d show ?thesis by (intro exI [of _ "map fmtdigit xs"]) (simp add: dec_value_digits)
qed

lemma format_u64_plain:
  "\<exists>s. format_u64 default_flags n False = Some (s, int (length s)) \<and> s \<noteq> []
     \<and> (\<forall>c \<in> set s. is_num c) \<and> dec_value s = unat n"
proof (cases "n = 0")
  case True
  then show ?thesis
    by (simp add: format_u64_def default_flags_def is_num_iff dec_value_def digit_val_def)
next
  case False
  from decimal_digits [OF this] obtain buf where
    "digit_loop 10 n [] = Some buf" "buf \<noteq> []" "\<forall>c \<in> set buf. is_num c" "dec_value (rev buf) = unat n"
    by blast
  with False show ?thesis by (simp add: format_u64_def default_flags_def)
qed

lemma format_u64_negative:
  "\<exists>s. format_u64 default_flags n True = Some (CHR ''-'' # s, int (length s) + 1) \<and> s \<noteq> []
     \<and> (\<forall>c \<in> set s. is_num c) \<and> dec_value s = unat n"
proof (cases "n = 0")
  case True
  then show ?thesis
    by (simp add: format_u64_def default_flags_def is_num_iff dec_value_def digit_val_def)
next
  case False
  from decimal_digits [OF this] obtain buf where
    "digit_loop 10 n [] = Some buf" "buf \<noteq> []" "\<forall>c \<in> set buf. is_num c" "dec_value (rev buf) = unat n"
    by blast
  with False show ?thesis by (simp add: format_u64_def default_flags_def)
qed

lemma sint_nonneg: "0 \<le> sint n \<Longrightarrow> sint n = int (unat n)" for n :: u64
proof -
  assume "0 \<le> sint n"
  moreover have "sint n < 2 ^ 64" using sint_lt [of n] by simp
  ultimately have "take_bit 64 (sint n) = sint n" by (simp add: take_bit_int_eq_self)
  then show ?thesis using uint_sint [of n] by simp
qed

lemma sint_neg: "sint n < 0 \<Longrightarrow> int (unat (- n)) = - sint n" for n :: u64
proof -
  assume neg: "sint n < 0"
  have lo: "- (2 ^ 63) \<le> sint n" using sint_ge [of n] by simp
  have "uint (- n) = uint (word_of_int (- sint n) :: u64)" by simp
  also have "\<dots> = take_bit 64 (- sint n)" by (simp only: uint_word_of_int_eq) simp
  also have "\<dots> = - sint n" using neg lo by (intro take_bit_int_eq_self) auto
  finally show ?thesis by simp
qed

lemma no_sign_if_num: "is_num c \<Longrightarrow> c \<noteq> CHR ''+'' \<and> c \<noteq> CHR ''-''"
  by (auto simp: is_num_iff)

section \<open>Properties\<close>

text \<open>
  C12: printing a number with the default flags and parsing the result gives the number back.
  For a signed number there is one exception: the least one, \<open>-2^63\<close>, is printed correctly but
  the parser rejects it, because it compares the digits with the largest positive value.
\<close>

theorem number_round_trip:
  "(\<exists>s. format_u64 default_flags n False = Some (s, int (length s)) \<and> string_to_u64 s = Some n)
   \<and> (\<exists>s. format_s64 default_flags n = Some (s, int (length s))
        \<and> string_to_signed (2 ^ 63 - 1) s = (if sint n = - (2 ^ 63) then None else Some (sint n)))"
proof (rule conjI)
  obtain s where s: "format_u64 default_flags n False = Some (s, int (length s))" "s \<noteq> []"
    "\<forall>c \<in> set s. is_num c" "dec_value s = unat n" using format_u64_plain by blast
  have p: "string_to_u64 s = Some n"
    using s(2-4) unsigned_less [of n] unfolding string_to_u64_correct by simp
  with s(1) show "\<exists>s. format_u64 default_flags n False = Some (s, int (length s))
    \<and> string_to_u64 s = Some n" by blast
  show "\<exists>s. format_s64 default_flags n = Some (s, int (length s))
        \<and> string_to_signed (2 ^ 63 - 1) s = (if sint n = - (2 ^ 63) then None else Some (sint n))"
  proof (cases "0 \<le> sint n")
    case True
    have hi: "sint n < 2 ^ 63" using sint_lt [of n] by simp
    note u = sint_nonneg [OF True]
    have "is_num (s ! 0)" using s(2,3) by (cases s) auto
    moreover have "unat n \<le> 2 ^ 63 - 1"
    proof -
      have "int (unat n) < 9223372036854775808" using u hi by simp
      then have "unat n < 9223372036854775808" by linarith
      then show ?thesis by simp
    qed
    ultimately have "string_to_signed (2 ^ 63 - 1) s = Some (sint n)"
      using s(2) p u no_sign_if_num [of "s ! 0"] by (simp add: string_to_signed_def)
    with s(1) True show ?thesis by (intro exI [of _ s]) (simp add: format_s64_def)
  next
    case False
    then have neg: "sint n < 0" by simp
    note u = sint_neg [OF neg]
    have lo: "- (2 ^ 63) \<le> sint n" using sint_ge [of n] by simp
    obtain t where t: "format_u64 default_flags (- n) True = Some (CHR ''-'' # t, int (length t) + 1)"
      "t \<noteq> []" "\<forall>c \<in> set t. is_num c" "dec_value t = unat (- n)" using format_u64_negative by blast
    have pt: "string_to_u64 t = Some (- n)"
      using t(2-4) unsigned_less [of "- n"] unfolding string_to_u64_correct by simp
    have u': "int (unat (- n)) \<le> 9223372036854775808" using u lo by simp
    have cmp: "9223372036854775807 < unat (- n) \<longleftrightarrow> sint n = - 9223372036854775808"
    proof -
      define k where "k = unat (- n)"
      have "sint n = - int k" "int k \<le> 9223372036854775808" using u u' by (simp_all only: k_def)
      then show ?thesis unfolding k_def [symmetric] by auto
    qed
    have "string_to_signed (2 ^ 63 - 1) (CHR ''-'' # t)
        = (if sint n = - (2 ^ 63) then None else Some (sint n))"
      using pt u cmp by (simp add: string_to_signed_def)
    with t(1) False show ?thesis
      by (intro exI [of _ "CHR ''-'' # t"]) (simp add: format_s64_def default_flags_def)
  qed
qed

text \<open>A concrete instance of the exception and of an ordinary negative number.\<close>

theorem number_round_trip_witness:
  "\<exists>s. format_s64 default_flags (- 42) = Some (s, int (length s)) \<and> string_to_signed (2 ^ 63 - 1) s = Some (- 42)"
  using number_round_trip [of "- 42"] by simp

lemma padding_length:
  "length (if pad > 0 \<and> \<not> l \<and> \<not> z then padding CHR '' '' pad else [])
   + length (if pad > 0 \<and> \<not> l \<and> z then padding CHR ''0'' pad else [])
   + length (if pad > 0 \<and> l then padding CHR '' '' pad else []) = nat pad"
  by (auto simp: padding_def)

lemma pad_excess: "a + p = a + int (nat p) - max 0 (- p)"
  by (simp add: max_def)

text \<open>
  the count that number formatting reports. It is the number of characters printed only if
  no radix prefix is asked for (which is counted twice) and the digits fit in the requested
  width (a negative padding is added to the count although nothing is taken back). Callers that
  add the count to the length of a \<open>String\<close> get a wrong length in the other cases.
\<close>

theorem format_count:
  assumes "n \<noteq> 0" "\<not> size_unit f" "digit_loop (ucast (fl_radix f)) n [] = Some buf"
  shows "\<exists>out. format_u64 f n sign = Some (out, int (length out)
      + (if prefix_radix f then 2 else 0)
      - (if fl_width f \<noteq> 0 then max 0 (int (length buf) - fl_width f) else 0))"
proof -
  define pad where "pad = (if fl_width f \<noteq> 0 then fl_width f - int (length buf) else 0)"
  define p1 where "p1 = (if pad > 0 \<and> \<not> align_left f \<and> \<not> prefix_zero f then padding CHR '' '' pad else [])"
  define p2 where "p2 = (if pad > 0 \<and> \<not> align_left f \<and> prefix_zero f then padding CHR ''0'' pad else [])"
  define p3 where "p3 = (if pad > 0 \<and> align_left f then padding CHR '' '' pad else [])"
  define sg where "sg = (if sign \<or> explicit_sign f then [if sign then CHR ''-'' else CHR ''+''] else [])"
  define rx where "rx = (if prefix_radix f then radix_prefix (fl_radix f) else [])"
  let ?out = "((((p1 @ sg) @ rx) @ p2) @ rev buf) @ p3"
  let ?cnt = "int (length buf) + ((if sign \<or> explicit_sign f then 1 else 0) + (if prefix_radix f then 2 else 0))
     + (if prefix_radix f then 2 else 0) + pad"
  have fmt: "format_u64 f n sign = Some (?out, ?cnt)"
    using assms unfolding format_u64_def Let_def pad_def p1_def p2_def p3_def sg_def rx_def by simp
  have len: "length p1 + length p2 + length p3 = nat pad"
    unfolding p1_def p2_def p3_def by (rule padding_length)
  have "int (length ?out) = int (nat pad) + int (length sg) + int (length rx) + int (length buf)"
    unfolding len [symmetric] by simp
  moreover have "int (length sg) = (if sign \<or> explicit_sign f then 1 else 0)" by (simp add: sg_def)
  moreover have "int (length rx) = (if prefix_radix f then 2 else 0)" by (simp add: rx_def radix_prefix_def)
  moreover have "(if fl_width f \<noteq> 0 then max 0 (int (length buf) - fl_width f) else 0) = max 0 (- pad)"
    by (simp add: pad_def)
  ultimately have "?cnt = int (length ?out) + (if prefix_radix f then 2 else 0)
      - (if fl_width f \<noteq> 0 then max 0 (int (length buf) - fl_width f) else 0)"
    using pad_excess [of 0 pad] by linarith
  with fmt show ?thesis by metis
qed

theorem format_count_witness:
  "\<exists>out. format_u64 (default_flags\<lparr>fl_width := 2\<rparr>) 123 False = Some (out, int (length out) - 1)"
  using format_count [of 123 "default_flags\<lparr>fl_width := 2\<rparr>" "''321''" False]
  by (simp add: default_flags_def digit_loop.simps buf_size_def fmtdigit_def char_of_def bit_0)

end
