(* ===== verification/Path.thy ===== *)
theory Path
  imports OsString
begin

text \<open>
  Paths (the path functions of filesystem/vfs.cc). A \<open>path_t\<close> holds 256 characters, a file name 64;
  what does not fit is dropped silently. The specification works on lists of components.
\<close>

section \<open>Operations\<close>

abbreviation slash :: char where "slash \<equiv> CHR ''/''"

text \<open>\<open>path += s\<close> and \<open>path += c\<close> on a \<open>path_t\<close>, and \<open>+= c\<close> on a \<open>file_name_t\<close>.\<close>

definition path_append :: "string \<Rightarrow> string \<Rightarrow> string" where
  "path_append path s = path @ assign_text (max_path_length - length path) s"

lemma path_append_view: "str_append max_path_length path (view_of s) = Some (path_append path s)"
  by (simp add: str_append_def view_of_def copy_chars_assign path_append_def)

definition name_append :: "string \<Rightarrow> char \<Rightarrow> string" where
  "name_append name c = str_append_char max_file_name_length name c"

text \<open>The loop of \<open>pop_path_component\<close>: an empty path is accessed outside its array.\<close>

function pop_to_slash :: "string \<Rightarrow> string kern" where
  "pop_to_slash path =
     (if path = [] then None else if last path = slash then Some path else pop_to_slash (butlast path))"
  by pat_completeness auto
termination by (relation "measure length") auto

declare pop_to_slash.simps [simp del]

definition pop_path_component :: "string \<Rightarrow> string kern" where
  "pop_path_component path =
     (if length path \<le> 1 then Some path
      else do {
        path \<leftarrow> pop_to_slash (if last path = slash then str_pop 1 path else path);
        Some (if length path > 1 then str_pop 1 path else path)
      })"

text \<open>\<open>basename\<close>: the last component and the path without it.\<close>

definition basename :: "string \<Rightarrow> (string \<times> string) kern" where
  "basename path = do {
     kassert (path \<noteq> [] \<and> path ! 0 = slash);
     if path = [slash] then Some ([slash], path)
     else
       let base = fold (\<lambda>c b. name_append b c) (rev (takeWhile (\<lambda>c. c \<noteq> slash) (rev path))) [];
           path = str_pop (length base + 1) path in
       Some (base, if path = [] then [slash] else path)
   }"

text \<open>The state of \<open>canonicalise_path\<close>: the path built so far and the current component.\<close>

definition push_component :: "string \<times> string \<Rightarrow> (string \<times> string) kern" where
  "push_component = (\<lambda>(path, cur).
     if cur = ''..'' then do { path \<leftarrow> pop_path_component path; Some (path, []) }
     else if cur = ''.'' then Some (path, [])
     else if cur \<noteq> [] then
       let path = (if path = [] \<or> last path \<noteq> slash then str_append_char max_path_length path slash else path) in
       Some (path_append path cur, [])
     else Some (path, []))"

fun canon_loop :: "string \<Rightarrow> string \<times> string \<Rightarrow> (string \<times> string) kern" where
  "canon_loop [] st = Some st"
| "canon_loop (c # cs) (path, cur) =
     (if c = slash then do { st \<leftarrow> push_component (path, cur); canon_loop cs st }
      else canon_loop cs (path, name_append cur c))"

definition canonicalise_path :: "string \<Rightarrow> string \<Rightarrow> string kern" where
  "canonicalise_path wd inp =
     (case inp of
        [] \<Rightarrow> Some [slash]
      | c # cs \<Rightarrow> do {
          st \<leftarrow> canon_loop cs
            (if c = slash then (str_append_char max_path_length [] slash, [])
             else (path_append [] wd, name_append [] c));
          st \<leftarrow> push_component st;
          Some (fst st)
        })"

section \<open>Paths as lists of components\<close>

fun components :: "string \<Rightarrow> string \<Rightarrow> string list" where
  "components cur [] = [cur]"
| "components cur (c # cs) = (if c = slash then cur # components [] cs else components (cur @ [c]) cs)"

definition path_of :: "string list \<Rightarrow> string" where
  "path_of cs = (if cs = [] then [slash] else concat (map (\<lambda>c. slash # c) cs))"

text \<open>What one component of the input does to the list of components of the result.\<close>

definition resolve :: "string \<Rightarrow> string list \<Rightarrow> string list" where
  "resolve c cs = (if c = ''..'' then butlast cs else if c = ''.'' \<or> c = [] then cs else cs @ [c])"

definition name_ok :: "string \<Rightarrow> bool" where
  "name_ok c \<longleftrightarrow> c \<noteq> [] \<and> slash \<notin> set c \<and> nul \<notin> set c"

definition canonical :: "string list \<Rightarrow> bool" where
  "canonical cs \<longleftrightarrow> (\<forall>c \<in> set cs. name_ok c \<and> c \<noteq> ''.'' \<and> c \<noteq> ''..'')"

lemma pop_to_slash_name: "slash \<notin> set c \<Longrightarrow> pop_to_slash (p @ slash # c) = Some (p @ [slash])"
proof (induction c rule: rev_induct)
  case Nil
  then show ?case by (simp add: pop_to_slash.simps)
next
  case (snoc x c)
  then show ?case by (auto simp: pop_to_slash.simps [of "p @ slash # c @ [x]"] butlast_append)
qed

lemma path_of_ne [simp]: "path_of cs \<noteq> []"
  by (auto simp: path_of_def)

lemma path_of_snoc: "cs \<noteq> [] \<Longrightarrow> path_of (cs @ [c]) = path_of cs @ slash # c"
  by (simp add: path_of_def)

lemma path_of_single: "path_of [c] = slash # c"
  by (simp add: path_of_def)

lemma last_path_of: "\<forall>c \<in> set cs. name_ok c \<Longrightarrow> cs \<noteq> [] \<Longrightarrow> last (path_of cs) \<noteq> slash"
proof -
  assume ok: "\<forall>c \<in> set cs. name_ok c" and ne: "cs \<noteq> []"
  obtain ds d where cs: "cs = ds @ [d]" using ne by (metis append_butlast_last_id)
  then have "name_ok d" using ok by simp
  then have "d \<noteq> []" "last d \<noteq> slash" by (auto simp: name_ok_def dest: last_in_set)
  then show ?thesis using cs by (cases ds) (auto simp: path_of_def)
qed

lemma length_path_of_snoc: "length (path_of (cs @ [c])) \<le> length (path_of cs) + 1 + length c"
  by (cases "cs = []") (simp_all add: path_of_snoc path_of_single)

lemma pop_path_component_path_of:
  assumes "\<forall>c \<in> set cs. name_ok c"
  shows "pop_path_component (path_of cs) = Some (path_of (butlast cs))"
proof (cases cs rule: rev_cases)
  case Nil
  then show ?thesis by (simp add: pop_path_component_def path_of_def)
next
  case (snoc ds d)
  then have d: "d \<noteq> []" "slash \<notin> set d" using assms by (auto simp: name_ok_def)
  have l: "last (path_of cs) \<noteq> slash" using last_path_of [OF assms] snoc by simp
  obtain p where p: "path_of cs = p @ slash # d" "p = (if ds = [] then [] else path_of ds)"
    using snoc by (cases "ds = []") (simp_all add: path_of_snoc path_of_single)
  have len: "\<not> length (path_of cs) \<le> 1" using p(1) d(1) by (cases d) auto
  have "pop_path_component (path_of cs)
      = Some (if length (p @ [slash]) > 1 then str_pop 1 (p @ [slash]) else p @ [slash])"
    using len l pop_to_slash_name [OF d(2), of p] p(1) by (simp add: pop_path_component_def)
  also have "\<dots> = Some (path_of ds)"
    using p(2) by (auto simp: str_pop_take path_of_def)
  finally show ?thesis using snoc by simp
qed

lemma path_append_fits:
  "length path + length s \<le> max_path_length \<Longrightarrow> nul \<notin> set s \<Longrightarrow> path_append path s = path @ s"
  by (simp add: path_append_def assign_text_small)

lemma push_component_path_of:
  assumes cs: "\<forall>c \<in> set cs. name_ok c" and cur: "slash \<notin> set cur" "nul \<notin> set cur"
    and fits: "length (path_of cs) + 1 + length cur \<le> max_path_length"
  shows "push_component (path_of cs, cur) = Some (path_of (resolve cur cs), [])"
proof -
  have "path_append (if path_of cs = [] \<or> last (path_of cs) \<noteq> slash
          then str_append_char max_path_length (path_of cs) slash else path_of cs) cur
      = path_of (cs @ [cur])" if "cur \<noteq> []"
  proof (cases "cs = []")
    case True
    then show ?thesis using fits cur(2) by (simp add: path_of_def path_append_fits)
  next
    case False
    then have "str_append_char max_path_length (path_of cs) slash = path_of cs @ [slash]"
      using fits by (simp add: str_append_char_def)
    then show ?thesis using False last_path_of [OF cs] fits cur(2)
      by (simp add: path_append_fits path_of_snoc)
  qed
  then show ?thesis using pop_path_component_path_of [OF cs]
    by (auto simp: push_component_def resolve_def Let_def)
qed

lemma resolve_ok:
  "canonical cs \<Longrightarrow> slash \<notin> set c \<Longrightarrow> nul \<notin> set c \<Longrightarrow> canonical (resolve c cs)"
  by (auto simp: canonical_def resolve_def name_ok_def dest: in_set_butlastD)

lemma length_resolve: "length (path_of (resolve c cs)) \<le> length (path_of cs) + 1 + length c"
proof -
  have "length (path_of (butlast cs)) \<le> length (path_of cs) + 1"
  proof (cases cs rule: rev_cases)
    case (snoc ds d)
    then show ?thesis by (cases "ds = []") (simp_all add: path_of_snoc path_of_single path_of_def)
  qed simp
  then show ?thesis using length_path_of_snoc [of cs c] by (auto simp: resolve_def)
qed

lemma components_ne: "components cur s \<noteq> []"
  by (induction cur s rule: components.induct) auto

lemma component_length: "\<exists>d \<in> set (components cur s). length cur \<le> length d"
proof (induction cur s rule: components.induct)
  case (1 cur)
  then show ?case by simp
next
  case (2 cur c cs)
  show ?case
  proof (cases "c = slash")
    case False
    with 2 obtain d where "d \<in> set (components (cur @ [c]) cs)" "length (cur @ [c]) \<le> length d" by blast
    with False show ?thesis by (intro bexI [of _ d]) simp_all
  qed simp
qed

lemma canon_loop_correct:
  assumes "canonical cs" "slash \<notin> set cur" "nul \<notin> set cur" "nul \<notin> set s"
    and "\<forall>c \<in> set (components cur s). length c \<le> max_file_name_length"
    and "length (path_of cs) + length cur + length s + 1 \<le> max_path_length"
  shows "\<exists>st. canon_loop s (path_of cs, cur) = Some st
      \<and> push_component st = Some (path_of (fold resolve (components cur s) cs), [])"
    and "canonical (fold resolve (components cur s) cs)"
proof -
  have "(\<exists>st. canon_loop s (path_of cs, cur) = Some st
      \<and> push_component st = Some (path_of (fold resolve (components cur s) cs), []))
    \<and> canonical (fold resolve (components cur s) cs)"
    using assms
  proof (induction s arbitrary: cs cur)
    case Nil
    then have "\<forall>c \<in> set cs. name_ok c" by (simp add: canonical_def)
    with Nil push_component_path_of [of cs cur] resolve_ok [of cs cur] show ?case by simp
  next
    case (Cons c s)
    show ?case
    proof (cases "c = slash")
      case True
      have ok: "\<forall>c \<in> set cs. name_ok c" using Cons.prems(1) by (simp add: canonical_def)
      have push: "push_component (path_of cs, cur) = Some (path_of (resolve cur cs), [])"
        using Cons.prems by (intro push_component_path_of [OF ok]) simp_all
      have "length (path_of (resolve cur cs)) + length s + 1 \<le> max_path_length"
        using Cons.prems(6) length_resolve [of cur cs] by simp
      moreover have "canonical (resolve cur cs)" using Cons.prems by (intro resolve_ok)
      ultimately show ?thesis
        using Cons.IH [of "resolve cur cs" "[]"] Cons.prems(4,5) push True by auto
    next
      case False
      have "components cur (c # s) = components (cur @ [c]) s" using False by simp
      with component_length [of "cur @ [c]" s] Cons.prems(5)
      have "length (cur @ [c]) \<le> max_file_name_length" by fastforce
      then have "name_append cur c = cur @ [c]" by (simp add: name_append_def str_append_char_def)
      then show ?thesis using Cons.IH [of cs "cur @ [c]"] Cons.prems False by simp
    qed
  qed
  then show "\<exists>st. canon_loop s (path_of cs, cur) = Some st
      \<and> push_component st = Some (path_of (fold resolve (components cur s) cs), [])"
    "canonical (fold resolve (components cur s) cs)" by blast+
qed

section \<open>Properties\<close>

text \<open>The components a path starts from: none for an absolute path, the working directory's otherwise.\<close>

definition start_components :: "string list \<Rightarrow> string \<Rightarrow> string list" where
  "start_components wd inp = (if inp = [] \<or> hd inp = slash then [] else wd)"

lemma canonicalise_spec:
  assumes wd: "canonical wd" and inp: "nul \<notin> set inp"
    and comp: "\<forall>c \<in> set (components [] inp). length c \<le> max_file_name_length"
    and fits: "length (path_of wd) + length inp + 1 \<le> max_path_length"
  shows "canonicalise_path (path_of wd) inp = Some (path_of (fold resolve (components [] inp) (start_components wd inp)))
    \<and> canonical (fold resolve (components [] inp) (start_components wd inp))"
proof (cases inp)
  case Nil
  then show ?thesis
    by (simp add: canonicalise_path_def path_of_def start_components_def resolve_def canonical_def)
next
  case (Cons c s)
  show ?thesis
  proof (cases "c = slash")
    case True
    have pre: "canonical []" "slash \<notin> set []" "nul \<notin> set []" "nul \<notin> set s"
      "\<forall>c \<in> set (components [] s). length c \<le> max_file_name_length"
      "length (path_of []) + length [] + length s + 1 \<le> max_path_length"
      using assms Cons True by (auto simp: canonical_def path_of_def split: if_splits)
    from canon_loop_correct [OF pre] Cons True show ?thesis
      by (auto simp: canonicalise_path_def start_components_def resolve_def str_append_char_def
          max_path_length_def path_of_def)
  next
    case False
    have "nul \<notin> set (path_of wd)"
      using wd by (auto simp: path_of_def canonical_def name_ok_def nul_def)
    then have wda: "path_append [] (path_of wd) = path_of wd"
      using fits by (subst path_append_fits) auto
    have pre: "canonical wd" "slash \<notin> set [c]" "nul \<notin> set [c]" "nul \<notin> set s"
      "\<forall>c \<in> set (components [c] s). length c \<le> max_file_name_length"
      "length (path_of wd) + length [c] + length s + 1 \<le> max_path_length"
      using assms Cons False by auto
    from canon_loop_correct [OF pre] Cons False wda show ?thesis
      by (auto simp: canonicalise_path_def start_components_def name_append_def str_append_char_def
          max_file_name_length_def)
  qed
qed

text \<open>
  C17: path canonicalisation. For a path that fits, \<open>canonicalise_path\<close> computes what the list of
  its components says: relative paths start at the working directory, \<open>.\<close> and empty components
  disappear, \<open>..\<close> removes the component before it and stays at the root there. The result has no
  such component left, so no path escapes the root.
\<close>

theorem canonicalise_correct:
  assumes "canonical wd" "nul \<notin> set inp"
    and "\<forall>c \<in> set (components [] inp). length c \<le> max_file_name_length"
    and "length (path_of wd) + length inp + 1 \<le> max_path_length"
  shows "\<exists>cs. canonicalise_path (path_of wd) inp = Some (path_of cs) \<and> canonical cs
    \<and> cs = fold resolve (components [] inp) (start_components wd inp)"
  using canonicalise_spec [OF assms] by blast

theorem canonicalise_correct_witness:
  "canonicalise_path (path_of [''home'', ''sint'']) ''../x/./y//..'' = Some (path_of [''home'', ''x''])"
proof -
  have "\<exists>cs. canonicalise_path (path_of [''home'', ''sint'']) ''../x/./y//..'' = Some (path_of cs) \<and> canonical cs
    \<and> cs = fold resolve (components [] ''../x/./y//..'') (start_components [''home'', ''sint''] ''../x/./y//..'')"
    by (rule canonicalise_correct)
      (simp_all add: canonical_def name_ok_def nul_def max_file_name_length_def max_path_length_def path_of_def)
  then show ?thesis by (simp add: resolve_def start_components_def)
qed

lemma components_append:
  "slash \<notin> set c \<Longrightarrow> components cur (c @ s) = components (cur @ c) s"
  by (induction c arbitrary: cur) auto

lemma components_path_of:
  "canonical cs \<Longrightarrow> cs \<noteq> [] \<Longrightarrow> components [] (path_of cs) = [] # cs"
proof (induction cs)
  case Nil
  then show ?case by simp
next
  case (Cons c cs)
  have c: "slash \<notin> set c" using Cons.prems(1) by (simp add: canonical_def name_ok_def)
  show ?case
  proof (cases "cs = []")
    case True
    then show ?thesis using components_append [OF c, of "[]" "[]"] by (simp add: path_of_single)
  next
    case False
    then obtain t where t: "path_of cs = slash # t" by (cases cs) (auto simp: path_of_def)
    then have "components [] t = cs"
      using Cons False by (simp add: canonical_def)
    moreover have "path_of (c # cs) = slash # c @ slash # t"
      using False t by (simp add: path_of_def)
    ultimately show ?thesis using components_append [OF c, of "[]" "slash # t"] by simp
  qed
qed

lemma fold_resolve_canonical: "canonical cs \<Longrightarrow> fold resolve cs ds = ds @ cs"
  by (induction cs arbitrary: ds) (auto simp: canonical_def name_ok_def resolve_def)

text \<open>
  canonical paths are fixed points: canonicalising one returns it, whatever the working
  directory is, so a path that the kernel stored can be handed to \<open>open\<close> again.
\<close>

theorem canonicalise_idempotent:
  assumes "canonical cs" "canonical wd" "\<forall>c \<in> set cs. length c \<le> max_file_name_length"
    and "length (path_of wd) + length (path_of cs) + 1 \<le> max_path_length"
  shows "canonicalise_path (path_of wd) (path_of cs) = Some (path_of cs)"
proof -
  have "nul \<notin> set (path_of cs)"
    using assms(1) by (auto simp: path_of_def canonical_def name_ok_def nul_def)
  moreover have "components [] (path_of cs) = (if cs = [] then [[], []] else [] # cs)"
    using components_path_of [OF assms(1)] by (simp add: path_of_def)
  moreover have "start_components wd (path_of cs) = []"
    by (cases cs) (simp_all add: start_components_def path_of_def)
  ultimately show ?thesis
    using canonicalise_spec [OF assms(2), of "path_of cs"] assms(3,4) fold_resolve_canonical [OF assms(1)]
    by (auto simp: resolve_def split: if_splits)
qed

theorem canonicalise_idempotent_witness:
  "canonicalise_path (path_of [''home'']) (path_of [''dev'', ''null'']) = Some (path_of [''dev'', ''null''])"
  by (rule canonicalise_idempotent)
    (simp_all add: canonical_def name_ok_def nul_def max_file_name_length_def max_path_length_def path_of_def)

text \<open>
  overlong paths. What does not fit in 256 characters is dropped without an error, and the rest
  need not be canonical: relative to a working directory of 253 characters, any name that starts
  with two dots becomes the path of the parent directory \<open>..\<close>, which is never resolved.
\<close>

theorem overlong_path_truncated:
  assumes "length wd = 253" "nul \<notin> set wd" "last wd \<noteq> slash" "slash \<notin> set rest" "nul \<notin> set rest"
    and "rest \<noteq> []" "length rest \<le> 60"
  shows "canonicalise_path wd (''..'' @ rest) = Some (wd @ ''/..'')"
proof -
  have loop: "canon_loop s (p, cur) = Some (p, cur @ s)"
    if "slash \<notin> set s" "length cur + length s \<le> max_file_name_length" for s p cur
    using that by (induction s arbitrary: cur) (auto simp: name_append_def str_append_char_def)
  have wd: "path_append [] wd = wd" using assms(1,2) by (simp add: path_append_fits max_path_length_def)
  have l: "canon_loop (CHR ''.'' # rest) (wd, ''.'') = Some (wd, ''..'' @ rest)"
    using loop [of "CHR ''.'' # rest" "''.''" wd] assms(4,7) by (simp add: max_file_name_length_def)
  have "wd \<noteq> []" using assms(1) by auto
  have "path_append (wd @ [slash]) (''..'' @ rest) = wd @ [slash] @ take 2 (''..'' @ rest)"
    using assms(1,5) by (simp add: path_append_def assign_text_def max_path_length_def nul_def)
  then have "push_component (wd, ''..'' @ rest) = Some (wd @ ''/..'', [])"
    using assms(1,3,6) \<open>wd \<noteq> []\<close>
    by (simp add: push_component_def str_append_char_def max_path_length_def)
  then show ?thesis
    using l wd by (simp add: canonicalise_path_def name_append_def str_append_char_def max_file_name_length_def)
qed

theorem overlong_path_truncated_witness:
  "canonicalise_path (replicate 253 CHR ''a'') ''..x'' = Some (replicate 253 CHR ''a'' @ ''/..'')"
  using overlong_path_truncated [of "replicate 253 CHR ''a''" "''x''"]
  by (simp add: nul_def)

end
