(* ===== verification/Vfs.thy ===== *)
theory Vfs
  imports Path Fat32 OsFormat Process DevFs
begin

text \<open>
  The virtual file system (filesystem/vfs.cc, vfs.hh, types.hh, pipe.hh): mounts, path lookup over
  the mounted file systems, open files and their handles, and the file operations behind the
  system calls. Files and handles live in stores indexed by their address (0 is the null pointer)
  and refer to each other by address, as in the code. An operation is modelled from the moment
  its locks are held; the address that \<open>new\<close> returns is an argument (0 when the heap is exhausted).
\<close>

section \<open>State\<close>

text \<open>\<open>file_t\<close> and \<open>file_handle_t\<close>; \<open>h_locked\<close> says whether a thread holds the handle's mutex.\<close>

record open_file =
  file_i :: int
  f_inode :: inode
  f_path :: string
  first_handle :: nat
  last_handle :: nat

record file_handle =
  handle_i :: int
  h_file :: nat
  h_flags :: u32
  h_pos :: u64
  h_proc :: nat
  h_procfd :: int
  h_prev :: nat
  h_next :: nat
  h_locked :: bool

definition blank_handle :: file_handle where
  "blank_handle = \<lparr>handle_i = -1, h_file = 0, h_flags = 0, h_pos = 0, h_proc = 0, h_procfd = -1,
     h_prev = 0, h_next = 0, h_locked = False\<rparr>"

record mount_point =
  m_name :: string
  m_fs :: nat

datatype fs_object = Fs_dev devfs | Fs_fat fat32

text \<open>
  The static arrays of vfs.cc (\<open>open_files\<close>, \<open>handles\<close>, \<open>mounts\<close>), the objects they point to, the
  file system objects, the devices behind them, the scheduler (for the running process) and the
  pipes that are allocated.
\<close>

record 'x vfs =
  v_open_files :: "nat list"
  v_handles :: "nat list"
  v_mounts :: "mount_point option list"
  v_files :: "nat \<Rightarrow> open_file option"
  v_handle_objs :: "nat \<Rightarrow> file_handle option"
  v_fs :: "nat \<Rightarrow> fs_object option"
  v_io :: "'x io"
  v_sched :: sched
  v_pipes :: "nat list"

definition max_mounts :: nat where "max_mounts = 32"

definition upd_file :: "'x vfs \<Rightarrow> nat \<Rightarrow> (open_file \<Rightarrow> open_file) \<Rightarrow> 'x vfs kern" where
  "upd_file v a g = do { f \<leftarrow> v_files v a; Some (v\<lparr>v_files := (v_files v)(a \<mapsto> g f)\<rparr>) }"

definition upd_handle :: "'x vfs \<Rightarrow> nat \<Rightarrow> (file_handle \<Rightarrow> file_handle) \<Rightarrow> 'x vfs kern" where
  "upd_handle v a g = do { h \<leftarrow> v_handle_objs v a; Some (v\<lparr>v_handle_objs := (v_handle_objs v)(a \<mapsto> g h)\<rparr>) }"

text \<open>\<open>if (a) a->... = ...\<close>\<close>

definition upd_handle_opt :: "'x vfs \<Rightarrow> nat \<Rightarrow> (file_handle \<Rightarrow> file_handle) \<Rightarrow> 'x vfs kern" where
  "upd_handle_opt v a g = (if a = 0 then Some v else upd_handle v a g)"

section \<open>The running process and its descriptors\<close>

definition current_proc :: "sched \<Rightarrow> nat kern" where
  "current_proc s =
     (if current_thread s = 0 then Some 0 else do { t \<leftarrow> threads s (current_thread s); Some (t_proc t) })"

text \<open>\<open>current_proc\<close> with the assertion that there is one; its object too.\<close>

definition running_proc :: "'x vfs \<Rightarrow> (nat \<times> proc) kern" where
  "running_proc v = do {
     a \<leftarrow> current_proc (v_sched v);
     kassert (a \<noteq> 0);
     p \<leftarrow> procs (v_sched v) a;
     Some (a, p)
   }"

text \<open>A slot of an array of pointers, by a signed index.\<close>

definition slot :: "nat list \<Rightarrow> int \<Rightarrow> nat option" where
  "slot xs i = (if 0 \<le> i \<and> nat i < length xs then Some (xs ! nat i) else None)"

definition put_slot :: "nat list \<Rightarrow> int \<Rightarrow> nat \<Rightarrow> nat list kern" where
  "put_slot xs i a = (if 0 \<le> i then aset xs (nat i) a else None)"

definition set_fd :: "'x vfs \<Rightarrow> nat \<Rightarrow> int \<Rightarrow> nat \<Rightarrow> 'x vfs kern" where
  "set_fd v pa fd ha = do {
     p \<leftarrow> procs (v_sched v) pa;
     fs \<leftarrow> put_slot (p_files p) fd ha;
     s \<leftarrow> upd_proc (v_sched v) pa (\<lambda>p. p\<lparr>p_files := fs\<rparr>);
     Some (v\<lparr>v_sched := s\<rparr>)
   }"

definition handle_by_fd :: "'x vfs \<Rightarrow> int \<Rightarrow> nat kern" where
  "handle_by_fd v fd = do {
     (pa, p) \<leftarrow> running_proc v;
     Some (case slot (p_files p) fd of Some a \<Rightarrow> a | None \<Rightarrow> 0)
   }"

text \<open>The allocation loops over the arrays; each gives an index or \<open>ERR_limit\<close>.\<close>

definition index_or :: "int \<Rightarrow> nat option \<Rightarrow> int" where
  "index_or e r = (case r of Some i \<Rightarrow> int i | None \<Rightarrow> e)"

definition first_free_fd :: "nat list \<Rightarrow> int" where
  "first_free_fd fs = index_or ERR_limit (map_option (\<lambda>i. i + 3) (find_index (\<lambda>a. a = 0) (drop 3 fs)))"

definition alloc_proc_handle_i :: "'x vfs \<Rightarrow> int kern" where
  "alloc_proc_handle_i v = do { (pa, p) \<leftarrow> running_proc v; Some (first_free_fd (p_files p)) }"

definition alloc_handle_i :: "'x vfs \<Rightarrow> int" where
  "alloc_handle_i v = index_or ERR_limit (find_index (\<lambda>a. a = 0) (v_handles v))"

definition alloc_file_i :: "'x vfs \<Rightarrow> int" where
  "alloc_file_i v = index_or ERR_limit (find_index (\<lambda>a. a = 0) (v_open_files v))"

definition has_path :: "'x vfs \<Rightarrow> string \<Rightarrow> nat \<Rightarrow> bool" where
  "has_path v path a =
     (if a = 0 then False else case v_files v a of Some f \<Rightarrow> f_path f = path | None \<Rightarrow> False)"

definition find_open_file :: "'x vfs \<Rightarrow> string \<Rightarrow> int" where
  "find_open_file v path = index_or (-1) (find_index (has_path v path) (v_open_files v))"

section \<open>Mounts\<close>

primrec mount_named :: "string \<Rightarrow> mount_point option \<Rightarrow> bool" where
  "mount_named name None = False"
| "mount_named name (Some m) = (m_name m = name)"

definition get_mount :: "mount_point option list \<Rightarrow> string \<Rightarrow> mount_point option" where
  "get_mount ms name = (case find_index (mount_named name) ms of Some i \<Rightarrow> ms ! i | None \<Rightarrow> None)"

fun mount_scan :: "string \<Rightarrow> nat \<Rightarrow> int \<Rightarrow> mount_point option list \<Rightarrow> errno + int" where
  "mount_scan name i mount_i [] = Inr mount_i"
| "mount_scan name i mount_i (m # ms) =
     (case m of
        Some x \<Rightarrow> if m_name x = name then Inl ERR_exists else mount_scan name (i + 1) mount_i ms
      | None \<Rightarrow> mount_scan name (i + 1) (if mount_i = ERR_limit then int i else mount_i) ms)"

text \<open>\<open>mem_ok\<close> says whether the heap has room for the \<open>mount_t\<close>.\<close>

definition mount :: "bool \<Rightarrow> mount_point option list \<Rightarrow> nat \<Rightarrow> string \<Rightarrow> errno \<times> mount_point option list" where
  "mount mem_ok ms fs name =
     (case mount_scan name 0 ERR_limit ms of
        Inl e \<Rightarrow> (e, ms)
      | Inr mount_i \<Rightarrow>
          if mount_i < 0 then (mount_i, ms)
          else if \<not> mem_ok then (ERR_nomem, ms)
          else (ERR_success, ms[nat mount_i :=
                 Some \<lparr>m_name = assign_text max_file_name_length name, m_fs = fs\<rparr>]))"

section \<open>The operations of a mounted file system\<close>

text \<open>The virtual methods of \<open>Fs\<close>: each one is that of the object's class.\<close>

definition fs_root_node :: "'x vfs \<Rightarrow> nat \<Rightarrow> inode kern" where
  "fs_root_node v a = do {
     x \<leftarrow> v_fs v a;
     Some (case x of Fs_dev d \<Rightarrow> devfs_root a | Fs_fat f \<Rightarrow> fat_root a f)
   }"

definition fs_read_dir :: "'x hw \<Rightarrow> nat \<Rightarrow> inode \<Rightarrow> u64 \<Rightarrow> 'x vfs \<Rightarrow> (int \<times> u64 \<times> dir_entry \<times> 'x vfs) kern" where
  "fs_read_dir hw a inode pos v = do {
     x \<leftarrow> v_fs v a;
     case x of
       Fs_dev d \<Rightarrow> (let (n, pos, e) = devfs_read_dir a d inode pos no_entry in Some (n, pos, e, v))
     | Fs_fat f \<Rightarrow> do {
         (n, pos, e, f, s) \<leftarrow> fat_read_dir hw a inode pos f (v_io v);
         Some (n, pos, e, v\<lparr>v_fs := (v_fs v)(a \<mapsto> Fs_fat f), v_io := s\<rparr>)
       }
   }"

definition fs_lookup :: "'x hw \<Rightarrow> nat \<Rightarrow> inode \<Rightarrow> string \<Rightarrow> 'x vfs \<Rightarrow> (errno \<times> inode \<times> 'x vfs) kern" where
  "fs_lookup hw a inode name v = do {
     x \<leftarrow> v_fs v a;
     case x of
       Fs_dev d \<Rightarrow> do { (err, dest) \<leftarrow> devfs_lookup a d inode name; Some (err, dest, v) }
     | Fs_fat f \<Rightarrow> default_lookup (fs_read_dir hw a inode) name v
   }"

definition fs_read :: "'x hw \<Rightarrow> nat \<Rightarrow> inode \<Rightarrow> u64 \<Rightarrow> nat \<Rightarrow> 'x vfs \<Rightarrow> (int \<times> u8 list \<times> 'x vfs) kern" where
  "fs_read hw a inode pos n v = do {
     x \<leftarrow> v_fs v a;
     case x of
       Fs_dev d \<Rightarrow> do { (r, bs, s) \<leftarrow> devfs_read hw d inode pos n (v_io v); Some (r, bs, v\<lparr>v_io := s\<rparr>) }
     | Fs_fat f \<Rightarrow> do {
         (r, bs, f, s) \<leftarrow> fat_read hw f inode pos n (v_io v);
         Some (r, bs, v\<lparr>v_fs := (v_fs v)(a \<mapsto> Fs_fat f), v_io := s\<rparr>)
       }
   }"

definition fs_write :: "'x hw \<Rightarrow> nat \<Rightarrow> inode \<Rightarrow> u64 \<Rightarrow> u8 list \<Rightarrow> 'x vfs \<Rightarrow> (int \<times> 'x vfs) kern" where
  "fs_write hw a inode pos buf v = do {
     x \<leftarrow> v_fs v a;
     case x of
       Fs_dev d \<Rightarrow> do { (r, s) \<leftarrow> devfs_write hw d inode pos buf (v_io v); Some (r, v\<lparr>v_io := s\<rparr>) }
     | Fs_fat f \<Rightarrow> do {
         (r, f, s) \<leftarrow> fat_write hw f inode pos buf (v_io v);
         Some (r, v\<lparr>v_fs := (v_fs v)(a \<mapsto> Fs_fat f), v_io := s\<rparr>)
       }
   }"

section \<open>Path lookup\<close>

text \<open>The text up to the first slash, in a \<open>file_name_t\<close>.\<close>

definition first_component :: "string \<Rightarrow> string" where
  "first_component path = take max_file_name_length (takeWhile (\<lambda>c. c \<noteq> slash) path)"

function lookup_path :: "'x hw \<Rightarrow> nat \<Rightarrow> inode \<Rightarrow> inode \<Rightarrow> string \<Rightarrow> 'x vfs \<Rightarrow> (errno \<times> inode \<times> 'x vfs) kern" where
  "lookup_path hw a node dest path v =
     (if path = [] then do { kassert (i_fs dest \<noteq> 0); Some (ERR_success, dest, v) }
      else let component = first_component path in do {
        kassert (a \<noteq> 0);
        (err, dest, v) \<leftarrow> fs_lookup hw a node component v;
        if err \<noteq> 0 then Some (err, dest, v)
        else lookup_path hw a dest dest (str_pop_front (length component + 1) path) v
      })"
  by pat_completeness auto
termination
  by (relation "measure (\<lambda>(hw, a, node, dest, path, v). length path)") (auto simp: str_pop_front_def)

declare lookup_path.simps [simp del]

definition lookup :: "'x hw \<Rightarrow> inode \<Rightarrow> string \<Rightarrow> 'x vfs \<Rightarrow> (errno \<times> inode \<times> 'x vfs) kern" where
  "lookup hw node path v =
     lookup_path hw (i_fs node) node blank_inode
       (if path \<noteq> [] \<and> hd path = slash then str_pop_front 1 path else path) v"

definition root_inode :: inode where
  "root_inode = blank_inode\<lparr>i_no := 0, i_type := t_dir, i_perm := 0x140\<rparr>"

definition get_inode :: "'x hw \<Rightarrow> string \<Rightarrow> 'x vfs \<Rightarrow> (errno \<times> inode \<times> 'x vfs) kern" where
  "get_inode hw path v =
     (if path = [slash] then Some (ERR_success, root_inode, v)
      else let tmp_path = str_pop_front 1 path;
               mount_name = first_component tmp_path in do {
        kassert (mount_name \<noteq> []);
        let tmp_path = str_pop_front (length mount_name + 1) tmp_path;
        case get_mount (v_mounts v) mount_name of
          None \<Rightarrow> Some (ERR_not_exists, blank_inode, v)
        | Some m \<Rightarrow> do {
            root \<leftarrow> fs_root_node v (m_fs m);
            if tmp_path = [] then Some (ERR_success, root, v) else lookup hw root tmp_path v
          }
      })"

definition make_file_struct :: "'x hw \<Rightarrow> string \<Rightarrow> 'x vfs \<Rightarrow> (errno \<times> open_file \<times> 'x vfs) kern" where
  "make_file_struct hw path v = do {
     (err, ino, v) \<leftarrow> get_inode hw path v;
     Some (err, \<lparr>file_i = -1, f_inode = ino, f_path = path, first_handle = 0, last_handle = 0\<rparr>, v)
   }"

section \<open>Opening files\<close>

definition implied_flags :: "u32 \<Rightarrow> u32" where
  "implied_flags flags =
     (let flags = (if has_flag flags o_dir then flags OR o_read else flags);
          flags = (if has_flag flags o_append then flags OR o_write else flags);
          flags = (if has_flag flags o_truncate then flags OR o_write else flags) in
      if has_flag flags o_create then flags OR o_write else flags)"

definition open_check :: "inode \<Rightarrow> u32 \<Rightarrow> errno" where
  "open_check ino flags =
     (if i_type ino = t_dir \<and> \<not> has_flag flags o_dir then ERR_type
      else if i_type ino \<noteq> t_dir \<and> has_flag flags o_dir then ERR_type
      else if i_type ino = t_dir \<and> has_flag flags o_write then ERR_type
      else if has_flag flags o_read \<and> \<not> has_flag (i_perm ino) 0x124 then ERR_perm
      else if has_flag flags o_write \<and> \<not> has_flag (i_perm ino) 0x92 then ERR_perm
      else ERR_success)"

text \<open>
  The numbers of a new handle: a slot of \<open>handles\<close> and a descriptor of the running process, the one
  asked for when \<open>fd\<close> is not negative. The result also has the address of the process.
\<close>

definition alloc_numbers :: "'x vfs \<Rightarrow> int \<Rightarrow> (errno + nat \<times> int \<times> int) kern" where
  "alloc_numbers v fd = do {
     (pa, p) \<leftarrow> running_proc v;
     proc_i \<leftarrow> alloc_proc_handle_i v;
     let h_i = alloc_handle_i v;
     Some (if h_i < 0 then Inl h_i
           else if proc_i < 0 then Inl proc_i
           else if fd \<ge> 0 then
             if slot (p_files p) fd = Some 0 then Inr (pa, h_i, fd) else Inl ERR_bad_fd
           else Inr (pa, h_i, proc_i))
   }"

text \<open>Append a handle to the handle list of a file, and register it.\<close>

definition append_handle :: "'x vfs \<Rightarrow> nat \<Rightarrow> nat \<Rightarrow> 'x vfs kern" where
  "append_handle v fa ha = do {
     f \<leftarrow> v_files v fa;
     if last_handle f \<noteq> 0 then do {
       v \<leftarrow> upd_handle v (last_handle f) (\<lambda>h. h\<lparr>h_next := ha\<rparr>);
       v \<leftarrow> upd_handle v ha (\<lambda>h. h\<lparr>h_prev := last_handle f\<rparr>);
       upd_file v fa (\<lambda>f. f\<lparr>last_handle := ha\<rparr>)
     }
     else upd_file v fa (\<lambda>f. f\<lparr>first_handle := ha, last_handle := ha\<rparr>)
   }"

definition put_handle :: "'x vfs \<Rightarrow> int \<Rightarrow> nat \<Rightarrow> 'x vfs kern" where
  "put_handle v i ha = do { hs \<leftarrow> put_slot (v_handles v) i ha; Some (v\<lparr>v_handles := hs\<rparr>) }"

definition put_open_file :: "'x vfs \<Rightarrow> int \<Rightarrow> nat \<Rightarrow> 'x vfs kern" where
  "put_open_file v i fa = do { fs \<leftarrow> put_slot (v_open_files v) i fa; Some (v\<lparr>v_open_files := fs\<rparr>) }"

text \<open>The last steps of \<open>open\<close> and \<open>duplicate_fd\<close>: the handle goes into the three tables it belongs to.\<close>

definition attach_handle :: "'x vfs \<Rightarrow> int \<Rightarrow> nat \<Rightarrow> nat \<Rightarrow> nat \<Rightarrow> int \<Rightarrow> 'x vfs kern" where
  "attach_handle v h_slot fa ha pa fd = do {
     v \<leftarrow> put_handle v h_slot ha;
     v \<leftarrow> append_handle v fa ha;
     set_fd v pa fd ha
   }"

text \<open>
  The file that \<open>open\<close> works on: \<open>Inr (a, i, f)\<close> with its address \<open>a\<close> when it is open already, and
  \<open>a = 0\<close> for the temporary one that will go to slot \<open>i\<close>.
\<close>

definition find_or_make :: "'x hw \<Rightarrow> string \<Rightarrow> 'x vfs \<Rightarrow> ((errno + nat \<times> int \<times> open_file) \<times> 'x vfs) kern" where
  "find_or_make hw path v =
     (let i = find_open_file v path in
      if i \<ge> 0 then do {
        a \<leftarrow> slot (v_open_files v) i;
        f \<leftarrow> v_files v a;
        Some (Inr (a, i, f), v)
      }
      else let i = alloc_file_i v in
        if i < 0 then Some (Inl i, v)
        else do {
          (err, f, v) \<leftarrow> make_file_struct hw path v;
          Some (if err \<noteq> 0 then Inl err else Inr (0, i, f), v)
        })"

text \<open>
  The end of \<open>open\<close>, when nothing can fail any more: a new file is registered, the handle is filled
  and attached. \<open>ha\<close> and \<open>fa\<close> are the addresses of the new handle and the new file.
\<close>

definition open_commit :: "nat \<Rightarrow> nat \<Rightarrow> nat \<Rightarrow> int \<Rightarrow> int \<Rightarrow> u32 \<Rightarrow> nat \<times> int \<times> open_file \<Rightarrow> 'x vfs \<Rightarrow> (int \<times> 'x vfs) kern" where
  "open_commit ha fa pa h_slot fd flags = (\<lambda>(a, f_slot, f) v. do {
     v \<leftarrow> (if a = 0 then put_open_file (v\<lparr>v_files := (v_files v)(fa \<mapsto> f\<lparr>file_i := f_slot\<rparr>)\<rparr>) f_slot fa
           else Some v);
     let file_a = (if a = 0 then fa else a);
     let v = v\<lparr>v_handle_objs := (v_handle_objs v)(ha \<mapsto> blank_handle\<lparr>handle_i := h_slot,
       h_file := file_a, h_flags := flags, h_pos := 0, h_proc := pa, h_procfd := fd\<rparr>)\<rparr>;
     v \<leftarrow> attach_handle v h_slot file_a ha pa fd;
     Some (fd, v)
   })"

definition open_found :: "nat \<Rightarrow> nat \<Rightarrow> int \<Rightarrow> u32 \<Rightarrow> nat \<times> int \<times> open_file \<Rightarrow> 'x vfs \<Rightarrow> (int \<times> 'x vfs) kern" where
  "open_found ha fa fd flags = (\<lambda>(a, f_slot, f) v.
     if open_check (f_inode f) flags \<noteq> 0 then Some (open_check (f_inode f) flags, v)
     else do {
       n \<leftarrow> alloc_numbers v fd;
       case n of
         Inl err \<Rightarrow> Some (err, v)
       | Inr (pa, h_slot, fd) \<Rightarrow>
           if ha = 0 \<or> a = 0 \<and> fa = 0 then Some (ERR_nomem, v)
           else open_commit ha fa pa h_slot fd flags (a, f_slot, f) v
     })"

definition vfs_open :: "'x hw \<Rightarrow> nat \<Rightarrow> nat \<Rightarrow> int \<Rightarrow> string \<Rightarrow> u32 \<Rightarrow> 'x vfs \<Rightarrow> (int \<times> 'x vfs) kern" where
  "vfs_open hw ha fa fd path flags v = do {
     path \<leftarrow> (if path = [] then Some [slash]
              else do { (pa, p) \<leftarrow> running_proc v; canonicalise_path (working_directory p) path });
     (r, v) \<leftarrow> find_or_make hw path v;
     case r of
       Inl err \<Rightarrow> Some (err, v)
     | Inr t \<Rightarrow> open_found ha fa fd (implied_flags flags) t v
   }"

section \<open>Duplicating, moving and closing descriptors\<close>

definition duplicate_fd :: "nat \<Rightarrow> int \<Rightarrow> int \<Rightarrow> 'x vfs \<Rightarrow> (int \<times> 'x vfs) kern" where
  "duplicate_fd ha dest fd v = do {
     src \<leftarrow> handle_by_fd v fd;
     if src = 0 then Some (ERR_bad_fd, v)
     else do {
       n \<leftarrow> alloc_numbers v dest;
       case n of
         Inl err \<Rightarrow> Some (err, v)
       | Inr (pa, h_slot, fd) \<Rightarrow>
           if ha = 0 then Some (ERR_nomem, v)
           else do {
             h \<leftarrow> v_handle_objs v src;
             let v = v\<lparr>v_handle_objs := (v_handle_objs v)(ha \<mapsto> h\<lparr>handle_i := h_slot, h_procfd := fd\<rparr>)\<rparr>;
             f \<leftarrow> v_files v (h_file h);
             kassert (last_handle f \<noteq> 0);
             v \<leftarrow> attach_handle v h_slot (h_file h) ha pa fd;
             Some (fd, v)
           }
     }
   }"

definition transplant_fd :: "nat \<Rightarrow> int \<Rightarrow> int \<Rightarrow> 'x vfs \<Rightarrow> (errno \<times> 'x vfs) kern" where
  "transplant_fd dst_proc dstfd srcfd v = do {
     (pa, p) \<leftarrow> running_proc v;
     kassert (dst_proc \<noteq> 0);
     ha \<leftarrow> handle_by_fd v srcfd;
     if ha = 0 then Some (ERR_bad_fd, v)
     else do {
       h \<leftarrow> v_handle_objs v ha;
       if h_locked h then Some (ERR_timeout, v)
       else do {
         v \<leftarrow> set_fd v pa srcfd 0;
         v \<leftarrow> set_fd v dst_proc dstfd ha;
         v \<leftarrow> upd_handle v ha (\<lambda>h. h\<lparr>h_proc := dst_proc, h_procfd := dstfd\<rparr>);
         Some (ERR_success, v)
       }
     }
   }"

text \<open>\<open>~file_t\<close> and the pipe of a file whose last handle went.\<close>

definition delete_file :: "'x vfs \<Rightarrow> nat \<Rightarrow> 'x vfs kern" where
  "delete_file v fa = do {
     f \<leftarrow> v_files v fa;
     let v = (if i_type (f_inode f) = t_pipe
              then v\<lparr>v_pipes := remove1 (unat (i_no (f_inode f))) (v_pipes v)\<rparr> else v);
     v \<leftarrow> put_open_file v (file_i f) 0;
     Some (v\<lparr>v_files := (v_files v)(fa := None)\<rparr>)
   }"

text \<open>Take a handle out of the handle list of its file.\<close>

definition unlink_handle :: "'x vfs \<Rightarrow> nat \<Rightarrow> 'x vfs kern" where
  "unlink_handle v ha = do {
     h \<leftarrow> v_handle_objs v ha;
     v \<leftarrow> upd_handle_opt v (h_prev h) (\<lambda>x. x\<lparr>h_next := h_next h\<rparr>);
     h \<leftarrow> v_handle_objs v ha;
     v \<leftarrow> upd_handle_opt v (h_next h) (\<lambda>x. x\<lparr>h_prev := h_prev h\<rparr>);
     h \<leftarrow> v_handle_objs v ha;
     v \<leftarrow> upd_file v (h_file h) (\<lambda>f. if first_handle f = ha then f\<lparr>first_handle := h_next h\<rparr> else f);
     upd_file v (h_file h) (\<lambda>f. if last_handle f = ha then f\<lparr>last_handle := h_prev h\<rparr> else f)
   }"

text \<open>
  \<open>Inl ha\<close> says that the thread waits for the lock of the handle \<open>ha\<close>, still holding the lock of the
  whole file system; nothing has changed by then.
\<close>

definition vfs_close :: "int \<Rightarrow> 'x vfs \<Rightarrow> ((nat + errno) \<times> 'x vfs) kern" where
  "vfs_close fd v = do {
     (pa, p) \<leftarrow> running_proc v;
     ha \<leftarrow> handle_by_fd v fd;
     if ha = 0 then Some (Inr ERR_bad_fd, v)
     else do {
       h \<leftarrow> v_handle_objs v ha;
       if h_locked h then Some (Inl ha, v)
       else do {
         v \<leftarrow> set_fd v pa fd 0;
         h \<leftarrow> v_handle_objs v ha;
         v \<leftarrow> put_handle v (handle_i h) 0;
         v \<leftarrow> unlink_handle v ha;
         let v = v\<lparr>v_handle_objs := (v_handle_objs v)(ha := None)\<rparr>;
         f \<leftarrow> v_files v (h_file h);
         v \<leftarrow> (if first_handle f = 0 then delete_file v (h_file h) else Some v);
         Some (Inr ERR_success, v)
       }
     }
   }"

text \<open>
  \<open>close\<close> as the kernel itself calls it, on descriptors that nobody else uses: it has no result
  when it would wait.
\<close>

definition close_unlocked :: "int \<Rightarrow> 'x vfs \<Rightarrow> (errno \<times> 'x vfs) kern" where
  "close_unlocked fd v = do {
     (r, v) \<leftarrow> vfs_close fd v;
     case r of Inl ha \<Rightarrow> None | Inr err \<Rightarrow> Some (err, v)
   }"

section \<open>Pipes\<close>

text \<open>The \<open>inode\<close> of a pipe has the address of the pipe object as its number.\<close>

definition pipe_size :: nat where "pipe_size = 512"

definition pipe_inode :: "nat \<Rightarrow> inode" where
  "pipe_inode pp = blank_inode\<lparr>i_no := of_nat pp, i_type := t_pipe, i_perm := 0x180,
     i_size := of_nat pipe_size, i_fs := 0\<rparr>"

text \<open>
  The two handle and descriptor numbers of \<open>make_pipe\<close>: while the second one is looked for, the
  slot of the first one is marked taken with the pointer value 1.
\<close>

definition pipe_numbers :: "'x vfs \<Rightarrow> (errno + (nat \<times> int) \<times> (int \<times> int) \<times> (int \<times> int)) kern" where
  "pipe_numbers v = do {
     (pa, p) \<leftarrow> running_proc v;
     let file_slot = alloc_file_i v;
     let in_h = alloc_handle_i v;
     let out_h = alloc_handle_i (v\<lparr>v_handles := (v_handles v)[nat in_h := 1]\<rparr>);
     let in_fd = first_free_fd (p_files p);
     let out_fd = first_free_fd ((p_files p)[nat in_fd := 1]);
     Some (if file_slot < 0 then Inl file_slot
           else if in_h < 0 then Inl in_h
           else if out_h < 0 then Inl out_h
           else if in_fd < 0 then Inl in_fd
           else if out_fd < 0 then Inl out_fd
           else Inr ((pa, file_slot), (in_h, in_fd), (out_h, out_fd)))
   }"

text \<open>
  \<open>fa\<close>, \<open>pp\<close>, \<open>ha_in\<close>, \<open>ha_out\<close> are the addresses of the file, the pipe and the two handles. The result
  has the descriptors when there was no error.
\<close>

definition make_pipe :: "nat \<Rightarrow> nat \<Rightarrow> nat \<Rightarrow> nat \<Rightarrow> 'x vfs \<Rightarrow> ((errno + int \<times> int) \<times> 'x vfs) kern" where
  "make_pipe fa pp ha_in ha_out v = do {
     n \<leftarrow> pipe_numbers v;
     case n of
       Inl err \<Rightarrow> Some (Inl err, v)
     | Inr ((pa, file_slot), (in_h, in_fd), (out_h, out_fd)) \<Rightarrow>
         if fa = 0 \<or> pp = 0 \<or> ha_in = 0 \<or> ha_out = 0 then Some (Inl ERR_nomem, v)
         else do {
           let hin = blank_handle\<lparr>handle_i := in_h, h_file := fa, h_flags := o_read, h_pos := 0,
             h_proc := pa, h_procfd := in_fd, h_next := ha_out\<rparr>;
           let hout = blank_handle\<lparr>handle_i := out_h, h_file := fa, h_flags := o_write, h_pos := 0,
             h_proc := pa, h_procfd := out_fd, h_prev := ha_in\<rparr>;
           (path, n) \<leftarrow> fmt_buffer (max_path_length + 1) [\<lambda>fl. format_ptr fl (of_nat pp)] ''pipe-{}'';
           let f = \<lparr>file_i = file_slot, f_inode = pipe_inode pp, f_path = path,
             first_handle = ha_in, last_handle = ha_out\<rparr>;
           let v = v\<lparr>v_files := (v_files v)(fa \<mapsto> f),
             v_handle_objs := (v_handle_objs v)(ha_in \<mapsto> hin, ha_out \<mapsto> hout),
             v_pipes := pp # v_pipes v\<rparr>;
           v \<leftarrow> put_open_file v file_slot fa;
           v \<leftarrow> put_handle v in_h ha_in;
           v \<leftarrow> put_handle v out_h ha_out;
           v \<leftarrow> set_fd v pa in_fd ha_in;
           v \<leftarrow> set_fd v pa out_fd ha_out;
           Some (Inr (in_fd, out_fd), v)
         }
   }"

section \<open>Reading, writing, seeking\<close>

text \<open>The handle and the file behind a descriptor of the running process.\<close>

definition fd_objects :: "'x vfs \<Rightarrow> int \<Rightarrow> (nat \<times> file_handle \<times> open_file) option kern" where
  "fd_objects v fd = do {
     ha \<leftarrow> handle_by_fd v fd;
     if ha = 0 then Some None
     else do { h \<leftarrow> v_handle_objs v ha; f \<leftarrow> v_files v (h_file h); Some (Some (ha, h, f)) }
   }"

definition vfs_seek :: "int \<Rightarrow> seek_dir \<Rightarrow> u64 \<Rightarrow> 'x vfs \<Rightarrow> (errno \<times> 'x vfs) kern" where
  "vfs_seek fd dir off v = do {
     r \<leftarrow> fd_objects v fd;
     case r of
       None \<Rightarrow> Some (ERR_bad_fd, v)
     | Some (ha, h, f) \<Rightarrow>
         if i_type (f_inode f) = t_pipe then Some (ERR_type, v)
         else do {
           kassert (i_fs (f_inode f) \<noteq> 0);
           let (err, pos) = fs_seek (f_inode f) (h_pos h) dir off;
           v \<leftarrow> upd_handle v ha (\<lambda>h. h\<lparr>h_pos := pos\<rparr>);
           Some (err, v)
         }
   }"

definition advance :: "'x vfs \<Rightarrow> nat \<Rightarrow> int \<Rightarrow> 'x vfs kern" where
  "advance v ha res = (if res < 0 then Some v else upd_handle v ha (\<lambda>h. h\<lparr>h_pos := h_pos h + of_int res\<rparr>))"

definition vfs_read :: "'x hw \<Rightarrow> int \<Rightarrow> nat \<Rightarrow> 'x vfs \<Rightarrow> (int \<times> u8 list \<times> 'x vfs) kern" where
  "vfs_read hw fd nbytes v = do {
     r \<leftarrow> fd_objects v fd;
     case r of
       None \<Rightarrow> Some (ERR_bad_fd, [], v)
     | Some (ha, h, f) \<Rightarrow>
         if has_flag (h_flags h) o_dir then Some (ERR_type, [], v)
         else if \<not> has_flag (h_flags h) o_read then Some (ERR_type, [], v)
         else if nbytes = 0 then Some (0, [], v)
         else do {
           kassert (i_fs (f_inode f) \<noteq> 0);
           (res, bs, v) \<leftarrow> fs_read hw (i_fs (f_inode f)) (f_inode f) (h_pos h) nbytes v;
           v \<leftarrow> advance v ha res;
           Some (res, bs, v)
         }
   }"

definition vfs_write :: "'x hw \<Rightarrow> int \<Rightarrow> u8 list \<Rightarrow> 'x vfs \<Rightarrow> (int \<times> 'x vfs) kern" where
  "vfs_write hw fd buf v = do {
     r \<leftarrow> fd_objects v fd;
     case r of
       None \<Rightarrow> Some (ERR_bad_fd, v)
     | Some (ha, h, f) \<Rightarrow>
         if has_flag (h_flags h) o_dir then Some (ERR_type, v)
         else if \<not> has_flag (h_flags h) o_write then Some (ERR_type, v)
         else if buf = [] then Some (0, v)
         else do {
           kassert (i_fs (f_inode f) \<noteq> 0);
           (res, v) \<leftarrow> fs_write hw (i_fs (f_inode f)) (f_inode f) (h_pos h) buf v;
           v \<leftarrow> advance v ha res;
           Some (res, v)
         }
   }"

text \<open>Entry number \<open>pos\<close> of the root directory: the mounts, counted without the free slots.\<close>

definition root_entry :: "mount_point option list \<Rightarrow> u64 \<Rightarrow> mount_point option" where
  "root_entry ms pos =
     (let xs = List.map_filter (\<lambda>m. m) ms in if unat pos < length xs then Some (xs ! unat pos) else None)"

definition vfs_read_dir :: "'x hw \<Rightarrow> int \<Rightarrow> 'x vfs \<Rightarrow> (int \<times> dir_entry \<times> 'x vfs) kern" where
  "vfs_read_dir hw fd v = do {
     r \<leftarrow> fd_objects v fd;
     case r of
       None \<Rightarrow> Some (ERR_bad_fd, no_entry, v)
     | Some (ha, h, f) \<Rightarrow>
         if \<not> has_flag (h_flags h) o_dir then Some (ERR_type, no_entry, v)
         else if i_fs (f_inode f) = 0 \<and> i_no (f_inode f) = 0 then
           case root_entry (v_mounts v) (h_pos h) of
             None \<Rightarrow> Some (0, no_entry, v)
           | Some m \<Rightarrow> do {
               root \<leftarrow> fs_root_node v (m_fs m);
               v \<leftarrow> upd_handle v ha (\<lambda>h. h\<lparr>h_pos := h_pos h + 1\<rparr>);
               Some (1, \<lparr>de_name = m_name m, de_inode = root\<rparr>, v)
             }
         else do {
           kassert (i_fs (f_inode f) \<noteq> 0);
           (err, pos, e, v) \<leftarrow> fs_read_dir hw (i_fs (f_inode f)) (f_inode f) (h_pos h) v;
           v \<leftarrow> upd_handle v ha (\<lambda>h. h\<lparr>h_pos := pos\<rparr>);
           Some (err, e, v)
         }
   }"

text \<open>\<open>read_all\<close>, \<open>write_all\<close>: \<open>buf\<close> is the buffer, \<open>k\<close> the number of bytes transferred so far.\<close>

function read_all_loop :: "'x hw \<Rightarrow> int \<Rightarrow> nat \<Rightarrow> u8 list \<Rightarrow> nat \<Rightarrow> 'x vfs \<Rightarrow> (int \<times> u8 list \<times> 'x vfs) kern" where
  "read_all_loop hw fd nbytes buf k v =
     (if k \<ge> nbytes then Some (ssize k, buf, v)
      else case vfs_read hw fd (nbytes - k) v of
        None \<Rightarrow> None
      | Some (x, bs, v) \<Rightarrow>
          if x < 0 then Some (x, splice buf k bs, v)
          else if x = 0 then Some (0, splice buf k bs, v)
          else read_all_loop hw fd nbytes (splice buf k bs) (k + nat x) v)"
  by pat_completeness auto
termination
  by (relation "measure (\<lambda>(hw, fd, nbytes, buf, k, v). nbytes - k)") auto

declare read_all_loop.simps [simp del]

definition read_all :: "'x hw \<Rightarrow> int \<Rightarrow> u8 list \<Rightarrow> 'x vfs \<Rightarrow> (int \<times> u8 list \<times> 'x vfs) kern" where
  "read_all hw fd buf v =
     (if length buf > 0x7fffffff then Some (ERR_invalid, buf, v) else read_all_loop hw fd (length buf) buf 0 v)"

partial_function (option) write_all_loop :: "'x hw \<Rightarrow> int \<Rightarrow> u8 list \<Rightarrow> nat \<Rightarrow> 'x vfs \<Rightarrow> (int \<times> 'x vfs) kern" where
  "write_all_loop hw fd buf k v =
     (if k \<ge> length buf then Some (ssize k, v)
      else case vfs_write hw fd (drop k buf) v of
        None \<Rightarrow> None
      | Some (x, v) \<Rightarrow> if x < 0 then Some (x, v) else write_all_loop hw fd buf (k + nat x) v)"

definition write_all :: "'x hw \<Rightarrow> int \<Rightarrow> u8 list \<Rightarrow> 'x vfs \<Rightarrow> (int \<times> 'x vfs) kern" where
  "write_all hw fd buf v =
     (if length buf > 0x7fffffff then Some (ERR_invalid, v) else write_all_loop hw fd buf 0 v)"

section \<open>Operations that no file system has, and start-up\<close>

definition vfs_unlink :: "string \<Rightarrow> 'x vfs \<Rightarrow> int \<times> 'x vfs" where "vfs_unlink path v = (ERR_not_supported, v)"

definition vfs_rmdir :: "string \<Rightarrow> 'x vfs \<Rightarrow> int \<times> 'x vfs" where "vfs_rmdir path v = (ERR_not_supported, v)"

definition vfs_mkdir :: "string \<Rightarrow> 'x vfs \<Rightarrow> int \<times> 'x vfs" where "vfs_mkdir path v = (ERR_not_supported, v)"

definition vfs_rename :: "string \<Rightarrow> string \<Rightarrow> 'x vfs \<Rightarrow> int \<times> 'x vfs" where
  "vfs_rename src dst v = (ERR_not_supported, v)"

text \<open>\<open>init\<close>: the device file system goes to address \<open>da\<close>; the text screen becomes a device.\<close>

definition video_text :: region where
  "video_text = \<lparr>r_start = 0xb8000, r_size = 25 * 80 * 2\<rparr>"

definition vfs_init :: "nat \<Rightarrow> bool \<Rightarrow> 'x vfs \<Rightarrow> 'x vfs kern" where
  "vfs_init da mem_ok v = do {
     kassert (da \<noteq> 0);
     let (err, ms) = mount mem_ok (v_mounts v) da ''dev'';
     kassert (err = 0);
     let (err, devs) = register_device mem_ok new_devfs ''video-text'' (Dev_memory video_text) 0x180;
     Some (v\<lparr>v_fs := (v_fs v)(da \<mapsto> Fs_dev devs), v_mounts := ms\<rparr>)
   }"

end
