(* ===== verification/VfsFiles.thy ===== *)
theory VfsFiles
  imports Vfs
begin

text \<open>
  The bookkeeping of open files. Every file and every handle is registered in the slot that it
  names itself (\<open>open_files\<close>, \<open>handles\<close> and the descriptor table of its process), and the handles of
  a file form one doubly linked list. \<open>registry\<close> is the first property, for any table of slots; a
  table with a lookup and an update is the locale \<open>slot_table\<close>, of which the three tables are
  instances.
\<close>

section \<open>Tables of registered objects\<close>

text \<open>
  \<open>get k\<close> is the address in slot \<open>k\<close> (0 when it is free), \<open>key x\<close> the slot that the object \<open>x\<close> says
  it is in.
\<close>

definition registry :: "('k \<Rightarrow> nat option) \<Rightarrow> (nat \<Rightarrow> 'o option) \<Rightarrow> ('o \<Rightarrow> 'k) \<Rightarrow> bool" where
  "registry get objs key \<longleftrightarrow> objs 0 = None
     \<and> (\<forall>a x. objs a = Some x \<longrightarrow> get (key x) = Some a)
     \<and> (\<forall>k a. get k = Some a \<longrightarrow> a \<noteq> 0 \<longrightarrow> (\<exists>x. objs a = Some x \<and> key x = k))"

lemma registry_null: "registry get objs key \<Longrightarrow> objs 0 = None"
  by (simp add: registry_def)

lemma registry_slot: "registry get objs key \<Longrightarrow> objs a = Some x \<Longrightarrow> get (key x) = Some a \<and> a \<noteq> 0"
  by (cases "a = 0") (auto simp: registry_def)

lemma registry_object: "registry get objs key \<Longrightarrow> get k = Some a \<Longrightarrow> a \<noteq> 0 \<Longrightarrow> \<exists>x. objs a = Some x \<and> key x = k"
  by (simp add: registry_def)

lemma registry_keys: "registry get objs key \<Longrightarrow> map_option key \<circ> objs' = map_option key \<circ> objs \<Longrightarrow>
    registry get objs' key"
proof -
  assume r: "registry get objs key" and e: "map_option key \<circ> objs' = map_option key \<circ> objs"
  have pt: "map_option key (objs' a) = map_option key (objs a)" for a
    using fun_cong [OF e, of a] by simp
  show "registry get objs' key"
    unfolding registry_def
  proof (intro conjI allI impI)
    show "objs' 0 = None" using pt [of 0] registry_null [OF r] by simp
  next
    fix a x assume "objs' a = Some x"
    then obtain y where "objs a = Some y" "key y = key x" using pt [of a] by (cases "objs a") auto
    then show "get (key x) = Some a" using registry_slot [OF r] by metis
  next
    fix k a assume "get k = Some a" "a \<noteq> 0"
    with registry_object [OF r] obtain x where "objs a = Some x" "key x = k" by blast
    then show "\<exists>x. objs' a = Some x \<and> key x = k" using pt [of a] by (cases "objs' a") auto
  qed
qed

lemma registry_update:
  "registry get objs key \<Longrightarrow> objs a = Some x \<Longrightarrow> key y = key x \<Longrightarrow> registry get (objs(a \<mapsto> y)) key"
  by (erule registry_keys) auto

locale slot_table =
  fixes get :: "'s \<Rightarrow> 'k \<Rightarrow> nat option"
    and put :: "'s \<Rightarrow> 'k \<Rightarrow> nat \<Rightarrow> 's option"
  assumes put_defined: "get s k = Some a \<Longrightarrow> \<exists>s'. put s k b = Some s'"
    and get_put: "put s k b = Some s' \<Longrightarrow> get s' j = (if j = k then Some b else get s j)"
begin

lemma register:
  assumes r: "registry (get s) objs key" and free: "get s (key x) = Some 0"
    and fresh: "objs a = None" "a \<noteq> 0"
  shows "\<exists>s'. put s (key x) a = Some s' \<and> registry (get s') (objs(a \<mapsto> x)) key"
proof -
  obtain s' where p: "put s (key x) a = Some s'" using put_defined [OF free] by blast
  have g: "get s' j = (if j = key x then Some a else get s j)" for j using get_put [OF p] .
  have "registry (get s') (objs(a \<mapsto> x)) key"
    unfolding registry_def g
  proof (intro conjI allI impI)
    show "(objs(a \<mapsto> x)) 0 = None" using r fresh by (simp add: registry_null)
  next
    fix b y assume "(objs(a \<mapsto> x)) b = Some y"
    then show "(if key y = key x then Some a else get s (key y)) = Some b"
      using registry_slot [OF r, of b y] free fresh by (auto split: if_splits)
  next
    fix k b assume "(if k = key x then Some a else get s k) = Some b" "b \<noteq> 0"
    then show "\<exists>y. (objs(a \<mapsto> x)) b = Some y \<and> key y = k"
      using registry_object [OF r, of k b] fresh by (auto split: if_splits)
  qed
  with p show ?thesis by blast
qed

lemma unregister:
  assumes r: "registry (get s) objs key" and x: "objs a = Some x"
  shows "\<exists>s'. put s (key x) 0 = Some s' \<and> registry (get s') (objs(a := None)) key"
proof -
  have sl: "get s (key x) = Some a" "a \<noteq> 0" using registry_slot [OF r x] by auto
  obtain s' where p: "put s (key x) 0 = Some s'" using put_defined [OF sl(1)] by blast
  have g: "get s' j = (if j = key x then Some 0 else get s j)" for j using get_put [OF p] .
  have "registry (get s') (objs(a := None)) key"
    unfolding registry_def g
  proof (intro conjI allI impI)
    show "(objs(a := None)) 0 = None" using r by (simp add: registry_null)
  next
    fix b y assume y: "(objs(a := None)) b = Some y"
    then have "objs b = Some y" "b \<noteq> a" by (auto split: if_splits)
    with registry_slot [OF r, of b y] sl
    show "(if key y = key x then Some 0 else get s (key y)) = Some b" by auto
  next
    fix k b assume "(if k = key x then Some 0 else get s k) = Some b" "b \<noteq> 0"
    then have k: "get s k = Some b" "k \<noteq> key x" by (auto split: if_splits)
    with registry_object [OF r k(1) \<open>b \<noteq> 0\<close>] x show "\<exists>y. (objs(a := None)) b = Some y \<and> key y = k"
      by auto
  qed
  with p show ?thesis by blast
qed

end

section \<open>The three tables\<close>

lemma put_slot_defined: "slot xs i = Some a \<Longrightarrow> \<exists>ys. put_slot xs i b = Some ys"
  by (auto simp: slot_def put_slot_def split: if_splits)

lemma slot_put_slot: "put_slot xs i b = Some ys \<Longrightarrow> slot ys j = (if j = i then Some b else slot xs j)"
  by (auto simp: slot_def put_slot_def aset_Some_iff nth_list_update split: if_splits)

definition file_slot :: "'x vfs \<Rightarrow> int \<Rightarrow> nat option" where "file_slot v i = slot (v_open_files v) i"

definition handle_slot :: "'x vfs \<Rightarrow> int \<Rightarrow> nat option" where "handle_slot v i = slot (v_handles v) i"

definition fd_slot :: "'x vfs \<Rightarrow> nat \<times> int \<Rightarrow> nat option" where
  "fd_slot v k = (case procs (v_sched v) (fst k) of None \<Rightarrow> None | Some p \<Rightarrow> slot (p_files p) (snd k))"

interpretation of_table: slot_table file_slot put_open_file
proof unfold_locales
  show "\<exists>s'. put_open_file s k b = Some s'" if "file_slot s k = Some a" for s :: "'x vfs" and k a b
    using put_slot_defined [where b = b] that by (fastforce simp: file_slot_def put_open_file_def bind_Some_iff)
  show "file_slot s' j = (if j = k then Some b else file_slot s j)"
    if "put_open_file s k b = Some s'" for s :: "'x vfs" and k b s' j
    using that by (auto simp: file_slot_def put_open_file_def bind_Some_iff slot_put_slot)
qed

interpretation h_table: slot_table handle_slot put_handle
proof unfold_locales
  show "\<exists>s'. put_handle s k b = Some s'" if "handle_slot s k = Some a" for s :: "'x vfs" and k a b
    using put_slot_defined [where b = b] that by (fastforce simp: handle_slot_def put_handle_def bind_Some_iff)
  show "handle_slot s' j = (if j = k then Some b else handle_slot s j)"
    if "put_handle s k b = Some s'" for s :: "'x vfs" and k b s' j
    using that by (auto simp: handle_slot_def put_handle_def bind_Some_iff slot_put_slot)
qed

interpretation fd_table: slot_table fd_slot "\<lambda>v k a. set_fd v (fst k) (snd k) a"
proof unfold_locales
  show "\<exists>s'. set_fd s (fst k) (snd k) b = Some s'" if "fd_slot s k = Some a" for s :: "'x vfs" and k a b
    using that put_slot_defined [where b = b]
    by (fastforce simp: fd_slot_def set_fd_def upd_proc_def bind_Some_iff split: option.splits)
  show "fd_slot s' j = (if j = k then Some b else fd_slot s j)"
    if "set_fd s (fst k) (snd k) b = Some s'" for s :: "'x vfs" and k b s' j
    using that
    by (auto simp: fd_slot_def set_fd_def upd_proc_def bind_Some_iff slot_put_slot prod_eq_iff
             split: option.splits if_splits)
qed

section \<open>What the updates of one table leave alone\<close>

lemma put_handle_frame:
  "put_handle v i a = Some v' \<Longrightarrow> v_open_files v' = v_open_files v \<and> v_files v' = v_files v
     \<and> v_handle_objs v' = v_handle_objs v \<and> v_sched v' = v_sched v \<and> v_mounts v' = v_mounts v
     \<and> v_fs v' = v_fs v \<and> v_io v' = v_io v \<and> v_pipes v' = v_pipes v"
  by (auto simp: put_handle_def bind_Some_iff)

lemma put_open_file_frame:
  "put_open_file v i a = Some v' \<Longrightarrow> v_handles v' = v_handles v \<and> v_files v' = v_files v
     \<and> v_handle_objs v' = v_handle_objs v \<and> v_sched v' = v_sched v \<and> v_mounts v' = v_mounts v
     \<and> v_fs v' = v_fs v \<and> v_io v' = v_io v \<and> v_pipes v' = v_pipes v"
  by (auto simp: put_open_file_def bind_Some_iff)

lemma set_fd_frame:
  "set_fd v pa i a = Some v' \<Longrightarrow> v_handles v' = v_handles v \<and> v_files v' = v_files v
     \<and> v_handle_objs v' = v_handle_objs v \<and> v_open_files v' = v_open_files v \<and> v_mounts v' = v_mounts v
     \<and> v_fs v' = v_fs v \<and> v_io v' = v_io v \<and> v_pipes v' = v_pipes v
     \<and> current_thread (v_sched v') = current_thread (v_sched v)
     \<and> threads (v_sched v') = threads (v_sched v)"
  by (auto simp: set_fd_def upd_proc_def bind_Some_iff)

section \<open>The handle list of a file\<close>

definition hn :: "(nat \<Rightarrow> file_handle option) \<Rightarrow> nat \<Rightarrow> nat" where
  "hn objs a = (case objs a of Some h \<Rightarrow> h_next h | None \<Rightarrow> 0)"

definition hp :: "(nat \<Rightarrow> file_handle option) \<Rightarrow> nat \<Rightarrow> nat" where
  "hp objs a = (case objs a of Some h \<Rightarrow> h_prev h | None \<Rightarrow> 0)"

definition handle_list :: "(nat \<Rightarrow> file_handle option) \<Rightarrow> open_file \<Rightarrow> nat list \<Rightarrow> bool" where
  "handle_list objs f xs \<longleftrightarrow> distinct xs \<and> 0 \<notin> set xs \<and> links (hn objs) (hp objs) 0 xs 0
     \<and> first_handle f = first_of xs 0 \<and> last_handle f = last_of 0 xs"

text \<open>\<open>L fa\<close> lists the handles of the file at \<open>fa\<close>.\<close>

definition lists_ok :: "(nat \<Rightarrow> open_file option) \<Rightarrow> (nat \<Rightarrow> file_handle option) \<Rightarrow> (nat \<Rightarrow> nat list) \<Rightarrow> bool" where
  "lists_ok files objs L \<longleftrightarrow>
     (\<forall>fa. case files fa of Some f \<Rightarrow> handle_list objs f (L fa) | None \<Rightarrow> L fa = [])
     \<and> (\<forall>fa a. a \<in> set (L fa) \<longleftrightarrow> (\<exists>h. objs a = Some h \<and> h_file h = fa))"

lemma lists_okD: "lists_ok files objs L \<Longrightarrow> files fa = Some f \<Longrightarrow> handle_list objs f (L fa)"
  by (auto simp: lists_ok_def split: option.splits)

lemma lists_ok_none: "lists_ok files objs L \<Longrightarrow> files fa = None \<Longrightarrow> L fa = []"
  by (drule lists_ok_def [THEN iffD1, THEN conjunct1, THEN spec, where x = fa]) simp

lemma lists_ok_member: "lists_ok files objs L \<Longrightarrow> a \<in> set (L fa) \<longleftrightarrow> (\<exists>h. objs a = Some h \<and> h_file h = fa)"
  by (simp add: lists_ok_def)

lemma lists_ok_file: "lists_ok files objs L \<Longrightarrow> objs a = Some h \<Longrightarrow> \<exists>f. files (h_file h) = Some f"
  by (metis empty_iff empty_set lists_ok_member lists_ok_none not_None_eq)

lemma handle_list_cong:
  "\<forall>a \<in> set xs. map_option (\<lambda>h. (h_next h, h_prev h)) (objs' a) = map_option (\<lambda>h. (h_next h, h_prev h)) (objs a) \<Longrightarrow>
     handle_list objs f xs \<Longrightarrow> handle_list objs' f xs"
proof -
  assume same: "\<forall>a \<in> set xs. map_option (\<lambda>h. (h_next h, h_prev h)) (objs' a) = map_option (\<lambda>h. (h_next h, h_prev h)) (objs a)"
    and h: "handle_list objs f xs"
  have "hn objs' a = hn objs a \<and> hp objs' a = hp objs a" if "a \<in> set xs" for a
    using same [rule_format, OF that] by (cases "objs a"; cases "objs' a") (auto simp: hn_def hp_def)
  then have "links (hn objs') (hp objs') 0 xs 0 = links (hn objs) (hp objs) 0 xs 0"
    by (intro links_cong) auto
  with h show ?thesis by (simp add: handle_list_def)
qed

text \<open>A change that concerns one file only.\<close>

lemma lists_ok_change:
  assumes ok: "lists_ok files objs L" and new: "handle_list objs' f' xs'"
    and others: "\<And>fb a. fb \<noteq> fa \<Longrightarrow> a \<in> set (L fb) \<Longrightarrow> objs' a = objs a"
    and member: "\<And>a. a \<in> set xs' \<longleftrightarrow> (\<exists>h. objs' a = Some h \<and> h_file h = fa)"
    and belongs: "\<And>fb a h. fb \<noteq> fa \<Longrightarrow> objs' a = Some h \<Longrightarrow> h_file h = fb \<Longrightarrow> a \<in> set (L fb)"
  shows "lists_ok (files(fa \<mapsto> f')) objs' (L(fa := xs'))"
  unfolding lists_ok_def
proof (intro conjI allI)
  fix fb
  show "case (files(fa \<mapsto> f')) fb of Some f \<Rightarrow> handle_list objs' f ((L(fa := xs')) fb) | None \<Rightarrow> (L(fa := xs')) fb = []"
  proof (cases "fb = fa")
    case False
    have "handle_list objs' f (L fb)" if "files fb = Some f" for f
      by (rule handle_list_cong [OF _ lists_okD [OF ok that]]) (use others [OF False] in auto)
    with False lists_ok_none [OF ok, of fb] show ?thesis by (auto split: option.splits)
  qed (use new in simp)
next
  fix fb a
  show "a \<in> set ((L(fa := xs')) fb) \<longleftrightarrow> (\<exists>h. objs' a = Some h \<and> h_file h = fb)"
  proof (cases "fb = fa")
    case False
    have "a \<in> set (L fb) \<Longrightarrow> \<exists>h. objs' a = Some h \<and> h_file h = fb"
      using others [OF False] lists_ok_member [OF ok, of a fb] by auto
    with belongs [OF False] False show ?thesis by auto
  qed (use member in simp)
qed

text \<open>The parts of handles and files that the list operations leave alone.\<close>

definition hcore :: "file_handle \<Rightarrow> file_handle" where "hcore h = h\<lparr>h_prev := 0, h_next := 0\<rparr>"

definition fcore :: "open_file \<Rightarrow> open_file" where "fcore f = f\<lparr>first_handle := 0, last_handle := 0\<rparr>"

definition vrest :: "'x vfs \<Rightarrow> 'x vfs" where "vrest v = v\<lparr>v_files := (\<lambda>a. None), v_handle_objs := (\<lambda>a. None)\<rparr>"

definition same_cores :: "'x vfs \<Rightarrow> 'x vfs \<Rightarrow> bool" where
  "same_cores v v' \<longleftrightarrow> vrest v' = vrest v
     \<and> map_option hcore \<circ> v_handle_objs v' = map_option hcore \<circ> v_handle_objs v
     \<and> map_option fcore \<circ> v_files v' = map_option fcore \<circ> v_files v"

lemma lists_append:
  assumes ok: "lists_ok files objs L" and f: "files fa = Some f"
    and fresh: "objs ha = None" "ha \<noteq> 0"
    and h: "h_file h = fa" "h_next h = 0" "L fa = [] \<longrightarrow> h_prev h = 0"
  shows "if L fa = [] then last_handle f = 0 \<and>
           lists_ok (files(fa \<mapsto> f\<lparr>first_handle := ha, last_handle := ha\<rparr>)) (objs(ha \<mapsto> h)) (L(fa := [ha]))
         else last_handle f = last (L fa) \<and> last (L fa) \<noteq> 0 \<and> last (L fa) \<noteq> ha \<and>
           (\<exists>hl. objs (last (L fa)) = Some hl \<and>
             lists_ok (files(fa \<mapsto> f\<lparr>last_handle := ha\<rparr>))
               (objs(last (L fa) \<mapsto> hl\<lparr>h_next := ha\<rparr>, ha \<mapsto> h\<lparr>h_prev := last (L fa)\<rparr>)) (L(fa := L fa @ [ha])))"
proof -
  have hl: "handle_list objs f (L fa)" by (rule lists_okD [OF ok f])
  have new: "ha \<notin> set (L fb)" for fb using lists_ok_member [OF ok, of ha fb] fresh by simp
  show ?thesis
  proof (cases "L fa = []")
    case True
    then have none: "objs a = Some x \<Longrightarrow> h_file x \<noteq> fa" for a x
      using lists_ok_member [OF ok, of a fa] by auto
    have "lists_ok (files(fa \<mapsto> f\<lparr>first_handle := ha, last_handle := ha\<rparr>)) (objs(ha \<mapsto> h)) (L(fa := [ha]))"
    proof (rule lists_ok_change [OF ok])
      show "handle_list (objs(ha \<mapsto> h)) (f\<lparr>first_handle := ha, last_handle := ha\<rparr>) [ha]"
        using fresh h True by (simp add: handle_list_def hn_def hp_def)
    qed (use new h none lists_ok_member [OF ok] in \<open>auto split: if_splits\<close>)
    with True hl show ?thesis by (simp add: handle_list_def)
  next
    case False
    define y where "y = last (L fa)"
    have y: "y \<in> set (L fa)" using False by (simp add: y_def)
    then obtain hy where hy: "objs y = Some hy" "h_file hy = fa" using lists_ok_member [OF ok] by auto
    have y0: "y \<noteq> 0" "y \<noteq> ha" using hl y new [of fa] by (cases "y = 0"; auto simp: handle_list_def)+
    have "last_handle f = y" using hl False by (simp add: handle_list_def last_of_def y_def)
    note y0 = y0 this
    let ?o = "objs(y \<mapsto> hy\<lparr>h_next := ha\<rparr>, ha \<mapsto> h\<lparr>h_prev := y\<rparr>)"
    have "lists_ok (files(fa \<mapsto> f\<lparr>last_handle := ha\<rparr>)) ?o (L(fa := L fa @ [ha]))"
    proof (rule lists_ok_change [OF ok])
      have "links ((hn objs)(y := ha)) (hp objs) 0 (L fa) ha"
        unfolding y_def by (rule links_change_after) (use hl False in \<open>auto simp: handle_list_def\<close>)
      moreover have "links (hn ?o) (hp ?o) 0 (L fa) ha = links ((hn objs)(y := ha)) (hp objs) 0 (L fa) ha"
        by (rule links_cong) (use new [of fa] hy in \<open>auto simp: hn_def hp_def\<close>)
      ultimately show "handle_list ?o (f\<lparr>last_handle := ha\<rparr>) (L fa @ [ha])"
        using hl new [of fa] fresh h False
        by (auto simp: handle_list_def links_snoc hn_def hp_def last_of_def y_def first_of_append neq_Nil_conv)
    next
      fix fb a assume "fb \<noteq> fa" "a \<in> set (L fb)"
      then show "?o a = objs a" using new [of fb] lists_ok_member [OF ok, of a fb] hy by auto
    next
      fix a show "a \<in> set (L fa @ [ha]) \<longleftrightarrow> (\<exists>x. ?o a = Some x \<and> h_file x = fa)"
        using lists_ok_member [OF ok, of a fa] hy h by auto
    next
      fix fb a x assume "fb \<noteq> fa" "?o a = Some x" "h_file x = fb"
      then show "a \<in> set (L fb)" using lists_ok_member [OF ok, of a fb] hy h by (auto split: if_splits)
    qed
    with False y0 hy show ?thesis by (auto simp: y_def)
  qed
qed

lemma same_cores_refl: "same_cores v v"
  by (simp add: same_cores_def)

lemma same_cores_trans: "same_cores u v \<Longrightarrow> same_cores v w \<Longrightarrow> same_cores u w"
  by (simp add: same_cores_def)

lemma upd_handle_cores:
  assumes "v_handle_objs v a = Some h" "\<And>h. hcore (g h) = hcore h"
  shows "upd_handle v a g = Some (v\<lparr>v_handle_objs := (v_handle_objs v)(a \<mapsto> g h)\<rparr>)
    \<and> same_cores v (v\<lparr>v_handle_objs := (v_handle_objs v)(a \<mapsto> g h)\<rparr>)"
  using assms by (auto simp: upd_handle_def same_cores_def vrest_def fun_eq_iff)

lemma upd_file_cores:
  assumes "v_files v a = Some f" "\<And>f. fcore (g f) = fcore f"
  shows "upd_file v a g = Some (v\<lparr>v_files := (v_files v)(a \<mapsto> g f)\<rparr>)
    \<and> same_cores v (v\<lparr>v_files := (v_files v)(a \<mapsto> g f)\<rparr>)"
  using assms by (auto simp: upd_file_def same_cores_def vrest_def fun_eq_iff)

lemma append_handle_ok:
  assumes ok: "lists_ok (v_files v) objs L" and objs: "v_handle_objs v = objs(ha \<mapsto> h)"
    and fresh: "objs ha = None" "ha \<noteq> 0"
    and h: "h_file h = fa" "h_next h = 0" "L fa = [] \<longrightarrow> h_prev h = 0" and f: "v_files v fa = Some f"
  shows "\<exists>v'. append_handle v fa ha = Some v'
    \<and> lists_ok (v_files v') (v_handle_objs v') (L(fa := L fa @ [ha])) \<and> same_cores v v'"
proof -
  note a = lists_append [OF ok f fresh h]
  show ?thesis
  proof (cases "L fa = []")
    case True
    with a objs f upd_file_cores [OF f, of "\<lambda>f. f\<lparr>first_handle := ha, last_handle := ha\<rparr>"]
    show ?thesis by (auto simp: append_handle_def fcore_def)
  next
    case False
    define y where "y = last (L fa)"
    from a False obtain hl where y: "last_handle f = y" "y \<noteq> 0" "y \<noteq> ha" "objs y = Some hl"
      and l: "lists_ok ((v_files v)(fa \<mapsto> f\<lparr>last_handle := ha\<rparr>))
               (objs(y \<mapsto> hl\<lparr>h_next := ha\<rparr>, ha \<mapsto> h\<lparr>h_prev := y\<rparr>)) (L(fa := L fa @ [ha]))"
      by (auto simp: y_def)
    let ?v1 = "v\<lparr>v_handle_objs := objs(ha \<mapsto> h, y \<mapsto> hl\<lparr>h_next := ha\<rparr>)\<rparr>"
    let ?v2 = "v\<lparr>v_handle_objs := objs(y \<mapsto> hl\<lparr>h_next := ha\<rparr>, ha \<mapsto> h\<lparr>h_prev := y\<rparr>)\<rparr>"
    let ?v3 = "?v2\<lparr>v_files := (v_files v)(fa \<mapsto> f\<lparr>last_handle := ha\<rparr>)\<rparr>"
    have 1: "upd_handle v y (\<lambda>h. h\<lparr>h_next := ha\<rparr>) = Some ?v1 \<and> same_cores v ?v1"
      using upd_handle_cores [of v y hl "\<lambda>h. h\<lparr>h_next := ha\<rparr>"] y objs by (simp add: hcore_def)
    have tw: "objs(ha \<mapsto> h, y \<mapsto> hl\<lparr>h_next := ha\<rparr>, ha \<mapsto> h\<lparr>h_prev := y\<rparr>)
        = objs(y \<mapsto> hl\<lparr>h_next := ha\<rparr>, ha \<mapsto> h\<lparr>h_prev := y\<rparr>)" by auto
    have 2: "upd_handle ?v1 ha (\<lambda>h. h\<lparr>h_prev := y\<rparr>) = Some ?v2 \<and> same_cores ?v1 ?v2"
      using upd_handle_cores [of ?v1 ha h "\<lambda>h. h\<lparr>h_prev := y\<rparr>"] y by (simp add: hcore_def tw)
    have 3: "upd_file ?v2 fa (\<lambda>f. f\<lparr>last_handle := ha\<rparr>) = Some ?v3 \<and> same_cores ?v2 ?v3"
      using upd_file_cores [of ?v2 fa f "\<lambda>f. f\<lparr>last_handle := ha\<rparr>"] f by (simp add: fcore_def)
    have "append_handle v fa ha = Some ?v3"
      using f y 1 2 3 by (simp add: append_handle_def)
    moreover have "same_cores v ?v3" using 1 2 3 same_cores_trans by blast
    ultimately show ?thesis using l by auto
  qed
qed

lemma lists_remove:
  assumes ok: "lists_ok files objs L" and h: "objs ha = Some h" and f: "files (h_file h) = Some f"
    and p: "pv = h_prev h" and n: "nx = h_next h"
    and o1: "objs1 = (if pv = 0 then objs else objs(pv \<mapsto> (the (objs pv))\<lparr>h_next := nx\<rparr>))"
    and o2: "objs2 = (if nx = 0 then objs1 else objs1(nx \<mapsto> (the (objs nx))\<lparr>h_prev := pv\<rparr>))"
    and f': "f' = f\<lparr>first_handle := (if first_handle f = ha then nx else first_handle f),
                   last_handle := (if last_handle f = ha then pv else last_handle f)\<rparr>"
  shows "(pv \<noteq> 0 \<longrightarrow> objs pv \<noteq> None) \<and> (nx \<noteq> 0 \<longrightarrow> objs nx \<noteq> None) \<and> pv \<noteq> ha \<and> nx \<noteq> ha \<and> (pv \<noteq> 0 \<longrightarrow> pv \<noteq> nx)
    \<and> lists_ok (files(h_file h \<mapsto> f')) (objs2(ha := None)) (L(h_file h := remove1 ha (L (h_file h))))"
proof -
  define fa where "fa = h_file h"
  have hl: "handle_list objs f (L fa)" using lists_okD [OF ok f] by (simp add: fa_def)
  have "ha \<in> set (L fa)" using lists_ok_member [OF ok] h by (simp add: fa_def)
  then obtain xs ys where L: "L fa = xs @ ha # ys" by (meson split_list)
  have d: "distinct (xs @ ha # ys)" "0 \<notin> set (xs @ ha # ys)" and lk: "links (hn objs) (hp objs) 0 (xs @ ha # ys) 0"
    and fl: "first_handle f = first_of (xs @ ha # ys) 0" "last_handle f = last_of 0 (xs @ ha # ys)"
    using hl by (auto simp: handle_list_def L)
  have pv: "pv = last_of 0 xs" and nx: "nx = first_of ys 0"
    using lk h p n by (auto simp: links_append links_Cons hp_def hn_def)
  have mem: "\<exists>x. objs a = Some x \<and> h_file x = fa" if "a \<in> set (xs @ ha # ys)" for a
    using lists_ok_member [OF ok, of a fa] that by (simp add: L)
  have pv_in: "pv \<noteq> 0 \<Longrightarrow> pv \<in> set xs" using last_of_in [of 0 xs] pv by auto
  have nx_in: "nx \<noteq> 0 \<Longrightarrow> nx \<in> set ys" using first_of_in [of ys 0] nx by auto
  have ne: "pv \<noteq> ha" "nx \<noteq> ha" "pv \<noteq> 0 \<longrightarrow> pv \<noteq> nx"
    using pv_in nx_in d by (cases "pv = 0"; cases "nx = 0"; auto)+
  have rm: "remove1 ha (L fa) = xs @ ys" using d by (simp add: L remove1_append)
  let ?o = "objs2(ha := None)"
  have pvo: "pv \<noteq> 0 \<Longrightarrow> \<exists>x. objs pv = Some x \<and> h_file x = fa" using pv_in mem by auto
  have nxo: "nx \<noteq> 0 \<Longrightarrow> \<exists>x. objs nx = Some x \<and> h_file x = fa" using nx_in mem by auto
  have out: "?o a = objs a" if "a \<notin> set (xs @ ha # ys)" for a
    using that pv_in nx_in by (auto simp: o1 o2 split: if_splits)
  have fil: "map_option h_file (?o a) = (if a = ha then None else map_option h_file (objs a))" for a
    using pvo nxo ne by (auto simp: o1 o2)
  have key: "(\<exists>x. ?o a = Some x \<and> h_file x = fb) \<longleftrightarrow> a \<noteq> ha \<and> (\<exists>x. objs a = Some x \<and> h_file x = fb)" for a fb
    using fil [of a] by (cases "?o a"; cases "objs a") (auto split: if_splits)
  have "lists_ok (files(fa \<mapsto> f')) ?o (L(fa := xs @ ys))"
  proof (rule lists_ok_change [OF ok])
    have "links ((hn objs)(last_of 0 xs := first_of ys 0)) ((hp objs)(first_of ys 0 := last_of 0 xs)) 0 (xs @ ys) 0"
      by (rule links_remove [OF lk d(1) d(2) d(2)])
    moreover have "links (hn ?o) (hp ?o) 0 (xs @ ys) 0
        = links ((hn objs)(last_of 0 xs := first_of ys 0)) ((hp objs)(first_of ys 0 := last_of 0 xs)) 0 (xs @ ys) 0"
    proof (rule links_cong)
      fix a assume "a \<in> set (xs @ ys)"
      then have a: "a \<noteq> 0" "a \<noteq> ha" using d by (cases "a = 0"; auto)+
      show "hn ?o a = ((hn objs)(last_of 0 xs := first_of ys 0)) a"
        using a pvo nxo ne by (auto simp: hn_def o1 o2 pv [symmetric] nx [symmetric])
      show "hp ?o a = ((hp objs)(first_of ys 0 := last_of 0 xs)) a"
        using a pvo nxo ne by (auto simp: hp_def o1 o2 pv [symmetric] nx [symmetric])
    qed
    ultimately have l: "links (hn ?o) (hp ?o) 0 (xs @ ys) 0" by simp
    have "first_handle f' = first_of (xs @ ys) 0"
      using fl d by (cases xs) (auto simp: f' nx)
    moreover have "last_handle f' = last_of 0 (xs @ ys)"
      using fl d by (cases ys rule: rev_cases) (auto simp: f' pv last_of_append)
    ultimately show "handle_list ?o f' (xs @ ys)"
      using d l by (auto simp: handle_list_def)
  next
    fix fb a assume "fb \<noteq> fa" "a \<in> set (L fb)"
    then have "a \<notin> set (xs @ ha # ys)" using lists_ok_member [OF ok, of a fb] mem [of a] by auto
    then show "?o a = objs a" by (rule out)
  next
    fix a show "a \<in> set (xs @ ys) \<longleftrightarrow> (\<exists>x. ?o a = Some x \<and> h_file x = fa)"
      using key [of a fa] lists_ok_member [OF ok, of a fa] d(1) by (auto simp: L)
  next
    fix fb a x assume "fb \<noteq> fa" "?o a = Some x" "h_file x = fb"
    then have "a \<noteq> ha \<and> (\<exists>x. objs a = Some x \<and> h_file x = fb)" using key [of a fb] by blast
    then show "a \<in> set (L fb)" using lists_ok_member [OF ok, of a fb] by simp
  qed
  with pvo nxo ne rm show ?thesis by (auto simp: fa_def)
qed

text \<open>A list unlinking step, as a state.\<close>

lemma upd_handle_opt_cores:
  assumes "a \<noteq> 0 \<longrightarrow> v_handle_objs v a \<noteq> None" "\<And>h. hcore (g h) = hcore h"
  shows "upd_handle_opt v a g = Some (v\<lparr>v_handle_objs := (if a = 0 then v_handle_objs v
          else (v_handle_objs v)(a \<mapsto> g (the (v_handle_objs v a))))\<rparr>)
    \<and> same_cores v (v\<lparr>v_handle_objs := (if a = 0 then v_handle_objs v
          else (v_handle_objs v)(a \<mapsto> g (the (v_handle_objs v a))))\<rparr>)"
  using assms upd_handle_cores [of v a _ g] same_cores_refl [of v] by (auto simp: upd_handle_opt_def)

lemma unlink_handle_ok:
  assumes ok: "lists_ok (v_files v) (v_handle_objs v) L" and h: "v_handle_objs v ha = Some h"
  shows "\<exists>v'. unlink_handle v ha = Some v' \<and> same_cores v v'
    \<and> lists_ok (v_files v') ((v_handle_objs v')(ha := None)) (L(h_file h := remove1 ha (L (h_file h))))"
proof -
  obtain f where f: "v_files v (h_file h) = Some f" using lists_ok_file [OF ok h] by blast
  let ?p = "h_prev h" and ?n = "h_next h"
  let ?o1 = "if ?p = 0 then v_handle_objs v else (v_handle_objs v)(?p \<mapsto> (the (v_handle_objs v ?p))\<lparr>h_next := ?n\<rparr>)"
  let ?o2 = "if ?n = 0 then ?o1 else ?o1(?n \<mapsto> (the (v_handle_objs v ?n))\<lparr>h_prev := ?p\<rparr>)"
  define f1 where "f1 = (if first_handle f = ha then f\<lparr>first_handle := ?n\<rparr> else f)"
  define f2 where "f2 = (if last_handle f1 = ha then f1\<lparr>last_handle := ?p\<rparr> else f1)"
  have r: "(?p \<noteq> 0 \<longrightarrow> v_handle_objs v ?p \<noteq> None) \<and> (?n \<noteq> 0 \<longrightarrow> v_handle_objs v ?n \<noteq> None)
      \<and> ?p \<noteq> ha \<and> ?n \<noteq> ha \<and> (?p \<noteq> 0 \<longrightarrow> ?p \<noteq> ?n)
    \<and> lists_ok ((v_files v)(h_file h \<mapsto> f2)) (?o2(ha := None)) (L(h_file h := remove1 ha (L (h_file h))))"
    by (rule lists_remove [OF ok h f refl refl refl refl]) (simp add: f1_def f2_def)
  let ?v1 = "v\<lparr>v_handle_objs := ?o1\<rparr>"
  let ?v2 = "v\<lparr>v_handle_objs := ?o2\<rparr>"
  let ?v3 = "?v2\<lparr>v_files := (v_files v)(h_file h \<mapsto> f1)\<rparr>"
  let ?v4 = "?v2\<lparr>v_files := (v_files v)(h_file h \<mapsto> f2)\<rparr>"
  have 1: "upd_handle_opt v ?p (\<lambda>x. x\<lparr>h_next := ?n\<rparr>) = Some ?v1 \<and> same_cores v ?v1"
    by (rule upd_handle_opt_cores) (use r in \<open>auto simp: hcore_def\<close>)
  have o1: "v_handle_objs ?v1 ha = Some h" using r h by simp
  have "upd_handle_opt ?v1 ?n (\<lambda>x. x\<lparr>h_prev := ?p\<rparr>)
      = Some (?v1\<lparr>v_handle_objs := (if ?n = 0 then v_handle_objs ?v1
          else (v_handle_objs ?v1)(?n \<mapsto> (the (v_handle_objs ?v1 ?n))\<lparr>h_prev := ?p\<rparr>))\<rparr>)
    \<and> same_cores ?v1 (?v1\<lparr>v_handle_objs := (if ?n = 0 then v_handle_objs ?v1
          else (v_handle_objs ?v1)(?n \<mapsto> (the (v_handle_objs ?v1 ?n))\<lparr>h_prev := ?p\<rparr>))\<rparr>)"
    by (rule upd_handle_opt_cores) (use r in \<open>auto simp: hcore_def\<close>)
  moreover have "?v1\<lparr>v_handle_objs := (if ?n = 0 then v_handle_objs ?v1
          else (v_handle_objs ?v1)(?n \<mapsto> (the (v_handle_objs ?v1 ?n))\<lparr>h_prev := ?p\<rparr>))\<rparr> = ?v2"
    using r by auto
  ultimately have 2: "upd_handle_opt ?v1 ?n (\<lambda>x. x\<lparr>h_prev := ?p\<rparr>) = Some ?v2 \<and> same_cores ?v1 ?v2"
    by metis
  have o2: "v_handle_objs ?v2 ha = Some h" using r h by simp
  have 3: "upd_file ?v2 (h_file h) (\<lambda>f. if first_handle f = ha then f\<lparr>first_handle := ?n\<rparr> else f) = Some ?v3
      \<and> same_cores ?v2 ?v3"
    using upd_file_cores [of ?v2 "h_file h" f "\<lambda>f. if first_handle f = ha then f\<lparr>first_handle := ?n\<rparr> else f"] f
    by (simp add: fcore_def f1_def)
  have 4: "upd_file ?v3 (h_file h) (\<lambda>f. if last_handle f = ha then f\<lparr>last_handle := ?p\<rparr> else f) = Some ?v4
      \<and> same_cores ?v3 ?v4"
    using upd_file_cores [of ?v3 "h_file h" f1 "\<lambda>f. if last_handle f = ha then f\<lparr>last_handle := ?p\<rparr> else f"] f
    by (simp add: fcore_def f2_def)
  have step: "unlink_handle v ha = Some v4"
    if "upd_handle_opt v ?p (\<lambda>x. x\<lparr>h_next := ?n\<rparr>) = Some v1" "v_handle_objs v1 ha = Some h"
      "upd_handle_opt v1 ?n (\<lambda>x. x\<lparr>h_prev := ?p\<rparr>) = Some v2" "v_handle_objs v2 ha = Some h"
      "upd_file v2 (h_file h) (\<lambda>f. if first_handle f = ha then f\<lparr>first_handle := ?n\<rparr> else f) = Some v3"
      "upd_file v3 (h_file h) (\<lambda>f. if last_handle f = ha then f\<lparr>last_handle := ?p\<rparr> else f) = Some v4"
    for v1 v2 v3 v4
    unfolding unlink_handle_def using h that by simp
  have "unlink_handle v ha = Some ?v4"
    by (rule step [OF conjunct1 [OF 1] o1 conjunct1 [OF 2] o2 conjunct1 [OF 3] conjunct1 [OF 4]])
  moreover have "same_cores v ?v4" using 1 2 3 4 same_cores_trans by blast
  ultimately show ?thesis using r by auto
qed

section \<open>The invariant\<close>

definition vfs_ok :: "'x vfs \<Rightarrow> (nat \<Rightarrow> nat list) \<Rightarrow> bool" where
  "vfs_ok v L \<longleftrightarrow> registry (file_slot v) (v_files v) file_i
     \<and> registry (handle_slot v) (v_handle_objs v) handle_i
     \<and> registry (fd_slot v) (v_handle_objs v) (\<lambda>h. (h_proc h, h_procfd h))
     \<and> lists_ok (v_files v) (v_handle_objs v) L"

text \<open>Every open file has a handle: nothing leaks.\<close>

definition no_leak :: "'x vfs \<Rightarrow> (nat \<Rightarrow> nat list) \<Rightarrow> bool" where
  "no_leak v L \<longleftrightarrow> (\<forall>fa f. v_files v fa = Some f \<longrightarrow> L fa \<noteq> [])"

lemma vfs_okD:
  assumes "vfs_ok v L"
  shows "registry (file_slot v) (v_files v) file_i"
    and "registry (handle_slot v) (v_handle_objs v) handle_i"
    and "registry (fd_slot v) (v_handle_objs v) (\<lambda>h. (h_proc h, h_procfd h))"
    and "lists_ok (v_files v) (v_handle_objs v) L"
  using assms by (simp_all add: vfs_ok_def)

text \<open>What a descriptor stands for: the path and the inode of the file, the flags and the position.\<close>

definition fd_view :: "'x vfs \<Rightarrow> nat \<times> int \<Rightarrow> (string \<times> inode \<times> u32 \<times> u64) option" where
  "fd_view v k = (case fd_slot v k of None \<Rightarrow> None | Some a \<Rightarrow>
     (case v_handle_objs v a of None \<Rightarrow> None | Some h \<Rightarrow>
       (case v_files v (h_file h) of None \<Rightarrow> None
        | Some f \<Rightarrow> Some (f_path f, f_inode f, h_flags h, h_pos h))))"

text \<open>The same, with the cores of the objects only.\<close>

definition core_view :: "('k \<Rightarrow> nat option) \<Rightarrow> (nat \<Rightarrow> file_handle option) \<Rightarrow> (nat \<Rightarrow> open_file option) \<Rightarrow>
    'k \<Rightarrow> (string \<times> inode \<times> u32 \<times> u64) option" where
  "core_view get ho fo k = (case get k of None \<Rightarrow> None | Some a \<Rightarrow>
     (case ho a of None \<Rightarrow> None | Some h \<Rightarrow>
       (case fo (h_file h) of None \<Rightarrow> None
        | Some f \<Rightarrow> Some (f_path f, f_inode f, h_flags h, h_pos h))))"

lemma fcore_simps: "file_i (fcore f) = file_i f" "f_path (fcore f) = f_path f" "f_inode (fcore f) = f_inode f"
  by (simp_all add: fcore_def)

lemma hcore_simps: "handle_i (hcore h) = handle_i h" "h_file (hcore h) = h_file h" "h_flags (hcore h) = h_flags h"
  "h_pos (hcore h) = h_pos h" "h_proc (hcore h) = h_proc h" "h_procfd (hcore h) = h_procfd h"
  by (simp_all add: hcore_def)

lemma fd_view_core:
  "fd_view v = core_view (fd_slot v) (map_option hcore \<circ> v_handle_objs v) (map_option fcore \<circ> v_files v)"
  by (rule ext) (simp add: fd_view_def core_view_def hcore_simps fcore_simps split: option.splits)

lemma vrest_eqD:
  assumes "vrest v' = vrest v"
  shows "v_open_files v' = v_open_files v" "v_handles v' = v_handles v" "v_mounts v' = v_mounts v"
    "v_fs v' = v_fs v" "v_io v' = v_io v" "v_sched v' = v_sched v" "v_pipes v' = v_pipes v"
  using arg_cong [OF assms, of v_open_files] arg_cong [OF assms, of v_handles]
    arg_cong [OF assms, of v_mounts] arg_cong [OF assms, of v_fs] arg_cong [OF assms, of v_io]
    arg_cong [OF assms, of v_sched] arg_cong [OF assms, of v_pipes]
  by (simp_all add: vrest_def)

lemma map_core_key:
  "map_option c \<circ> g' = map_option c \<circ> g \<Longrightarrow> (\<And>x. key (c x) = key x) \<Longrightarrow> map_option key \<circ> g' = map_option key \<circ> g"
proof -
  assume e: "map_option c \<circ> g' = map_option c \<circ> g" and k: "\<And>x. key (c x) = key x"
  show ?thesis
  proof (rule ext)
    fix a
    have "map_option c (g' a) = map_option c (g a)" using fun_cong [OF e, of a] by simp
    then show "(map_option key \<circ> g') a = (map_option key \<circ> g) a"
      by (cases "g a"; cases "g' a") (auto dest: arg_cong [where f = key] simp: k)
  qed
qed

lemma registry_core:
  "registry get objs key \<Longrightarrow> map_option c \<circ> objs' = map_option c \<circ> objs \<Longrightarrow> (\<And>x. key (c x) = key x) \<Longrightarrow>
     registry get objs' key"
  by (rule registry_keys [OF _ map_core_key])

lemma same_cores_registries:
  assumes s: "same_cores v v'"
  shows "registry (file_slot v) (v_files v) file_i \<Longrightarrow> registry (file_slot v') (v_files v') file_i"
    and "registry (handle_slot v) (v_handle_objs v) handle_i \<Longrightarrow> registry (handle_slot v') (v_handle_objs v') handle_i"
    and "registry (fd_slot v) (v_handle_objs v) (\<lambda>h. (h_proc h, h_procfd h)) \<Longrightarrow>
         registry (fd_slot v') (v_handle_objs v') (\<lambda>h. (h_proc h, h_procfd h))"
    and "fd_view v' = fd_view v"
proof -
  from s have r: "vrest v' = vrest v"
    and h: "map_option hcore \<circ> v_handle_objs v' = map_option hcore \<circ> v_handle_objs v"
    and f: "map_option fcore \<circ> v_files v' = map_option fcore \<circ> v_files v" by (simp_all add: same_cores_def)
  have sl: "file_slot v' = file_slot v" "handle_slot v' = handle_slot v" "fd_slot v' = fd_slot v"
    by (rule ext, simp add: file_slot_def handle_slot_def fd_slot_def vrest_eqD [OF r])+
  show "registry (file_slot v) (v_files v) file_i \<Longrightarrow> registry (file_slot v') (v_files v') file_i"
    unfolding sl by (erule registry_core [OF _ f]) (rule fcore_simps)
  show "registry (handle_slot v) (v_handle_objs v) handle_i \<Longrightarrow> registry (handle_slot v') (v_handle_objs v') handle_i"
    unfolding sl by (erule registry_core [OF _ h]) (rule hcore_simps)
  show "registry (fd_slot v) (v_handle_objs v) (\<lambda>h. (h_proc h, h_procfd h)) \<Longrightarrow>
         registry (fd_slot v') (v_handle_objs v') (\<lambda>h. (h_proc h, h_procfd h))"
    unfolding sl by (erule registry_core [OF _ h]) (simp add: hcore_simps)
  show "fd_view v' = fd_view v" unfolding fd_view_core sl h f ..
qed

text \<open>What the operations on descriptors leave alone.\<close>

definition same_backing :: "'x vfs \<Rightarrow> 'x vfs \<Rightarrow> bool" where
  "same_backing v v' \<longleftrightarrow> v_mounts v' = v_mounts v \<and> v_fs v' = v_fs v \<and> v_io v' = v_io v
     \<and> v_pipes v' = v_pipes v \<and> current_thread (v_sched v') = current_thread (v_sched v)
     \<and> threads (v_sched v') = threads (v_sched v)"

lemma same_backing_refl [simp]: "same_backing v v"
  by (simp add: same_backing_def)

lemma same_backing_trans: "same_backing u v \<Longrightarrow> same_backing v w \<Longrightarrow> same_backing u w"
  by (simp add: same_backing_def)

lemma fd_view_null: "registry (fd_slot v) (v_handle_objs v) g \<Longrightarrow> fd_slot v k = Some 0 \<Longrightarrow> fd_view v k = None"
  by (auto simp: fd_view_def dest: registry_null)

lemma attach_handle_ok:
  assumes ok: "vfs_ok v L" and fresh: "v_handle_objs v ha = None" "ha \<noteq> 0"
    and free: "handle_slot v (handle_i h) = Some 0" "fd_slot v (h_proc h, h_procfd h) = Some 0"
    and f: "v_files v (h_file h) = Some f" and h: "h_next h = 0" "L (h_file h) = [] \<longrightarrow> h_prev h = 0"
  shows "\<exists>v'. attach_handle (v\<lparr>v_handle_objs := (v_handle_objs v)(ha \<mapsto> h)\<rparr>)
        (handle_i h) (h_file h) ha (h_proc h) (h_procfd h) = Some v'
    \<and> vfs_ok v' (L(h_file h := L (h_file h) @ [ha])) \<and> same_backing v v'
    \<and> fd_view v' = (fd_view v)((h_proc h, h_procfd h) \<mapsto> (f_path f, f_inode f, h_flags h, h_pos h))
    \<and> map_option fcore \<circ> v_files v' = map_option fcore \<circ> v_files v"
proof -
  note r = vfs_okD [OF ok]
  let ?objs = "(v_handle_objs v)(ha \<mapsto> h)"
  let ?v1 = "v\<lparr>v_handle_objs := ?objs\<rparr>"
  let ?key = "\<lambda>h. (h_proc h, h_procfd h)"
  have s1: "handle_slot ?v1 = handle_slot v" by (rule ext) (simp add: handle_slot_def)
  from h_table.register [of ?v1 "v_handle_objs v" handle_i h ha] r(2) free(1) fresh s1
  obtain v2 where p2: "put_handle ?v1 (handle_i h) ha = Some v2"
    and r2: "registry (handle_slot v2) ?objs handle_i" by auto
  note fr2 = put_handle_frame [OF p2]
  have "\<exists>v3. append_handle v2 (h_file h) ha = Some v3
      \<and> lists_ok (v_files v3) (v_handle_objs v3) (L(h_file h := L (h_file h) @ [ha])) \<and> same_cores v2 v3"
    by (rule append_handle_ok [where objs = "v_handle_objs v" and h = h and f = f])
      (use r(4) fr2 fresh h f in auto)
  then obtain v3 where p3: "append_handle v2 (h_file h) ha = Some v3"
    and l3: "lists_ok (v_files v3) (v_handle_objs v3) (L(h_file h := L (h_file h) @ [ha]))"
    and c3: "same_cores v2 v3" by blast
  have c3': "map_option hcore \<circ> v_handle_objs v3 = map_option hcore \<circ> ?objs"
    "map_option fcore \<circ> v_files v3 = map_option fcore \<circ> v_files v" "vrest v3 = vrest v2"
    using c3 fr2 by (simp_all add: same_cores_def)
  have sched3: "v_sched v3 = v_sched v" using vrest_eqD [OF c3'(3)] fr2 by simp
  then have s3: "fd_slot v3 = fd_slot v" by (intro ext) (simp add: fd_slot_def)
  from fd_table.register [of v3 "v_handle_objs v" ?key h ha] r(3) free(2) fresh s3
  obtain v4 where p4: "set_fd v3 (h_proc h) (h_procfd h) ha = Some v4"
    and r4: "registry (fd_slot v4) ?objs ?key" by auto
  note fr4 = set_fd_frame [OF p4]
  have s4: "fd_slot v4 k = (if k = ?key h then Some ha else fd_slot v k)" for k
    using fd_table.get_put [of v3 "?key h" ha v4 k] p4 s3 by simp
  have c4: "map_option hcore \<circ> v_handle_objs v4 = map_option hcore \<circ> ?objs"
    "map_option fcore \<circ> v_files v4 = map_option fcore \<circ> v_files v"
    using c3' fr4 by simp_all
  have "vfs_ok v4 (L(h_file h := L (h_file h) @ [ha]))"
    unfolding vfs_ok_def
  proof (intro conjI)
    have "file_slot v4 = file_slot v"
      using fr2 fr4 vrest_eqD [OF c3'(3)] by (intro ext) (simp add: file_slot_def)
    with registry_core [OF r(1) c4(2)]
    show "registry (file_slot v4) (v_files v4) file_i" by (simp add: fcore_simps)
  next
    have "handle_slot v4 = handle_slot v2"
      using fr4 vrest_eqD [OF c3'(3)] by (intro ext) (simp add: handle_slot_def)
    with registry_core [OF r2 c4(1)]
    show "registry (handle_slot v4) (v_handle_objs v4) handle_i" by (simp add: hcore_simps)
  next
    from registry_core [OF r4 c4(1)]
    show "registry (fd_slot v4) (v_handle_objs v4) ?key" by (simp add: hcore_simps)
  next
    show "lists_ok (v_files v4) (v_handle_objs v4) (L(h_file h := L (h_file h) @ [ha]))" using l3 fr4 by simp
  qed
  moreover have "same_backing v v4"
    using fr2 fr4 vrest_eqD [OF c3'(3)] by (simp add: same_backing_def)
  moreover have "fd_view v4 = (fd_view v)(?key h \<mapsto> (f_path f, f_inode f, h_flags h, h_pos h))"
  proof (rule ext)
    fix k
    have other: "a \<noteq> ha" if "fd_slot v k = Some a" "a \<noteq> 0" for a
      using registry_object [OF r(3) that] fresh by auto
    have "core_view (fd_slot v4) (map_option hcore \<circ> ?objs) (map_option fcore \<circ> v_files v) k
        = ((core_view (fd_slot v) (map_option hcore \<circ> v_handle_objs v) (map_option fcore \<circ> v_files v))
             (?key h \<mapsto> (f_path f, f_inode f, h_flags h, h_pos h))) k"
      using f other fresh by (auto simp: core_view_def s4 hcore_simps fcore_simps split: option.splits)
    then show "fd_view v4 k = ((fd_view v)(?key h \<mapsto> (f_path f, f_inode f, h_flags h, h_pos h))) k"
      by (simp only: fd_view_core c4)
  qed
  moreover have "attach_handle ?v1 (handle_i h) (h_file h) ha (h_proc h) (h_procfd h) = Some v4"
    using p2 p3 p4 by (simp add: attach_handle_def)
  ultimately show ?thesis using c4(2) by blast
qed

lemma lists_ok_delete:
  assumes ok: "lists_ok files objs L" and "L fa = []"
  shows "lists_ok (files(fa := None)) objs L"
proof -
  have "case (files(fa := None)) fb of Some f \<Rightarrow> handle_list objs f (L fb) | None \<Rightarrow> L fb = []" for fb
    using assms lists_okD [OF ok, of fb] lists_ok_none [OF ok, of fb] by (cases "files fb") auto
  with ok show ?thesis by (simp add: lists_ok_def)
qed

lemma delete_file_ok:
  assumes ok: "vfs_ok v L" and f: "v_files v fa = Some f" and empty: "L fa = []"
  shows "\<exists>v'. delete_file v fa = Some v' \<and> vfs_ok v' L \<and> v_files v' = (v_files v)(fa := None)
    \<and> v_handle_objs v' = v_handle_objs v \<and> fd_view v' = fd_view v \<and> v_sched v' = v_sched v
    \<and> v_mounts v' = v_mounts v \<and> v_fs v' = v_fs v \<and> v_io v' = v_io v \<and> v_handles v' = v_handles v
    \<and> v_pipes v' = (if i_type (f_inode f) = t_pipe then remove1 (unat (i_no (f_inode f))) (v_pipes v) else v_pipes v)"
proof -
  note r = vfs_okD [OF ok]
  let ?v1 = "if i_type (f_inode f) = t_pipe
     then v\<lparr>v_pipes := remove1 (unat (i_no (f_inode f))) (v_pipes v)\<rparr> else v"
  have s1: "file_slot ?v1 = file_slot v" by (rule ext) (simp add: file_slot_def)
  from of_table.unregister [of ?v1 "v_files v" file_i fa f] r(1) f s1
  obtain v2 where p2: "put_open_file ?v1 (file_i f) 0 = Some v2"
    and r2: "registry (file_slot v2) ((v_files v)(fa := None)) file_i" by auto
  note fr = put_open_file_frame [OF p2]
  let ?v3 = "v2\<lparr>v_files := (v_files v)(fa := None)\<rparr>"
  have nofile: "h_file h \<noteq> fa" if "v_handle_objs v a = Some h" for a h
    using lists_ok_member [OF r(4), of a fa] that empty by auto
  have "delete_file v fa = Some ?v3" using f p2 fr by (simp add: delete_file_def)
  moreover have "vfs_ok ?v3 L"
    unfolding vfs_ok_def
  proof (intro conjI)
    have "file_slot ?v3 = file_slot v2" by (rule ext) (simp add: file_slot_def)
    with r2 show "registry (file_slot ?v3) (v_files ?v3) file_i" by simp
    have "handle_slot ?v3 = handle_slot v" using fr by (intro ext) (simp add: handle_slot_def)
    with r(2) fr show "registry (handle_slot ?v3) (v_handle_objs ?v3) handle_i" by simp
    have "fd_slot ?v3 = fd_slot v" using fr by (intro ext) (simp add: fd_slot_def)
    with r(3) fr show "registry (fd_slot ?v3) (v_handle_objs ?v3) (\<lambda>h. (h_proc h, h_procfd h))" by simp
    show "lists_ok (v_files ?v3) (v_handle_objs ?v3) L"
      using lists_ok_delete [where fa = fa, OF r(4) empty] fr by simp
  qed
  moreover have "fd_view ?v3 = fd_view v"
  proof (rule ext)
    fix k
    have "fd_slot ?v3 k = fd_slot v k" using fr by (simp add: fd_slot_def)
    then show "fd_view ?v3 k = fd_view v k" using fr nofile by (auto simp: fd_view_def split: option.splits)
  qed
  ultimately show ?thesis using fr by auto
qed

lemma remove1_emptyD: "remove1 x xs = [] \<Longrightarrow> x \<in> set xs \<Longrightarrow> xs = [x]"
  by (cases xs) (auto split: if_splits)

lemma detach_handle_ok:
  assumes ok: "vfs_ok v L" and h: "v_handle_objs v ha = Some h"
  shows "\<exists>v1 v2 v3 f. set_fd v (h_proc h) (h_procfd h) 0 = Some v1 \<and> v_handle_objs v1 ha = Some h
    \<and> put_handle v1 (handle_i h) 0 = Some v2 \<and> unlink_handle v2 ha = Some v3
    \<and> (let v4 = v3\<lparr>v_handle_objs := (v_handle_objs v3)(ha := None)\<rparr> in
         vfs_ok v4 (L(h_file h := remove1 ha (L (h_file h)))) \<and> same_backing v v4
         \<and> fd_view v4 = (fd_view v)((h_proc h, h_procfd h) := None)
         \<and> map_option fcore \<circ> v_files v4 = map_option fcore \<circ> v_files v
         \<and> v_files v4 (h_file h) = Some f \<and> first_handle f = first_of (remove1 ha (L (h_file h))) 0
         \<and> 0 \<notin> set (L (h_file h)) \<and> ha \<in> set (L (h_file h)))"
proof -
  note r = vfs_okD [OF ok]
  let ?key = "\<lambda>h. (h_proc h, h_procfd h)" and ?objs = "(v_handle_objs v)(ha := None)"
  let ?L = "L(h_file h := remove1 ha (L (h_file h)))"
  from fd_table.unregister [OF r(3) h] obtain v1 where
    p1: "set_fd v (h_proc h) (h_procfd h) 0 = Some v1" and r1: "registry (fd_slot v1) ?objs ?key" by auto
  note fr1 = set_fd_frame [OF p1]
  have s1: "handle_slot v1 = handle_slot v" using fr1 by (intro ext) (simp add: handle_slot_def)
  from h_table.unregister [of v1 "v_handle_objs v" handle_i ha h] r(2) h s1 obtain v2 where
    p2: "put_handle v1 (handle_i h) 0 = Some v2" and r2: "registry (handle_slot v2) ?objs handle_i" by auto
  note fr2 = put_handle_frame [OF p2]
  have "\<exists>v3. unlink_handle v2 ha = Some v3 \<and> same_cores v2 v3
    \<and> lists_ok (v_files v3) ((v_handle_objs v3)(ha := None)) ?L"
    by (rule unlink_handle_ok) (use r(4) h fr1 fr2 in simp_all)
  then obtain v3 where p3: "unlink_handle v2 ha = Some v3" and c3: "same_cores v2 v3"
    and l3: "lists_ok (v_files v3) ((v_handle_objs v3)(ha := None)) ?L" by blast
  let ?v4 = "v3\<lparr>v_handle_objs := (v_handle_objs v3)(ha := None)\<rparr>"
  have vr: "vrest v3 = vrest v2" and hc: "map_option hcore \<circ> v_handle_objs v3 = map_option hcore \<circ> v_handle_objs v"
    and fc: "map_option fcore \<circ> v_files v3 = map_option fcore \<circ> v_files v"
    using c3 fr1 fr2 by (simp_all add: same_cores_def)
  have hc4: "map_option hcore \<circ> v_handle_objs ?v4 = map_option hcore \<circ> ?objs"
    using fun_cong [OF hc] by (auto simp: fun_eq_iff)
  have sl: "file_slot ?v4 = file_slot v" "handle_slot ?v4 = handle_slot v2" "fd_slot ?v4 = fd_slot v1"
    using vrest_eqD [OF vr] fr1 fr2
    by (intro ext, simp add: file_slot_def handle_slot_def fd_slot_def)+
  have "vfs_ok ?v4 ?L"
    unfolding vfs_ok_def sl
    using registry_core [OF r(1) fc] registry_core [OF r2 hc4] registry_core [OF r1 hc4] l3
    by (simp add: fcore_simps hcore_simps)
  moreover have "same_backing v ?v4"
    using vrest_eqD [OF vr] fr1 fr2 by (simp add: same_backing_def)
  moreover have "fd_view ?v4 = (fd_view v)(?key h := None)"
  proof (rule ext)
    fix k
    have s: "fd_slot v1 k = (if k = ?key h then Some 0 else fd_slot v k)"
      using fd_table.get_put [of v "?key h" 0 v1 k] p1 by simp
    have "v_handle_objs v 0 = None" "ha \<noteq> 0" using registry_null [OF r(3)] h by (auto intro: ccontr)
    moreover have "a \<noteq> ha" if "fd_slot v k = Some a" "k \<noteq> ?key h" for a
      using registry_object [OF r(3) that(1)] that(2) h \<open>ha \<noteq> 0\<close> by auto
    ultimately have "core_view (fd_slot v1) (map_option hcore \<circ> ?objs) (map_option fcore \<circ> v_files v) k
        = ((core_view (fd_slot v) (map_option hcore \<circ> v_handle_objs v) (map_option fcore \<circ> v_files v))(?key h := None)) k"
      by (auto simp: core_view_def s hcore_simps fcore_simps split: option.splits)
    moreover have "fd_view ?v4 k
        = core_view (fd_slot v1) (map_option hcore \<circ> ?objs) (map_option fcore \<circ> v_files v) k"
      using fc by (simp only: fd_view_core sl hc4) simp
    ultimately show "fd_view ?v4 k = ((fd_view v)(?key h := None)) k" by (simp only: fd_view_core)
  qed
  moreover have mem: "ha \<in> set (L (h_file h))" using lists_ok_member [OF r(4)] h by blast
  moreover obtain f0 where f0: "v_files v (h_file h) = Some f0" using lists_ok_file [OF r(4) h] by blast
  moreover obtain f where f: "v_files v3 (h_file h) = Some f"
    using fun_cong [OF fc, of "h_file h"] f0 by (cases "v_files v3 (h_file h)") auto
  moreover have "first_handle f = first_of (remove1 ha (L (h_file h))) 0"
    using lists_okD [OF l3 f] by (simp add: handle_list_def)
  moreover have "0 \<notin> set (L (h_file h))" using lists_okD [OF r(4) f0] by (simp add: handle_list_def)
  ultimately show ?thesis using p1 p2 p3 fc fr1 h by (auto simp: Let_def)
qed

end
