(* ===== verification/VfsOpen.thy ===== *)
theory VfsOpen
  imports VfsFiles ReadyQueue
begin

text \<open>
  What opening, duplicating and closing a descriptor do to the files of a process, over the view
  \<open>fd_view\<close> of a descriptor table: each operation is one update of a map from descriptors to open
  files, keeps the bookkeeping of VfsFiles intact, and leaks no open file. \<open>close\<close>
  waits while a thread holds the lock of the handle.
\<close>

section \<open>Closing\<close>

lemma running_fd_slot:
  "running_proc v = Some (pa, p) \<Longrightarrow> fd_slot v (pa, fd) = slot (p_files p) fd"
  by (auto simp: running_proc_def fd_slot_def bind_Some_iff split: if_splits)

lemma handle_by_fd_slot:
  "running_proc v = Some (pa, p) \<Longrightarrow>
     handle_by_fd v fd = Some (case fd_slot v (pa, fd) of Some a \<Rightarrow> a | None \<Rightarrow> 0)"
  by (simp add: handle_by_fd_def running_fd_slot)

text \<open>Whether a thread holds the lock of the handle behind a descriptor.\<close>

definition fd_locked :: "'x vfs \<Rightarrow> nat \<times> int \<Rightarrow> bool" where
  "fd_locked v k = (case fd_slot v k of
     None \<Rightarrow> False
   | Some ha \<Rightarrow> ha \<noteq> 0 \<and> (case v_handle_objs v ha of None \<Rightarrow> False | Some h \<Rightarrow> h_locked h))"

lemma fd_lockedE:
  assumes "fd_locked v k"
  obtains ha h where "fd_slot v k = Some ha" "ha \<noteq> 0" "v_handle_objs v ha = Some h" "h_locked h"
  using assms by (auto simp: fd_locked_def split: option.splits)

lemma vfs_close_waits:
  assumes "running_proc v = Some (pa, p)" "fd_locked v (pa, fd)"
  shows "\<exists>ha. fd_slot v (pa, fd) = Some ha \<and> vfs_close fd v = Some (Inl ha, v)"
  using assms(2)
  by (rule fd_lockedE) (use assms(1) in \<open>auto simp: vfs_close_def handle_by_fd_slot\<close>)

lemma vfs_close_cases:
  assumes ok: "vfs_ok v L" and leak: "no_leak v L" and rp: "running_proc v = Some (pa, p)"
    and sl: "fd_slot v (pa, fd) = Some ha" "ha \<noteq> 0" and ul: "\<not> fd_locked v (pa, fd)"
  shows "\<exists>v' L'. vfs_close fd v = Some (Inr ERR_success, v') \<and> vfs_ok v' L' \<and> no_leak v' L'
    \<and> fd_view v' = (fd_view v)((pa, fd) := None)
    \<and> v_mounts v' = v_mounts v \<and> v_fs v' = v_fs v \<and> v_io v' = v_io v"
proof -
  from registry_object [OF vfs_okD(3) [OF ok] sl] obtain h where
    h: "v_handle_objs v ha = Some h" and key: "h_proc h = pa" "h_procfd h = fd" by auto
  have nl: "\<not> h_locked h" using ul sl h by (simp add: fd_locked_def)
  let ?fa = "h_file h" and ?L = "L(h_file h := remove1 ha (L (h_file h)))"
  from detach_handle_ok [OF ok h] obtain v1 v2 v3 f where
    p: "set_fd v pa fd 0 = Some v1" "v_handle_objs v1 ha = Some h"
      "put_handle v1 (handle_i h) 0 = Some v2" "unlink_handle v2 ha = Some v3"
    and d: "let v4 = v3\<lparr>v_handle_objs := (v_handle_objs v3)(ha := None)\<rparr> in
         vfs_ok v4 ?L \<and> same_backing v v4 \<and> fd_view v4 = (fd_view v)((pa, fd) := None)
         \<and> map_option fcore \<circ> v_files v4 = map_option fcore \<circ> v_files v
         \<and> v_files v4 ?fa = Some f \<and> first_handle f = first_of (remove1 ha (L ?fa)) 0
         \<and> 0 \<notin> set (L ?fa) \<and> ha \<in> set (L ?fa)"
    by (auto simp: key)
  define v4 where "v4 = v3\<lparr>v_handle_objs := (v_handle_objs v3)(ha := None)\<rparr>"
  from d have v4: "vfs_ok v4 ?L" "same_backing v v4" "fd_view v4 = (fd_view v)((pa, fd) := None)"
    "map_option fcore \<circ> v_files v4 = map_option fcore \<circ> v_files v" "v_files v4 ?fa = Some f"
    "first_handle f = first_of (remove1 ha (L ?fa)) 0" "0 \<notin> set (L ?fa)"
    unfolding v4_def [symmetric] Let_def by blast+
  have start: "vfs_close fd v = (do {
      v \<leftarrow> (if first_handle f = 0 then delete_file v4 ?fa else Some v4); Some (Inr ERR_success, v) })"
  proof -
    have "v_files v3 ?fa = Some f" using v4(5) by (simp add: v4_def)
    then show ?thesis using p sl rp h nl unfolding vfs_close_def handle_by_fd_slot [OF rp]
      by (simp add: v4_def [symmetric])
  qed
  have dom: "\<exists>g. v_files v a = Some g" if "v_files v4 a = Some g'" for a g'
    using fun_cong [OF v4(4), of a] that by (cases "v_files v a") auto
  show ?thesis
  proof (cases "remove1 ha (L ?fa) = []")
    case True
    from delete_file_ok [OF v4(1,5)] True obtain v5 where
      v5: "delete_file v4 ?fa = Some v5" "vfs_ok v5 ?L" "v_files v5 = (v_files v4)(?fa := None)"
        "fd_view v5 = fd_view v4" "v_mounts v5 = v_mounts v4" "v_fs v5 = v_fs v4" "v_io v5 = v_io v4" by auto
    have "no_leak v5 ?L" using leak dom v5(3) by (auto simp: no_leak_def split: if_splits)
    with start v5 v4 True show ?thesis by (auto simp: same_backing_def)
  next
    case False
    have "first_handle f \<in> set (L ?fa)"
      using False v4(6) set_remove1_subset [of ha "L ?fa"] by (cases "remove1 ha (L ?fa)") auto
    with v4(7) have "first_handle f \<noteq> 0" by metis
    moreover have "no_leak v4 ?L" using leak dom False by (auto simp: no_leak_def)
    ultimately show ?thesis using start v4 by (auto simp: same_backing_def)
  qed
qed

section \<open>Looking up a path touches the file systems only\<close>

definition same_tables :: "'x vfs \<Rightarrow> 'x vfs \<Rightarrow> bool" where
  "same_tables v v' \<longleftrightarrow> v_open_files v' = v_open_files v \<and> v_handles v' = v_handles v
     \<and> v_mounts v' = v_mounts v \<and> v_files v' = v_files v \<and> v_handle_objs v' = v_handle_objs v
     \<and> v_sched v' = v_sched v \<and> v_pipes v' = v_pipes v"

lemma same_tables_refl [simp]: "same_tables v v"
  by (simp add: same_tables_def)

lemma same_tables_trans: "same_tables u v \<Longrightarrow> same_tables v w \<Longrightarrow> same_tables u w"
  by (simp add: same_tables_def)

lemma same_tables_upd [simp]: "same_tables v (v\<lparr>v_fs := x, v_io := y\<rparr>)" "same_tables v (v\<lparr>v_io := y\<rparr>)"
  by (simp_all add: same_tables_def)

lemma fs_read_dir_tables: "fs_read_dir hw a inode pos v = Some (n, pos', e, v') \<Longrightarrow> same_tables v v'"
  by (cases "v_fs v a"; cases "the (v_fs v a)") (auto simp: fs_read_dir_def bind_Some_iff split: prod.splits)

lemma lookup_loop_inv:
  assumes "lookup_loop read_dir name i s = Some (err, ino, s')"
    and "\<forall>i s n i' e s'. read_dir i s = Some (n, i', e, s') \<longrightarrow> R s s'"
    and trans: "\<And>s t u. R s t \<Longrightarrow> R t u \<Longrightarrow> R s u"
  shows "R s s'"
  using assms(1,2)
proof (induction read_dir name i s "(err, ino, s')" rule: lookup_loop.raw_induct [rotated, consumes 1, case_names step])
  case (step lp rd name i s)
  from step(2) obtain n i' e t where rd: "rd i s = Some (n, i', e, t)" by (auto split: option.splits)
  with step(3) have "R s t" by blast
  moreover have "t = s' \<or> R t s'" using step rd by (auto split: if_splits)
  ultimately show ?case using trans by blast
qed

lemma fs_lookup_tables: "fs_lookup hw a inode name v = Some (err, dest, v') \<Longrightarrow> same_tables v v'"
proof -
  assume e: "fs_lookup hw a inode name v = Some (err, dest, v')"
  then obtain x where x: "v_fs v a = Some x" by (auto simp: fs_lookup_def bind_Some_iff)
  show ?thesis
  proof (cases x)
    case (Fs_dev d)
    with e x show ?thesis by (auto simp: fs_lookup_def bind_Some_iff)
  next
    case (Fs_fat f)
    with e x have "lookup_loop (fs_read_dir hw a inode) name 0 v = Some (err, dest, v')"
      by (simp add: fs_lookup_def default_lookup_def)
    then show ?thesis
      by (rule lookup_loop_inv) (blast intro: fs_read_dir_tables same_tables_trans)+
  qed
qed

lemma lookup_path_tables: "lookup_path hw a node dest path v = Some (err, dest', v') \<Longrightarrow> same_tables v v'"
proof (induction hw a node dest path v rule: lookup_path.induct)
  case (1 hw a node dest path v)
  show ?case
  proof (cases "path = []")
    case True
    with "1.prems" show ?thesis by (simp add: lookup_path.simps split: if_splits)
  next
    case False
    let ?c = "first_component path"
    from "1.prems" False obtain e d w where a: "a \<noteq> 0" and l: "fs_lookup hw a node ?c v = Some (e, d, w)"
      and nx: "if e \<noteq> 0 then w = v' else
        lookup_path hw a d d (str_pop_front (length ?c + 1) path) w = Some (err, dest', v')"
      by (subst (asm) lookup_path.simps) (auto simp: bind_Some_iff Let_def split: if_splits)
    have "same_tables w v'" if "e = 0"
      using "1.IH" [OF False refl _ l refl refl] a nx that by simp
    with fs_lookup_tables [OF l] nx show ?thesis by (auto intro: same_tables_trans split: if_splits)
  qed
qed

lemma get_inode_tables: "get_inode hw path v = Some (err, dest, v') \<Longrightarrow> same_tables v v'"
  by (auto simp: get_inode_def lookup_def bind_Some_iff Let_def split: if_splits option.splits
      dest: lookup_path_tables)

lemma same_tables_ok:
  assumes "same_tables v v'"
  shows "vfs_ok v' L = vfs_ok v L" "no_leak v' L = no_leak v L" "fd_view v' = fd_view v"
    "running_proc v' = running_proc v" "handle_slot v' = handle_slot v" "fd_slot v' = fd_slot v"
    "file_slot v' = file_slot v"
proof -
  have s: "file_slot v' = file_slot v" "handle_slot v' = handle_slot v" "fd_slot v' = fd_slot v"
    using assms by (intro ext, simp add: file_slot_def handle_slot_def fd_slot_def same_tables_def)+
  then show "file_slot v' = file_slot v" "handle_slot v' = handle_slot v" "fd_slot v' = fd_slot v" by auto
  show "vfs_ok v' L = vfs_ok v L" "no_leak v' L = no_leak v L"
    using assms by (simp_all add: vfs_ok_def no_leak_def s same_tables_def)
  show "fd_view v' = fd_view v" unfolding fd_view_core s using assms by (simp add: same_tables_def)
  show "running_proc v' = running_proc v" using assms by (simp add: running_proc_def same_tables_def)
qed

section \<open>Errors are negative\<close>

lemma ERR_negative [simp]:
  "ERR_limit < 0" "ERR_not_exists < 0" "ERR_type < 0" "ERR_perm < 0" "ERR_bad_fd < 0" "ERR_nomem < 0"
  "ERR_success = 0" "ERR_not_exists \<le> 0"
  by (simp_all add: ERR_limit_def ERR_not_exists_def ERR_type_def ERR_perm_def ERR_bad_fd_def
      ERR_nomem_def ERR_success_def)

lemma lookup_loop_err: "lookup_loop rd name i s = Some (err, ino, s') \<Longrightarrow> err \<le> 0"
proof (induction rd name i s "(err, ino, s')" rule: lookup_loop.raw_induct [rotated, consumes 1, case_names step])
  case (step lp rd name i s)
  then show ?case by (auto split: option.splits if_splits intro: less_imp_le)
qed

lemma fs_lookup_err: "fs_lookup hw a inode name v = Some (err, dest, v') \<Longrightarrow> err \<le> 0"
proof -
  assume e: "fs_lookup hw a inode name v = Some (err, dest, v')"
  then obtain x where x: "v_fs v a = Some x" by (auto simp: fs_lookup_def bind_Some_iff)
  with e show ?thesis
    by (cases x) (auto simp: fs_lookup_def default_lookup_def devfs_lookup_def bind_Some_iff Let_def
        split: if_splits intro: less_imp_le dest: lookup_loop_err)
qed

lemma lookup_path_err: "lookup_path hw a node dest path v = Some (err, dest', v') \<Longrightarrow> err \<le> 0"
proof (induction hw a node dest path v rule: lookup_path.induct)
  case (1 hw a node dest path v)
  show ?case
  proof (cases "path = []")
    case True
    with "1.prems" show ?thesis by (simp add: lookup_path.simps split: if_splits)
  next
    case False
    let ?c = "first_component path"
    from "1.prems" False obtain e d w where a: "a \<noteq> 0" and l: "fs_lookup hw a node ?c v = Some (e, d, w)"
      and nx: "if e \<noteq> 0 then e = err else
        lookup_path hw a d d (str_pop_front (length ?c + 1) path) w = Some (err, dest', v')"
      by (subst (asm) lookup_path.simps) (auto simp: bind_Some_iff Let_def split: if_splits)
    have "err \<le> 0" if "e = 0"
      using "1.IH" [OF False refl _ l refl refl] a nx that by simp
    with fs_lookup_err [OF l] nx show ?thesis by (auto split: if_splits)
  qed
qed

lemma get_inode_err: "get_inode hw path v = Some (err, dest, v') \<Longrightarrow> err \<le> 0"
  by (auto simp: get_inode_def lookup_def bind_Some_iff Let_def split: if_splits option.splits
      dest: lookup_path_err intro: less_imp_le)

lemma open_check_err: "open_check ino flags \<le> 0"
  by (auto simp: open_check_def intro: less_imp_le)

section \<open>Opening\<close>

lemma index_or_slot:
  "index_or e (find_index P xs) = i \<Longrightarrow> 0 \<le> i \<Longrightarrow> e < 0 \<Longrightarrow> \<exists>a. slot xs i = Some a \<and> P a"
  by (auto simp: index_or_def slot_def split: option.splits dest: find_index_Some)

lemma index_or_neg: "index_or e r < 0 \<longleftrightarrow> r = None \<and> e < 0"
  by (auto simp: index_or_def split: option.splits)

lemma alloc_handle_free: "0 \<le> alloc_handle_i v \<Longrightarrow> handle_slot v (alloc_handle_i v) = Some 0"
  using index_or_slot [of ERR_limit "\<lambda>a. a = 0" "v_handles v"] by (auto simp: alloc_handle_i_def handle_slot_def)

lemma alloc_file_free: "0 \<le> alloc_file_i v \<Longrightarrow> file_slot v (alloc_file_i v) = Some 0"
  using index_or_slot [of ERR_limit "\<lambda>a. a = 0" "v_open_files v"] by (auto simp: alloc_file_i_def file_slot_def)

lemma first_free_fd_slot: "0 \<le> first_free_fd fs \<Longrightarrow> 3 \<le> first_free_fd fs \<and> slot fs (first_free_fd fs) = Some 0"
proof -
  assume "0 \<le> first_free_fd fs"
  then obtain i where i: "find_index (\<lambda>a. a = 0) (drop 3 fs) = Some i" and e: "first_free_fd fs = int (i + 3)"
    by (auto simp: first_free_fd_def index_or_def ERR_limit_def split: option.splits)
  have "nat (int i + 3) = 3 + i" "nat (3 + int i) = 3 + i" by arith+
  with find_index_Some [OF i] show ?thesis by (auto simp: e slot_def add.commute [of i 3])
qed

lemma alloc_numbers_ok:
  assumes rp: "running_proc v = Some (pa, p)" and n: "alloc_numbers v fd = Some (Inr (pa', i, fd'))"
  shows "pa' = pa \<and> handle_slot v i = Some 0 \<and> fd_slot v (pa, fd') = Some 0 \<and> 0 \<le> fd' \<and> (0 \<le> fd \<longrightarrow> fd' = fd)"
  using n alloc_handle_free [of v] first_free_fd_slot [of "p_files p"]
  by (auto simp: alloc_numbers_def alloc_proc_handle_i_def rp running_fd_slot [OF rp] Let_def
      split: if_splits)

lemma alloc_numbers_err: "alloc_numbers v fd = Some (Inl e) \<Longrightarrow> e < 0"
  by (auto simp: alloc_numbers_def bind_Some_iff Let_def split: if_splits)

lemma create_file_ok:
  assumes ok: "vfs_ok v L" and fresh: "v_files v fa = None" "fa \<noteq> 0"
    and free: "file_slot v (file_i f) = Some 0" and f: "first_handle f = 0" "last_handle f = 0"
  shows "\<exists>v'. put_open_file (v\<lparr>v_files := (v_files v)(fa \<mapsto> f)\<rparr>) (file_i f) fa = Some v' \<and> vfs_ok v' L
    \<and> v_files v' = (v_files v)(fa \<mapsto> f) \<and> v_handle_objs v' = v_handle_objs v \<and> fd_view v' = fd_view v
    \<and> handle_slot v' = handle_slot v \<and> fd_slot v' = fd_slot v \<and> same_backing v v'"
proof -
  note r = vfs_okD [OF ok]
  let ?v1 = "v\<lparr>v_files := (v_files v)(fa \<mapsto> f)\<rparr>"
  have s1: "file_slot ?v1 = file_slot v" by (rule ext) (simp add: file_slot_def)
  from of_table.register [of ?v1 "v_files v" file_i f fa] r(1) free fresh s1 obtain v2 where
    p2: "put_open_file ?v1 (file_i f) fa = Some v2" and r2: "registry (file_slot v2) ((v_files v)(fa \<mapsto> f)) file_i"
    by auto
  note fr = put_open_file_frame [OF p2]
  have sl: "handle_slot v2 = handle_slot v" "fd_slot v2 = fd_slot v"
    using fr by (intro ext, simp add: handle_slot_def fd_slot_def)+
  have empty: "L fa = []" by (rule lists_ok_none [OF r(4) fresh(1)])
  have "lists_ok ((v_files v)(fa \<mapsto> f)) (v_handle_objs v) L"
    using r(4) empty f lists_okD [OF r(4)] lists_ok_none [OF r(4)]
    by (auto simp: lists_ok_def handle_list_def split: option.splits)
  then have "vfs_ok v2 L" using r2 r(2,3) fr by (simp add: vfs_ok_def sl)
  moreover have "fd_view v2 = fd_view v"
  proof (rule ext)
    fix k
    have "h_file h \<noteq> fa" if "v_handle_objs v a = Some h" for a h
      using lists_ok_member [OF r(4), of a fa] that empty by auto
    then show "fd_view v2 k = fd_view v k" using fr by (auto simp: fd_view_def sl split: option.splits)
  qed
  ultimately show ?thesis using p2 fr sl by (auto simp: same_backing_def)
qed

lemma find_open_file_found:
  assumes ok: "vfs_ok v L" and i: "0 \<le> find_open_file v path"
  shows "\<exists>a f. slot (v_open_files v) (find_open_file v path) = Some a \<and> a \<noteq> 0 \<and> v_files v a = Some f \<and> f_path f = path"
proof -
  from index_or_slot [of "-1" "has_path v path" "v_open_files v" "find_open_file v path"] i
  obtain a where "slot (v_open_files v) (find_open_file v path) = Some a" "has_path v path a"
    by (auto simp: find_open_file_def)
  then show ?thesis by (auto simp: has_path_def split: if_splits option.splits)
qed

text \<open>The file that \<open>open\<close> goes on with has the path asked for; nothing was registered yet.\<close>

lemma find_or_make_ok:
  assumes ok: "vfs_ok v L" and r: "find_or_make hw path v = Some (r, w)"
  shows "same_tables v w \<and> (case r of Inl err \<Rightarrow> err < 0
    | Inr (a, i, f) \<Rightarrow> f_path f = path \<and>
        (if a = 0 then file_slot v i = Some 0 \<and> first_handle f = 0 \<and> last_handle f = 0
         else v_files v a = Some f))"
proof (cases "0 \<le> find_open_file v path")
  case True
  from find_open_file_found [OF ok True] obtain a f where
    "slot (v_open_files v) (find_open_file v path) = Some a" "a \<noteq> 0" "v_files v a = Some f" "f_path f = path"
    by blast
  with True r show ?thesis by (auto simp: find_or_make_def)
next
  case False
  show ?thesis
  proof (cases "alloc_file_i v < 0")
    case True
    with False r show ?thesis by (auto simp: find_or_make_def)
  next
    case alloc: False
    with False r obtain err ino where g: "get_inode hw path v = Some (err, ino, w)"
      and res: "r = (if err \<noteq> 0 then Inl err else Inr (0, alloc_file_i v,
        \<lparr>file_i = -1, f_inode = ino, f_path = path, first_handle = 0, last_handle = 0\<rparr>))"
      by (auto simp: find_or_make_def make_file_struct_def bind_Some_iff Let_def)
    from get_inode_tables [OF g] get_inode_err [OF g] alloc_file_free [of v] alloc
    show ?thesis by (auto simp: res)
  qed
qed

lemma no_leak_append: "no_leak v L \<Longrightarrow> map_option fcore \<circ> v_files w = map_option fcore \<circ> (v_files v)(fa := x) \<Longrightarrow>
    no_leak w (L(fa := xs @ [ha]))"
  unfolding no_leak_def
proof (intro allI impI)
  fix a f assume leak: "\<forall>fa f. v_files v fa = Some f \<longrightarrow> L fa \<noteq> []"
    and c: "map_option fcore \<circ> v_files w = map_option fcore \<circ> (v_files v)(fa := x)" and f: "v_files w a = Some f"
  show "(L(fa := xs @ [ha])) a \<noteq> []"
    using leak f fun_cong [OF c, of a] by (cases "a = fa"; cases "v_files v a") auto
qed

text \<open>The last part of \<open>open\<close>, once the file is registered.\<close>

lemma open_attach:
  assumes ok: "vfs_ok v L" and fresh: "v_handle_objs v ha = None" "ha \<noteq> 0"
    and n: "handle_slot v i = Some 0" "fd_slot v (pa, fd) = Some 0" and f: "v_files v fa = Some f"
    and at: "attach_handle (v\<lparr>v_handle_objs := (v_handle_objs v)(ha \<mapsto> blank_handle\<lparr>handle_i := i,
               h_file := fa, h_flags := flags, h_pos := 0, h_proc := pa, h_procfd := fd\<rparr>)\<rparr>) i fa ha pa fd = Some v'"
  shows "vfs_ok v' (L(fa := L fa @ [ha])) \<and> same_backing v v'
    \<and> fd_view v' = (fd_view v)((pa, fd) \<mapsto> (f_path f, f_inode f, flags, 0))
    \<and> map_option fcore \<circ> v_files v' = map_option fcore \<circ> v_files v"
proof -
  let ?h = "blank_handle\<lparr>handle_i := i, h_file := fa, h_flags := flags, h_pos := 0, h_proc := pa, h_procfd := fd\<rparr>"
  from attach_handle_ok [of v L ha ?h f] assms show ?thesis by (simp add: blank_handle_def)
qed

lemma open_commit_ok:
  assumes ok: "vfs_ok v L" "no_leak v L" and fresh: "v_handle_objs v ha = None" "ha \<noteq> 0" "v_files v fa = None"
    and f: "if a = 0 then fa \<noteq> 0 \<and> file_slot v fslot = Some 0 \<and> first_handle f = 0 \<and> last_handle f = 0
            else v_files v a = Some f"
    and n: "handle_slot v i = Some 0" "fd_slot v (pa, fd) = Some 0"
    and st: "open_commit ha fa pa i fd flags (a, fslot, f) v = Some (r, v')"
  shows "r = fd \<and> (\<exists>L'. vfs_ok v' L' \<and> no_leak v' L') \<and> same_backing v v'
    \<and> fd_view v' = (fd_view v)((pa, fd) \<mapsto> (f_path f, f_inode f, flags, 0))"
proof (cases "a = 0")
  case False
  with st have at: "attach_handle (v\<lparr>v_handle_objs := (v_handle_objs v)(ha \<mapsto> blank_handle\<lparr>handle_i := i,
         h_file := a, h_flags := flags, h_pos := 0, h_proc := pa, h_procfd := fd\<rparr>)\<rparr>) i a ha pa fd = Some v'"
    and rf: "r = fd" by (auto simp: open_commit_def bind_Some_iff)
  from f False have fa: "v_files v a = Some f" by simp
  note o = open_attach [OF ok(1) fresh(1,2) n fa at]
  moreover have "no_leak v' (L(a := L a @ [ha]))"
    by (rule no_leak_append [OF ok(2), where x = "Some f"]) (use o fa in \<open>simp add: fun_upd_idem\<close>)
  ultimately show ?thesis using rf by blast
next
  case True
  with f have fa: "fa \<noteq> 0" "file_slot v fslot = Some 0" "first_handle f = 0" "last_handle f = 0" by auto
  let ?f = "f\<lparr>file_i := fslot\<rparr>"
  from create_file_ok [OF ok(1) fresh(3) fa(1), of ?f] fa obtain w where
    w: "put_open_file (v\<lparr>v_files := (v_files v)(fa \<mapsto> ?f)\<rparr>) fslot fa = Some w" "vfs_ok w L"
      "v_files w = (v_files v)(fa \<mapsto> ?f)" "v_handle_objs w = v_handle_objs v" "fd_view w = fd_view v"
      "handle_slot w = handle_slot v" "fd_slot w = fd_slot v" "same_backing v w" by auto
  from st True w(1) have at: "attach_handle (w\<lparr>v_handle_objs := (v_handle_objs w)(ha \<mapsto> blank_handle\<lparr>handle_i := i,
         h_file := fa, h_flags := flags, h_pos := 0, h_proc := pa, h_procfd := fd\<rparr>)\<rparr>) i fa ha pa fd = Some v'"
    and rf: "r = fd" by (auto simp: open_commit_def bind_Some_iff)
  have fw: "v_files w fa = Some ?f" by (simp add: w(3))
  have o: "vfs_ok v' (L(fa := L fa @ [ha])) \<and> same_backing w v'
    \<and> fd_view v' = (fd_view w)((pa, fd) \<mapsto> (f_path ?f, f_inode ?f, flags, 0))
    \<and> map_option fcore \<circ> v_files v' = map_option fcore \<circ> v_files w"
    by (rule open_attach [OF w(2) _ fresh(2) _ _ fw at]) (use fresh n w in simp_all)
  moreover have "no_leak v' (L(fa := L fa @ [ha]))"
    by (rule no_leak_append [OF ok(2), where x = "Some ?f"]) (use o w(3) in simp)
  ultimately show ?thesis using rf w(5,8) same_backing_trans by auto
qed

lemma open_found_ok:
  assumes ok: "vfs_ok v L" "no_leak v L" and rp: "running_proc v = Some (pa, p)"
    and fresh: "v_handle_objs v ha = None" "v_files v fa = None"
    and f: "if a = 0 then file_slot v fslot = Some 0 \<and> first_handle f = 0 \<and> last_handle f = 0
            else v_files v a = Some f"
    and st: "open_found ha fa fd flags (a, fslot, f) v = Some (r, v')"
  shows "r < 0 \<and> v' = v \<or> 0 \<le> r \<and> (0 \<le> fd \<longrightarrow> r = fd) \<and> fd_view v (pa, r) = None \<and> open_check (f_inode f) flags = 0
    \<and> (\<exists>L'. vfs_ok v' L' \<and> no_leak v' L')
    \<and> fd_view v' = (fd_view v)((pa, r) \<mapsto> (f_path f, f_inode f, flags, 0))"
proof (cases "open_check (f_inode f) flags = 0")
  case False
  with st open_check_err [of "f_inode f" flags] show ?thesis by (simp add: open_found_def)
next
  case check: True
  with st obtain n where n: "alloc_numbers v fd = Some n" by (auto simp: open_found_def bind_Some_iff)
  show ?thesis
  proof (cases n)
    case (Inl err)
    with st check n alloc_numbers_err [of v fd err] show ?thesis by (simp add: open_found_def)
  next
    case (Inr k)
    obtain pa' i fd' where k: "k = (pa', i, fd')" by (cases k) auto
    from alloc_numbers_ok [OF rp, of fd pa' i fd'] n have a: "pa' = pa" "handle_slot v i = Some 0"
      "fd_slot v (pa, fd') = Some 0" "0 \<le> fd'" "0 \<le> fd \<longrightarrow> fd' = fd" by (auto simp: Inr k)
    show ?thesis
    proof (cases "ha = 0 \<or> a = 0 \<and> fa = 0")
      case True
      with st check n show ?thesis by (auto simp: open_found_def Inr k)
    next
      case False
      with st check n have c: "open_commit ha fa pa i fd' flags (a, fslot, f) v = Some (r, v')"
        by (auto simp: open_found_def Inr k a(1))
      have "r = fd' \<and> (\<exists>L'. vfs_ok v' L' \<and> no_leak v' L') \<and> same_backing v v'
        \<and> fd_view v' = (fd_view v)((pa, fd') \<mapsto> (f_path f, f_inode f, flags, 0))"
        by (rule open_commit_ok [OF ok fresh(1) _ fresh(2) _ a(2,3) c]) (use f False in \<open>auto split: if_splits\<close>)
      with a(4,5) check fd_view_null [OF vfs_okD(3) [OF ok(1)] a(3)] show ?thesis by auto
    qed
  qed
qed

lemma vfs_open_ok:
  assumes ok: "vfs_ok v L" "no_leak v L" and rp: "running_proc v = Some (pa, p)"
    and fresh: "v_handle_objs v ha = None" "v_files v fa = None"
    and op: "vfs_open hw ha fa fd path flags v = Some (r, v')"
  shows "(\<exists>L'. vfs_ok v' L' \<and> no_leak v' L') \<and>
    (if r < 0 then fd_view v' = fd_view v
     else fd_view v (pa, r) = None \<and> (0 \<le> fd \<longrightarrow> r = fd) \<and>
       (\<exists>cp ino. canonicalise_path (working_directory p) path = Some cp
          \<and> open_check ino (implied_flags flags) = 0
          \<and> fd_view v' = (fd_view v)((pa, r) \<mapsto> (cp, ino, implied_flags flags, 0))))"
proof -
  let ?fl = "implied_flags flags"
  from op obtain cp q w where cp: "canonicalise_path (working_directory p) path = Some cp"
    and fm: "find_or_make hw cp v = Some (q, w)"
    and rest: "(case q of Inl err \<Rightarrow> Some (err, w) | Inr t \<Rightarrow> open_found ha fa fd ?fl t w) = Some (r, v')"
    by (auto simp: vfs_open_def bind_Some_iff rp canonicalise_path_def split: if_splits)
  note q = find_or_make_ok [OF ok(1) fm]
  then have st: "same_tables v w" by simp
  note sw = same_tables_ok [OF st]
  show ?thesis
  proof (cases q)
    case (Inl err)
    with rest q ok sw show ?thesis by auto
  next
    case (Inr t)
    obtain a fslot f where t: "t = (a, fslot, f)" by (cases t) auto
    from q have f: "f_path f = cp"
      "if a = 0 then file_slot w fslot = Some 0 \<and> first_handle f = 0 \<and> last_handle f = 0 else v_files w a = Some f"
      using st by (auto simp: Inr t sw same_tables_def split: if_splits)
    have "r < 0 \<and> v' = w \<or> 0 \<le> r \<and> (0 \<le> fd \<longrightarrow> r = fd) \<and> fd_view w (pa, r) = None
      \<and> open_check (f_inode f) ?fl = 0 \<and> (\<exists>L'. vfs_ok v' L' \<and> no_leak v' L')
      \<and> fd_view v' = (fd_view w)((pa, r) \<mapsto> (f_path f, f_inode f, ?fl, 0))"
      by (rule open_found_ok [where L = L, OF _ _ _ _ _ f(2)])
        (use ok rp fresh rest st in \<open>simp_all add: sw Inr t same_tables_def\<close>)
    with cp f(1) ok sw show ?thesis by auto
  qed
qed

section \<open>Duplicating\<close>

lemma append_handle_facts:
  assumes "append_handle v fa ha = Some v'" "v_handle_objs v ha = Some h" "\<forall>f. v_files v fa = Some f \<longrightarrow> last_handle f \<noteq> ha"
  shows "(\<exists>f. v_files v' fa = Some f \<and> last_handle f = ha) \<and> (\<exists>x. v_handle_objs v' ha = Some x \<and> h_next x = h_next h)"
  using assms by (auto simp: append_handle_def upd_handle_def upd_file_def bind_Some_iff split: if_splits)

text \<open>A handle whose next pointer is not null cannot be the last one of a list.\<close>

lemma lists_ok_last:
  assumes ok: "lists_ok files objs L" and f: "files fa = Some f" and h: "objs (last_handle f) = Some h" "last_handle f \<noteq> 0"
  shows "h_next h = 0"
proof -
  from lists_okD [OF ok f] have l: "links (hn objs) (hp objs) 0 (L fa) 0" "last_handle f = last_of 0 (L fa)"
    by (auto simp: handle_list_def)
  from l(2) h(2) obtain ys y where y: "L fa = ys @ [y]" by (cases "L fa" rule: rev_cases) auto
  with l h(1) show ?thesis by (simp add: links_snoc hn_def)
qed

lemma duplicate_fd_ok:
  assumes ok: "vfs_ok v L" "no_leak v L" and rp: "running_proc v = Some (pa, p)"
    and src: "fd_slot v (pa, fd) = Some src" "v_handle_objs v src = Some h"
    and fresh: "v_handle_objs v ha = None" and dup: "duplicate_fd ha dest fd v = Some (r, v')" and r: "0 \<le> r"
  shows "if last (L (h_file h)) = src
    then \<exists>L'. vfs_ok v' L' \<and> no_leak v' L' \<and> fd_view v' = (fd_view v)((pa, r) := fd_view v (pa, fd))
    else \<nexists>L'. vfs_ok v' L'"
proof -
  note rg = vfs_okD [OF ok(1)]
  let ?fa = "h_file h"
  have "src \<noteq> 0" using registry_null [OF rg(3)] src(2) by (auto intro: ccontr)
  then have hs: "handle_by_fd v fd = Some src" using src(1) by (simp add: handle_by_fd_slot [OF rp])
  from lists_ok_file [OF rg(4) src(2)] obtain f where f: "v_files v ?fa = Some f" by blast
  from lists_okD [OF rg(4) f] have hl: "handle_list (v_handle_objs v) f (L ?fa)" .
  have mem: "src \<in> set (L ?fa)" using lists_ok_member [OF rg(4)] src(2) by blast
  then have ne: "L ?fa \<noteq> []" by auto
  from dup hs \<open>src \<noteq> 0\<close> obtain nn where nn: "alloc_numbers v dest = Some nn"
    by (auto simp: duplicate_fd_def bind_Some_iff)
  with dup hs \<open>src \<noteq> 0\<close> r have "\<exists>t. nn = Inr t"
    by (cases nn) (auto simp: duplicate_fd_def dest: alloc_numbers_err)
  with nn obtain pa' i fd' where n: "alloc_numbers v dest = Some (Inr (pa', i, fd'))" by auto
  have ha: "ha \<noteq> 0" using dup hs \<open>src \<noteq> 0\<close> n r
    by (cases "ha = 0") (auto simp: duplicate_fd_def ERR_nomem_def)
  from alloc_numbers_ok [OF rp n] have k: "pa' = pa" "handle_slot v i = Some 0" "fd_slot v (pa, fd') = Some 0"
    by auto
  let ?h = "h\<lparr>handle_i := i, h_procfd := fd'\<rparr>"
  let ?v1 = "v\<lparr>v_handle_objs := (v_handle_objs v)(ha \<mapsto> ?h)\<rparr>"
  from dup hs \<open>src \<noteq> 0\<close> n src(2) f ha k(1) have at: "attach_handle ?v1 i ?fa ha pa fd' = Some v'" and rf: "r = fd'"
    by (auto simp: duplicate_fd_def bind_Some_iff split: if_splits)
  have hproc: "h_proc h = pa" "h_procfd h = fd" using registry_object [OF rg(3) src(1) \<open>src \<noteq> 0\<close>] src(2) by auto
  show ?thesis
  proof (cases "last (L ?fa) = src")
    case True
    have "h_next h = 0"
      using lists_ok_last [OF rg(4) f] hl True mem src(2) \<open>src \<noteq> 0\<close>
      by (auto simp: handle_list_def last_of_def split: if_splits)
    with attach_handle_ok [OF ok(1) fresh ha, of ?h f] k f at ne hproc
    have a: "vfs_ok v' (L(?fa := L ?fa @ [ha]))" 
      "fd_view v' = (fd_view v)((pa, fd') \<mapsto> (f_path f, f_inode f, h_flags h, h_pos h))"
      "map_option fcore \<circ> v_files v' = map_option fcore \<circ> v_files v"
      by auto
    moreover have "fd_view v (pa, fd) = Some (f_path f, f_inode f, h_flags h, h_pos h)"
      using src f by (simp add: fd_view_def)
    moreover have "no_leak v' (L(?fa := L ?fa @ [ha]))"
      by (rule no_leak_append [OF ok(2), where x = "Some f"]) (use a(3) f in \<open>simp add: fun_upd_idem\<close>)
    ultimately show ?thesis using True rf by auto
  next
    case False
    obtain xs ys where sp: "L ?fa = xs @ src # ys" using mem by (meson split_list)
    with False have ys: "ys \<noteq> []" by auto
    have "h_next h = first_of ys 0" using hl src(2) by (auto simp: handle_list_def sp links_append links_Cons hn_def)
    moreover have "first_of ys 0 \<noteq> 0" using hl ys by (cases ys) (auto simp: handle_list_def sp)
    ultimately have nz: "h_next h \<noteq> 0" by simp
    have nl: "last_handle f \<noteq> ha"
    proof -
      have "last_handle f \<in> set (L ?fa)" using hl mem by (auto simp: handle_list_def last_of_def split: if_splits)
      then show ?thesis using lists_ok_member [OF rg(4), of "last_handle f" ?fa] fresh by auto
    qed
    from at obtain v2 v3 where p2: "put_handle ?v1 i ha = Some v2" and p3: "append_handle v2 ?fa ha = Some v3"
      and p4: "set_fd v3 pa fd' ha = Some v'" by (auto simp: attach_handle_def bind_Some_iff)
    from append_handle_facts [OF p3, of ?h] put_handle_frame [OF p2] f nl obtain f3 h3 where
      x: "v_files v3 ?fa = Some f3" "last_handle f3 = ha" "v_handle_objs v3 ha = Some h3" "h_next h3 = h_next h"
      by auto
    have "\<not> vfs_ok v' L'" for L'
      using lists_ok_last [of "v_files v'" "v_handle_objs v'" L' ?fa f3 h3] x nz ha set_fd_frame [OF p4]
      by (auto simp: vfs_ok_def)
    with False show ?thesis by auto
  qed
qed

section \<open>An example state\<close>

text \<open>\<open>/dev\<close> with one device, and a process without open files.\<close>

definition demo_vfs :: "unit vfs" where
  "demo_vfs = \<lparr>v_open_files = [0, 0], v_handles = [0, 0, 0], v_mounts = [Some \<lparr>m_name = ''dev'', m_fs = 50\<rparr>, None],
     v_files = \<lambda>a. None, v_handle_objs = \<lambda>a. None,
     v_fs = [50 \<mapsto> Fs_dev [None, Some \<lparr>dn_name = ''null'', dn_dev = Dev_null, dn_perm = 0x180\<rparr>]],
     v_io = no_io, v_sched = example_sched\<lparr>procs := [9 \<mapsto> example_proc\<lparr>p_files := [0, 0, 0, 0, 0, 0]\<rparr>]\<rparr>,
     v_pipes = []\<rparr>"

lemma demo_vfs_ok: "vfs_ok demo_vfs (\<lambda>a. [])" "no_leak demo_vfs (\<lambda>a. [])"
proof -
  have slots: "slot xs i = Some a \<Longrightarrow> a \<in> set xs" for xs i a by (auto simp: slot_def split: if_splits)
  have "registry (file_slot demo_vfs) (v_files demo_vfs) file_i"
    by (auto simp: registry_def file_slot_def demo_vfs_def dest!: slots)
  moreover have "registry (handle_slot demo_vfs) (v_handle_objs demo_vfs) handle_i"
    by (auto simp: registry_def handle_slot_def demo_vfs_def dest!: slots)
  moreover have "registry (fd_slot demo_vfs) (v_handle_objs demo_vfs) (\<lambda>h. (h_proc h, h_procfd h))"
    by (auto simp: registry_def fd_slot_def demo_vfs_def dest!: slots split: if_splits)
  moreover have "lists_ok (v_files demo_vfs) (v_handle_objs demo_vfs) (\<lambda>a. [])"
    by (simp add: lists_ok_def demo_vfs_def)
  ultimately show "vfs_ok demo_vfs (\<lambda>a. [])" by (simp add: vfs_ok_def)
  show "no_leak demo_vfs (\<lambda>a. [])" by (simp add: no_leak_def demo_vfs_def)
qed

lemma demo_running: "\<exists>p. running_proc demo_vfs = Some (9, p)"
  by (simp add: running_proc_def current_proc_def demo_vfs_def example_sched_def example_thread_def)

lemma demo_open: "case vfs_open no_hw 7 8 (-1) ''/dev/null'' o_read demo_vfs of Some (r, v) \<Rightarrow> r = 3 | None \<Rightarrow> False"
  by code_simp

text \<open>
  C18: Opening a file. In a state whose bookkeeping is in order, \<open>open\<close> keeps it in order and leaks no
  open file, whatever the outcome. When it reports an error no descriptor of any process changed.
  When it succeeds it gives a descriptor that was free (the one asked for, if one was asked for),
  and the only change to the descriptors is that this one now stands for the file with the
  canonical form of the path, an inode that passed the checks for the flags, and position 0.
\<close>

theorem open_adds_descriptor:
  assumes ok: "vfs_ok v L" "no_leak v L" and rp: "running_proc v = Some (pa, p)"
    and fresh: "v_handle_objs v ha = None" "v_files v fa = None"
    and op: "vfs_open hw ha fa fd path flags v = Some (r, v')"
  shows "(\<exists>L'. vfs_ok v' L' \<and> no_leak v' L') \<and>
    (if r < 0 then fd_view v' = fd_view v
     else fd_view v (pa, r) = None \<and> (0 \<le> fd \<longrightarrow> r = fd) \<and>
       (\<exists>cp ino. canonicalise_path (working_directory p) path = Some cp
          \<and> open_check ino (implied_flags flags) = 0
          \<and> fd_view v' = (fd_view v)((pa, r) \<mapsto> (cp, ino, implied_flags flags, 0))))"
  using vfs_open_ok [OF assms] .

theorem open_adds_descriptor_witness:
  "\<exists>v'. vfs_open no_hw 7 8 (-1) ''/dev/null'' o_read demo_vfs = Some (3, v') \<and> fd_view v' (9, 3) \<noteq> None"
proof -
  obtain p where rp: "running_proc demo_vfs = Some (9, p)" using demo_running by blast
  have n: "v_handle_objs demo_vfs 7 = None" "v_files demo_vfs 8 = None" by (simp_all add: demo_vfs_def)
  obtain v' where o: "vfs_open no_hw 7 8 (-1) ''/dev/null'' o_read demo_vfs = Some (3, v')"
    using demo_open by (auto split: option.splits)
  from open_adds_descriptor [OF demo_vfs_ok rp n o] have "fd_view v' (9, 3) \<noteq> None" by auto
  with o show ?thesis by blast
qed

text \<open>
  C19: closing, in a state whose bookkeeping is in order. While a thread holds the lock of the
  handle, \<open>close\<close> waits for it and has changed nothing; it returns exactly when nobody does. Then it
  keeps the bookkeeping in order, forgets exactly the descriptor that was given and no other one,
  and an open file whose last descriptor this was is forgotten with it (nothing leaks). It reports
  \<open>ERR_bad_fd\<close> exactly when the descriptor was not open.
\<close>

theorem close_removes_descriptor:
  assumes ok: "vfs_ok v L" "no_leak v L" and rp: "running_proc v = Some (pa, p)"
  shows "if fd_locked v (pa, fd)
    then \<exists>ha. fd_slot v (pa, fd) = Some ha \<and> vfs_close fd v = Some (Inl ha, v)
    else \<exists>r v' L'. vfs_close fd v = Some (Inr r, v') \<and> vfs_ok v' L' \<and> no_leak v' L'
      \<and> fd_view v' = (fd_view v)((pa, fd) := None)
      \<and> r = (if fd_view v (pa, fd) = None then ERR_bad_fd else ERR_success)"
proof (cases "\<exists>ha. fd_slot v (pa, fd) = Some ha \<and> ha \<noteq> 0")
  case True
  then obtain ha where sl: "fd_slot v (pa, fd) = Some ha" "ha \<noteq> 0" by blast
  from registry_object [OF vfs_okD(3) [OF ok(1)] sl] obtain h where h: "v_handle_objs v ha = Some h" by blast
  then obtain f where "v_files v (h_file h) = Some f" using lists_ok_file [OF vfs_okD(4) [OF ok(1)]] by blast
  with sl h have "fd_view v (pa, fd) \<noteq> None" by (simp add: fd_view_def)
  with vfs_close_cases [OF ok rp sl] vfs_close_waits [OF rp, of fd] show ?thesis by auto
next
  case False
  then have n: "fd_view v (pa, fd) = None"
    using fd_view_null [OF vfs_okD(3) [OF ok(1)], of "(pa, fd)"] by (cases "fd_slot v (pa, fd)") (auto simp: fd_view_def)
  have "handle_by_fd v fd = Some 0" and nl: "\<not> fd_locked v (pa, fd)"
    using False by (auto simp: handle_by_fd_slot [OF rp] fd_locked_def split: option.splits)
  with rp n ok show ?thesis by (auto simp: vfs_close_def fun_upd_idem)
qed

lemma demo_open_ok:
  assumes "vfs_open no_hw 7 8 (-1) ''/dev/null'' o_read demo_vfs = Some (r, v')"
  shows "\<exists>L'. vfs_ok v' L' \<and> no_leak v' L'"
proof -
  obtain p where rp: "running_proc demo_vfs = Some (9, p)" using demo_running by blast
  have n: "v_handle_objs demo_vfs 7 = None" "v_files demo_vfs 8 = None" by (simp_all add: demo_vfs_def)
  from vfs_open_ok [OF demo_vfs_ok rp n assms] show ?thesis by blast
qed

lemma demo_twice:
  "case vfs_open no_hw 7 8 (-1) ''/dev/null'' o_read demo_vfs of None \<Rightarrow> False | Some (r, v1) \<Rightarrow>
     r = 3 \<and> fst (the (running_proc v1)) = 9 \<and> running_proc v1 = Some (the (running_proc v1))
     \<and> v_handle_objs v1 10 = None \<and> v_files v1 12 = None \<and>
     (case vfs_open no_hw 10 12 (-1) ''/dev//./null'' o_write v1 of None \<Rightarrow> False | Some (r, v2) \<Rightarrow>
        r = 4 \<and> fst (the (running_proc v2)) = 9 \<and> running_proc v2 = Some (the (running_proc v2))
        \<and> fd_slot v2 (9, 3) = Some 7
        \<and> map_option h_file (v_handle_objs v2 7) = Some 8 \<and> map_option last_handle (v_files v2 8) = Some 10
        \<and> v_handle_objs v2 11 = None \<and>
        (case duplicate_fd 11 (-1) 3 v2 of None \<Rightarrow> False | Some (r, v3) \<Rightarrow> r = 5))"
  by code_simp

lemma demo_unlocked:
  "case vfs_open no_hw 7 8 (-1) ''/dev/null'' o_read demo_vfs of None \<Rightarrow> False | Some (r, v1) \<Rightarrow>
     \<not> fd_locked v1 (9, 3)"
  by code_simp

lemma demo_runs:
  "\<exists>v1 v2 v3. vfs_open no_hw 7 8 (-1) ''/dev/null'' o_read demo_vfs = Some (3, v1)
     \<and> vfs_open no_hw 10 12 (-1) ''/dev//./null'' o_write v1 = Some (4, v2)
     \<and> duplicate_fd 11 (-1) 3 v2 = Some (5, v3)
     \<and> running_proc v1 = Some (9, snd (the (running_proc v1))) \<and> running_proc v2 = Some (9, snd (the (running_proc v2)))
     \<and> v_handle_objs v1 10 = None \<and> v_files v1 12 = None \<and> v_handle_objs v2 11 = None
     \<and> fd_slot v2 (9, 3) = Some 7 \<and> map_option h_file (v_handle_objs v2 7) = Some 8
     \<and> map_option last_handle (v_files v2 8) = Some 10"
proof -
  obtain r1 v1 where 1: "vfs_open no_hw 7 8 (-1) ''/dev/null'' o_read demo_vfs = Some (r1, v1)"
    using demo_open by (cases "vfs_open no_hw 7 8 (-1) ''/dev/null'' o_read demo_vfs") auto
  note t1 = demo_twice [unfolded 1 option.case prod.case]
  then obtain r2 v2 where 2: "vfs_open no_hw 10 12 (-1) ''/dev//./null'' o_write v1 = Some (r2, v2)"
    by (cases "vfs_open no_hw 10 12 (-1) ''/dev//./null'' o_write v1") auto
  note t2 = t1 [unfolded 2 option.case prod.case]
  then obtain r3 v3 where 3: "duplicate_fd 11 (-1) 3 v2 = Some (r3, v3)"
    by (cases "duplicate_fd 11 (-1) 3 v2") auto
  note t3 = t2 [unfolded 3 option.case prod.case]
  have rp: "running_proc v = Some (9, snd (the (running_proc v)))"
    if "fst (the (running_proc v)) = 9" "running_proc v = Some (the (running_proc v))" for v :: "unit vfs"
    using that by (metis prod.collapse)
  from 1 2 3 t3 rp [of v1] rp [of v2] show ?thesis by (intro exI [of _ v1] exI [of _ v2] exI [of _ v3]) simp
qed

theorem close_removes_descriptor_witness:
  "\<exists>v1 v2. vfs_open no_hw 7 8 (-1) ''/dev/null'' o_read demo_vfs = Some (3, v1)
     \<and> vfs_close 3 v1 = Some (Inr ERR_success, v2) \<and> fd_view v2 (9, 3) = None"
proof -
  obtain v1 where o: "vfs_open no_hw 7 8 (-1) ''/dev/null'' o_read demo_vfs = Some (3, v1)"
    and rp: "running_proc v1 = Some (9, snd (the (running_proc v1)))" and nl: "\<not> fd_locked v1 (9, 3)"
    using demo_runs demo_unlocked by (metis option.case prod.case)
  from demo_open_ok [OF o] obtain L where ok: "vfs_ok v1 L" "no_leak v1 L" by blast
  obtain p where rp0: "running_proc demo_vfs = Some (9, p)" using demo_running by blast
  have n: "v_handle_objs demo_vfs 7 = None" "v_files demo_vfs 8 = None" by (simp_all add: demo_vfs_def)
  from vfs_open_ok [OF demo_vfs_ok rp0 n o] have "fd_view v1 (9, 3) \<noteq> None" by auto
  with close_removes_descriptor [OF ok rp, of 3] nl o show ?thesis by auto
qed

text \<open>
  C20: Duplicating. The copy that \<open>duplicate_fd\<close> makes of a handle also copies its link to the next
  handle of the file. When the handle was the newest one of its file this link is null: the
  bookkeeping stays in order, nothing leaks, and the new descriptor stands for the same open file
  with the same flags and position. In every other case the call succeeds as well, but no list of
  handles fits the state any more: the file's last handle has a successor.
\<close>

theorem duplicate_needs_newest_handle:
  assumes ok: "vfs_ok v L" "no_leak v L" and rp: "running_proc v = Some (pa, p)"
    and src: "fd_slot v (pa, fd) = Some src" "v_handle_objs v src = Some h" "v_files v (h_file h) = Some f"
    and fresh: "v_handle_objs v ha = None" and dup: "duplicate_fd ha dest fd v = Some (r, v')" and r: "0 \<le> r"
  shows "if last_handle f = src
    then \<exists>L'. vfs_ok v' L' \<and> no_leak v' L' \<and> fd_view v' = (fd_view v)((pa, r) := fd_view v (pa, fd))
    else \<nexists>L'. vfs_ok v' L'"
proof -
  from lists_okD [OF vfs_okD(4) [OF ok(1)] src(3)] ok(2) src(3)
  have "last_handle f = last (L (h_file h))" by (auto simp: handle_list_def last_of_def no_leak_def)
  with duplicate_fd_ok [OF ok rp src(1,2) fresh dup r] show ?thesis by simp
qed

theorem duplicate_needs_newest_handle_witness:
  "\<exists>v1 v2 v3. vfs_open no_hw 7 8 (-1) ''/dev/null'' o_read demo_vfs = Some (3, v1)
     \<and> vfs_open no_hw 10 12 (-1) ''/dev//./null'' o_write v1 = Some (4, v2)
     \<and> duplicate_fd 11 (-1) 3 v2 = Some (5, v3) \<and> (\<nexists>L'. vfs_ok v3 L')"
proof -
  let ?p = "\<lambda>v. snd (the (running_proc v))"
  obtain v1 v2 v3 where o: "vfs_open no_hw 7 8 (-1) ''/dev/null'' o_read demo_vfs = Some (3, v1)"
      "vfs_open no_hw 10 12 (-1) ''/dev//./null'' o_write v1 = Some (4, v2)"
      "duplicate_fd 11 (-1) 3 v2 = Some (5, v3)"
    and rp: "running_proc v1 = Some (9, ?p v1)" "running_proc v2 = Some (9, ?p v2)"
    and n: "v_handle_objs v1 10 = None" "v_files v1 12 = None" "v_handle_objs v2 11 = None"
    and s: "fd_slot v2 (9, 3) = Some 7" "map_option h_file (v_handle_objs v2 7) = Some 8"
      "map_option last_handle (v_files v2 8) = Some 10"
    using demo_runs by blast
  from demo_open_ok [OF o(1)] obtain L1 where ok1: "vfs_ok v1 L1" "no_leak v1 L1" by blast
  from vfs_open_ok [OF ok1 rp(1) n(1,2) o(2)] obtain L2 where ok2: "vfs_ok v2 L2" "no_leak v2 L2" by blast
  from s obtain h f where h: "v_handle_objs v2 7 = Some h" "v_files v2 (h_file h) = Some f" "last_handle f = 10" by auto
  from duplicate_needs_newest_handle [OF ok2 rp(2) s(1) h(1,2) n(3) o(3)] h(3) o show ?thesis by auto
qed

end
