(* ===== verification/VfsRead.thy ===== *)
theory VfsRead
  imports VfsOpen Fat32Read
begin

text \<open>
  Reading through the virtual file system: a descriptor of a file on a FAT32 file system delivers
  the bytes of the file one after the other, through the handle, the block cache and the cluster
  chain.
\<close>

text \<open>
  \<open>fat_file_open\<close>: descriptor \<open>fd\<close> of the running process is open for reading on the file \<open>fo\<close> of a
  mounted FAT32 file system, at position \<open>pos\<close>; \<open>f0\<close> has the geometry of the file system, and the
  clusters of the file are on the device.
\<close>

definition fat_file_open :: "'x hw \<Rightarrow> (u32 \<Rightarrow> u8 list) \<Rightarrow> ('x io \<Rightarrow> bool) \<Rightarrow> fat32 \<Rightarrow> nat \<Rightarrow> int \<Rightarrow> open_file \<Rightarrow> nat \<Rightarrow> 'x vfs \<Rightarrow> bool" where
  "fat_file_open hw content P f0 K fd fo pos v \<longleftrightarrow>
     (\<exists>ha h f. fd_objects v fd = Some (Some (ha, h, fo))
        \<and> \<not> has_flag (h_flags h) o_dir \<and> has_flag (h_flags h) o_read \<and> unat (h_pos h) = pos
        \<and> v_fs v (i_fs (f_inode fo)) = Some (Fs_fat f) \<and> geometry f = geometry f0
        \<and> fat_ready hw content P f (v_io v))
     \<and> i_fs (f_inode fo) \<noteq> 0 \<and> cluster_size f0 \<noteq> 0 \<and> unat (i_size (f_inode fo)) < 2 ^ 32
     \<and> file_ok content f0 (ucast (i_no (f_inode fo))) K
     \<and> unat (i_size (f_inode fo)) \<le> (K + 1) * unat (cluster_size f0) * block_size
     \<and> pos \<le> unat (i_size (f_inode fo))"

definition file_bytes :: "(u32 \<Rightarrow> u8 list) \<Rightarrow> fat32 \<Rightarrow> inode \<Rightarrow> nat \<Rightarrow> nat \<Rightarrow> u8 list" where
  "file_bytes content f ino p m = map (file_byte content f (ucast (i_no ino))) [p..<p + m]"

lemma length_file_bytes [simp]: "length (file_bytes content f ino p m) = m"
  by (simp add: file_bytes_def)

lemma file_bytes_0 [simp]: "file_bytes content f ino p 0 = []"
  by (simp add: file_bytes_def)

lemma file_bytes_append:
  "file_bytes content f ino p a @ file_bytes content f ino (p + a) b = file_bytes content f ino p (a + b)"
  by (simp add: file_bytes_def flip: map_append upt_add_eq_append add.assoc)

lemma fd_objects_iff:
  "fd_objects v fd = Some (Some (ha, h, fo)) \<longleftrightarrow>
     handle_by_fd v fd = Some ha \<and> ha \<noteq> 0 \<and> v_handle_objs v ha = Some h \<and> v_files v (h_file h) = Some fo"
  by (cases "handle_by_fd v fd") (auto simp: fd_objects_def bind_Some_iff)

lemma fd_objects_upd:
  assumes "fd_objects v fd = Some (Some (ha, h, fo))" "h_file g = h_file h"
  shows "fd_objects (v\<lparr>v_fs := x, v_io := y, v_handle_objs := (v_handle_objs v)(ha \<mapsto> g)\<rparr>) fd = Some (Some (ha, g, fo))"
proof -
  have "handle_by_fd (v\<lparr>v_fs := x, v_io := y, v_handle_objs := z\<rparr>) fd = handle_by_fd v fd" for z
    by (simp add: handle_by_fd_def running_proc_def)
  with assms show ?thesis by (simp add: fd_objects_iff)
qed

lemma vfs_read_step:
  assumes o: "fat_file_open hw content P f0 K fd fo pos v" and n: "n < 2 ^ 31"
    and m: "m = min n (unat (i_size (f_inode fo)) - pos)"
  shows "\<exists>v'. vfs_read hw fd n v = Some (int m, file_bytes content f0 (f_inode fo) pos m, v')
    \<and> fat_file_open hw content P f0 K fd fo (pos + m) v'"
proof -
  let ?ino = "f_inode fo"
  from o obtain ha h f where fd: "fd_objects v fd = Some (Some (ha, h, fo))"
    and fl: "\<not> has_flag (h_flags h) o_dir" "has_flag (h_flags h) o_read" and pos: "unat (h_pos h) = pos"
    and fs: "v_fs v (i_fs ?ino) = Some (Fs_fat f)" "geometry f = geometry f0" "fat_ready hw content P f (v_io v)"
    and ino: "i_fs ?ino \<noteq> 0" "cluster_size f0 \<noteq> 0" "unat (i_size ?ino) < 2 ^ 32"
      "file_ok content f0 (ucast (i_no ?ino)) K"
      "unat (i_size ?ino) \<le> (K + 1) * unat (cluster_size f0) * block_size" "pos \<le> unat (i_size ?ino)"
    unfolding fat_file_open_def by auto
  have obj: "v_handle_objs v ha = Some h" using fd by (simp add: fd_objects_iff)
  have cs: "cluster_size f = cluster_size f0" using fs(2) by (simp add: geometry_def)
  have "\<exists>f' s'. fat_read hw f ?ino (h_pos h) n (v_io v) = Some (int m, file_bytes content f0 ?ino pos m, f', s')
      \<and> geometry f' = geometry f \<and> fat_ready hw content P f' s'" if "n \<noteq> 0"
  proof (cases "pos = unat (i_size ?ino)")
    case True
    then have "h_pos h = i_size ?ino" using pos by (simp add: word_unat_eq_iff)
    with True m fs show ?thesis by (simp add: fat_read_def file_bytes_def)
  next
    case False
    have "unat pos' + m \<le> (K + 1) * unat (cluster_size f) * block_size" if "pos' = h_pos h" for pos'
      using m ino(5,6) pos that cs by (simp add: min_def split: if_splits)
    with fat_read_content [OF fs(3) _ n ino(3), of "h_pos h" m K] False ino cs pos m
    show ?thesis
      by (simp add: file_ok_geometry [OF fs(2)] file_geometry [OF fs(2)] file_bytes_def)
  qed
  then obtain f' s' where r: "n \<noteq> 0 \<Longrightarrow> fat_read hw f ?ino (h_pos h) n (v_io v)
        = Some (int m, file_bytes content f0 ?ino pos m, f', s')"
    and f': "n \<noteq> 0 \<Longrightarrow> geometry f' = geometry f0 \<and> fat_ready hw content P f' s'"
    using fs(2) by (metis (full_types))
  show ?thesis
  proof (cases "n = 0")
    case True
    then have "vfs_read hw fd n v = Some (int m, file_bytes content f0 ?ino pos m, v)"
      using fd fl m by (simp add: vfs_read_def file_bytes_def)
    with o True m show ?thesis by auto
  next
    case False
    let ?g = "h\<lparr>h_pos := h_pos h + of_nat m\<rparr>"
    let ?v = "v\<lparr>v_fs := (v_fs v)(i_fs ?ino \<mapsto> Fs_fat f'), v_io := s', v_handle_objs := (v_handle_objs v)(ha \<mapsto> ?g)\<rparr>"
    have "vfs_read hw fd n v = Some (int m, file_bytes content f0 ?ino pos m, ?v)"
      using fd fl False ino(1) fs(1) r [OF False] obj
      by (simp add: vfs_read_def fs_read_def advance_def upd_handle_def)
    moreover have "unat (h_pos h + of_nat m) = pos + m"
    proof -
      have "m < 2 ^ 31" using n m by simp
      then have "unat (of_nat m :: u64) = m" by (simp add: unat_of_nat_small)
      moreover have "pos + m < 2 ^ 64" using ino(3,6) \<open>m < 2 ^ 31\<close> by simp
      ultimately show ?thesis using pos by (simp add: unat_add_small)
    qed
    moreover have "pos + m \<le> unat (i_size ?ino)" using m ino(6) by simp
    ultimately have "fat_file_open hw content P f0 K fd fo (pos + m) ?v"
      using fd_objects_upd [OF fd, of ?g] fl f' [OF False] ino by (auto simp: fat_file_open_def)
    with \<open>vfs_read hw fd n v = _\<close> show ?thesis by blast
  qed
qed

text \<open>
  C21: Reading a file to the end. For a descriptor that is open on a file of a FAT32 file system,
  \<open>read_all\<close> ends, puts the bytes of the file from the descriptor's position on into the buffer, as
  many as fit and are left, and moves the position past them. When the file has fewer bytes left
  than the buffer has room for it nevertheless reports 0, so that the caller cannot tell how many
  bytes it got.
\<close>

theorem read_all_file:
  assumes o: "fat_file_open hw content P f0 K fd fo pos v" and n: "length buf < 2 ^ 31"
    and m: "m = min (length buf) (unat (i_size (f_inode fo)) - pos)"
  shows "\<exists>v'. read_all hw fd buf v
      = Some (if m = length buf then int m else 0, file_bytes content f0 (f_inode fo) pos m @ drop m buf, v')
    \<and> fat_file_open hw content P f0 K fd fo (pos + m) v'"
proof (cases "buf = []")
  case True
  with o m show ?thesis by (auto simp: read_all_def read_all_loop.simps file_bytes_def)
next
  case False
  let ?bs = "file_bytes content f0 (f_inode fo) pos m"
  have small: "\<not> length buf > 0x7fffffff" using n by simp
  from vfs_read_step [OF o n m] obtain v1 where
    r1: "vfs_read hw fd (length buf) v = Some (int m, ?bs, v1)" and o1: "fat_file_open hw content P f0 K fd fo (pos + m) v1"
    by blast
  have sp: "splice buf 0 ?bs = ?bs @ drop m buf" by (simp add: splice_def)
  have s1: "read_all hw fd buf v = (if m = 0 then Some (0, ?bs @ drop m buf, v1)
      else read_all_loop hw fd (length buf) (?bs @ drop m buf) m v1)"
    using small False r1 sp by (cases "m = 0") (simp_all add: read_all_def read_all_loop.simps [of hw fd "length buf" buf 0])
  show ?thesis
  proof (cases "m = length buf")
    case True
    with s1 o1 n False show ?thesis by (simp add: read_all_loop.simps [of hw fd "length buf"])
  next
    case less: False
    then have "length buf - m < 2 ^ 31" "0 = min (length buf - m) (unat (i_size (f_inode fo)) - (pos + m))"
      using n m by auto
    from vfs_read_step [OF o1 this] obtain v2 where
      r2: "vfs_read hw fd (length buf - m) v1 = Some (0, [], v2)" and o2: "fat_file_open hw content P f0 K fd fo (pos + m) v2"
      by (auto simp: file_bytes_def)
    have "splice (?bs @ drop m buf) m [] = ?bs @ drop m buf" by (simp add: splice_def)
    with r2 less m have "read_all_loop hw fd (length buf) (?bs @ drop m buf) m v1 = Some (0, ?bs @ drop m buf, v2)"
      by (simp add: read_all_loop.simps [of hw fd "length buf"])
    with s1 o1 o2 less show ?thesis by auto
  qed
qed

definition ram_file_obj :: open_file where
  "ram_file_obj = \<lparr>file_i = 0, f_inode = ram_inode\<lparr>i_fs := 60\<rparr>, f_path = ''/ram/x'', first_handle = 7, last_handle = 7\<rparr>"

definition ram_vfs :: "unit vfs" where
  "ram_vfs = demo_vfs\<lparr>v_open_files := [8, 0], v_handles := [7, 0, 0], v_files := [8 \<mapsto> ram_file_obj],
     v_handle_objs := [7 \<mapsto> blank_handle\<lparr>handle_i := 0, h_file := 8, h_flags := o_read, h_pos := 1,
       h_proc := 9, h_procfd := 3\<rparr>], v_fs := [60 \<mapsto> Fs_fat ram_fs],
     v_sched := example_sched\<lparr>procs := [9 \<mapsto> example_proc\<lparr>p_files := [0, 0, 0, 7, 0, 0]\<rparr>]\<rparr>\<rparr>"

lemma ram_vfs_open:
  "fat_file_open no_hw ram_content (\<lambda>s. io_mem s = io_mem no_io) ram_fs 0 3 ram_file_obj 1 ram_vfs"
proof -
  let ?h = "blank_handle\<lparr>handle_i := 0, h_file := 8, h_flags := o_read, h_pos := 1, h_proc := 9, h_procfd := 3\<rparr>"
  have "handle_by_fd ram_vfs 3 = Some 7"
    by (simp add: ram_vfs_def handle_by_fd_def running_proc_def current_proc_def example_sched_def
        example_thread_def slot_def)
  then have "fd_objects ram_vfs 3 = Some (Some (7, ?h, ram_file_obj))"
    by (simp add: fd_objects_iff ram_vfs_def)
  moreover have "\<not> has_flag (h_flags ?h) o_dir" "has_flag (h_flags ?h) o_read"
    by (simp_all add: has_flag_def o_dir_def o_read_def)
  ultimately show ?thesis
    using ram_ready ram_file
    by (auto simp: fat_file_open_def ram_vfs_def ram_file_obj_def ram_inode_def blank_inode_def
        ram_fs_def demo_vfs_def block_size_def)
qed

lemma ram_file_size: "unat (i_size (f_inode ram_file_obj)) = 5"
  by (simp add: ram_file_obj_def ram_inode_def)

lemma ram_file_bytes: "file_bytes ram_content ram_fs (f_inode ram_file_obj) 1 4 = [1, 2, 3, 4]"
proof -
  let ?B = "\<lambda>p. file_byte ram_content ram_fs (ucast (i_no ram_inode)) p"
  have ino: "ucast (i_no (f_inode ram_file_obj)) = (ucast (i_no ram_inode) :: u32)" by (simp add: ram_file_obj_def)
  have "[1..<1 + 4] = [1, 2, 3, 4 :: nat]" by (simp add: upt_conv_Cons)
  moreover have "?B 1 = 1" "?B 2 = 2" "?B 3 = 3" "?B 4 = 4"
    by (simp_all add: file_byte_def file_lba_def cluster_block_def ram_fs_def ram_inode_def
        ram_content_def mem_bytes_def no_io_def block_size_def)
  ultimately show ?thesis unfolding file_bytes_def ino by simp
qed

theorem read_all_file_witness:
  "\<exists>v'. read_all no_hw 3 [0, 0, 0, 0, 0, 9] ram_vfs = Some (0, [1, 2, 3, 4, 0, 9], v')"
proof -
  have "\<exists>v'. read_all no_hw 3 [0, 0, 0, 0, 0, 9] ram_vfs
      = Some (if 4 = length [0, 0, 0, 0, 0, 9 :: u8] then int 4 else 0,
          file_bytes ram_content ram_fs (f_inode ram_file_obj) 1 4 @ drop 4 [0, 0, 0, 0, 0, 9], v')
      \<and> fat_file_open no_hw ram_content (\<lambda>s. io_mem s = io_mem no_io) ram_fs 0 3 ram_file_obj (1 + 4) v'"
    by (rule read_all_file [OF ram_vfs_open]) (simp_all add: ram_file_size)
  with ram_file_bytes show ?thesis by auto
qed

end
