(* ===== verification/Input.thy ===== *)
theory Input
  imports Semaphore OsString OsFormat OsMath
begin

text \<open>
  Keyboard and mouse input (driver/input): the key tables (keys.cc, ps2/scancodes.cc), the
  decoding of keyboard scancodes and of mouse packets in the interrupt handlers, the routing of
  characters to the kernel shell or to \<open>/dev/keyboard\<close>, and the reads of the two devices
  (ps2.cc). The bytes that \<open>read_data\<close> delivers to a handler are a list.
\<close>

section \<open>Keys\<close>

text \<open>\<open>Key\<close>: the keys in the order of the enumeration; a key is its number.\<close>

type_synonym key = nat

definition key_names :: "string list" where
  "key_names = [
     ''None'', ''a'', ''b'', ''c'', ''d'', ''e'', ''f'', ''g'', ''h'', ''i'', ''j'', ''k'',
     ''l'', ''m'', ''n'', ''o'', ''p'', ''q'', ''r'', ''s'', ''t'', ''u'', ''v'', ''w'', ''x'',
     ''y'', ''z'', ''n0'', ''n1'', ''n2'', ''n3'', ''n4'', ''n5'', ''n6'', ''n7'', ''n8'',
     ''n9'', ''Backtick'', ''Minus'', ''Equals'', ''BracketLeft'', ''BracketRight'',
     ''Backslash'', ''Semicolon'', ''Quote'', ''Comma'', ''Period'', ''Slash'', ''Esc'',
     ''F1'', ''F2'', ''F3'', ''F4'', ''F5'', ''F6'', ''F7'', ''F8'', ''F9'', ''F10'', ''F11'',
     ''F12'', ''PrintScreen'', ''AltSysRq'', ''Pause'', ''Break'', ''Home'', ''End'',
     ''PageUp'', ''PageDown'', ''Insert'', ''Delete'', ''Tab'', ''Space'', ''Backspace'',
     ''Enter'', ''Up'', ''Down'', ''Left'', ''Right'', ''Menu'', ''LShift'', ''RShift'',
     ''LControl'', ''RControl'', ''LAlt'', ''RAlt'', ''LSuper'', ''RSuper'', ''LHyper'',
     ''RHyper'', ''LMeta'', ''RMeta'', ''NumLock'', ''CapsLock'', ''ScrollLock'', ''kpPeriod'',
     ''kpPlus'', ''kpMinus'', ''kpAsterisk'', ''kpSlash'', ''kp0'', ''kp1'', ''kp2'', ''kp3'',
     ''kp4'', ''kp5'', ''kp6'', ''kp7'', ''kp8'', ''kp9'', ''kpEnter'', ''Power'', ''Sleep'',
     ''Wake'']"

definition key_of :: "string \<Rightarrow> key" where
  "key_of name = length (takeWhile (\<lambda>x. x \<noteq> name) key_names)"

definition key_count :: nat where "key_count = 114"

text \<open>The character tables, by character code.\<close>

definition key_chars :: "nat list" where
  "key_chars = [
     0, 97, 98, 99, 100, 101, 102, 103, 104, 105, 106, 107, 108, 109, 110, 111, 112, 113, 114,
     115, 116, 117, 118, 119, 120, 121, 122, 48, 49, 50, 51, 52, 53, 54, 55, 56, 57, 96, 45,
     61, 91, 93, 92, 59, 39, 44, 46, 47, 27, 0, 0, 0, 0, 0, 0, 0, 0, 0, 0, 0, 0, 0, 0, 0, 0, 0,
     0, 0, 0, 0, 127, 9, 32, 8, 13, 0, 0, 0, 0, 0, 0, 0, 0, 0, 0, 0, 0, 0, 0, 0, 0, 0, 0, 0, 0,
     46, 43, 45, 42, 47, 48, 49, 50, 51, 52, 53, 54, 55, 56, 57, 13, 0, 0, 0]"

definition key_chars_control :: "nat list" where
  "key_chars_control = [
     0, 1, 2, 3, 4, 5, 6, 7, 8, 9, 10, 11, 12, 13, 14, 15, 16, 17, 18, 19, 20, 21, 22, 23, 24,
     25, 26, 48, 49, 0, 51, 52, 53, 30, 55, 56, 57, 96, 45, 61, 27, 29, 28, 59, 39, 44, 46, 31,
     27, 0, 0, 0, 0, 0, 0, 0, 0, 0, 0, 0, 0, 0, 0, 0, 0, 0, 0, 0, 0, 0, 127, 9, 32, 8, 13, 0,
     0, 0, 0, 0, 0, 0, 0, 0, 0, 0, 0, 0, 0, 0, 0, 0, 0, 0, 0, 46, 43, 45, 42, 47, 48, 49, 50,
     51, 52, 53, 54, 55, 56, 57, 13, 0, 0, 0]"

definition key_chars_shift :: "nat list" where
  "key_chars_shift = [
     0, 65, 66, 67, 68, 69, 70, 71, 72, 73, 74, 75, 76, 77, 78, 79, 80, 81, 82, 83, 84, 85, 86,
     87, 88, 89, 90, 41, 33, 64, 35, 36, 37, 94, 38, 42, 40, 126, 95, 43, 123, 125, 124, 58,
     34, 60, 62, 63, 27, 0, 0, 0, 0, 0, 0, 0, 0, 0, 0, 0, 0, 0, 0, 0, 0, 0, 0, 0, 0, 0, 127, 9,
     32, 8, 13, 0, 0, 0, 0, 0, 0, 0, 0, 0, 0, 0, 0, 0, 0, 0, 0, 0, 0, 0, 0, 46, 43, 45, 42, 47,
     48, 49, 50, 51, 52, 53, 54, 55, 56, 57, 13, 0, 0, 0]"

definition keymap_dvorak :: "key list" where
  "keymap_dvorak = map key_of [
     ''None'', ''a'', ''x'', ''j'', ''e'', ''Period'', ''u'', ''i'', ''d'', ''c'', ''h'',
     ''t'', ''n'', ''m'', ''b'', ''r'', ''l'', ''Quote'', ''p'', ''o'', ''y'', ''g'', ''k'',
     ''Comma'', ''q'', ''f'', ''Semicolon'', ''n0'', ''n1'', ''n2'', ''n3'', ''n4'', ''n5'',
     ''n6'', ''n7'', ''n8'', ''n9'', ''Backtick'', ''BracketLeft'', ''BracketRight'',
     ''Slash'', ''Equals'', ''Backslash'', ''s'', ''Minus'', ''w'', ''v'', ''z'', ''Esc'',
     ''F1'', ''F2'', ''F3'', ''F4'', ''F5'', ''F6'', ''F7'', ''F8'', ''F9'', ''F10'', ''F11'',
     ''F12'', ''PrintScreen'', ''AltSysRq'', ''Pause'', ''Break'', ''Home'', ''End'',
     ''PageUp'', ''PageDown'', ''Insert'', ''Delete'', ''Tab'', ''Space'', ''Backspace'',
     ''Enter'', ''Up'', ''Down'', ''Left'', ''Right'', ''Menu'', ''LShift'', ''RShift'',
     ''LControl'', ''RControl'', ''LAlt'', ''RAlt'', ''LSuper'', ''RSuper'', ''LHyper'',
     ''RHyper'', ''LMeta'', ''RMeta'', ''NumLock'', ''LControl'', ''ScrollLock'', ''kpPeriod'',
     ''kpPlus'', ''kpMinus'', ''kpAsterisk'', ''kpSlash'', ''kp0'', ''kp1'', ''kp2'', ''kp3'',
     ''kp4'', ''kp5'', ''kp6'', ''kp7'', ''kp8'', ''kp9'', ''kpEnter'', ''Power'', ''Sleep'',
     ''Wake'', ''End_'']"

text \<open>The scancode tables; the entries that the source leaves out are \<open>Key::None\<close>.\<close>

definition keys_normal :: "key list" where
  "keys_normal = map key_of [
     ''None'', ''F9'', ''None'', ''F5'', ''F3'', ''F1'', ''F2'', ''F12'', ''None'', ''F10'',
     ''F8'', ''F6'', ''F4'', ''Tab'', ''Backtick'', ''None'', ''None'', ''LAlt'', ''LShift'',
     ''None'', ''LControl'', ''q'', ''n1'', ''None'', ''None'', ''None'', ''z'', ''s'', ''a'',
     ''w'', ''n2'', ''None'', ''None'', ''c'', ''x'', ''d'', ''e'', ''n4'', ''n3'', ''None'',
     ''None'', ''Space'', ''v'', ''f'', ''t'', ''r'', ''n5'', ''None'', ''None'', ''n'', ''b'',
     ''h'', ''g'', ''y'', ''n6'', ''None'', ''None'', ''None'', ''m'', ''j'', ''u'', ''n7'',
     ''n8'', ''None'', ''None'', ''Comma'', ''k'', ''i'', ''o'', ''n0'', ''n9'', ''None'',
     ''None'', ''Period'', ''Slash'', ''l'', ''Semicolon'', ''p'', ''Minus'', ''None'',
     ''None'', ''None'', ''Quote'', ''None'', ''BracketLeft'', ''Equals'', ''None'', ''None'',
     ''CapsLock'', ''RShift'', ''Enter'', ''BracketRight'', ''None'', ''Backslash'', ''None'',
     ''None'', ''None'', ''None'', ''None'', ''None'', ''None'', ''None'', ''Backspace'',
     ''None'', ''None'', ''kp1'', ''None'', ''kp4'', ''kp7'', ''None'', ''None'', ''None'',
     ''kp0'', ''kpPeriod'', ''kp2'', ''kp5'', ''kp6'', ''kp8'', ''Esc'', ''NumLock'', ''F11'',
     ''kpPlus'', ''kp3'', ''kpMinus'', ''kpAsterisk'', ''kp9'', ''ScrollLock'', ''None'',
     ''None'', ''None'', ''None'', ''F7'', ''AltSysRq'', ''None'']"

definition keys_escaped :: "key list" where
  "keys_escaped = map key_of [
     ''None'', ''None'', ''None'', ''None'', ''None'', ''None'', ''None'', ''None'', ''None'',
     ''None'', ''None'', ''None'', ''None'', ''None'', ''None'', ''None'', ''None'', ''RAlt'',
     ''None'', ''None'', ''RControl'', ''None'', ''None'', ''None'', ''None'', ''None'',
     ''None'', ''None'', ''None'', ''None'', ''None'', ''LSuper'', ''None'', ''None'',
     ''None'', ''None'', ''None'', ''None'', ''None'', ''RSuper'', ''None'', ''None'',
     ''None'', ''None'', ''None'', ''None'', ''None'', ''Menu'', ''None'', ''None'', ''None'',
     ''None'', ''None'', ''None'', ''None'', ''Power'', ''None'', ''None'', ''None'', ''None'',
     ''None'', ''None'', ''None'', ''Sleep'', ''None'', ''None'', ''None'', ''None'', ''None'',
     ''None'', ''None'', ''None'', ''None'', ''None'', ''kpSlash'', ''None'', ''None'',
     ''None'', ''None'', ''None'', ''None'', ''None'', ''None'', ''None'', ''None'', ''None'',
     ''None'', ''None'', ''None'', ''None'', ''kpEnter'', ''None'', ''None'', ''None'',
     ''Wake'', ''None'', ''None'', ''None'', ''None'', ''None'', ''None'', ''None'', ''None'',
     ''None'', ''None'', ''End'', ''None'', ''Left'', ''Home'', ''None'', ''None'', ''None'',
     ''Insert'', ''Delete'', ''Down'', ''None'', ''Right'', ''Up'', ''None'', ''None'',
     ''None'', ''None'', ''PageDown'', ''None'', ''PrintScreen'', ''PageUp'', ''Break'',
     ''None'']"

definition table_key :: "key list \<Rightarrow> nat \<Rightarrow> key" where
  "table_key t i = (if i < length t then t ! i else 0)"

text \<open>\<open>key_to_char\<close>; the guard lets the number of keys through, which is one past the tables.\<close>

definition key_to_char :: "key \<Rightarrow> bool \<Rightarrow> bool \<Rightarrow> bool \<Rightarrow> char kern" where
  "key_to_char key shift control alt =
     (if key > length key_chars then Some nul
      else do {
        c \<leftarrow> aget (if control then key_chars_control else if shift then key_chars_shift else key_chars) key;
        Some (char_of c)
      })"

section \<open>Keyboard scancodes\<close>

record keyboard =
  dvorak_enabled :: bool
  kb_have_escape :: bool
  kb_have_release :: bool
  kb_control_pressed :: bool
  kb_shift_pressed :: bool
  kb_alt_pressed :: bool

definition sc_escape :: u8 where "sc_escape = 0xe0"

definition sc_break_normal :: u8 where "sc_break_normal = 0xf0"

text \<open>The key of a scancode, and the modifiers after it was pressed or released.\<close>

definition decode_key :: "keyboard \<Rightarrow> u8 \<Rightarrow> key" where
  "decode_key k scancode =
     (let key = table_key (if kb_have_escape k then keys_escaped else keys_normal) (unat scancode) in
      if dvorak_enabled k then table_key keymap_dvorak key else key)"

definition update_modifiers :: "keyboard \<Rightarrow> key \<Rightarrow> keyboard" where
  "update_modifiers k key =
     (let k = (if key = key_of ''LShift'' \<or> key = key_of ''RShift''
               then k\<lparr>kb_shift_pressed := \<not> kb_have_release k\<rparr> else k);
          k = (if key = key_of ''LControl'' \<or> key = key_of ''RControl''
               then k\<lparr>kb_control_pressed := \<not> kb_have_release k\<rparr> else k) in
      if key = key_of ''LAlt'' \<or> key = key_of ''RAlt''
      then k\<lparr>kb_alt_pressed := \<not> kb_have_release k\<rparr> else k)"

text \<open>One byte from the keyboard: the new state and, for a key press, the key and its character.\<close>

definition keyboard_byte :: "keyboard \<Rightarrow> u8 \<Rightarrow> (keyboard \<times> (key \<times> char) option) kern" where
  "keyboard_byte k scancode =
     (if scancode = sc_escape then Some (k\<lparr>kb_have_escape := True\<rparr>, None)
      else if scancode = sc_break_normal then Some (k\<lparr>kb_have_release := True\<rparr>, None)
      else let key = decode_key k scancode; released = kb_have_release k;
               k = (update_modifiers k key)\<lparr>kb_have_release := False, kb_have_escape := False\<rparr> in
        if released then Some (k, None)
        else if key = key_of ''F12'' then Some (k\<lparr>dvorak_enabled := \<not> dvorak_enabled k\<rparr>, None)
        else do {
          ch \<leftarrow> key_to_char key (kb_shift_pressed k) (kb_control_pressed k) (kb_alt_pressed k);
          Some (k, Some (key, ch))
        })"

section \<open>Where a character goes\<close>

text \<open>The parts of the kernel shell that the handler touches (kshell.cc).\<close>

record input =
  in_keyboard :: keyboard
  keyboard_input :: "char kqueue"
  kshell_input :: "char kqueue"
  kshell_enabled :: bool
  kshell_input_enabled :: bool
  kshell_lock :: semaphore
  in_sched :: sched

definition kshell_enable :: "input \<Rightarrow> input kern" where
  "kshell_enable s =
     (if kshell_enabled s then Some s
      else do {
        sc \<leftarrow> pause_userspace (in_sched s);
        (l, sc) \<leftarrow> sem_signal sc (kshell_lock s);
        Some (s\<lparr>kshell_enabled := True, kshell_lock := l, in_sched := sc\<rparr>)
      })"

definition deliver_key :: "input \<Rightarrow> key \<Rightarrow> char \<Rightarrow> input kern" where
  "deliver_key s key ch =
     (if kshell_input_enabled s then do {
        (ok, q, sc) \<leftarrow> kq_try_enqueue (in_sched s) (kshell_input s) False ch;
        Some (s\<lparr>kshell_input := q, in_sched := sc\<rparr>)
      }
      else if \<not> kshell_enabled s \<and> (key = key_of ''F1'' \<or> key = key_of ''Esc'') then kshell_enable s
      else if ch \<noteq> nul then do {
        (ok, q, sc) \<leftarrow> kq_try_enqueue (in_sched s) (keyboard_input s) False ch;
        Some (s\<lparr>keyboard_input := q, in_sched := sc\<rparr>)
      }
      else Some s)"

fun irq_handler_keyboard :: "input \<Rightarrow> u8 list \<Rightarrow> input kern" where
  "irq_handler_keyboard s [] = Some s"
| "irq_handler_keyboard s (b # bs) = do {
     (k, e) \<leftarrow> keyboard_byte (in_keyboard s) b;
     let s = s\<lparr>in_keyboard := k\<rparr>;
     s \<leftarrow> (case e of None \<Rightarrow> Some s | Some (key, ch) \<Rightarrow> deliver_key s key ch);
     irq_handler_keyboard s bs
   }"

section \<open>The mouse\<close>

record mouse =
  mouse_type :: u8
  mouse_x :: int
  mouse_y :: int
  mouse_cx :: int
  mouse_cy :: int
  mouse_packet :: "u8 list"
  packet_i :: nat

record mouse_event =
  move_x :: "16 word"
  move_y :: "16 word"
  buttons :: u8

definition cx_max :: int where "cx_max = 640"

definition cy_max :: int where "cy_max = 480"

text \<open>The 9-bit movement: the byte minus the sign bit, which is bit \<open>8 - n\<close> of the first byte.\<close>

definition mouse_move :: "u8 \<Rightarrow> u8 \<Rightarrow> nat \<Rightarrow> int" where
  "mouse_move b first n = uint b - uint (push_bit n (ucast first) AND 0x100 :: u32)"

text \<open>The screen attributes that change, as pairs of an address and a value.\<close>

definition cell :: "int \<Rightarrow> int \<Rightarrow> u32" where
  "cell cx cy = 0xb8000 + of_int (cy * 80 * 2 + cx * 2 + 1)"

definition mouse_writes :: "mouse \<Rightarrow> bool \<Rightarrow> bool \<Rightarrow> int \<Rightarrow> int \<Rightarrow> (u32 \<times> u8) list" where
  "mouse_writes m left right cx2 cy2 =
     (if right then map (\<lambda>i. (0xb8000 + of_nat (i * 2 + 1), 0x0f)) [0..<80 * 25] else [])
     @ (if cx2 \<noteq> mouse_cx m \<or> cy2 \<noteq> mouse_cy m
        then (if \<not> left then [(cell (mouse_cx m) (mouse_cy m), 0x0f)] else []) @ [(cell cx2 cy2, 0xf0)]
        else [])"

definition mouse_packet_done :: "mouse \<Rightarrow> mouse \<times> mouse_event \<times> (u32 \<times> u8) list" where
  "mouse_packet_done m =
     (let p = mouse_packet m;
          left = bit (p ! 0) 0; right = bit (p ! 0) 1; middle = bit (p ! 0) 2;
          xm = mouse_move (p ! 1) (p ! 0) 4; ym = mouse_move (p ! 2) (p ! 0) 3;
          x = clamp 0 cx_max (mouse_x m + xm); y = clamp 0 cy_max (mouse_y m + - ym);
          cx2 = clamp 0 79 (x div (cx_max div 80)); cy2 = clamp 0 24 (y div (cy_max div 25)) in
      (m\<lparr>mouse_x := x, mouse_y := y, packet_i := 0, mouse_cx := cx2, mouse_cy := cy2\<rparr>,
       \<lparr>move_x = of_int xm, move_y = of_int ym,
        buttons = of_bool left OR push_bit 1 (of_bool middle) OR push_bit 2 (of_bool right)\<rparr>,
       mouse_writes m left right cx2 cy2))"

text \<open>One byte from the mouse: a packet has three bytes, or four for the other mouse types.\<close>

definition mouse_byte :: "mouse \<Rightarrow> u8 \<Rightarrow> (mouse \<times> (mouse_event \<times> (u32 \<times> u8) list) option) kern" where
  "mouse_byte m b = do {
     p \<leftarrow> aset (mouse_packet m) (packet_i m) b;
     let m = m\<lparr>mouse_packet := p, packet_i := packet_i m + 1\<rparr>;
     if mouse_type m = 0 \<and> packet_i m \<ge> 3 \<or> packet_i m \<ge> 4
     then (let (m, e, w) = mouse_packet_done m in Some (m, Some (e, w)))
     else Some (m, None)
   }"

section \<open>The device files\<close>

text \<open>
  \<open>/dev/keyboard\<close>: a read takes characters off the queue until the buffer is full or a line ends.
  The list has the characters in the order in which \<open>dequeue\<close> delivers them; \<open>None\<close> says that the
  read still waits for more. The result is the text that was read and the characters left.
\<close>

fun keyboard_read_loop :: "nat \<Rightarrow> string \<Rightarrow> string \<Rightarrow> (string \<times> string) option" where
  "keyboard_read_loop nbytes got cs =
     (if length got \<ge> nbytes then Some (got, cs)
      else case cs of
        [] \<Rightarrow> None
      | c # cs \<Rightarrow>
          (let c = (if c = CHR 0x0D then CHR 0x0A else c) in
           if got = [] \<and> c = ascii_ctrl CHR ''D'' then Some ([], cs)
           else if c = CHR 0x0A then Some (got @ [c], cs)
           else keyboard_read_loop nbytes (got @ [c]) cs))"

declare keyboard_read_loop.simps [simp del]

definition keyboard_read :: "nat \<Rightarrow> string \<Rightarrow> (string \<times> string) option" where
  "keyboard_read nbytes cs = keyboard_read_loop nbytes [] cs"

text \<open>\<open>/dev/mouse\<close>: the text of one event, cut to the size of the buffer.\<close>

definition mouse_read :: "nat \<Rightarrow> mouse_event \<Rightarrow> string kern" where
  "mouse_read nbytes e = do {
     (text, n) \<leftarrow> fmt_buffer 33 [\<lambda>f. format_s64 f (scast (move_x e)), \<lambda>f. format_s64 f (scast (move_y e))]
                   (''{} {}'' @ [CHR 0x0A]);
     Some (take nbytes text)
   }"

section \<open>Lines from the keyboard\<close>

definition newline :: "char \<Rightarrow> char" where "newline c = (if c = CHR 0x0D then CHR 0x0A else c)"

declare find_index_simps [simp]

text \<open>What a read that has room for \<open>m\<close> more characters takes from the queue.\<close>

definition line_of :: "nat \<Rightarrow> string \<Rightarrow> (string \<times> string) option" where
  "line_of m cs = (case find_index (\<lambda>c. newline c = CHR 0x0A) (take m cs) of
      Some i \<Rightarrow> Some (map newline (take (i + 1) cs), drop (i + 1) cs)
    | None \<Rightarrow> if m \<le> length cs then Some (map newline (take m cs), drop m cs) else None)"

lemma line_of_simps [simp]:
  "line_of 0 cs = Some ([], cs)"
  "line_of (Suc m) [] = None"
  "line_of (Suc m) (c # cs) = (if newline c = CHR 0x0A then Some ([newline c], cs)
     else map_option (\<lambda>(l, r). (newline c # l, r)) (line_of m cs))"
  by (simp_all add: line_of_def split: option.splits)

lemma keyboard_read_loop_line:
  "got \<noteq> [] \<Longrightarrow> keyboard_read_loop n got cs = map_option (\<lambda>(l, r). (got @ l, r)) (line_of (n - length got) cs)"
proof (induction cs arbitrary: got)
  case Nil
  then show ?case by (cases "n - length got") (simp_all add: keyboard_read_loop.simps [of n got])
next
  case (Cons c cs)
  show ?case
  proof (cases "n - length got")
    case 0
    then show ?thesis by (simp add: keyboard_read_loop.simps [of n got])
  next
    case (Suc m)
    then have "n - length (got @ [x]) = m" for x by simp
    with Suc Cons.prems Cons.IH [of "got @ [newline c]"] show ?thesis
      by (cases "line_of m cs") (auto simp: keyboard_read_loop.simps [of n got] newline_def Let_def)
  qed
qed

text \<open>
  C22: Reading the keyboard. A read of \<open>n\<close> characters returns the typed characters up to and with
  the first end of line, at most \<open>n\<close> of them, carriage returns turned into newlines, and leaves the
  others in the queue; a \<open>^D\<close> at the start makes it return nothing; and it waits exactly when fewer
  than \<open>n\<close> characters without an end of line have been typed.
\<close>

theorem keyboard_read_line:
  "keyboard_read n cs =
     (if n \<noteq> 0 \<and> cs \<noteq> [] \<and> hd cs = ascii_ctrl CHR ''D'' then Some ([], tl cs)
      else case find_index (\<lambda>c. newline c = CHR 0x0A) (take n cs) of
        Some i \<Rightarrow> Some (map newline (take (i + 1) cs), drop (i + 1) cs)
      | None \<Rightarrow> if n \<le> length cs then Some (map newline (take n cs), drop n cs) else None)"
proof -
  have d: "ascii_ctrl CHR ''D'' = CHR 0x04" by code_simp
  have "keyboard_read n cs = (if n \<noteq> 0 \<and> cs \<noteq> [] \<and> hd cs = ascii_ctrl CHR ''D'' then Some ([], tl cs) else line_of n cs)"
  proof (cases n)
    case (Suc m)
    show ?thesis
    proof (cases cs)
      case (Cons c r)
      with Suc keyboard_read_loop_line [of "[newline c]" n r] show ?thesis
        by (cases "line_of m r") (auto simp: keyboard_read_def keyboard_read_loop.simps [of "Suc m" "[]"] newline_def Let_def d)
    qed (simp add: keyboard_read_def keyboard_read_loop.simps Suc)
  qed (simp add: keyboard_read_def keyboard_read_loop.simps)
  then show ?thesis by (simp only: line_of_def)
qed

end
