(* ===== verification/UserMem.thy ===== *)
theory UserMem
  imports AddrSpace
begin

text \<open>
  Memory accesses of the kernel through the page tables, and the page fault handler that backs
  the kernel heap lazily (interrupt/page-fault.cc). The contents of a physical page are the 1024
  words of \<open>ptmem\<close>, as for page tables; an access that the processor refuses is \<open>None\<close>.
\<close>

section \<open>Loads and stores\<close>

text \<open>The physical page behind an address, for a read or a write of the kernel.\<close>

definition mmu_page :: "vmm \<Rightarrow> bool \<Rightarrow> u32 \<Rightarrow> nat kern" where
  "mmu_page s write a = do {
     let pde = ptmem s (cur_dir s) (addr_tab a);
     kassert (is_present pde \<and> (write \<longrightarrow> is_writable pde));
     let pte = ptmem s (frame pde) (addr_pagei a);
     kassert (is_present pte \<and> (write \<longrightarrow> is_writable pte));
     Some (frame pte)
   }"

definition word_index :: "u32 \<Rightarrow> nat" where "word_index a = unat a mod 4096 div 4"

definition get_byte :: "u32 \<Rightarrow> nat \<Rightarrow> u8" where "get_byte w i = ucast (drop_bit (8 * i) w)"

definition set_byte :: "u32 \<Rightarrow> nat \<Rightarrow> u8 \<Rightarrow> u32" where
  "set_byte w i b = (w AND NOT (push_bit (8 * i) 0xff)) OR push_bit (8 * i) (ucast b)"

definition load_byte :: "vmm \<Rightarrow> u32 \<Rightarrow> u8 kern" where
  "load_byte s a = do { p \<leftarrow> mmu_page s False a; Some (get_byte (ptmem s p (word_index a)) (unat a mod 4)) }"

definition store_byte :: "vmm \<Rightarrow> u32 \<Rightarrow> u8 \<Rightarrow> vmm kern" where
  "store_byte s a b = do {
     p \<leftarrow> mmu_page s True a;
     Some (put_entry s p (word_index a) (set_byte (ptmem s p (word_index a)) (unat a mod 4) b))
   }"

fun store_bytes :: "vmm \<Rightarrow> u32 \<Rightarrow> u8 list \<Rightarrow> vmm kern" where
  "store_bytes s a [] = Some s"
| "store_bytes s a (b # bs) = do { s \<leftarrow> store_byte s a b; store_bytes s (a + 1) bs }"

fun load_bytes :: "vmm \<Rightarrow> u32 \<Rightarrow> nat \<Rightarrow> u8 list kern" where
  "load_bytes s a 0 = Some []"
| "load_bytes s a (Suc n) = do { b \<leftarrow> load_byte s a; bs \<leftarrow> load_bytes s (a + 1) n; Some (b # bs) }"

definition word_bytes :: "u32 \<Rightarrow> u8 list" where "word_bytes w = map (get_byte w) [0..<4]"

definition store_word :: "vmm \<Rightarrow> u32 \<Rightarrow> u32 \<Rightarrow> vmm kern" where
  "store_word s a w = store_bytes s a (word_bytes w)"

text \<open>\<open>mem_set\<close> of words at an address that is a multiple of 4.\<close>

primrec mem_set_words :: "vmm \<Rightarrow> u32 \<Rightarrow> u32 \<Rightarrow> nat \<Rightarrow> vmm kern" where
  "mem_set_words s a w 0 = Some s"
| "mem_set_words s a w (Suc n) = do {
     p \<leftarrow> mmu_page s True a;
     mem_set_words (put_entry s p (word_index a) w) (a + 4) w n
   }"

section \<open>Page faults\<close>

text \<open>
  \<open>handle_pagefault\<close>: \<open>address\<close> is CR2, \<open>error_code\<close> what the processor pushed. The result says
  whether the fault was dealt with.
\<close>

definition handle_pagefault :: "u32 \<Rightarrow> u32 \<Rightarrow> u32 \<Rightarrow> vmm \<Rightarrow> (bool \<times> vmm) kern" where
  "handle_pagefault heap_start address error_code s =
     (if addr_in_region address (kernel_heap_region heap_start) \<and> error_code AND 0x1d = 0 then do {
        let aligned = address AND NOT 0xfff;
        (err, s) \<leftarrow> vm_map s aligned 0 page_size flag_writable;
        if err \<ge> 0 then do {
          s \<leftarrow> mem_set_words s aligned 0xdeaddead (page_size div 4);
          Some (True, s)
        }
        else Some (False, s)
      }
      else Some (False, s))"

lemma mmu_page_upd:
  assumes "p \<noteq> cur_dir s" "\<And>t. is_present (ptmem s (cur_dir s) t) \<Longrightarrow> p \<noteq> frame (ptmem s (cur_dir s) t)"
  shows "mmu_page (put_entry s p i v) w a = mmu_page s w a"
  using assms by (auto simp: mmu_page_def put_entry_def Let_def)

end
