(* ===== verification/Elf.thy ===== *)
theory Elf
  imports UserMem VfsOpen Lifecycle
begin

text \<open>
  The program loader (process/elf.cc): the ELF file is read through the virtual file system, its
  segments are mapped and copied into a new address space, and a process is made that runs in it.
  The code registers two clean-up actions that run on every return (\<open>ON_RETURN\<close>): closing the
  file, and deleting the new address space if the variable \<open>err\<close> is negative at that moment. A step
  that returns early is \<open>Inl\<close> with the returned error and the value of \<open>err\<close>.
\<close>

section \<open>The file format\<close>

record elf_header =
  e_magic :: "u8 list"
  e_class :: u8
  e_endianness :: u8
  e_type :: u16
  e_entry :: u32
  ph_off :: u32
  ph_num :: u16

definition parse_header :: "u8 list \<Rightarrow> elf_header" where
  "parse_header b = \<lparr>e_magic = take 4 b, e_class = b ! 4, e_endianness = b ! 5, e_type = le16 b 16,
     e_entry = le32 b 24, ph_off = le32 b 28, ph_num = le16 b 44\<rparr>"

definition header_size :: nat where "header_size = 52"

record ph_entry =
  ph_type :: u32
  ph_offset :: u32
  ph_v_addr :: u32
  ph_size_file :: u32
  ph_size_mem :: u32

definition parse_ph_entry :: "u8 list \<Rightarrow> ph_entry" where
  "parse_ph_entry b = \<lparr>ph_type = le32 b 0, ph_offset = le32 b 4, ph_v_addr = le32 b 8,
     ph_size_file = le32 b 16, ph_size_mem = le32 b 20\<rparr>"

definition ph_entry_size :: nat where "ph_entry_size = 32"

definition ELF_32BIT :: u8 where "ELF_32BIT = 1"

definition ELF_LE :: u8 where "ELF_LE = 1"

definition ELF_TYPE_EXEC :: u16 where "ELF_TYPE_EXEC = 2"

definition ELF_PT_LOAD :: u32 where "ELF_PT_LOAD = 1"

definition validate_header :: "elf_header \<Rightarrow> bool" where
  "validate_header h =
     (if e_magic h \<noteq> [0x7f, 0x45, 0x4c, 0x46] then False
      else if e_class h \<noteq> ELF_32BIT then False
      else if e_endianness h \<noteq> ELF_LE then False
      else if e_type h \<noteq> ELF_TYPE_EXEC then False
      else if ph_num h > 16 then False
      else True)"

section \<open>Segments\<close>

definition max_chunk_size :: nat where "max_chunk_size = 8192"

text \<open>
  The part of the kernel that the loader works on: the files with the processes, the memory, and
  the \<open>address_space_t\<close> objects, which processes refer to by their address.
\<close>

record 'x loader =
  l_vfs :: "'x vfs"
  l_vmm :: vmm
  l_spaces :: "nat \<Rightarrow> address_space option"

text \<open>Run an action on the memory with the directory \<open>pd\<close> switched in, then the old one again.\<close>

definition within_space :: "u32 \<Rightarrow> u32 \<Rightarrow> (vmm \<Rightarrow> vmm kern) \<Rightarrow> vmm \<Rightarrow> vmm kern" where
  "within_space pd old act m = do { m \<leftarrow> set_pagedir m pd; m \<leftarrow> act m; set_pagedir m old }"

text \<open>
  The chunk loop. \<open>chunk\<close> is the buffer on the stack, with what earlier reads left in it. A read that
  reports fewer bytes than asked for without being an error is not noticed.
\<close>

type_synonym ('a, 'x) step = "((errno \<times> errno) + 'a) \<times> 'x loader"

function copy_chunks :: "'x hw \<Rightarrow> int \<Rightarrow> u32 \<Rightarrow> u32 \<Rightarrow> u32 \<Rightarrow> nat \<Rightarrow> nat \<Rightarrow> u8 list \<Rightarrow> 'x loader \<Rightarrow>
    (u8 list, 'x) step kern" where
  "copy_chunks hw fd pd old start size_file copied chunk l =
     (if copied \<ge> size_file then Some (Inr chunk, l)
      else let to_copy = min (size_file - copied) max_chunk_size in
        case read_all hw fd (take to_copy chunk) (l_vfs l) of
          None \<Rightarrow> None
        | Some (err, bs, v) \<Rightarrow>
            if err < 0 then Some (Inl (err, err), l\<lparr>l_vfs := v\<rparr>)
            else let chunk = overlay bs chunk in
            (case within_space pd old (\<lambda>m. store_bytes m (start + of_nat copied) (take to_copy chunk)) (l_vmm l) of
              None \<Rightarrow> None
            | Some m \<Rightarrow> copy_chunks hw fd pd old start size_file (copied + to_copy) chunk
                (l\<lparr>l_vfs := v, l_vmm := m\<rparr>)))"
  by pat_completeness auto
termination
  by (relation "measure (\<lambda>(hw, fd, pd, old, start, size_file, copied, chunk, l). size_file - copied)")
    (auto simp: max_chunk_size_def)

declare copy_chunks.simps [simp del]

definition segment_region :: "ph_entry \<Rightarrow> region" where
  "segment_region e = \<lparr>r_start = ph_v_addr e, r_size = align_up (ph_size_mem e) (of_nat page_size)\<rparr>"

definition segment_ok :: "ph_entry \<Rightarrow> bool" where
  "segment_ok e \<longleftrightarrow> \<not> (\<not> region_valid (segment_region e) \<or> ph_size_file e > ph_size_mem e)
     \<and> region_contains user_region (segment_region e)"

text \<open>Mapping a segment; when \<open>map\<close> fails the new directory stays switched in.\<close>

definition map_segment :: "u32 \<Rightarrow> u32 \<Rightarrow> region \<Rightarrow> 'x loader \<Rightarrow> (unit, 'x) step kern" where
  "map_segment pd old mem l = do {
     m \<leftarrow> set_pagedir (l_vmm l) pd;
     (err, m) \<leftarrow> vm_map m (r_start mem) 0 (unat (r_size mem)) (flag_writable OR flag_user);
     if err < 0 then Some (Inl (err, err), l\<lparr>l_vmm := m\<rparr>)
     else do { m \<leftarrow> set_pagedir m old; Some (Inr (), l\<lparr>l_vmm := m\<rparr>) }
   }"

definition zero_rest :: "u32 \<Rightarrow> u32 \<Rightarrow> ph_entry \<Rightarrow> 'x loader \<Rightarrow> 'x loader kern" where
  "zero_rest pd old e l =
     (if ph_size_mem e > ph_size_file e then do {
        m \<leftarrow> within_space pd old (\<lambda>m. store_bytes m (r_start (segment_region e) + ph_size_file e)
               (replicate (unat (r_size (segment_region e) - ph_size_file e)) 0)) (l_vmm l);
        Some (l\<lparr>l_vmm := m\<rparr>)
      }
      else Some l)"

text \<open>A segment whose entry was read with the result \<open>err\<close>.\<close>

definition load_entry :: "'x hw \<Rightarrow> int \<Rightarrow> u32 \<Rightarrow> u32 \<Rightarrow> ph_entry \<Rightarrow> errno \<Rightarrow> u8 list \<Rightarrow> 'x loader \<Rightarrow>
    (u8 list, 'x) step kern" where
  "load_entry hw fd pd old e err chunk l =
     (if ph_type e \<noteq> ELF_PT_LOAD \<or> ph_size_mem e = 0 then Some (Inr chunk, l)
      else if \<not> segment_ok e then Some (Inl (ERR_invalid, err), l)
      else do {
        (err, v) \<leftarrow> (if ph_size_file e \<noteq> 0 then vfs_seek fd seek_set (ucast (ph_offset e)) (l_vfs l)
                     else Some (err, l_vfs l));
        let l = l\<lparr>l_vfs := v\<rparr>;
        if err < 0 then Some (Inl (err, err), l)
        else do {
          (r, l) \<leftarrow> map_segment pd old (segment_region e) l;
          case r of
            Inl x \<Rightarrow> Some (Inl x, l)
          | Inr _ \<Rightarrow> do {
              (r, l) \<leftarrow> copy_chunks hw fd pd old (ph_v_addr e) (unat (ph_size_file e)) 0 chunk l;
              case r of
                Inl x \<Rightarrow> Some (Inl x, l)
              | Inr chunk \<Rightarrow> do { l \<leftarrow> zero_rest pd old e l; Some (Inr chunk, l) }
            }
        }
      })"

text \<open>The loop over the entries; \<open>junk i\<close> is what the entry's variable holds before it is read.\<close>

fun load_segments :: "'x hw \<Rightarrow> (nat \<Rightarrow> u8 list) \<Rightarrow> int \<Rightarrow> u32 \<Rightarrow> u32 \<Rightarrow> u32 \<Rightarrow> nat \<Rightarrow> nat \<Rightarrow> u8 list \<Rightarrow> 'x loader \<Rightarrow>
    (u8 list, 'x) step kern" where
  "load_segments hw junk fd pd old off i 0 chunk l = Some (Inr chunk, l)"
| "load_segments hw junk fd pd old off i (Suc n) chunk l = do {
     (err, v) \<leftarrow> vfs_seek fd seek_set (ucast (off + of_nat (i * ph_entry_size))) (l_vfs l);
     let l = l\<lparr>l_vfs := v\<rparr>;
     if err < 0 then Some (Inl (err, err), l)
     else do {
       (err, bs, v) \<leftarrow> read_all hw fd (junk i) (l_vfs l);
       let l = l\<lparr>l_vfs := v\<rparr>;
       if err < 0 then Some (Inl (err, err), l)
       else do {
         (r, l) \<leftarrow> load_entry hw fd pd old (parse_ph_entry bs) err chunk l;
         case r of
           Inl x \<Rightarrow> Some (Inl x, l)
         | Inr chunk \<Rightarrow> load_segments hw junk fd pd old off (i + 1) n chunk l
       }
     }
   }"

section \<open>Arguments\<close>

text \<open>
  \<open>argc\<close> is the word at the start of the argument area, the pointers \<open>argv\<close> follow it, and the
  texts come after \<open>max_args\<close> pointers. The first empty argument ends the list.
\<close>

fun store_args :: "u32 \<Rightarrow> nat \<Rightarrow> u32 \<Rightarrow> string list \<Rightarrow> vmm \<Rightarrow> vmm kern" where
  "store_args base argc p [] m = Some m"
| "store_args base argc p (a # as) m =
     (if a = [] then Some m
      else do {
        m \<leftarrow> store_word m (base + 4 + of_nat (4 * argc)) p;
        m \<leftarrow> store_word m base (of_nat (argc + 1));
        m \<leftarrow> store_bytes m p (map of_char a @ [0]);
        store_args base (argc + 1) (p + of_nat (length a + 1)) as m
      })"

definition args_size :: nat where
  "args_size = max 16384 (4 + max_args * 4 + max_args_chars)"

definition copy_args :: "u32 \<Rightarrow> u32 \<Rightarrow> string list \<Rightarrow> 'x loader \<Rightarrow> (unit, 'x) step kern" where
  "copy_args pd old args l = do {
     let base = r_start user_args_region;
     m \<leftarrow> set_pagedir (l_vmm l) pd;
     (err, m) \<leftarrow> vm_map m base 0 args_size (flag_writable OR flag_user);
     if err < 0 then Some (Inl (err, err), l\<lparr>l_vmm := m\<rparr>)
     else do {
       m \<leftarrow> store_word m base 0;
       m \<leftarrow> store_args base 0 (base + 4 + of_nat (4 * max_args)) args m;
       m \<leftarrow> set_pagedir m old;
       Some (Inr (), l\<lparr>l_vmm := m\<rparr>)
     }
   }"

section \<open>Loading\<close>

text \<open>
  The addresses that the heap gives to the objects that loading makes, the initial contents of
  the variables on the stack, and the registers that a new process takes over.
\<close>

record loader_env =
  env_handle :: nat
  env_file :: nat
  env_space :: u32
  env_pd :: u32
  env_pt_rec :: u32
  env_proc :: nat
  env_thread :: nat
  env_stack_end :: u32
  env_cpu :: cpu
  env_header :: "u8 list"
  env_entries :: "nat \<Rightarrow> u8 list"
  env_chunk :: "u8 list"

text \<open>The clean-up of the address space.\<close>

definition drop_space :: "u32 \<Rightarrow> u32 \<Rightarrow> address_space \<Rightarrow> errno \<Rightarrow> 'x loader \<Rightarrow> 'x loader kern" where
  "drop_space old space_a space err l =
     (if err < 0 then do {
        m \<leftarrow> set_pagedir (l_vmm l) old;
        (freed, m) \<leftarrow> delete_address_space m space_a space;
        Some (l\<lparr>l_vmm := m, l_spaces := (l_spaces l)(unat space_a := None)\<rparr>)
      }
      else Some l)"

text \<open>From the header on; the result is the returned error and the new process (0 if none).\<close>

definition load_program :: "'x hw \<Rightarrow> loader_env \<Rightarrow> int \<Rightarrow> string \<Rightarrow> string list \<Rightarrow> elf_header \<Rightarrow> 'x loader \<Rightarrow>
    (errno \<times> nat \<times> 'x loader) kern" where
  "load_program hw env fd path args h l = do {
     let old = current_dir_ptr (l_vmm l);
     (space, freed, m) \<leftarrow> make_address_space (l_vmm l) (env_space env) (env_pd env) (env_pt_rec env);
     let l = l\<lparr>l_vmm := m\<rparr>;
     case space of
       None \<Rightarrow> Some (ERR_nomem, 0, l)
     | Some sp \<Rightarrow> do {
         let l = l\<lparr>l_spaces := (l_spaces l)(unat (env_space env) \<mapsto> sp)\<rparr>;
         (r, l) \<leftarrow> load_segments hw (env_entries env) fd (as_pd sp) old (ph_off h) 0 (unat (ph_num h))
                    (env_chunk env) l;
         case r of
           Inl (ret, err) \<Rightarrow> do { l \<leftarrow> drop_space old (env_space env) sp err l; Some (ret, 0, l) }
         | Inr _ \<Rightarrow> do {
             (r, l) \<leftarrow> copy_args (as_pd sp) old args l;
             case r of
               Inl (ret, err) \<Rightarrow> do { l \<leftarrow> drop_space old (env_space env) sp err l; Some (ret, 0, l) }
             | Inr _ \<Rightarrow> do {
                 (p, freed, s) \<leftarrow> make_proc (env_cpu env) (v_sched (l_vfs l)) (env_proc env) (env_thread env)
                    (env_stack_end env) (unat (env_space env)) (e_entry h) path;
                 Some (ERR_success, p, l\<lparr>l_vfs := (l_vfs l)\<lparr>v_sched := s\<rparr>\<rparr>)
               }
           }
       }
   }"

definition load_elf :: "'x hw \<Rightarrow> loader_env \<Rightarrow> string \<Rightarrow> string list \<Rightarrow> 'x loader \<Rightarrow> (errno \<times> nat \<times> 'x loader) kern" where
  "load_elf hw env path args l = do {
     (fd, v) \<leftarrow> vfs_open hw (env_handle env) (env_file env) (-1) path o_read (l_vfs l);
     let l = l\<lparr>l_vfs := v\<rparr>;
     if fd < 0 then Some (fd, 0, l)
     else do {
       (err, bs, v) \<leftarrow> read_all hw fd (env_header env) (l_vfs l);
       let l = l\<lparr>l_vfs := v\<rparr>;
       (ret, p, l) \<leftarrow> (if err < 0 then Some (err, 0, l)
                       else if \<not> validate_header (parse_header bs) then Some (ERR_invalid, 0, l)
                       else load_program hw env fd path args (parse_header bs) l);
       (r, v) \<leftarrow> close_unlocked fd (l_vfs l);
       Some (ret, p, l\<lparr>l_vfs := v\<rparr>)
     }
   }"

end
