(* ===== verification/Ports.thy ===== *)
theory Ports
  imports Prelude "HOL-Library.State_Monad"
begin

text \<open>
  Input and output ports (common/asm.hh). What is behind the ports is a parameter: a record of
  functions on a state \<open>'x\<close> of the hardware. Code that talks to ports is a computation in the
  state monad over \<open>'x\<close>.
\<close>

record 'x ports =
  port_in8 :: "u16 \<Rightarrow> 'x \<Rightarrow> u8 \<times> 'x"
  port_in16 :: "u16 \<Rightarrow> 'x \<Rightarrow> u16 \<times> 'x"
  port_in32 :: "u16 \<Rightarrow> 'x \<Rightarrow> u32 \<times> 'x"
  port_out8 :: "u16 \<Rightarrow> u8 \<Rightarrow> 'x \<Rightarrow> 'x"
  port_out16 :: "u16 \<Rightarrow> u16 \<Rightarrow> 'x \<Rightarrow> 'x"
  port_out32 :: "u16 \<Rightarrow> u32 \<Rightarrow> 'x \<Rightarrow> 'x"

type_synonym ('x, 'a) io_m = "('x, 'a) state"

definition in_8 :: "'x ports \<Rightarrow> u16 \<Rightarrow> ('x, u8) io_m" where "in_8 p a = State (port_in8 p a)"

definition in_16 :: "'x ports \<Rightarrow> u16 \<Rightarrow> ('x, u16) io_m" where "in_16 p a = State (port_in16 p a)"

definition in_32 :: "'x ports \<Rightarrow> u16 \<Rightarrow> ('x, u32) io_m" where "in_32 p a = State (port_in32 p a)"

definition out_8 :: "'x ports \<Rightarrow> u16 \<Rightarrow> u8 \<Rightarrow> ('x, unit) io_m" where
  "out_8 p a v = State (\<lambda>x. ((), port_out8 p a v x))"

definition out_16 :: "'x ports \<Rightarrow> u16 \<Rightarrow> u16 \<Rightarrow> ('x, unit) io_m" where
  "out_16 p a v = State (\<lambda>x. ((), port_out16 p a v x))"

definition out_32 :: "'x ports \<Rightarrow> u16 \<Rightarrow> u32 \<Rightarrow> ('x, unit) io_m" where
  "out_32 p a v = State (\<lambda>x. ((), port_out32 p a v x))"

definition io_wait :: "'x ports \<Rightarrow> ('x, unit) io_m" where
  "io_wait p = do { _ \<leftarrow> in_8 p 0x80; State_Monad.return () }"

primrec io_waits :: "'x ports \<Rightarrow> nat \<Rightarrow> ('x, unit) io_m" where
  "io_waits p 0 = State_Monad.return ()"
| "io_waits p (Suc n) = do { _ \<leftarrow> io_wait p; io_waits p n }"

definition out_8s :: "'x ports \<Rightarrow> u16 \<Rightarrow> u8 \<Rightarrow> ('x, unit) io_m" where
  "out_8s p a v = do { _ \<leftarrow> out_8 p a v; io_wait p }"

text \<open>
  The bounded polling loop \<open>for (i : range(n)) { ... return r; ... }\<close>: \<open>None\<close> says that a round
  did not return, and in the end that no round did.
\<close>

primrec poll :: "('x, 'a option) io_m \<Rightarrow> nat \<Rightarrow> ('x, 'a option) io_m" where
  "poll m 0 = State_Monad.return None"
| "poll m (Suc n) = do { r \<leftarrow> m; case r of Some a \<Rightarrow> State_Monad.return (Some a) | None \<Rightarrow> poll m n }"

text \<open>\<open>a && b\<close> of two computations with effects.\<close>

definition both :: "('x, bool) io_m \<Rightarrow> ('x, bool) io_m \<Rightarrow> ('x, bool) io_m" where
  "both a b = do { r \<leftarrow> a; if r then b else State_Monad.return False }"

lemma run_bind [simp]: "run_state (State_Monad.bind m f) x = (let (a, y) = run_state m x in run_state (f a) y)"
  by (simp add: State_Monad.bind_def split: prod.splits)

lemma run_io [simp]:
  "run_state (in_8 p a) x = port_in8 p a x"
  "run_state (in_16 p a) x = port_in16 p a x"
  "run_state (in_32 p a) x = port_in32 p a x"
  "run_state (out_8 p a v) x = ((), port_out8 p a v x)"
  "run_state (out_16 p a w) x = ((), port_out16 p a w x)"
  "run_state (out_32 p a d) x = ((), port_out32 p a d x)"
  by (simp_all add: in_8_def in_16_def in_32_def out_8_def out_16_def out_32_def)

lemma run_if [simp]: "run_state (if b then m else n) x = (if b then run_state m x else run_state n x)"
  by simp

section \<open>Counting accesses\<close>

text \<open>
  The same hardware with a counter of the port accesses, and the computations that make at most \<open>k\<close>
  of them, whatever the hardware answers.
\<close>

definition counted :: "'x ports \<Rightarrow> ('x \<times> nat) ports" where
  "counted p = \<lparr>
     port_in8 = \<lambda>a (x, n). let (v, x) = port_in8 p a x in (v, x, n + 1),
     port_in16 = \<lambda>a (x, n). let (v, x) = port_in16 p a x in (v, x, n + 1),
     port_in32 = \<lambda>a (x, n). let (v, x) = port_in32 p a x in (v, x, n + 1),
     port_out8 = \<lambda>a v (x, n). (port_out8 p a v x, n + 1),
     port_out16 = \<lambda>a v (x, n). (port_out16 p a v x, n + 1),
     port_out32 = \<lambda>a v (x, n). (port_out32 p a v x, n + 1)\<rparr>"

definition accesses_le :: "('x \<times> nat, 'a) io_m \<Rightarrow> nat \<Rightarrow> bool" where
  "accesses_le m k \<longleftrightarrow> state_io_rel (\<lambda>(x, n) (y, n'). n' \<le> n + k) m"

lemma accesses_leD: "accesses_le m k \<Longrightarrow> run_state m (x, n) = (a, y, n') \<Longrightarrow> n' \<le> n + k"
  unfolding accesses_le_def by (drule (1) state_io_relD) simp

lemma accesses_leI: "(\<And>x n a y n'. run_state m (x, n) = (a, y, n') \<Longrightarrow> n' \<le> n + k) \<Longrightarrow> accesses_le m k"
  unfolding accesses_le_def by (rule state_io_relI) auto

lemma accesses_le_mono: "accesses_le m k \<Longrightarrow> k \<le> k' \<Longrightarrow> accesses_le m k'"
  by (rule accesses_leI) (fastforce dest: accesses_leD)

lemma accesses_return: "accesses_le (State_Monad.return a) k"
  by (rule accesses_leI) simp

lemma accesses_bind:
  assumes "accesses_le m k" "\<And>a. accesses_le (f a) l"
  shows "accesses_le (State_Monad.bind m f) (k + l)"
proof (rule accesses_leI)
  fix x n b z n'
  assume r: "run_state (State_Monad.bind m f) (x, n) = (b, z, n')"
  obtain a y n1 where m: "run_state m (x, n) = (a, y, n1)" by (cases "run_state m (x, n)") auto
  from r m have "run_state (f a) (y, n1) = (b, z, n')" by simp
  with m assms [THEN accesses_leD] show "n' \<le> n + (k + l)" by (metis add.assoc add_le_mono1 le_trans)
qed

lemma accesses_io:
  "accesses_le (in_8 (counted p) a) 1" "accesses_le (in_16 (counted p) a) 1"
  "accesses_le (in_32 (counted p) a) 1" "accesses_le (out_8 (counted p) a v) 1"
  "accesses_le (out_16 (counted p) a w) 1" "accesses_le (out_32 (counted p) a d) 1"
  by (auto intro!: accesses_leI simp: counted_def split: prod.splits)

lemma accesses_if: "accesses_le m k \<Longrightarrow> accesses_le m' k \<Longrightarrow> accesses_le (if b then m else m') k"
  by simp

lemma accesses_poll:
  assumes "accesses_le m k"
  shows "accesses_le (poll m n) (n * k)"
proof (induction n)
  case 0
  show ?case by (simp add: accesses_return)
next
  case (Suc n)
  have "accesses_le (case r of Some a \<Rightarrow> State_Monad.return (Some a) | None \<Rightarrow> poll m n) (n * k)" for r
    using Suc by (cases r) (auto intro: accesses_return)
  then show ?case unfolding poll.simps mult_Suc by (rule accesses_bind [OF assms])
qed

lemma accesses_both:
  "accesses_le m k \<Longrightarrow> accesses_le m' l \<Longrightarrow> accesses_le (both m m') (k + l)"
  unfolding both_def by (rule accesses_bind) (auto intro: accesses_return)

lemma accesses_wait: "accesses_le (io_wait (counted p)) 1"
  unfolding io_wait_def using accesses_bind [OF accesses_io(1) accesses_return [where k = 0]] by simp

lemma accesses_out_8s: "accesses_le (out_8s (counted p) a v) 2"
  unfolding out_8s_def using accesses_bind [OF accesses_io(4) accesses_wait] by (simp add: numeral_2_eq_2)

lemma accesses_waits: "accesses_le (io_waits (counted p) n) n"
proof (induction n)
  case (Suc n)
  have "accesses_le (io_waits (counted p) (Suc n)) (1 + n)"
    unfolding io_waits.simps by (rule accesses_bind [OF accesses_wait Suc])
  then show ?case by simp
qed (simp add: accesses_return)

lemma accesses_le_total: "accesses_le m k \<Longrightarrow> snd (snd (run_state m (x, 0))) \<le> k"
  using accesses_leD [of m k x 0] by (cases "run_state m (x, 0)") auto

end
