(* ===== verification/Console.thy ===== *)
theory Console
  imports Ports OsString Layout
begin

text \<open>
  The text screen (console/textmode.cc) and the serial console (console/serial.cc). Video memory is
  the array of 80 * 25 cells at \<open>0xb8000\<close>; an access outside of it is \<open>None\<close>.
\<close>

section \<open>The text screen\<close>

definition screen_cols :: nat where "screen_cols = 80"

definition screen_rows :: nat where "screen_rows = 25"

record textmode =
  vram :: "u16 list"
  cursor_x :: nat
  cursor_y :: nat

definition text_attribute :: u8 where "text_attribute = 0x0f"

text \<open>\<open>c\<close> is a signed character: it is extended to an \<open>int\<close> before the two halves are combined.\<close>

definition char_to_cell :: "char \<Rightarrow> u16" where
  "char_to_cell c = ucast (push_bit 8 (ucast text_attribute) OR of_int (schar c) :: u32)"

text \<open>A loop over the cells \<open>(y, x)\<close> of some rows, row by row.\<close>

fun for_cells :: "(nat \<Rightarrow> nat \<Rightarrow> u16 list \<Rightarrow> u16 list kern) \<Rightarrow> (nat \<times> nat) list \<Rightarrow> u16 list \<Rightarrow> u16 list kern" where
  "for_cells f [] m = Some m"
| "for_cells f ((y, x) # cs) m = do { m \<leftarrow> f y x m; for_cells f cs m }"

definition cells_of_rows :: "nat list \<Rightarrow> (nat \<times> nat) list" where
  "cells_of_rows ys = concat (map (\<lambda>y. map (Pair y) [0..<screen_cols]) ys)"

definition scroll :: "textmode \<Rightarrow> textmode kern" where
  "scroll s = do {
     m \<leftarrow> for_cells (\<lambda>y x m. do { v \<leftarrow> aget m (y * screen_cols + x); aset m ((y - 1) * screen_cols + x) v })
           (cells_of_rows [1..<screen_rows]) (vram s);
     m \<leftarrow> for_cells (\<lambda>y x m. aset m (y * screen_cols + x) (char_to_cell CHR '' ''))
           (cells_of_rows [screen_rows - 1]) m;
     Some (s\<lparr>vram := m, cursor_y := cursor_y s - 1\<rparr>)
   }"

definition text_newline :: "textmode \<Rightarrow> textmode kern" where
  "text_newline s =
     (let s = s\<lparr>cursor_x := 0, cursor_y := cursor_y s + 1\<rparr> in
      if cursor_y s \<ge> screen_rows then scroll s else Some s)"

definition clear_screen :: "textmode \<Rightarrow> textmode kern" where
  "clear_screen s = do {
     m \<leftarrow> for_cells (\<lambda>y x m. aset m (y * screen_cols + x) (char_to_cell CHR '' ''))
           (cells_of_rows [0..<screen_rows]) (vram s);
     Some (s\<lparr>vram := m, cursor_x := 0, cursor_y := 0\<rparr>)
   }"

definition text_print_char :: "char \<Rightarrow> textmode \<Rightarrow> textmode kern" where
  "text_print_char c s =
     (if c = CHR 0x0A then text_newline s
      else if c = CHR 0x0D then Some (s\<lparr>cursor_x := 0\<rparr>)
      else if c = CHR 0x08 then Some (if cursor_x s > 0 then s\<lparr>cursor_x := cursor_x s - 1\<rparr> else s)
      else if c = CHR 0x0C then clear_screen s
      else do {
        m \<leftarrow> aset (vram s) (cursor_y s * screen_cols + cursor_x s) (char_to_cell c);
        let s = s\<lparr>vram := m, cursor_x := cursor_x s + 1\<rparr>;
        if cursor_x s \<ge> screen_cols then text_newline s else Some s
      })"

fun text_print :: "string \<Rightarrow> textmode \<Rightarrow> textmode kern" where
  "text_print [] s = Some s"
| "text_print (c # cs) s = do { s \<leftarrow> text_print_char c s; text_print cs s }"

text \<open>A character from 0x80 on overwrites the attribute byte as well.\<close>

lemma char_to_cell_sign_extends: "char_to_cell (CHR 0xE9) = 0xffe9"
  by code_simp

section \<open>The serial console\<close>

definition serial_can_write :: "'x ports \<Rightarrow> u16 \<Rightarrow> ('x, bool) io_m" where
  "serial_can_write p port =
     (if port = 0 then State_Monad.return False
      else do { s \<leftarrow> in_8 p (port + 5); State_Monad.return (s AND 0x20 \<noteq> 0) })"

text \<open>Waiting for the transmitter has no bound.\<close>

partial_function (option) serial_wait :: "'x ports \<Rightarrow> u16 \<Rightarrow> 'x \<Rightarrow> 'x option" where
  "serial_wait p port x =
     (case run_state (serial_can_write p port) x of (ok, x) \<Rightarrow>
        if ok then Some x else serial_wait p port (snd (run_state (io_wait p) x)))"

definition serial_put :: "'x ports \<Rightarrow> u16 \<Rightarrow> char \<Rightarrow> 'x \<Rightarrow> 'x option" where
  "serial_put p port c x =
     (if port = 0 then Some x
      else do { x \<leftarrow> serial_wait p port x; Some (port_out8 p port (of_char c) x) })"

definition serial_print_char :: "'x ports \<Rightarrow> u16 \<Rightarrow> char \<Rightarrow> 'x \<Rightarrow> 'x option" where
  "serial_print_char p port c x = do {
     x \<leftarrow> (if c = CHR 0x0A then serial_put p port (CHR 0x0D) x else Some x);
     serial_put p port c x
   }"

text \<open>\<open>init\<close>: the port number is the word at address 0x400 of the BIOS data area.\<close>

definition serial_init :: "'x ports \<Rightarrow> u16 \<Rightarrow> ('x, unit) io_m" where
  "serial_init p port =
     (if port = 0 then State_Monad.return ()
      else do {
        _ \<leftarrow> out_8 p (port + 1) 0x01;
        _ \<leftarrow> out_8 p (port + 3) 0x80;
        _ \<leftarrow> out_8 p (port + 0) 0x01;
        _ \<leftarrow> out_8 p (port + 1) 0x00;
        _ \<leftarrow> out_8 p (port + 3) 0x03;
        _ \<leftarrow> out_8 p (port + 2) 0x06;
        out_8 p (port + 4) 0x08
      })"

section \<open>The screen as a list of rows\<close>

record rows_screen =
  rs_rows :: "u16 list list"
  rs_x :: nat
  rs_y :: nat

definition blank_row :: "u16 list" where "blank_row = replicate screen_cols (char_to_cell CHR '' '')"

definition rs_newline :: "rows_screen \<Rightarrow> rows_screen" where
  "rs_newline r =
     (if rs_y r + 1 \<ge> screen_rows then r\<lparr>rs_rows := tl (rs_rows r) @ [blank_row], rs_x := 0\<rparr>
      else r\<lparr>rs_x := 0, rs_y := rs_y r + 1\<rparr>)"

definition rs_print_char :: "char \<Rightarrow> rows_screen \<Rightarrow> rows_screen" where
  "rs_print_char c r =
     (if c = CHR 0x0A then rs_newline r
      else if c = CHR 0x0D then r\<lparr>rs_x := 0\<rparr>
      else if c = CHR 0x08 then r\<lparr>rs_x := rs_x r - 1\<rparr>
      else if c = CHR 0x0C then \<lparr>rs_rows = replicate screen_rows blank_row, rs_x = 0, rs_y = 0\<rparr>
      else let r = r\<lparr>rs_rows := (rs_rows r)[rs_y r := (rs_rows r ! rs_y r)[rs_x r := char_to_cell c]],
                     rs_x := rs_x r + 1\<rparr> in
        if rs_x r \<ge> screen_cols then rs_newline r else r)"

definition rs_ok :: "rows_screen \<Rightarrow> bool" where
  "rs_ok r \<longleftrightarrow> length (rs_rows r) = screen_rows \<and> (\<forall>row \<in> set (rs_rows r). length row = screen_cols)
     \<and> rs_x r < screen_cols \<and> rs_y r < screen_rows"

definition shows_rows :: "textmode \<Rightarrow> rows_screen \<Rightarrow> bool" where
  "shows_rows s r \<longleftrightarrow> vram s = concat (rs_rows r) \<and> cursor_x s = rs_x r \<and> cursor_y s = rs_y r"

section \<open>The cell loops\<close>

lemma screen_cols_pos [simp]: "0 < screen_cols"
  by (simp add: screen_cols_def)

lemma for_cells_append: "for_cells f (cs @ ds) m = do { m \<leftarrow> for_cells f cs m; for_cells f ds m }"
  by (induction f cs m rule: for_cells.induct) (auto split: bind_splits)

lemma cells_of_rows_linear:
  "a \<le> b \<Longrightarrow> cells_of_rows [a..<b] = map (\<lambda>k. (k div screen_cols, k mod screen_cols)) [a * screen_cols..<b * screen_cols]"
proof (induction b)
  case 0
  then show ?case by (simp add: cells_of_rows_def)
next
  case (Suc b)
  show ?case
  proof (cases "a \<le> b")
    case True
    have row: "map (\<lambda>k. (k div screen_cols, k mod screen_cols)) [b * screen_cols..<Suc b * screen_cols]
      = map (Pair b) [0..<screen_cols]"
    proof (rule nth_equalityI)
      fix i assume "i < length (map (\<lambda>k. (k div screen_cols, k mod screen_cols)) [b * screen_cols..<Suc b * screen_cols])"
      then have "i < screen_cols" by simp
      then show "map (\<lambda>k. (k div screen_cols, k mod screen_cols)) [b * screen_cols..<Suc b * screen_cols] ! i
        = map (Pair b) [0..<screen_cols] ! i" by simp
    qed simp
    have "[a * screen_cols..<Suc b * screen_cols] = [a * screen_cols..<b * screen_cols] @ [b * screen_cols..<Suc b * screen_cols]"
      using True upt_add_eq_append [of "a * screen_cols" "b * screen_cols" screen_cols] by (simp add: add.commute)
    with Suc.IH [OF True] row True show ?thesis by (simp add: cells_of_rows_def)
  next
    case False
    with Suc.prems have "a = Suc b" by simp
    then show ?thesis by (simp add: cells_of_rows_def)
  qed
qed

lemma for_cells_shift:
  "screen_cols + n \<le> length m \<Longrightarrow>
   for_cells (\<lambda>y x m. do { v \<leftarrow> aget m (y * screen_cols + x); aset m ((y - 1) * screen_cols + x) v })
     (map (\<lambda>k. (k div screen_cols, k mod screen_cols)) [screen_cols..<screen_cols + n]) m
   = Some (take n (drop screen_cols m) @ drop n m)"
proof (induction n)
  case (Suc n)
  let ?k = "screen_cols + n" and ?M = "take n (drop screen_cols m) @ drop n m"
  have k: "?k div screen_cols * screen_cols + ?k mod screen_cols = ?k"
    "(?k div screen_cols - 1) * screen_cols + ?k mod screen_cols = n"
    using div_add_self1 [of screen_cols n] div_mult_mod_eq [of n screen_cols] screen_cols_pos
    by (simp_all only: mod_add_self1) (simp_all add: algebra_simps)
  have "?M ! ?k = m ! ?k" "?k < length ?M" using Suc.prems by (simp_all add: nth_append add.commute)
  moreover have "take (Suc n) (drop screen_cols m) = take n (drop screen_cols m) @ [m ! ?k]"
    using Suc.prems take_Suc_conv_app_nth [of n "drop screen_cols m"] by simp
  moreover have "drop n m = m ! n # drop (Suc n) m"
    using Suc.prems Cons_nth_drop_Suc [of n m] by simp
  moreover from calculation have "?M[n := m ! ?k] = take (Suc n) (drop screen_cols m) @ drop (Suc n) m"
    using Suc.prems by (simp add: list_update_append)
  ultimately show ?case
    using Suc k by (simp add: for_cells_append)
qed simp

lemma for_cells_fill:
  "a + n \<le> length m \<Longrightarrow>
   for_cells (\<lambda>y x m. aset m (y * screen_cols + x) c) (map (\<lambda>k. (k div screen_cols, k mod screen_cols)) [a..<a + n]) m
   = Some (take a m @ replicate n c @ drop (a + n) m)"
proof (induction n)
  case (Suc n)
  have "(take a m @ replicate n c @ drop (a + n) m)[a + n := c] = take a m @ replicate (Suc n) c @ drop (a + Suc n) m"
    using Suc.prems by (simp add: list_update_append replicate_append_same Cons_nth_drop_Suc [symmetric]
      flip: replicate_Suc)
  with Suc show ?case by (simp add: for_cells_append)
qed simp

lemma scroll_rows:
  assumes "length (vram s) = screen_rows * screen_cols"
  shows "scroll s = Some (s\<lparr>vram := drop screen_cols (vram s) @ blank_row, cursor_y := cursor_y s - 1\<rparr>)"
proof -
  let ?n = "24 * screen_cols" and ?m = "vram s"
  have c1: "cells_of_rows [1..<screen_rows] = map (\<lambda>k. (k div screen_cols, k mod screen_cols))
      [screen_cols..<screen_cols + ?n]"
    using cells_of_rows_linear [of 1 screen_rows] by (simp add: screen_rows_def algebra_simps)
  have c2: "cells_of_rows [screen_rows - 1] = map (\<lambda>k. (k div screen_cols, k mod screen_cols))
      [?n..<?n + screen_cols]"
    using cells_of_rows_linear [of 24 25] by (simp add: screen_rows_def algebra_simps)
  have len: "length ?m = screen_cols + ?n" using assms by (simp add: screen_rows_def)
  have t: "take ?n (drop screen_cols ?m) = drop screen_cols ?m" using len by simp
  have "?n + screen_cols \<le> length (drop screen_cols ?m @ drop ?n ?m)" using len by simp
  from for_cells_fill [OF this]
  have "for_cells (\<lambda>y x m. aset m (y * screen_cols + x) (char_to_cell CHR '' '')) (cells_of_rows [screen_rows - 1])
      (drop screen_cols ?m @ drop ?n ?m) = Some (drop screen_cols ?m @ blank_row)"
    using len by (simp only: c2 blank_row_def) simp
  then show ?thesis
    unfolding scroll_def c1 using for_cells_shift [of ?n ?m] len t by simp
qed

lemma clear_screen_rows:
  assumes "length (vram s) = screen_rows * screen_cols"
  shows "clear_screen s = Some (s\<lparr>vram := replicate (screen_rows * screen_cols) (char_to_cell CHR '' ''),
    cursor_x := 0, cursor_y := 0\<rparr>)"
  unfolding clear_screen_def cells_of_rows_linear [OF le0]
  using for_cells_fill [of 0 "screen_rows * screen_cols" "vram s"] assms by simp

section \<open>The screen refines the list of rows\<close>

lemma length_rows: "\<forall>row \<in> set rows. length row = n \<Longrightarrow> length (concat rows) = length rows * n"
  by (induction rows) auto

lemma concat_update:
  "\<forall>row \<in> set rows. length row = n \<Longrightarrow> y < length rows \<Longrightarrow> x < n \<Longrightarrow>
   (concat rows)[y * n + x := c] = concat (rows[y := (rows ! y)[x := c]])"
proof (induction rows arbitrary: y)
  case (Cons row rows)
  show ?case
  proof (cases y)
    case 0
    with Cons.prems show ?thesis by (simp add: list_update_append)
  next
    case (Suc k)
    with Cons.prems have "length row = n" by simp
    with Suc Cons show ?thesis by (simp add: list_update_append add.assoc)
  qed
qed simp

lemma rs_ok_length: "rs_ok r \<Longrightarrow> length (concat (rs_rows r)) = screen_rows * screen_cols"
  using length_rows [of "rs_rows r" screen_cols] by (simp add: rs_ok_def)

lemma rs_newline_ok:
  assumes "rs_ok r"
  shows "rs_ok (rs_newline r)"
proof -
  have "rs_rows r \<noteq> []" using assms by (auto simp: rs_ok_def screen_rows_def)
  then have "set (tl (rs_rows r)) \<subseteq> set (rs_rows r)" by (cases "rs_rows r") auto
  with assms show ?thesis
    by (auto simp: rs_newline_def rs_ok_def blank_row_def screen_rows_def)
qed

lemma text_newline_refines:
  assumes "rs_ok r" "vram s = concat (rs_rows r)" "cursor_y s = rs_y r"
  shows "\<exists>s'. text_newline s = Some s' \<and> shows_rows s' (rs_newline r)"
proof -
  have len: "length (vram s) = screen_rows * screen_cols"
    using assms(1,2) by (simp add: rs_ok_length)
  obtain row rows where r: "rs_rows r = row # rows" "length row = screen_cols"
    using assms(1) by (cases "rs_rows r") (auto simp: rs_ok_def screen_rows_def)
  show ?thesis
  proof (cases "rs_y r + 1 \<ge> screen_rows")
    case True
    then have y: "rs_y r = screen_rows - 1" using assms(1) by (auto simp: rs_ok_def)
    have "scroll (s\<lparr>cursor_x := 0, cursor_y := cursor_y s + 1\<rparr>)
      = Some (s\<lparr>cursor_x := 0, cursor_y := cursor_y s, vram := drop screen_cols (vram s) @ blank_row\<rparr>)"
      using scroll_rows [of "s\<lparr>cursor_x := 0, cursor_y := cursor_y s + 1\<rparr>"] len by simp
    with True y r assms show ?thesis
      by (simp add: text_newline_def rs_newline_def shows_rows_def)
  next
    case False
    with assms show ?thesis by (auto simp: text_newline_def rs_newline_def shows_rows_def)
  qed
qed

lemma rs_put_ok:
  assumes "rs_ok r"
  shows "length ((rs_rows r)[rs_y r := (rs_rows r ! rs_y r)[rs_x r := c]]) = screen_rows"
    and "\<forall>row \<in> set ((rs_rows r)[rs_y r := (rs_rows r ! rs_y r)[rs_x r := c]]). length row = screen_cols"
  using assms by (auto simp: rs_ok_def dest!: set_update_subset_insert [THEN subsetD])

lemma text_put_refines:
  assumes "rs_ok r" "shows_rows s r"
  shows "aset (vram s) (cursor_y s * screen_cols + cursor_x s) c
    = Some (concat ((rs_rows r)[rs_y r := (rs_rows r ! rs_y r)[rs_x r := c]]))"
proof -
  have "rs_y r * screen_cols + rs_x r < screen_rows * screen_cols"
    using assms(1) mult_le_mono1 [of "Suc (rs_y r)" screen_rows screen_cols] by (auto simp: rs_ok_def)
  moreover have "length (concat (rs_rows r)) = screen_rows * screen_cols"
    using assms(1) by (simp add: rs_ok_length)
  moreover have "(concat (rs_rows r))[rs_y r * screen_cols + rs_x r := c]
    = concat ((rs_rows r)[rs_y r := (rs_rows r ! rs_y r)[rs_x r := c]])"
    using assms(1) by (intro concat_update) (auto simp: rs_ok_def)
  ultimately show ?thesis using assms(2) by (simp add: shows_rows_def)
qed

lemma text_print_char_refines:
  assumes "rs_ok r" "shows_rows s r"
  shows "\<exists>s'. text_print_char c s = Some s' \<and> shows_rows s' (rs_print_char c r) \<and> rs_ok (rs_print_char c r)"
proof -
  have sh: "vram s = concat (rs_rows r)" "cursor_x s = rs_x r" "cursor_y s = rs_y r"
    using assms(2) by (simp_all add: shows_rows_def)
  have len: "length (vram s) = screen_rows * screen_cols"
    using assms by (simp add: rs_ok_length shows_rows_def)
  have blank: "concat (replicate n blank_row) = replicate (n * screen_cols) (char_to_cell CHR '' '')" for n
    by (induction n) (simp_all add: blank_row_def replicate_add)
  let ?r = "r\<lparr>rs_rows := (rs_rows r)[rs_y r := (rs_rows r ! rs_y r)[rs_x r := char_to_cell c]], rs_x := rs_x r + 1\<rparr>"
  consider "c = CHR 0x0A" | "c = CHR 0x0D" | "c = CHR 0x08" | "c = CHR 0x0C"
    | "c \<notin> {CHR 0x0A, CHR 0x0D, CHR 0x08, CHR 0x0C}" "rs_x r + 1 \<ge> screen_cols"
    | "c \<notin> {CHR 0x0A, CHR 0x0D, CHR 0x08, CHR 0x0C}" "rs_x r + 1 < screen_cols"
    by fastforce
  then show ?thesis
  proof cases
    case 1
    with text_newline_refines [OF assms(1) sh(1) sh(3)] rs_newline_ok [OF assms(1)] show ?thesis
      by (auto simp: text_print_char_def rs_print_char_def)
  next
    case 2
    with assms show ?thesis by (auto simp: text_print_char_def rs_print_char_def shows_rows_def rs_ok_def)
  next
    case 3
    with assms show ?thesis by (auto simp: text_print_char_def rs_print_char_def shows_rows_def rs_ok_def)
  next
    case 4
    with clear_screen_rows [OF len] show ?thesis
      by (auto simp: text_print_char_def rs_print_char_def shows_rows_def rs_ok_def blank screen_rows_def)
        (simp add: blank_row_def)
  next
    case 5
    have "rs_ok (r\<lparr>rs_rows := rs_rows ?r\<rparr>)" using rs_put_ok [OF assms(1)] assms(1) by (simp add: rs_ok_def)
    note ok = rs_newline_ok [OF this]
    have n: "rs_newline ?r = rs_newline (r\<lparr>rs_rows := rs_rows ?r\<rparr>)" by (simp add: rs_newline_def)
    let ?s = "s\<lparr>vram := concat (rs_rows ?r), cursor_x := cursor_x s + 1\<rparr>"
    obtain s' where "text_newline ?s = Some s'" "shows_rows s' (rs_newline ?r)"
      using text_newline_refines [OF \<open>rs_ok (r\<lparr>rs_rows := rs_rows ?r\<rparr>)\<close>, of ?s] sh n by auto
    with 5 text_put_refines [OF assms, of "char_to_cell c"] sh ok n show ?thesis
      by (auto simp: text_print_char_def rs_print_char_def Let_def)
  next
    case 6
    with text_put_refines [OF assms, of "char_to_cell c"] rs_put_ok [OF assms(1)] assms(1) sh show ?thesis
      by (auto simp: text_print_char_def rs_print_char_def Let_def shows_rows_def rs_ok_def)
  qed
qed

lemma text_print_rows:
  "rs_ok r \<Longrightarrow> shows_rows s r \<Longrightarrow>
     \<exists>s'. text_print cs s = Some s' \<and> shows_rows s' (fold rs_print_char cs r) \<and> rs_ok (fold rs_print_char cs r)"
proof (induction cs arbitrary: s r)
  case (Cons c cs)
  from text_print_char_refines [OF Cons.prems, of c] Cons.IH show ?case by fastforce
qed simp

text \<open>
  C24: The text screen. From any well-formed screen, printing any text succeeds with every access
  inside video memory, keeps the cursor on the screen, and has the effect of the abstract terminal
  of 25 rows with 80 cells each: a new line at the bottom moves all rows up and blanks the last one.
\<close>

theorem text_print_refines_rows:
  assumes "rs_ok r" "shows_rows s r"
  shows "\<exists>s'. text_print cs s = Some s' \<and> shows_rows s' (fold rs_print_char cs r)
    \<and> cursor_x s' < screen_cols \<and> cursor_y s' < screen_rows"
  using text_print_rows [OF assms, of cs] by (auto simp: shows_rows_def rs_ok_def)

theorem text_print_refines_rows_witness:
  "\<exists>s'. text_print (''hi'' @ [CHR 0x0A]) \<lparr>vram = concat (replicate 25 (replicate 80 0)), cursor_x = 0, cursor_y = 24\<rparr> = Some s'
    \<and> cursor_x s' < screen_cols \<and> cursor_y s' < screen_rows"
proof -
  have "rs_ok \<lparr>rs_rows = replicate 25 (replicate 80 0), rs_x = 0, rs_y = 24\<rparr>"
    by (auto simp: rs_ok_def screen_rows_def screen_cols_def)
  from text_print_refines_rows [OF this, of
      "\<lparr>vram = concat (replicate 25 (replicate 80 0)), cursor_x = 0, cursor_y = 24\<rparr>" "''hi'' @ [CHR 0x0A]"]
  show ?thesis unfolding shows_rows_def by fastforce
qed

end
