(* ===== verification/Ps2.thy ===== *)
theory Ps2
  imports Ports
begin

text \<open>
  The PS/2 controller (driver/input/ps2/protocol.cc): reading and writing with bounded polling,
  commands to the controller, the keyboard and the mouse, and the start-up of all three.
\<close>

section \<open>Ports and bits\<close>

definition max_io_retries :: nat where "max_io_retries = 1000"

definition port_status :: u16 where "port_status = 0x64"

definition port_command :: u16 where "port_command = 0x64"

definition port_data :: u16 where "port_data = 0x60"

definition status_output_full :: u8 where "status_output_full = push_bit 0 1"

definition status_input_full :: u8 where "status_input_full = push_bit 1 1"

definition cfg_ien_1 :: u8 where "cfg_ien_1 = push_bit 0 1"

definition cfg_ien_2 :: u8 where "cfg_ien_2 = push_bit 1 1"

definition cfg_clockdis_1 :: u8 where "cfg_clockdis_1 = push_bit 4 1"

definition cfg_clockdis_2 :: u8 where "cfg_clockdis_2 = push_bit 5 1"

definition cfg_translation_1 :: u8 where "cfg_translation_1 = push_bit 6 1"

definition response_ack :: u8 where "response_ack = 0xfa"

section \<open>Single bytes\<close>

definition output_full :: "'x ports \<Rightarrow> ('x, bool) io_m" where
  "output_full p = do { s \<leftarrow> in_8 p port_status; State_Monad.return (s AND status_output_full \<noteq> 0) }"

definition wait_for_output_full :: "'x ports \<Rightarrow> ('x, bool) io_m" where
  "wait_for_output_full p = do {
     r \<leftarrow> poll (do { full \<leftarrow> output_full p; State_Monad.return (if full then Some () else None) }) max_io_retries;
     State_Monad.return (r \<noteq> None)
   }"

definition wait_for_input_empty :: "'x ports \<Rightarrow> ('x, bool) io_m" where
  "wait_for_input_empty p = do {
     r \<leftarrow> poll (do { s \<leftarrow> in_8 p port_status;
                    State_Monad.return (if s AND status_input_full = 0 then Some () else None) }) max_io_retries;
     State_Monad.return (r \<noteq> None)
   }"

definition read_data :: "'x ports \<Rightarrow> ('x, bool \<times> u8) io_m" where
  "read_data p = do {
     full \<leftarrow> wait_for_output_full p;
     if full then do { b \<leftarrow> in_8 p port_data; State_Monad.return (True, b) }
     else State_Monad.return (False, 0)
   }"

text \<open>\<open>flush\<close> has no bound of its own: it may run for as long as the controller delivers bytes.\<close>

partial_function (option) flush :: "'x ports \<Rightarrow> 'x \<Rightarrow> 'x option" where
  "flush p x =
     (case port_in8 p port_status x of (s, x) \<Rightarrow>
        if s AND status_output_full \<noteq> 0 then flush p (snd (port_in8 p port_data x)) else Some x)"

definition write_data :: "'x ports \<Rightarrow> u8 \<Rightarrow> ('x, bool) io_m" where
  "write_data p b = do {
     empty \<leftarrow> wait_for_input_empty p;
     if empty then do { _ \<leftarrow> out_8s p port_data b; State_Monad.return True }
     else State_Monad.return False
   }"

section \<open>Commands\<close>

text \<open>A byte was read and it is an acknowledgement.\<close>

definition read_ack :: "'x ports \<Rightarrow> ('x, bool) io_m" where
  "read_ack p = do { (ok, r) \<leftarrow> read_data p; State_Monad.return (ok \<and> r = response_ack) }"

definition write_command :: "'x ports \<Rightarrow> u8 \<Rightarrow> ('x, bool) io_m" where
  "write_command p b = both (write_data p b) (read_ack p)"

text \<open>
  The variant with two bytes compares the answers at the end: the second byte is sent also when
  the first answer was no acknowledgement.
\<close>

definition write_command2 :: "'x ports \<Rightarrow> u8 \<Rightarrow> u8 \<Rightarrow> ('x, bool) io_m" where
  "write_command2 p b1 b2 = do {
     ok \<leftarrow> write_data p b1;
     if \<not> ok then State_Monad.return False
     else do {
       (ok, r1) \<leftarrow> read_data p;
       if \<not> ok then State_Monad.return False
       else do {
         ok \<leftarrow> write_data p b2;
         if \<not> ok then State_Monad.return False
         else do {
           (ok, r2) \<leftarrow> read_data p;
           State_Monad.return (ok \<and> r1 = response_ack \<and> r2 = response_ack)
         }
       }
     }
   }"

definition write_ctl_command :: "'x ports \<Rightarrow> u8 \<Rightarrow> ('x, bool) io_m" where
  "write_ctl_command p b = do {
     empty \<leftarrow> wait_for_input_empty p;
     if empty then do { _ \<leftarrow> out_8s p port_command b; State_Monad.return True }
     else State_Monad.return False
   }"

definition write_aux_data :: "'x ports \<Rightarrow> u8 \<Rightarrow> ('x, bool) io_m" where
  "write_aux_data p b = both (write_ctl_command p 0xd4) (write_data p b)"

definition write_aux_command :: "'x ports \<Rightarrow> u8 \<Rightarrow> ('x, bool) io_m" where
  "write_aux_command p b = both (write_ctl_command p 0xd4) (both (write_data p b) (read_ack p))"

definition write_aux_command2 :: "'x ports \<Rightarrow> u8 \<Rightarrow> u8 \<Rightarrow> ('x, bool) io_m" where
  "write_aux_command2 p b b2 =
     both (write_aux_data p b) (both (write_aux_data p b2) (do {
       (ok, r1) \<leftarrow> read_data p;
       if \<not> ok then State_Monad.return False
       else do {
         (ok, r2) \<leftarrow> read_data p;
         State_Monad.return (ok \<and> r1 = response_ack \<and> r2 = response_ack)
       }
     }))"

definition read_config :: "'x ports \<Rightarrow> ('x, bool \<times> u8) io_m" where
  "read_config p = do {
     ok \<leftarrow> write_ctl_command p 0x20;
     if ok then read_data p else State_Monad.return (False, 0)
   }"

definition write_config :: "'x ports \<Rightarrow> u8 \<Rightarrow> ('x, bool) io_m" where
  "write_config p b = both (write_ctl_command p 0x60) (write_data p b)"

definition wait_for_self_test_complete :: "'x ports \<Rightarrow> ('x, bool) io_m" where
  "wait_for_self_test_complete p = do {
     r \<leftarrow> poll (do { (ok, b) \<leftarrow> read_data p; State_Monad.return (if ok \<and> b = 0xaa then Some () else None) }) 10;
     State_Monad.return (r \<noteq> None)
   }"

text \<open>\<open>get_mouse_id(mid)\<close>: \<open>mid\<close> keeps its value when the command fails.\<close>

definition get_mouse_id :: "'x ports \<Rightarrow> u8 \<Rightarrow> ('x, bool \<times> u8) io_m" where
  "get_mouse_id p mid = do {
     ok \<leftarrow> write_aux_command p 0xf2;
     if ok then read_data p else State_Monad.return (False, mid)
   }"

section \<open>Start-up\<close>

record init_result =
  have_keyboard :: bool
  have_mouse :: bool
  ir_mouse_type :: u8

text \<open>Enabling the mouse, with the sequence of sample rates that turns the scroll wheel on.\<close>

definition enable_mouse :: "'x ports \<Rightarrow> ('x, u8) io_m" where
  "enable_mouse p = do {
     ok \<leftarrow> both (write_ctl_command p 0xa8) (write_aux_command p 0xf4);
     if \<not> ok then State_Monad.return 0
     else do {
       (ok, mid) \<leftarrow> get_mouse_id p 0;
       if \<not> ok then State_Monad.return mid
       else do {
         ok \<leftarrow> both (write_aux_command2 p 0xf3 200)
                 (both (write_aux_command2 p 0xf3 100) (write_aux_command2 p 0xf3 80));
         (ok, mid) \<leftarrow> (if ok then get_mouse_id p mid else State_Monad.return (False, mid));
         _ \<leftarrow> write_aux_command2 p 0xf3 100;
         State_Monad.return mid
       }
     }
   }"

definition exec :: "('x, 'a) io_m \<Rightarrow> 'x \<Rightarrow> ('a \<times> 'x) kern" where "exec m x = Some (run_state m x)"

definition enabled_config :: "u8 \<Rightarrow> bool \<Rightarrow> bool \<Rightarrow> u8" where
  "enabled_config cfg kb ms =
     (cfg AND NOT (cfg_translation_1 OR cfg_clockdis_1 OR cfg_clockdis_2))
       OR (if kb then cfg_ien_1 else 0) OR (if ms then cfg_ien_2 else 0)"

definition init_controller :: "'x ports \<Rightarrow> 'x \<Rightarrow> (init_result \<times> 'x) kern" where
  "init_controller p x = do {
     (_, x) \<leftarrow> exec (write_ctl_command p 0xad) x;
     (_, x) \<leftarrow> exec (write_ctl_command p 0xa7) x;
     x \<leftarrow> flush p x;
     ((ok, cfg), x) \<leftarrow> exec (read_config p) x;
     if \<not> ok then Some (\<lparr>have_keyboard = False, have_mouse = False, ir_mouse_type = 0\<rparr>, x)
     else do {
       (ok, x) \<leftarrow> exec (write_config p (cfg AND NOT (cfg_translation_1 OR cfg_ien_1 OR cfg_ien_2))) x;
       if \<not> ok then Some (\<lparr>have_keyboard = False, have_mouse = False, ir_mouse_type = 0\<rparr>, x)
       else do {
         (kb, x) \<leftarrow> exec (both (write_data p 0xff) (wait_for_self_test_complete p)) x;
         (ms, x) \<leftarrow> exec (both (write_aux_data p 0xff) (wait_for_self_test_complete p)) x;
         (ok, x) \<leftarrow> exec (write_config p (enabled_config cfg kb ms)) x;
         if \<not> ok then Some (\<lparr>have_keyboard = kb, have_mouse = ms, ir_mouse_type = 0\<rparr>, x)
         else do {
           x \<leftarrow> flush p x;
           (_, x) \<leftarrow> exec (if kb then both (write_ctl_command p 0xae) (write_command p 0xf4)
                          else State_Monad.return True) x;
           x \<leftarrow> flush p x;
           (mt, x) \<leftarrow> exec (if ms then enable_mouse p else State_Monad.return 0) x;
           x \<leftarrow> flush p x;
           Some (\<lparr>have_keyboard = kb, have_mouse = ms, ir_mouse_type = mt\<rparr>, x)
         }
       }
     }
   }"

section \<open>Bounds on the waiting\<close>

text \<open>A read polls the status at most 1000 times, and a write as well; the delay is one access more.\<close>

lemma accesses_output_full: "accesses_le (output_full (counted p)) 1"
  unfolding output_full_def using accesses_bind [OF accesses_io(1) accesses_return [where k = 0]] by simp

lemma accesses_read_data: "accesses_le (read_data (counted p)) 1001"
proof -
  have r: "accesses_le (poll (do { full \<leftarrow> output_full (counted p);
      State_Monad.return (if full then Some () else None) }) max_io_retries) (max_io_retries * 1)"
    by (rule accesses_poll) (use accesses_bind [OF accesses_output_full accesses_return [where k = 0]] in simp)
  have w: "accesses_le (wait_for_output_full (counted p)) 1000"
    unfolding wait_for_output_full_def
    using accesses_bind [OF r accesses_return [where k = 0]] by (simp add: max_io_retries_def)
  have "accesses_le (read_data (counted p)) (1000 + 1)"
    unfolding read_data_def
    by (rule accesses_bind [OF w], rule accesses_if)
      (use accesses_bind [OF accesses_io(1) accesses_return [where k = 0]] in \<open>simp_all add: accesses_return\<close>)
  then show ?thesis by simp
qed

lemma accesses_wait_input: "accesses_le (wait_for_input_empty (counted p)) 1000"
proof -
  have r: "accesses_le (poll (do { s \<leftarrow> in_8 (counted p) port_status;
      State_Monad.return (if s AND status_input_full = 0 then Some () else None) }) max_io_retries) (max_io_retries * 1)"
    by (rule accesses_poll) (use accesses_bind [OF accesses_io(1) accesses_return [where k = 0]] in simp)
  show ?thesis
    unfolding wait_for_input_empty_def
    using accesses_bind [OF r accesses_return [where k = 0]] by (simp add: max_io_retries_def)
qed

lemma accesses_write_ctl: "accesses_le (write_ctl_command (counted p) b) 1002"
proof -
  have o: "accesses_le (do { _ \<leftarrow> out_8s (counted p) port_command b; State_Monad.return True }) 2"
    using accesses_bind [OF accesses_out_8s accesses_return [where k = 0]] by simp
  have "accesses_le (write_ctl_command (counted p) b) (1000 + 2)"
    unfolding write_ctl_command_def
    by (rule accesses_bind [OF accesses_wait_input], rule accesses_if [OF o accesses_return])
  then show ?thesis by simp
qed

lemma accesses_write_data: "accesses_le (write_data (counted p) b) 1002"
proof -
  have o: "accesses_le (do { _ \<leftarrow> out_8s (counted p) port_data b; State_Monad.return True }) 2"
    using accesses_bind [OF accesses_out_8s accesses_return [where k = 0]] by simp
  have "accesses_le (write_data (counted p) b) (1000 + 2)"
    unfolding write_data_def
    by (rule accesses_bind [OF accesses_wait_input], rule accesses_if [OF o accesses_return])
  then show ?thesis by simp
qed

text \<open>
  Waiting for the PS/2 controller is bounded. Whatever the controller answers, reading a byte
  takes at most 1001 port accesses and writing a byte or a command at most 1002 (two of them for
  the write and its delay).
\<close>

theorem ps2_waits_bounded:
  "snd (snd (run_state (read_data (counted p)) (x, 0))) \<le> 1001
   \<and> snd (snd (run_state (write_data (counted p) b) (x, 0))) \<le> 1002
   \<and> snd (snd (run_state (write_ctl_command (counted p) b) (x, 0))) \<le> 1002"
  by (intro conjI accesses_le_total accesses_read_data accesses_write_data accesses_write_ctl)

section \<open>Start-up returns\<close>

text \<open>
  The only loop without a bound is \<open>flush\<close>. \<open>drains p f\<close>: reading a byte that the controller has
  ready brings it closer to having none, measured by \<open>f\<close>.
\<close>

definition drains :: "'x ports \<Rightarrow> ('x \<Rightarrow> nat) \<Rightarrow> bool" where
  "drains p f \<longleftrightarrow> (\<forall>x. fst (port_in8 p port_status x) AND status_output_full \<noteq> 0
     \<longrightarrow> f (snd (port_in8 p port_data (snd (port_in8 p port_status x)))) < f x)"

lemma flush_returns: "drains p f \<Longrightarrow> \<exists>y. flush p x = Some y"
proof (induction "f x" arbitrary: x rule: less_induct)
  case less
  obtain s y where s: "port_in8 p port_status x = (s, y)" by fastforce
  show ?case
  proof (cases "s AND status_output_full = 0")
    case True
    with s show ?thesis by (simp add: flush.simps)
  next
    case False
    then have "f (snd (port_in8 p port_data y)) < f x"
      using less.prems s by (auto simp: drains_def dest: spec [of _ x])
    with less.hyps less.prems obtain z where "flush p (snd (port_in8 p port_data y)) = Some z" by blast
    with s False show ?thesis by (subst flush.simps) simp
  qed
qed

lemma exec_simp [simp]: "exec m x = Some (run_state m x)"
  by (simp add: exec_def)

text \<open>
  C25: Starting the PS/2 controller always ends, when reading the bytes that the controller has
  ready makes it run out of them: between the flushes all waiting is bounded. A
  mouse type is only reported together with a mouse.
\<close>

theorem init_controller_returns:
  assumes "drains p f"
  shows "\<exists>r y. init_controller p x = Some (r, y) \<and> (\<not> have_mouse r \<longrightarrow> ir_mouse_type r = 0)"
proof -
  have fl: "flush p y \<bind> k = k (the (flush p y))" for y k
    using flush_returns [OF assms, of y] by auto
  show ?thesis
    unfolding init_controller_def exec_simp bind.bind_lunit fl
    by (simp split: prod.splits)
qed

text \<open>A controller that holds some bytes, answers nothing, and accepts every command.\<close>

definition byte_source :: "u8 list ports" where
  "byte_source = \<lparr>
     port_in8 = \<lambda>a bs. if a = port_status then (if bs = [] then 0 else 1, bs)
       else if a = port_data then (case bs of [] \<Rightarrow> (0, []) | b # bs \<Rightarrow> (b, bs)) else (0, bs),
     port_in16 = \<lambda>a bs. (0, bs), port_in32 = \<lambda>a bs. (0, bs),
     port_out8 = \<lambda>a v bs. bs, port_out16 = \<lambda>a v bs. bs, port_out32 = \<lambda>a v bs. bs\<rparr>"

theorem init_controller_returns_witness:
  "\<exists>r y. init_controller byte_source [1, 2, 3] = Some (r, y) \<and> (\<not> have_mouse r \<longrightarrow> ir_mouse_type r = 0)"
proof (rule init_controller_returns)
  show "drains byte_source length"
    by (auto simp: drains_def byte_source_def port_status_def port_data_def split: list.splits)
qed

end
