(* ===== verification/AtaPort.thy ===== *)
theory AtaPort
  imports Ports Device Bytes
begin

text \<open>
  The port protocol of an ATA disk (driver/disk/ata/protocol.cc): drive selection, waiting for the
  status register, identification, and programmed transfers of blocks in both directions. It
  provides the block operations that the disk jobs of driver/disk/ata.cc are built on.
\<close>

section \<open>Ports\<close>

definition iobase :: "u16 list list" where "iobase = [[0x1f0, 0x3f6], [0x170, 0x376]]"

definition max_io_wait :: nat where "max_io_wait = 10 * 1024"

definition ata_data :: "nat \<Rightarrow> u16" where "ata_data bus = 0 + iobase ! bus ! 0"

definition ata_sector_cnt :: "nat \<Rightarrow> u16" where "ata_sector_cnt bus = 2 + iobase ! bus ! 0"

definition ata_lba0 :: "nat \<Rightarrow> u16" where "ata_lba0 bus = 3 + iobase ! bus ! 0"

definition ata_lba8 :: "nat \<Rightarrow> u16" where "ata_lba8 bus = 4 + iobase ! bus ! 0"

definition ata_lba16 :: "nat \<Rightarrow> u16" where "ata_lba16 bus = 5 + iobase ! bus ! 0"

definition ata_drive :: "nat \<Rightarrow> u16" where "ata_drive bus = 6 + iobase ! bus ! 0"

definition ata_status :: "nat \<Rightarrow> u16" where "ata_status bus = 7 + iobase ! bus ! 0"

definition ata_command :: "nat \<Rightarrow> u16" where "ata_command bus = 7 + iobase ! bus ! 0"

definition ata_control :: "nat \<Rightarrow> u16" where "ata_control bus = 0 + iobase ! bus ! 1"

definition status_error :: u8 where "status_error = push_bit 0 1"

definition status_drq :: u8 where "status_drq = push_bit 3 1"

definition status_fault :: u8 where "status_fault = push_bit 5 1"

definition status_ready :: u8 where "status_ready = push_bit 6 1"

definition status_busy :: u8 where "status_busy = push_bit 7 1"

lemmas ata_ports = ata_data_def ata_sector_cnt_def ata_lba0_def ata_lba8_def ata_lba16_def
  ata_drive_def ata_status_def ata_command_def ata_control_def

lemmas ata_bits = status_error_def status_drq_def status_fault_def status_ready_def status_busy_def

section \<open>Selecting and waiting\<close>

definition select_drive :: "'x ports \<Rightarrow> nat \<Rightarrow> nat \<Rightarrow> u8 \<Rightarrow> ('x, unit) io_m" where
  "select_drive p bus drive lba_bits = do {
     _ \<leftarrow> out_8 p (ata_drive bus) (0xe0 OR push_bit 4 (of_nat drive AND 1) OR (lba_bits AND 0x0f));
     io_waits p 10
   }"

definition get_status :: "'x ports \<Rightarrow> nat \<Rightarrow> ('x, u8) io_m" where
  "get_status p bus = in_8 p (ata_status bus)"

text \<open>Wait until the status decides; \<open>f\<close> is the body of the loop.\<close>

definition wait_status :: "'x ports \<Rightarrow> nat \<Rightarrow> (u8 \<Rightarrow> errno option) \<Rightarrow> nat \<Rightarrow> ('x, errno) io_m" where
  "wait_status p bus f attempts = do {
     r \<leftarrow> poll (do { s \<leftarrow> get_status p bus; State_Monad.return (f s) }) attempts;
     State_Monad.return (case r of Some e \<Rightarrow> e | None \<Rightarrow> ERR_timeout)
   }"

definition wait_until_not_busy :: "'x ports \<Rightarrow> nat \<Rightarrow> nat \<Rightarrow> ('x, errno) io_m" where
  "wait_until_not_busy p bus = wait_status p bus (\<lambda>s.
     if s = 0xff \<or> s = 0 then Some ERR_io
     else if s AND status_busy = 0 then Some ERR_success else None)"

definition wait_until_drq :: "'x ports \<Rightarrow> nat \<Rightarrow> nat \<Rightarrow> ('x, errno) io_m" where
  "wait_until_drq p bus = wait_status p bus (\<lambda>s.
     if s AND status_error \<noteq> 0 then Some ERR_io
     else if s AND status_fault \<noteq> 0 then Some ERR_io
     else if s AND status_drq \<noteq> 0 then Some ERR_success else None)"

definition wait_until_ready :: "'x ports \<Rightarrow> nat \<Rightarrow> nat \<Rightarrow> ('x, errno) io_m" where
  "wait_until_ready p bus = wait_status p bus (\<lambda>s.
     if s AND status_error \<noteq> 0 then Some ERR_io
     else if s AND status_fault \<noteq> 0 then Some ERR_io
     else if s AND status_ready \<noteq> 0 then Some ERR_success else None)"

text \<open>Two waits in a row; the second one only after the first succeeded.\<close>

definition wait_two :: "('x, errno) io_m \<Rightarrow> ('x, errno) io_m \<Rightarrow> ('x, errno) io_m" where
  "wait_two a b = do { err \<leftarrow> a; if err < 0 then State_Monad.return err else b }"

primrec in_words :: "'x ports \<Rightarrow> u16 \<Rightarrow> nat \<Rightarrow> ('x, u16 list) io_m" where
  "in_words p a 0 = State_Monad.return []"
| "in_words p a (Suc n) = do { w \<leftarrow> in_16 p a; ws \<leftarrow> in_words p a n; State_Monad.return (w # ws) }"

fun out_words :: "'x ports \<Rightarrow> u16 \<Rightarrow> u16 list \<Rightarrow> ('x, unit) io_m" where
  "out_words p a [] = State_Monad.return ()"
| "out_words p a (w # ws) = do { _ \<leftarrow> out_16 p a w; out_words p a ws }"

section \<open>Identification\<close>

text \<open>The size in blocks from the 256 words, 0 when the device is no disk with LBA.\<close>

definition disk_blocks :: "u16 list \<Rightarrow> u64" where
  "disk_blocks r =
     (let max_lba = (if \<not> bit (r ! 83) 10
        then ucast (r ! 60) OR push_bit 16 (ucast (r ! 61))
        else ucast (r ! 100) OR push_bit 16 (ucast (r ! 101)) OR push_bit 32 (ucast (r ! 102))
          OR push_bit 48 (ucast (r ! 103))) :: u64 in
      max_lba AND NOT (push_bit 28 (- 1)))"

definition identify_words :: "u16 list \<Rightarrow> u64" where
  "identify_words r =
     (if r ! 0 AND 0x8000 \<noteq> 0 then 0
      else if \<not> bit (r ! 49) 9 then 0
      else disk_blocks r)"

definition identify :: "'x ports \<Rightarrow> nat \<Rightarrow> nat \<Rightarrow> ('x, u64) io_m" where
  "identify p bus drive = do {
     _ \<leftarrow> select_drive p bus drive 0;
     err \<leftarrow> wait_until_not_busy p bus max_io_wait;
     if err \<noteq> 0 then State_Monad.return 0
     else do {
       _ \<leftarrow> out_8s p (ata_command bus) 0xec;
       err \<leftarrow> wait_until_not_busy p bus max_io_wait;
       if err \<noteq> 0 then State_Monad.return 0
       else do {
         err \<leftarrow> wait_until_ready p bus max_io_wait;
         if err \<noteq> 0 then State_Monad.return 0
         else do { r \<leftarrow> in_words p (ata_data bus) 256; State_Monad.return (identify_words r) }
       }
     }
   }"

section \<open>Transfers\<close>

definition word_pair :: "u16 \<Rightarrow> u8 list" where "word_pair w = [ucast w, ucast (drop_bit 8 w)]"

definition pair_word :: "u8 list \<Rightarrow> nat \<Rightarrow> u16" where
  "pair_word src j = ucast (src ! (j * 2)) OR push_bit 8 (ucast (src ! (j * 2 + 1)))"

text \<open>A count of 0 stands for 256 blocks.\<close>

definition sector_count :: "u8 \<Rightarrow> nat" where
  "sector_count count = (if count = 0 then 256 else unat count)"

text \<open>What both directions do first: select, wait, fill the registers, give the command.\<close>

definition start_transfer :: "'x ports \<Rightarrow> nat \<Rightarrow> nat \<Rightarrow> u64 \<Rightarrow> u8 \<Rightarrow> u8 \<Rightarrow> ('x, errno) io_m" where
  "start_transfer p bus drive lba count command = do {
     _ \<leftarrow> select_drive p bus drive (ucast (drop_bit 24 lba));
     err \<leftarrow> wait_two (wait_until_not_busy p bus max_io_wait) (wait_until_ready p bus max_io_wait);
     if err < 0 then State_Monad.return err
     else do {
       _ \<leftarrow> out_8 p (ata_sector_cnt bus) count;
       _ \<leftarrow> out_8 p (ata_lba0 bus) (ucast lba);
       _ \<leftarrow> out_8 p (ata_lba8 bus) (ucast (drop_bit 8 lba));
       _ \<leftarrow> out_8 p (ata_lba16 bus) (ucast (drop_bit 16 lba));
       _ \<leftarrow> out_8 p (ata_command bus) command;
       State_Monad.return ERR_success
     }
   }"

definition wait_block :: "'x ports \<Rightarrow> nat \<Rightarrow> ('x, errno) io_m" where
  "wait_block p bus = wait_two (wait_until_not_busy p bus max_io_wait) (wait_until_drq p bus max_io_wait)"

primrec read_sectors :: "'x ports \<Rightarrow> nat \<Rightarrow> nat \<Rightarrow> ('x, errno \<times> u8 list) io_m" where
  "read_sectors p bus 0 = State_Monad.return (ERR_success, [])"
| "read_sectors p bus (Suc n) = do {
     err \<leftarrow> wait_block p bus;
     if err < 0 then State_Monad.return (err, [])
     else do {
       ws \<leftarrow> in_words p (ata_data bus) 256;
       _ \<leftarrow> io_waits p 10;
       (err, bs) \<leftarrow> read_sectors p bus n;
       State_Monad.return (err, concat (map word_pair ws) @ bs)
     }
   }"

primrec write_sectors :: "'x ports \<Rightarrow> nat \<Rightarrow> u8 list \<Rightarrow> nat \<Rightarrow> ('x, errno) io_m" where
  "write_sectors p bus src 0 = State_Monad.return ERR_success"
| "write_sectors p bus src (Suc n) = do {
     err \<leftarrow> wait_block p bus;
     if err < 0 then State_Monad.return err
     else do {
       _ \<leftarrow> out_words p (ata_data bus) (map (pair_word src) [0..<256]);
       _ \<leftarrow> io_waits p 10;
       write_sectors p bus (drop 512 src) n
     }
   }"

definition read_blocks :: "'x ports \<Rightarrow> nat \<Rightarrow> nat \<Rightarrow> u64 \<Rightarrow> u8 \<Rightarrow> ('x, errno \<times> u8 list) io_m" where
  "read_blocks p bus drive lba count =
     (if drop_bit 28 lba \<noteq> 0 then State_Monad.return (ERR_io, [])
      else do {
        err \<leftarrow> start_transfer p bus drive lba count 0x20;
        if err < 0 then State_Monad.return (err, []) else read_sectors p bus (sector_count count)
      })"

definition write_blocks :: "'x ports \<Rightarrow> nat \<Rightarrow> nat \<Rightarrow> u64 \<Rightarrow> u8 list \<Rightarrow> u8 \<Rightarrow> ('x, errno) io_m" where
  "write_blocks p bus drive lba src count =
     (if drop_bit 28 lba \<noteq> 0 then State_Monad.return ERR_io
      else do {
        err \<leftarrow> start_transfer p bus drive lba count 0x30;
        if err < 0 then State_Monad.return err else write_sectors p bus src (sector_count count)
      })"

definition reset_all :: "'x ports \<Rightarrow> ('x, unit) io_m" where
  "reset_all p = do {
     _ \<leftarrow> out_8 p (ata_control 0) 0x04;
     _ \<leftarrow> out_8 p (ata_control 1) 0x04;
     _ \<leftarrow> io_waits p 10;
     _ \<leftarrow> out_8 p (ata_control 0) 0x00;
     _ \<leftarrow> out_8 p (ata_control 1) 0x00;
     io_waits p 10
   }"

text \<open>The hardware interface of the disk jobs, as these functions provide it.\<close>

definition port_hw :: "'x ports \<Rightarrow> 'x hw \<Rightarrow> 'x hw" where
  "port_hw p hw = hw\<lparr>
     hw_read_block := \<lambda>bus drive lba x.
       (case run_state (read_blocks p bus drive lba 1) x of ((err, bs), x) \<Rightarrow> (err, bs, x)),
     hw_write_block := \<lambda>bus drive lba buf x. run_state (write_blocks p bus drive lba buf 1) x\<rparr>"

end
