(* ===== verification/AtaRead.thy ===== *)
theory AtaRead
  imports AtaPort
begin

text \<open>
  Reading blocks through the ports of an ATA bus (driver/disk/ata/protocol.cc) from a drive
  that, as the ATA documents say, shows nothing but its busy bit while it is busy and requests data
  only while it has words to transfer.
\<close>

section \<open>What a drive does\<close>

text \<open>
  The view of the hardware behind a bus: the registers that were written; the number of status
  reads for which the drive is still busy, and the number of further status reads for which it
  is not busy but has not come to ready either; the words of the running transfer that the host
  has not read yet, none when no command is running; and the blocks of the two drives.
\<close>

record ata_view =
  av_reg :: "u16 \<Rightarrow> u8"
  av_busy :: nat
  av_settle :: nat
  av_words :: "u16 list"
  av_disk :: "nat \<Rightarrow> u64 \<Rightarrow> u8 list"

definition block_words :: "u8 list \<Rightarrow> u16 list" where
  "block_words b = map (pair_word b) [0..<256]"

text \<open>The drive, the block number and the count that the registers hold.\<close>

definition av_drive :: "nat \<Rightarrow> ata_view \<Rightarrow> nat" where
  "av_drive bus v = (if bit (av_reg v (ata_drive bus)) 4 then 1 else 0)"

definition av_lba :: "nat \<Rightarrow> ata_view \<Rightarrow> u64" where
  "av_lba bus v = ucast (av_reg v (ata_lba0 bus)) OR push_bit 8 (ucast (av_reg v (ata_lba8 bus)))
     OR push_bit 16 (ucast (av_reg v (ata_lba16 bus))) OR push_bit 24 (ucast (av_reg v (ata_drive bus) AND 0x0f))"

definition requested_words :: "nat \<Rightarrow> ata_view \<Rightarrow> u16 list" where
  "requested_words bus v = concat (map (\<lambda>i. block_words (av_disk v (av_drive bus v) (av_lba bus v + of_nat i)))
     [0..<sector_count (av_reg v (ata_sector_cnt bus))])"

text \<open>
  What a status read may give. While the drive is busy only the busy bit counts, the others are
  arbitrary. Otherwise there is no error, and the data request bit is set exactly when words are
  ready to be read: never without a running transfer, and not while the drive settles. Without a
  transfer the ready bit is set once it has settled.
\<close>

definition status_shows :: "ata_view \<Rightarrow> u8 \<Rightarrow> bool" where
  "status_shows v s \<longleftrightarrow> s \<noteq> 0xff \<and>
     (if av_busy v \<noteq> 0 then s AND status_busy \<noteq> 0
      else s \<noteq> 0 \<and> s AND status_busy = 0 \<and> s AND status_error = 0 \<and> s AND status_fault = 0
        \<and> (s AND status_drq \<noteq> 0 \<longleftrightarrow> av_settle v = 0 \<and> av_words v \<noteq> [])
        \<and> (av_words v = [] \<longrightarrow> (s AND status_ready \<noteq> 0 \<longleftrightarrow> av_settle v = 0)))"

definition tick :: "ata_view \<Rightarrow> ata_view" where
  "tick v = (if av_busy v \<noteq> 0 then v\<lparr>av_busy := av_busy v - 1\<rparr> else v\<lparr>av_settle := av_settle v - 1\<rparr>)"

text \<open>The same drive, with any waiting times, and with waiting times that are not longer.\<close>

definition later :: "ata_view \<Rightarrow> ata_view \<Rightarrow> bool" where
  "later v w \<longleftrightarrow> w = v\<lparr>av_busy := av_busy w, av_settle := av_settle w\<rparr>"

definition elapsed :: "ata_view \<Rightarrow> ata_view \<Rightarrow> bool" where
  "elapsed v w \<longleftrightarrow> later v w \<and> av_busy w \<le> av_busy v \<and> av_settle w \<le> av_settle v"

definition no_wait :: "ata_view \<Rightarrow> ata_view" where
  "no_wait v = v\<lparr>av_busy := 0, av_settle := 0\<rparr>"

definition reg_write :: "u16 \<Rightarrow> u8 \<Rightarrow> ata_view \<Rightarrow> ata_view" where
  "reg_write a b v = v\<lparr>av_reg := (av_reg v)(a := b)\<rparr>"

text \<open>
  \<open>ata_drive_ok p bus view\<close>: the waiting times are below those of the code, and a status read
  counts them down. The drive can be selected when it is not busy and no transfer is running,
  which may make it busy. In the same situation, once it has settled, the other registers can be
  written, and the command 0x20 starts the transfer of the requested blocks. Words can be read
  in order when the data request bit is set; between two blocks the drive may be busy again, after
  the last word it is not.
\<close>

definition ata_drive_ok :: "'x ports \<Rightarrow> nat \<Rightarrow> ('x \<Rightarrow> ata_view) \<Rightarrow> bool" where
  "ata_drive_ok p bus view \<longleftrightarrow>
     (\<forall>x. av_busy (view x) < max_io_wait \<and> av_settle (view x) < max_io_wait)
   \<and> (\<forall>x s y. port_in8 p (ata_status bus) x = (s, y) \<longrightarrow> status_shows (view x) s \<and> view y = tick (view x))
   \<and> (\<forall>x. elapsed (view x) (view (snd (port_in8 p 0x80 x))))
   \<and> (\<forall>x b. av_busy (view x) = 0 \<and> av_words (view x) = [] \<longrightarrow>
        later (reg_write (ata_drive bus) b (view x)) (view (port_out8 p (ata_drive bus) b x)))
   \<and> (\<forall>x a b. a \<in> {ata_sector_cnt bus, ata_lba0 bus, ata_lba8 bus, ata_lba16 bus} \<and>
        no_wait (view x) = view x \<and> av_words (view x) = [] \<longrightarrow>
        view (port_out8 p a b x) = reg_write a b (view x))
   \<and> (\<forall>x. no_wait (view x) = view x \<and> av_words (view x) = [] \<longrightarrow>
        later ((view x)\<lparr>av_words := requested_words bus (view x)\<rparr>) (view (port_out8 p (ata_command bus) 0x20 x)))
   \<and> (\<forall>x w y. port_in16 p (ata_data bus) x = (w, y) \<and> no_wait (view x) = view x \<and> av_words (view x) \<noteq> [] \<longrightarrow>
        w = hd (av_words (view x)) \<and> later ((view x)\<lparr>av_words := tl (av_words (view x))\<rparr>) (view y)
        \<and> (length (tl (av_words (view x))) mod 256 \<noteq> 0 \<longrightarrow> no_wait (view y) = view y)
        \<and> (tl (av_words (view x)) = [] \<longrightarrow> av_busy (view y) = 0))"

lemma ata_drive_okD:
  assumes "ata_drive_ok p bus view"
  shows "av_busy (view x) < max_io_wait" "av_settle (view x) < max_io_wait"
    and "port_in8 p (ata_status bus) x = (s, y) \<Longrightarrow> status_shows (view x) s \<and> view y = tick (view x)"
    and "elapsed (view x) (view (snd (port_in8 p 0x80 x)))"
    and "av_busy (view x) = 0 \<Longrightarrow> av_words (view x) = [] \<Longrightarrow>
      later (reg_write (ata_drive bus) b (view x)) (view (port_out8 p (ata_drive bus) b x))"
    and "a \<in> {ata_sector_cnt bus, ata_lba0 bus, ata_lba8 bus, ata_lba16 bus} \<Longrightarrow>
      no_wait (view x) = view x \<Longrightarrow> av_words (view x) = [] \<Longrightarrow>
      view (port_out8 p a b x) = reg_write a b (view x)"
    and "no_wait (view x) = view x \<Longrightarrow> av_words (view x) = [] \<Longrightarrow>
      later ((view x)\<lparr>av_words := requested_words bus (view x)\<rparr>) (view (port_out8 p (ata_command bus) 0x20 x))"
    and "port_in16 p (ata_data bus) x = (w, y) \<Longrightarrow> no_wait (view x) = view x \<Longrightarrow> av_words (view x) \<noteq> [] \<Longrightarrow>
      w = hd (av_words (view x)) \<and> later ((view x)\<lparr>av_words := tl (av_words (view x))\<rparr>) (view y)
      \<and> (length (tl (av_words (view x))) mod 256 \<noteq> 0 \<longrightarrow> no_wait (view y) = view y)
      \<and> (tl (av_words (view x)) = [] \<longrightarrow> av_busy (view y) = 0)"
proof -
  note d = assms [unfolded ata_drive_ok_def]
  show "av_busy (view x) < max_io_wait" "av_settle (view x) < max_io_wait"
    by (rule d [THEN conjunct1, THEN spec, THEN conjunct1], rule d [THEN conjunct1, THEN spec, THEN conjunct2])
  note d = d [THEN conjunct2]
  show "port_in8 p (ata_status bus) x = (s, y) \<Longrightarrow> status_shows (view x) s \<and> view y = tick (view x)"
    by (rule d [THEN conjunct1, rule_format])
  note d = d [THEN conjunct2]
  show "elapsed (view x) (view (snd (port_in8 p 0x80 x)))" by (rule d [THEN conjunct1, THEN spec])
  note d = d [THEN conjunct2]
  show "av_busy (view x) = 0 \<Longrightarrow> av_words (view x) = [] \<Longrightarrow>
      later (reg_write (ata_drive bus) b (view x)) (view (port_out8 p (ata_drive bus) b x))"
    by (rule d [THEN conjunct1, rule_format], rule conjI)
  note d = d [THEN conjunct2]
  show "a \<in> {ata_sector_cnt bus, ata_lba0 bus, ata_lba8 bus, ata_lba16 bus} \<Longrightarrow>
      no_wait (view x) = view x \<Longrightarrow> av_words (view x) = [] \<Longrightarrow>
      view (port_out8 p a b x) = reg_write a b (view x)"
    by (rule d [THEN conjunct1, rule_format], intro conjI)
  note d = d [THEN conjunct2]
  show "no_wait (view x) = view x \<Longrightarrow> av_words (view x) = [] \<Longrightarrow>
      later ((view x)\<lparr>av_words := requested_words bus (view x)\<rparr>) (view (port_out8 p (ata_command bus) 0x20 x))"
    by (rule d [THEN conjunct1, rule_format], rule conjI)
  note d = d [THEN conjunct2]
  show "port_in16 p (ata_data bus) x = (w, y) \<Longrightarrow> no_wait (view x) = view x \<Longrightarrow> av_words (view x) \<noteq> [] \<Longrightarrow>
      w = hd (av_words (view x)) \<and> later ((view x)\<lparr>av_words := tl (av_words (view x))\<rparr>) (view y)
      \<and> (length (tl (av_words (view x))) mod 256 \<noteq> 0 \<longrightarrow> no_wait (view y) = view y)
      \<and> (tl (av_words (view x)) = [] \<longrightarrow> av_busy (view y) = 0)"
    by (rule d [rule_format], intro conjI)
qed

lemma later_refl [simp]: "later v v"
  by (simp add: later_def)

lemma later_trans [trans]: "later u v \<Longrightarrow> later v w \<Longrightarrow> later u w"
  unfolding later_def by (cases u; cases v; cases w) simp

lemma later_fields: "later v w \<Longrightarrow> av_reg w = av_reg v \<and> av_words w = av_words v \<and> av_disk w = av_disk v"
  unfolding later_def by (cases v; cases w) simp

lemma later_words: "later v w \<Longrightarrow> later (v\<lparr>av_words := ws\<rparr>) (w\<lparr>av_words := ws\<rparr>)"
  unfolding later_def by (cases v; cases w) simp

lemma later_no_wait: "later v w \<Longrightarrow> no_wait w = no_wait v"
  unfolding later_def no_wait_def by (cases v; cases w) simp

lemma later_no_wait_self: "later v (no_wait v)"
  by (simp add: later_def no_wait_def)

lemma no_wait_eq: "no_wait v = v \<longleftrightarrow> av_busy v = 0 \<and> av_settle v = 0"
  unfolding no_wait_def by (cases v) auto

lemma no_wait_fields [simp]:
  "av_busy (no_wait v) = 0" "av_settle (no_wait v) = 0" "av_words (no_wait v) = av_words v"
  "av_reg (no_wait v) = av_reg v" "av_disk (no_wait v) = av_disk v" "no_wait (no_wait v) = no_wait v"
  by (simp_all add: no_wait_def)

lemma reg_write_fields [simp]:
  "av_busy (reg_write a b v) = av_busy v" "av_settle (reg_write a b v) = av_settle v"
  "av_words (reg_write a b v) = av_words v" "av_disk (reg_write a b v) = av_disk v"
  "av_reg (reg_write a b v) = (av_reg v)(a := b)" "no_wait (reg_write a b v) = reg_write a b (no_wait v)"
  by (simp_all add: reg_write_def no_wait_def)

section \<open>Waiting for the drive\<close>

text \<open>The first wait ends with the first status read at which the drive is not busy.\<close>

lemma wait_status_busy:
  assumes ok: "ata_drive_ok p bus view"
    and f: "\<And>s. s \<noteq> 0xff \<Longrightarrow> s AND status_busy \<noteq> 0 \<Longrightarrow> f s = None"
      "\<And>s. s \<noteq> 0xff \<Longrightarrow> s \<noteq> 0 \<Longrightarrow> s AND status_busy = 0 \<Longrightarrow> f s = Some e"
    and n: "av_busy (view x) < n"
  shows "\<exists>y. run_state (wait_status p bus f n) x = (e, y) \<and> later (view x) (view y) \<and> av_busy (view y) = 0"
  using n
proof (induction n arbitrary: x)
  case (Suc n)
  obtain s y where s: "port_in8 p (ata_status bus) x = (s, y)" by fastforce
  note st = ata_drive_okD(3) [OF ok s, unfolded status_shows_def]
  have l: "later (view x) (view y)" using st by (simp add: tick_def later_def)
  show ?case
  proof (cases "av_busy (view x) = 0")
    case True
    with st have "f s = Some e" "av_busy (view y) = 0" using f(2) by (simp_all add: tick_def)
    with s l show ?thesis by (auto simp: wait_status_def get_status_def)
  next
    case False
    with st have "f s = None" "av_busy (view y) < n" using f(1) Suc.prems by (auto simp: tick_def)
    with Suc.IH [of y] s l show ?thesis
      by (fastforce simp: wait_status_def get_status_def split: option.splits intro: later_trans)
  qed
qed simp

text \<open>The second wait goes on while the drive, no longer busy, settles.\<close>

lemma wait_status_settle:
  assumes ok: "ata_drive_ok p bus view" and b: "av_busy (view x) = 0"
    and f: "\<And>s v. status_shows v s \<Longrightarrow> av_busy v = 0 \<Longrightarrow> av_words v = av_words (view x) \<Longrightarrow>
      f s = (if av_settle v = 0 then Some e else None)"
    and n: "av_settle (view x) < n"
  shows "\<exists>y. run_state (wait_status p bus f n) x = (e, y) \<and> view y = no_wait (view x)"
  using b f n
proof (induction n arbitrary: x)
  case (Suc n)
  obtain s y where s: "port_in8 p (ata_status bus) x = (s, y)" by fastforce
  have st: "status_shows (view x) s" "view y = (view x)\<lparr>av_settle := av_settle (view x) - 1\<rparr>"
    using ata_drive_okD(3) [OF ok s] Suc.prems(1) by (simp_all add: tick_def)
  have f: "f s = (if av_settle (view x) = 0 then Some e else None)"
    by (rule Suc.prems(2) [OF st(1) Suc.prems(1) refl])
  show ?case
  proof (cases "av_settle (view x) = 0")
    case True
    then have "view y = no_wait (view x)" using st(2) Suc.prems(1) by (simp add: no_wait_def)
    with True s f show ?thesis by (auto simp: wait_status_def get_status_def)
  next
    case False
    have "\<exists>z. run_state (wait_status p bus f n) y = (e, z) \<and> view z = no_wait (view y)"
      using Suc.prems False by (intro Suc.IH) (auto simp: st(2))
    moreover have "no_wait (view y) = no_wait (view x)" by (simp add: st(2) no_wait_def)
    ultimately show ?thesis using s f False
      by (auto simp: wait_status_def get_status_def split: option.splits)
  qed
qed simp

lemma wait_two_ok:
  assumes ok: "ata_drive_ok p bus view"
    and f: "\<And>s v. status_shows v s \<Longrightarrow> av_busy v = 0 \<Longrightarrow> av_words v = av_words (view x) \<Longrightarrow>
      f s = (if av_settle v = 0 then Some ERR_success else None)"
  shows "\<exists>y. run_state (wait_two (wait_until_not_busy p bus max_io_wait) (wait_status p bus f max_io_wait)) x
      = (ERR_success, y) \<and> view y = no_wait (view x)"
proof -
  have "\<exists>y. run_state (wait_until_not_busy p bus max_io_wait) x = (ERR_success, y)
      \<and> later (view x) (view y) \<and> av_busy (view y) = 0"
    unfolding wait_until_not_busy_def
    by (rule wait_status_busy [OF ok]) (auto simp: ata_drive_okD(1) [OF ok])
  then obtain y where y: "run_state (wait_until_not_busy p bus max_io_wait) x = (ERR_success, y)"
    "later (view x) (view y)" "av_busy (view y) = 0" by blast
  have "av_words (view y) = av_words (view x)" using later_fields [OF y(2)] by simp
  with f have "\<exists>z. run_state (wait_status p bus f max_io_wait) y = (ERR_success, z) \<and> view z = no_wait (view y)"
    by (intro wait_status_settle [OF ok y(3)]) (auto simp: ata_drive_okD(2) [OF ok])
  with y(1) later_no_wait [OF y(2)] show ?thesis by (auto simp: wait_two_def ERR_success_def)
qed

lemma wait_ready_ok:
  assumes "ata_drive_ok p bus view" "av_words (view x) = []"
  shows "\<exists>y. run_state (wait_two (wait_until_not_busy p bus max_io_wait) (wait_until_ready p bus max_io_wait)) x
      = (ERR_success, y) \<and> view y = no_wait (view x)"
  unfolding wait_until_ready_def
  by (rule wait_two_ok [OF assms(1)]) (auto simp: status_shows_def assms(2))

lemma wait_block_ok:
  assumes "ata_drive_ok p bus view" "av_words (view x) \<noteq> []"
  shows "\<exists>y. run_state (wait_block p bus) x = (ERR_success, y) \<and> view y = no_wait (view x)"
  unfolding wait_block_def wait_until_drq_def
  by (rule wait_two_ok [OF assms(1)]) (auto simp: status_shows_def assms(2))

lemma io_waits_ok:
  assumes ok: "ata_drive_ok p bus view"
  shows "elapsed (view x) (view (snd (run_state (io_waits p n) x)))"
proof (induction n arbitrary: x)
  case (Suc n)
  have "elapsed (view x) (view (snd (run_state (io_waits p n) (snd (port_in8 p 0x80 x)))))"
    using ata_drive_okD(4) [OF ok, of x] Suc [of "snd (port_in8 p 0x80 x)"]
    unfolding elapsed_def by (meson later_trans le_trans)
  then show ?case by (cases "port_in8 p 0x80 x") (simp add: io_wait_def)
qed (simp add: elapsed_def)

section \<open>Transferring words\<close>

text \<open>The words of one block are read without a further wait.\<close>

lemma in_words_ok:
  assumes ok: "ata_drive_ok p bus view" and w: "av_words (view x) = ws @ rest"
    and n: "no_wait (view x) = view x" "length ws \<le> 256" "ws \<noteq> []" "length rest mod 256 = 0"
  shows "\<exists>y. run_state (in_words p (ata_data bus) (length ws)) x = (ws, y)
    \<and> later ((view x)\<lparr>av_words := rest\<rparr>) (view y) \<and> (rest = [] \<longrightarrow> av_busy (view y) = 0)"
  using w n(1-3)
proof (induction ws arbitrary: x)
  case (Cons w ws)
  obtain v y where r: "port_in16 p (ata_data bus) x = (v, y)" by fastforce
  have "w = v" and l: "later ((view x)\<lparr>av_words := ws @ rest\<rparr>) (view y)"
    and mid: "length (ws @ rest) mod 256 \<noteq> 0 \<Longrightarrow> no_wait (view y) = view y"
    and last: "ws @ rest = [] \<Longrightarrow> av_busy (view y) = 0"
    using ata_drive_okD(8) [OF ok r Cons.prems(2)] Cons.prems(1) by auto
  show ?case
  proof (cases "ws = []")
    case True
    with r \<open>w = v\<close> l last show ?thesis by auto
  next
    case False
    have "length (ws @ rest) mod 256 = length ws"
      using n(4) Cons.prems(3) by (simp add: mod_add_right_eq [symmetric])
    with mid False have y: "no_wait (view y) = view y" "av_words (view y) = ws @ rest"
      using later_fields [OF l] by simp_all
    obtain z where z: "run_state (in_words p (ata_data bus) (length ws)) y = (ws, z)"
      "later ((view y)\<lparr>av_words := rest\<rparr>) (view z)" "rest = [] \<longrightarrow> av_busy (view z) = 0"
      using Cons.IH [OF y(2,1) _ False] Cons.prems(3) by auto
    have "later ((view x)\<lparr>av_words := rest\<rparr>) (view z)"
      using later_trans [OF later_words [OF l, of rest] z(2)] by simp
    with r \<open>w = v\<close> z(1,3) show ?thesis by simp
  qed
qed simp

lemma pair_word_bytes: "word_pair (pair_word b j) = [b ! (j * 2), b ! (j * 2 + 1)]"
proof -
  have "ucast (ucast x OR push_bit 8 (ucast y) :: u16) = x"
    and "ucast (drop_bit 8 (ucast x OR push_bit 8 (ucast y) :: u16)) = y" for x y :: u8
    by (rule bit_word_eqI; auto simp: bit_simps dest: bit_imp_le_length)+
  then show ?thesis by (simp add: word_pair_def pair_word_def)
qed

lemma concat_pairs:
  "2 * n \<le> length b \<Longrightarrow> concat (map (\<lambda>j. [b ! (j * 2), b ! (j * 2 + 1)]) [0..<n]) = take (2 * n) b"
proof (induction n)
  case (Suc n)
  then have "take (Suc (Suc (2 * n))) b = take (2 * n) b @ [b ! (n * 2), b ! (n * 2 + 1)]"
    by (simp add: take_Suc_conv_app_nth mult.commute)
  with Suc show ?case by simp
qed simp

lemma block_words_bytes: "length b = 512 \<Longrightarrow> concat (map word_pair (block_words b)) = b"
  using concat_pairs [of 256 b] by (simp add: block_words_def pair_word_bytes comp_def del: upt_rec_numeral)

lemma length_block_words [simp]: "length (block_words b) = 256"
  by (simp add: block_words_def)

lemma length_concat_blocks: "length (concat (map block_words bs)) mod 256 = 0"
  by (induction bs) simp_all

lemma read_sectors_ok:
  assumes ok: "ata_drive_ok p bus view"
    and w: "av_words (view x) = concat (map block_words bs)" and b: "\<forall>b \<in> set bs. length b = 512"
    and i: "bs = [] \<longrightarrow> av_busy (view x) = 0"
  shows "\<exists>y. run_state (read_sectors p bus (length bs)) x = ((ERR_success, concat bs), y)
    \<and> later ((view x)\<lparr>av_words := []\<rparr>) (view y) \<and> av_busy (view y) = 0"
  using w b i
proof (induction bs arbitrary: x)
  case Nil
  then have "(view x)\<lparr>av_words := []\<rparr> = view x" by simp
  then have "later ((view x)\<lparr>av_words := []\<rparr>) (view x)" by (simp only: later_refl)
  with Nil show ?case by simp
next
  case (Cons b bs)
  let ?rest = "concat (map block_words bs)"
  have ne: "block_words b \<noteq> []" by (simp flip: length_greater_0_conv)
  with Cons.prems(1) have "av_words (view x) \<noteq> []" by simp
  then obtain y1 where y1: "run_state (wait_block p bus) x = (ERR_success, y1)" "view y1 = no_wait (view x)"
    using wait_block_ok [OF ok] by blast
  have l1: "later (view x) (view y1)" unfolding y1(2) by (rule later_no_wait_self)
  have w1: "av_words (view y1) = block_words b @ ?rest" using y1 Cons.prems by simp
  have n1: "no_wait (view y1) = view y1" by (simp add: y1)
  obtain y2 where y2: "run_state (in_words p (ata_data bus) 256) y1 = (block_words b, y2)"
    "later ((view y1)\<lparr>av_words := ?rest\<rparr>) (view y2)" "?rest = [] \<longrightarrow> av_busy (view y2) = 0"
    using in_words_ok [OF ok w1 n1 _ ne length_concat_blocks] by auto
  obtain y3 where y3: "run_state (io_waits p 10) y2 = ((), y3)" by (cases "run_state (io_waits p 10) y2") simp
  have e3: "elapsed (view y2) (view y3)" using io_waits_ok [OF ok, of y2 10] y3 by simp
  then have l3: "later ((view x)\<lparr>av_words := ?rest\<rparr>) (view y3)"
    using later_words [OF l1, of ?rest] y2(2) unfolding elapsed_def by (meson later_trans)
  have "bs = [] \<longrightarrow> av_busy (view y3) = 0" using e3 y2(3) by (auto simp: elapsed_def)
  then obtain z where z: "run_state (read_sectors p bus (length bs)) y3 = ((ERR_success, concat bs), z)"
    "later ((view y3)\<lparr>av_words := []\<rparr>) (view z)" "av_busy (view z) = 0"
    using Cons.IH [of y3] later_fields [OF l3] Cons.prems(2) by auto
  have "later ((view x)\<lparr>av_words := []\<rparr>) (view z)"
    using later_trans [OF later_words [OF l3, of "[]"] z(2)] by simp
  with y1 y2 y3 z Cons.prems show ?case by (auto simp: ERR_success_def block_words_bytes)
qed

section \<open>Reading blocks\<close>

lemma distinct_ata_ports:
  assumes "bus < 2"
  shows "distinct [ata_drive bus, ata_sector_cnt bus, ata_lba0 bus, ata_lba8 bus, ata_lba16 bus, ata_command bus]"
  using assms by (auto simp: ata_ports iobase_def less_2_cases_iff)

text \<open>The registers name the drive and the block that the caller asked for.\<close>

lemma drive_register:
  assumes "drive < 2"
  shows "bit (0xe0 OR push_bit 4 (of_nat drive AND 1) OR (l AND 0x0f) :: u8) 4 \<longleftrightarrow> drive = 1"
    and "(0xe0 OR push_bit 4 (of_nat drive AND 1) OR (l AND 0x0f) :: u8) AND 0x0f = l AND 0x0f"
proof -
  have d: "drive = 0 \<or> drive = 1" using assms by linarith
  have m: "(0x0f :: u8) = mask 4" "(0xe0 :: u8) = push_bit 5 (mask 3)" by (simp_all add: mask_eq_exp_minus_1)
  have nb: "\<not> bit (16 :: u8) n" if "n < 4" for n
  proof -
    have "n = 0 \<or> n = 1 \<or> n = 2 \<or> n = 3" using that by linarith
    then show ?thesis by auto
  qed
  show "bit (0xe0 OR push_bit 4 (of_nat drive AND 1) OR (l AND 0x0f) :: u8) 4 \<longleftrightarrow> drive = 1"
    using d unfolding m by (auto simp: bit_simps)
  show "(0xe0 OR push_bit 4 (of_nat drive AND 1) OR (l AND 0x0f) :: u8) AND 0x0f = l AND 0x0f"
    using d nb unfolding m by (auto intro!: bit_word_eqI simp: bit_simps)
qed

lemma lba_registers:
  assumes "drop_bit 28 lba = (0 :: u64)"
  shows "ucast (ucast lba :: u8) OR push_bit 8 (ucast (ucast (drop_bit 8 lba) :: u8))
    OR push_bit 16 (ucast (ucast (drop_bit 16 lba) :: u8))
    OR push_bit 24 (ucast (ucast (drop_bit 24 lba) AND 0x0f :: u8)) = lba"
proof (rule bit_word_eqI)
  have m: "(0x0f :: u8) = mask 4" by (simp add: mask_eq_exp_minus_1)
  fix n assume "n < LENGTH(64)"
  have hi: "\<not> bit lba n" if "28 \<le> n" for n
  proof -
    have "bit (drop_bit 28 lba) (n - 28) = bit lba n" using that by (simp add: bit_drop_bit_eq)
    with assms show ?thesis by simp
  qed
  show "bit (ucast (ucast lba :: u8) OR push_bit 8 (ucast (ucast (drop_bit 8 lba) :: u8))
    OR push_bit 16 (ucast (ucast (drop_bit 16 lba) :: u8))
    OR push_bit 24 (ucast (ucast (drop_bit 24 lba) AND 0x0f :: u8)) :: u64) n = bit lba n"
    unfolding m using hi [of n]
    by (cases "n < 8"; cases "n < 16"; cases "n < 24"; cases "n < 28"; auto simp: bit_simps)
qed

lemma start_transfer_ok:
  assumes ok: "ata_drive_ok p bus view" and b: "bus < 2" "drive < 2" and l: "drop_bit 28 lba = 0"
    and i: "av_busy (view x) = 0" "av_words (view x) = []"
  shows "\<exists>y. run_state (start_transfer p bus drive lba count 0x20) x = (ERR_success, y)
    \<and> av_disk (view y) = av_disk (view x)
    \<and> av_words (view y) = concat (map (\<lambda>i. block_words (av_disk (view x) drive (lba + of_nat i)))
        [0..<sector_count count])"
proof -
  let ?d = "0xe0 OR push_bit 4 (of_nat drive AND 1) OR (ucast (drop_bit 24 lba) AND 0x0f) :: u8"
  let ?v = "reg_write (ata_drive bus) ?d (no_wait (view x))"
  note dp = distinct_ata_ports [OF b(1)]
  define x1 where "x1 = port_out8 p (ata_drive bus) ?d x"
  obtain x2 where x2: "run_state (io_waits p 10) x1 = ((), x2)" by (cases "run_state (io_waits p 10) x1") simp
  have l2: "later (reg_write (ata_drive bus) ?d (view x)) (view x2)"
    using ata_drive_okD(5) [OF ok i, of ?d] io_waits_ok [OF ok, of x1 10] x2
    unfolding x1_def [symmetric] elapsed_def by (simp add: later_trans)
  then have "av_words (view x2) = []" using later_fields i(2) by fastforce
  then obtain x3 where x3: "run_state (wait_two (wait_until_not_busy p bus max_io_wait)
      (wait_until_ready p bus max_io_wait)) x2 = (ERR_success, x3)" "view x3 = ?v"
    using wait_ready_ok [OF ok] later_no_wait [OF l2] by (metis reg_write_fields(6))
  define x4 where "x4 = port_out8 p (ata_sector_cnt bus) count x3"
  define x5 where "x5 = port_out8 p (ata_lba0 bus) (ucast lba) x4"
  define x6 where "x6 = port_out8 p (ata_lba8 bus) (ucast (drop_bit 8 lba)) x5"
  define x7 where "x7 = port_out8 p (ata_lba16 bus) (ucast (drop_bit 16 lba)) x6"
  define x8 where "x8 = port_out8 p (ata_command bus) 0x20 x7"
  have run: "run_state (start_transfer p bus drive lba count 0x20) x = (ERR_success, x8)"
    using x2 x3 by (simp add: start_transfer_def select_drive_def x1_def x4_def x5_def x6_def x7_def x8_def
      ERR_success_def)
  note w = ata_drive_okD(6) [OF ok]
  have v4: "view x4 = reg_write (ata_sector_cnt bus) count ?v"
    unfolding x4_def by (subst w) (simp_all add: x3 i)
  have v5: "view x5 = reg_write (ata_lba0 bus) (ucast lba) (view x4)"
    unfolding x5_def by (rule w) (simp_all add: v4 i)
  have v6: "view x6 = reg_write (ata_lba8 bus) (ucast (drop_bit 8 lba)) (view x5)"
    unfolding x6_def by (rule w) (simp_all add: v5 v4 i)
  have v7: "view x7 = reg_write (ata_lba16 bus) (ucast (drop_bit 16 lba)) (view x6)"
    unfolding x7_def by (rule w) (simp_all add: v6 v5 v4 i)
  note v = v7 v6 v5 v4
  have "later ((view x7)\<lparr>av_words := requested_words bus (view x7)\<rparr>) (view x8)"
    unfolding x8_def by (rule ata_drive_okD(7) [OF ok]) (simp_all add: v i)
  note f8 = later_fields [OF this]
  have drv: "av_drive bus (view x7) = drive" and lba: "av_lba bus (view x7) = lba"
    and cnt: "av_reg (view x7) (ata_sector_cnt bus) = count"
    using dp drive_register [OF b(2)] lba_registers [OF l] b(2)
    by (simp_all add: v av_drive_def av_lba_def)
  have "av_disk (view x7) = av_disk (view x)" by (simp add: v)
  with run f8 drv lba cnt show ?thesis by (auto simp: requested_words_def)
qed

text \<open>
  C23: reading from an ATA disk. On a drive that raises its data request bit only while it has
  words to transfer and may take its time before that, reading \<open>count\<close> blocks (256 when the
  count is 0) from a block number below 2^28 succeeds and gives the contents of exactly these
  blocks of the selected drive, whatever its registers held before and however long it is busy,
  and then not ready, within the waiting times of the code. No transfer is left running, so the
  drive can be used again, and the disk is unchanged. A larger block number is refused without
  touching the ports.
\<close>

theorem ata_read_blocks:
  assumes ok: "ata_drive_ok p bus view" and b: "bus < 2" "drive < 2"
    and len: "\<forall>i. length (av_disk (view x) drive i) = 512"
    and i: "av_busy (view x) = 0" "av_words (view x) = []"
  shows "if drop_bit 28 lba = 0
    then \<exists>y. run_state (read_blocks p bus drive lba count) x
        = ((ERR_success, concat (map (\<lambda>i. av_disk (view x) drive (lba + of_nat i)) [0..<sector_count count])), y)
      \<and> av_disk (view y) = av_disk (view x) \<and> av_busy (view y) = 0 \<and> av_words (view y) = []
    else run_state (read_blocks p bus drive lba count) x = ((ERR_io, []), x)"
proof (cases "drop_bit 28 lba = 0")
  case True
  let ?bs = "map (\<lambda>i. av_disk (view x) drive (lba + of_nat i)) [0..<sector_count count]"
  obtain y where y: "run_state (start_transfer p bus drive lba count 0x20) x = (ERR_success, y)"
    "av_disk (view y) = av_disk (view x)" "av_words (view y) = concat (map block_words ?bs)"
    using start_transfer_ok [OF ok b True i, of count] by (auto simp: comp_def)
  have "?bs \<noteq> []" by (simp add: sector_count_def unat_gt_0)
  then obtain z where z: "run_state (read_sectors p bus (length ?bs)) y = ((ERR_success, concat ?bs), z)"
    "later ((view y)\<lparr>av_words := []\<rparr>) (view z)" "av_busy (view z) = 0"
    using read_sectors_ok [OF ok y(3)] len by auto
  with y True later_fields [OF z(2)] show ?thesis
    by (auto simp: read_blocks_def ERR_success_def)
next
  case False
  then show ?thesis by (simp add: read_blocks_def)
qed

text \<open>
  A drive on the primary bus that is busy for \<open>k\<close> status reads after it was selected, after the
  command and between blocks, and then takes \<open>j\<close> more before it is ready.
\<close>

definition sim_view :: "ata_view \<Rightarrow> ata_view" where
  "sim_view v = v\<lparr>av_busy := min (av_busy v) (max_io_wait - 1), av_settle := min (av_settle v) (max_io_wait - 1)\<rparr>"

definition sim_status :: "ata_view \<Rightarrow> u8" where
  "sim_status v =
     (if av_busy v \<noteq> 0 then 0xf9
      else if av_words v = [] then (if av_settle v = 0 then 0x50 else 0x10)
      else if av_settle v = 0 then 0x58 else 0x50)"

definition sim_drive :: "nat \<Rightarrow> nat \<Rightarrow> ata_view ports" where
  "sim_drive k j = \<lparr>
     port_in8 = \<lambda>a v. let v = sim_view v in
       if a = ata_status 0 then (sim_status v, tick v) else (0, v),
     port_in16 = \<lambda>a v. let v = sim_view v in
       if a = ata_data 0 \<and> av_words v \<noteq> []
       then let ws = tl (av_words v) in
         (hd (av_words v), v\<lparr>av_words := ws, av_busy := (if length ws mod 256 = 0 \<and> ws \<noteq> [] then k else 0),
            av_settle := (if length ws mod 256 = 0 then j else 0)\<rparr>)
       else (0, v),
     port_in32 = \<lambda>a v. (0, v),
     port_out8 = \<lambda>a b v. let v = sim_view v in
       if a = ata_command 0
       then (if b = 0x20 then v\<lparr>av_words := requested_words 0 v, av_busy := k, av_settle := j\<rparr> else v)
       else if a = ata_drive 0 then (reg_write a b v)\<lparr>av_busy := k, av_settle := j\<rparr>
       else reg_write a b v,
     port_out16 = \<lambda>a w v. v,
     port_out32 = \<lambda>a w v. v\<rparr>"

lemma sim_view_fields [simp]:
  "av_words (sim_view v) = av_words v" "av_reg (sim_view v) = av_reg v" "av_disk (sim_view v) = av_disk v"
  by (simp_all add: sim_view_def)

lemma sim_view_idem: "av_busy v < max_io_wait \<Longrightarrow> av_settle v < max_io_wait \<Longrightarrow> sim_view v = v"
  by (cases v) (simp add: sim_view_def max_io_wait_def)

lemma sim_view_less: "av_busy (sim_view v) < max_io_wait" "av_settle (sim_view v) < max_io_wait"
  by (simp_all add: sim_view_def max_io_wait_def)

lemma sim_status_shows: "status_shows v (sim_status v)"
  by (simp add: status_shows_def sim_status_def ata_bits)

lemma sim_drive_ok:
  assumes "k < max_io_wait" "j < max_io_wait"
  shows "ata_drive_ok (sim_drive k j) 0 sim_view"
proof -
  have a: "(0x80 :: u16) \<noteq> ata_status 0"
    "ata_command 0 \<notin> {ata_sector_cnt 0, ata_lba0 0, ata_lba8 0, ata_lba16 0, ata_drive 0}"
    "ata_drive 0 \<notin> {ata_sector_cnt 0, ata_lba0 0, ata_lba8 0, ata_lba16 0}"
    by (simp_all add: ata_ports iobase_def)
  have [simp]: "sim_view (tick (sim_view v)) = tick (sim_view v)" for v
    using sim_view_less [of v] by (intro sim_view_idem) (auto simp: tick_def)
  have [simp]: "sim_view (sim_view v) = sim_view v" "sim_view (reg_write b c (sim_view v)) = reg_write b c (sim_view v)"
    for v b c using sim_view_less [of v] by (auto intro!: sim_view_idem)
  have [simp]: "sim_view (v\<lparr>av_busy := m, av_settle := n\<rparr>) = v\<lparr>av_busy := m, av_settle := n\<rparr>"
    "sim_view (v\<lparr>av_words := ws, av_busy := m, av_settle := n\<rparr>) = v\<lparr>av_words := ws, av_busy := m, av_settle := n\<rparr>"
    if "m < max_io_wait" "n < max_io_wait" for v m n ws using that by (auto intro!: sim_view_idem)
  have z: "0 < max_io_wait" using assms(1) by simp
  show ?thesis
    using a assms z sim_view_less sim_status_shows unfolding ata_drive_ok_def
    by (intro conjI allI impI)
      (auto simp: sim_drive_def Let_def elapsed_def later_def no_wait_eq split: if_splits)
qed

theorem ata_read_blocks_witness:
  "\<exists>y. run_state (read_blocks (sim_drive 3 2) 0 1 5 2)
      \<lparr>av_reg = \<lambda>a. 0, av_busy = 0, av_settle = 0, av_words = [], av_disk = \<lambda>d lba. replicate 512 (ucast lba)\<rparr>
    = ((ERR_success, replicate 512 5 @ replicate 512 6), y)"
proof -
  have sc: "[0..<sector_count 2] = [0, 1]" by (simp add: sector_count_def upt_rec)
  have b: "drop_bit 28 5 = (0 :: u64)" by simp
  show ?thesis
    using ata_read_blocks [OF sim_drive_ok, of 3 2 1
      "\<lparr>av_reg = \<lambda>a. 0, av_busy = 0, av_settle = 0, av_words = [], av_disk = \<lambda>d lba. replicate 512 (ucast lba)\<rparr>" 5 2]
    unfolding sc if_P [OF b]
    by (auto simp: sim_view_def max_io_wait_def)
qed

text \<open>
  The wait for the data request bit is needed: on this drive a transfer that only waits until the
  drive is not busy would read the data port while there is nothing to read.
\<close>

lemma not_busy_is_not_enough:
  "\<exists>y. run_state (wait_until_not_busy (sim_drive 0 2) 0 max_io_wait)
      \<lparr>av_reg = \<lambda>a. 0, av_busy = 0, av_settle = 2, av_words = [7], av_disk = \<lambda>d lba. []\<rparr> = (ERR_success, y)
    \<and> sim_status y AND status_drq = 0"
proof -
  let ?v = "\<lambda>n. \<lparr>av_reg = \<lambda>a. 0, av_busy = 0, av_settle = n, av_words = [7], av_disk = \<lambda>d lba. []\<rparr> :: ata_view"
  have r: "port_in8 (sim_drive 0 2) (ata_status 0) (?v 2) = (0x50, ?v 1)"
    by (simp add: sim_drive_def sim_view_def sim_status_def tick_def max_io_wait_def)
  have m: "max_io_wait = Suc 10239" by (simp add: max_io_wait_def)
  have "run_state (wait_until_not_busy (sim_drive 0 2) 0 max_io_wait) (?v 2) = (ERR_success, ?v 1)"
    unfolding m wait_until_not_busy_def wait_status_def get_status_def poll.simps
    by (simp add: r ata_bits del: One_nat_def)
  moreover have "sim_status (?v 1) AND status_drq = 0" by (simp add: sim_status_def ata_bits)
  ultimately show ?thesis by blast
qed

end
