(* ===== verification/Mbr.thy ===== *)
theory Mbr
  imports AtaPort Vfs OsFormat ReadyQueue
begin

text \<open>
  Finding the disks (driver/disk/ata.cc) and their partitions (driver/disk/mbr.cc): every disk and
  partition becomes a device file, every FAT32 partition is mounted. The operations work on the
  state of the virtual file system; \<open>da\<close> is the address of the device file system (0 when there
  is none).
\<close>

section \<open>Mounting a partition\<close>

text \<open>
  \<open>Fat32::try_mount\<close>: \<open>fa\<close> is the address of the new file system object (0 when the heap is full).
  The object stays allocated when the mount fails.
\<close>

definition try_mount :: "'x hw \<Rightarrow> device \<Rightarrow> string \<Rightarrow> nat \<Rightarrow> bool \<Rightarrow> 'x vfs \<Rightarrow> (nat \<times> 'x vfs) kern" where
  "try_mount hw dev devname fa mount_ok v = do {
     (found, s) \<leftarrow> probe_fat32 hw dev devname (v_io v);
     let v = v\<lparr>v_io := s\<rparr>;
     case found of
       None \<Rightarrow> Some (0, v)
     | Some fs \<Rightarrow>
         if fa = 0 then Some (0, v)
         else let v = v\<lparr>v_fs := (v_fs v)(fa \<mapsto> Fs_fat fs)\<rparr>;
                  (err, ms) = mount mount_ok (v_mounts v) fa devname;
                  v = v\<lparr>v_mounts := ms\<rparr> in
              Some (if err = ERR_success then fa else 0, v)
   }"

section \<open>The partition table\<close>

record partition_entry =
  partition_id :: u8
  lba_start :: u32
  pe_block_count :: u32

text \<open>The four entries of 16 bytes each start at byte \<open>0x1be\<close> of the boot sector.\<close>

definition partition_table :: "u8 list \<Rightarrow> partition_entry list" where
  "partition_table mbr = map (\<lambda>i. let o1 = 0x1be + 16 * i in
     \<lparr>partition_id = mbr ! (o1 + 4), lba_start = le32 mbr (o1 + 8), pe_block_count = le32 mbr (o1 + 12)\<rparr>) [0..<4]"

text \<open>The sum is a 32-bit addition, the comparisons are signed 64-bit.\<close>

definition partition_fits :: "device \<Rightarrow> partition_entry \<Rightarrow> bool" where
  "partition_fits dev e \<longleftrightarrow> int (unat (lba_start e)) < device_blocks dev
     \<and> int (unat (lba_start e + pe_block_count e)) \<le> device_blocks dev"

text \<open>The offset and the size of the partition device are 32-bit products.\<close>

definition partition_device :: "device \<Rightarrow> partition_entry \<Rightarrow> device" where
  "partition_device dev e = Dev_partition dev (ucast (lba_start e * 512)) (ucast (pe_block_count e * 512))"

text \<open>A name formatted into a \<open>file_name_t\<close>; a longer text than fits would be read past its end.\<close>

definition device_name :: "nat \<Rightarrow> fmt_arg list \<Rightarrow> string \<Rightarrow> string kern" where
  "device_name cap args s = do {
     (out, n) \<leftarrow> fmt_buffer (cap + 1) args s;
     kassert (n \<le> int cap);
     Some out
   }"

definition partition_name :: "string \<Rightarrow> nat \<Rightarrow> string kern" where
  "partition_name dev_name i = device_name max_file_name_length [text_arg dev_name, nat_arg i] ''{}p{}''"

text \<open>Which of the allocations for a partition succeed, and where its file system goes.\<close>

record part_heap =
  part_ok :: bool
  entry_ok :: bool
  fat_at :: nat
  mount_entry_ok :: bool

text \<open>Registering a device with the device file system.\<close>

definition add_device :: "nat \<Rightarrow> bool \<Rightarrow> string \<Rightarrow> device \<Rightarrow> u32 \<Rightarrow> 'x vfs \<Rightarrow> 'x vfs kern" where
  "add_device da mem_ok name dev perm v =
     (case v_fs v da of
        Some (Fs_dev devs) \<Rightarrow>
          Some (v\<lparr>v_fs := (v_fs v)(da \<mapsto> Fs_dev (snd (register_device mem_ok devs name dev perm)))\<rparr>)
      | _ \<Rightarrow> None)"

definition add_partition :: "'x hw \<Rightarrow> nat \<Rightarrow> device \<Rightarrow> string \<Rightarrow> part_heap \<Rightarrow> nat \<Rightarrow> partition_entry \<Rightarrow> 'x vfs \<Rightarrow> 'x vfs kern" where
  "add_partition hw da dev dev_name al i e v = do {
     devname \<leftarrow> partition_name dev_name i;
     let part = partition_device dev e;
     v \<leftarrow> add_device da (entry_ok al) devname part 0x180 v;
     (fat, v) \<leftarrow> try_mount hw part devname (fat_at al) (mount_entry_ok al) v;
     Some v
   }"

text \<open>The loop over the entries from number \<open>i\<close> on; without room for a partition device it ends.\<close>

fun scan_entries :: "'x hw \<Rightarrow> nat \<Rightarrow> device \<Rightarrow> string \<Rightarrow> (nat \<Rightarrow> part_heap) \<Rightarrow> nat \<Rightarrow> partition_entry list \<Rightarrow>
    'x vfs \<Rightarrow> 'x vfs kern" where
  "scan_entries hw da dev dev_name al i [] v = Some v"
| "scan_entries hw da dev dev_name al i (e # es) v =
     (if partition_id e = 0 \<or> pe_block_count e = 0 \<or> \<not> partition_fits dev e \<or> da = 0
      then scan_entries hw da dev dev_name al (i + 1) es v
      else if \<not> part_ok (al i) then Some v
      else do {
        v \<leftarrow> add_partition hw da dev dev_name (al i) i e v;
        scan_entries hw da dev dev_name al (i + 1) es v
      })"

definition scan_and_register_partitions ::
  "'x hw \<Rightarrow> nat \<Rightarrow> device \<Rightarrow> string \<Rightarrow> (nat \<Rightarrow> part_heap) \<Rightarrow> 'x vfs \<Rightarrow> 'x vfs kern" where
  "scan_and_register_partitions hw da dev dev_name al v = do {
     (n, mbr, s) \<leftarrow> dev_read hw dev 0 512 (v_io v);
     let v = v\<lparr>v_io := s\<rparr>;
     if n \<noteq> 512 then Some v
     else do {
       kassert (length mbr = 512);
       scan_entries hw da dev dev_name al 0 (partition_table mbr) v
     }
   }"

section \<open>Finding the disks\<close>

record disk_heap =
  disk_ok :: bool
  disk_entry_ok :: bool
  disk_parts :: "nat \<Rightarrow> part_heap"

text \<open>A step on the state of the hardware behind the ports.\<close>

definition on_ports :: "('x, 'a) io_m \<Rightarrow> 'x vfs \<Rightarrow> 'a \<times> 'x vfs" where
  "on_ports m v =
     (case run_state m (io_state (v_io v)) of (r, x) \<Rightarrow> (r, v\<lparr>v_io := (v_io v)\<lparr>io_state := x\<rparr>\<rparr>))"

definition set_disk :: "nat \<Rightarrow> nat \<Rightarrow> u64 \<Rightarrow> 'x vfs \<Rightarrow> 'x vfs" where
  "set_disk bus drive max_lba v =
     v\<lparr>v_io := (v_io v)\<lparr>io_disks := (io_disks (v_io v))[bus := (io_disks (v_io v) ! bus)[drive := Some max_lba]]\<rparr>\<rparr>"

definition disk_name :: "nat \<Rightarrow> nat \<Rightarrow> string kern" where
  "disk_name bus drive = device_name 32 [nat_arg (bus * 2 + drive)] ''disk{}''"

definition detect_disk :: "'x ports \<Rightarrow> 'x hw \<Rightarrow> nat \<Rightarrow> disk_heap \<Rightarrow> nat \<Rightarrow> nat \<Rightarrow> 'x vfs \<Rightarrow> 'x vfs kern" where
  "detect_disk p hw da al bus drive v =
     (let (max_lba, v) = on_ports (identify p bus drive) v in
      if max_lba = 0 \<or> \<not> disk_ok al then Some v
      else let v = set_disk bus drive max_lba v; dev = Dev_ata bus drive max_lba in
        if da = 0 then Some v
        else do {
          devname \<leftarrow> disk_name bus drive;
          v \<leftarrow> add_device da (disk_entry_ok al) devname dev 0x180 v;
          scan_and_register_partitions (port_hw p hw) da dev devname (disk_parts al) v
        })"

fun detect_disks :: "'x ports \<Rightarrow> 'x hw \<Rightarrow> nat \<Rightarrow> (nat \<Rightarrow> nat \<Rightarrow> disk_heap) \<Rightarrow> (nat \<times> nat) list \<Rightarrow> 'x vfs \<Rightarrow> 'x vfs kern" where
  "detect_disks p hw da al [] v = Some v"
| "detect_disks p hw da al ((bus, drive) # ds) v = do {
     v \<leftarrow> detect_disk p hw da (al bus drive) bus drive v;
     detect_disks p hw da al ds v
   }"

definition ata_init :: "'x ports \<Rightarrow> 'x hw \<Rightarrow> nat \<Rightarrow> (nat \<Rightarrow> nat \<Rightarrow> disk_heap) \<Rightarrow> 'x vfs \<Rightarrow> 'x vfs kern" where
  "ata_init p hw da al v =
     (let (u, v) = on_ports (reset_all p) v in
      detect_disks p hw da al [(0, 0), (0, 1), (1, 0), (1, 1)] v)"

section \<open>Partitions lie inside their disk\<close>

lemma register_device_set:
  "Some x \<in> set (snd (register_device mem_ok devs name dev perm)) \<Longrightarrow> Some x \<in> set devs \<or> dn_dev x = dev"
  unfolding register_device_def
  by (auto split: sum.splits if_splits dest!: set_update_subset_insert [THEN subsetD])

text \<open>
  \<open>partition_of dev e d\<close>: the device \<open>d\<close> is the part of \<open>dev\<close> that a used entry \<open>e\<close> names. It
  starts inside \<open>dev\<close>, at the entry's first block, and its length is that of the entry in 32 bits;
  it ends inside \<open>dev\<close> when the entry's last block has a 32-bit number.
\<close>

definition partition_of :: "device \<Rightarrow> partition_entry \<Rightarrow> device \<Rightarrow> bool" where
  "partition_of dev e d \<longleftrightarrow> partition_id e \<noteq> 0 \<and> pe_block_count e \<noteq> 0 \<and>
     (\<exists>po ps. d = Dev_partition dev po ps \<and> unat po = unat (lba_start e) * 512 \<and>
        unat po < unat (dev_size dev) \<and> unat ps = unat (pe_block_count e) * 512 mod 2 ^ 32 \<and>
        (unat (lba_start e) + unat (pe_block_count e) < 2 ^ 32 \<longrightarrow>
          unat po + unat ps \<le> unat (dev_size dev)))"

lemma small_device_blocks:
  assumes "unat (dev_size dev) \<le> 2 ^ 32"
  shows "device_blocks dev = int (unat (dev_size dev) div 512)"
proof -
  have "uint (dev_size dev) \<le> 2 ^ 32"
    using assms by (metis of_nat_le_iff of_nat_numeral of_nat_power uint_nat)
  then have "sint (dev_size dev) = int (unat (dev_size dev))"
    unfolding sint_uint by (subst signed_take_bit_int_eq_self) (auto intro: order_trans [OF _ uint_ge_0])
  then show ?thesis by (simp add: device_blocks_def Let_def zdiv_int)
qed

lemma times_512_mod: "unat (ucast (w * 512 :: u32) :: u64) = unat w * 512 mod 2 ^ 32"
  by (simp add: unat_word_ariths unsigned_ucast_eq take_bit_eq_mod)

lemma partition_inside:
  assumes small: "unat (dev_size dev) \<le> 2 ^ 32"
    and used: "partition_id e \<noteq> 0" "pe_block_count e \<noteq> 0" and fits: "partition_fits dev e"
  shows "partition_of dev e (partition_device dev e)"
proof -
  note b = small_device_blocks [OF small]
  have lt: "unat (lba_start e) < unat (dev_size dev) div 512"
    using fits by (simp only: partition_fits_def b of_nat_less_iff)
  then have lt512: "unat (lba_start e) * 512 < unat (dev_size dev)" by linarith
  then have po: "unat (ucast (lba_start e * 512) :: u64) = unat (lba_start e) * 512"
    using small unfolding times_512_mod by (intro mod_less) linarith
  have "unat (lba_start e) * 512 + unat (pe_block_count e) * 512 mod 2 ^ 32 \<le> unat (dev_size dev)"
    if no_wrap: "unat (lba_start e) + unat (pe_block_count e) < 2 ^ 32"
  proof -
    have "unat (lba_start e + pe_block_count e) = unat (lba_start e) + unat (pe_block_count e)"
      using no_wrap by (simp add: unat_add_small)
    then have "unat (lba_start e) + unat (pe_block_count e) \<le> unat (dev_size dev) div 512"
      using fits by (simp only: partition_fits_def b of_nat_le_iff)
    then have "(unat (lba_start e) + unat (pe_block_count e)) * 512 \<le> unat (dev_size dev)"
      by (meson div_times_less_eq_dividend le_trans mult_le_mono1)
    moreover have "unat (pe_block_count e) * 512 mod 2 ^ 32 \<le> unat (pe_block_count e) * 512"
      by (rule mod_less_eq_dividend)
    ultimately show ?thesis unfolding add_mult_distrib by linarith
  qed
  then show ?thesis
    unfolding partition_of_def partition_device_def
    using used po lt512 by (intro conjI exI [of _ "ucast (lba_start e * 512)"]
      exI [of _ "ucast (pe_block_count e * 512)"]) (simp_all add: times_512_mod po)
qed

text \<open>
  The sum wraps around: on a disk of 1000 blocks an entry of more than four thousand million blocks
  is accepted, and its device claims 4 GiB less 128 KiB of a disk of 512000 bytes.
\<close>

lemma partition_fits_wraps:
  "let e = \<lparr>partition_id = 11, lba_start = 500, pe_block_count = 0xFFFFFF00\<rparr> in
     partition_fits (Dev_ata 0 0 1000) e \<and>
     partition_device (Dev_ata 0 0 1000) e = Dev_partition (Dev_ata 0 0 1000) 256000 0xFFFE0000"
  by code_simp

text \<open>
  \<open>device_reads hw ok dev\<close>: in the states \<open>ok\<close>, reading up to a block from the device ends in such a
  state, and delivers all the bytes that were asked for when its result says so.
\<close>

definition device_reads :: "'x hw \<Rightarrow> ('x io \<Rightarrow> bool) \<Rightarrow> device \<Rightarrow> bool" where
  "device_reads hw ok dev \<longleftrightarrow> (\<forall>off n s. n \<le> 512 \<longrightarrow> ok s \<longrightarrow>
     (\<exists>r bs s'. dev_read hw dev off n s = Some (r, bs, s') \<and> ok s' \<and> r \<le> int n \<and> (r = int n \<longrightarrow> length bs = n)))"

lemma device_readsD:
  "device_reads hw ok dev \<Longrightarrow> n \<le> 512 \<Longrightarrow> ok s \<Longrightarrow>
     \<exists>r bs s'. dev_read hw dev off n s = Some (r, bs, s') \<and> ok s' \<and> r \<le> int n \<and> (r = int n \<longrightarrow> length bs = n)"
  unfolding device_reads_def by blast

lemma device_reads_partition:
  assumes "device_reads hw ok dev"
  shows "device_reads hw ok (Dev_partition dev po ps)"
  unfolding device_reads_def
proof (intro allI impI)
  fix off s and n :: nat
  assume n: "n \<le> 512" and s: "ok s"
  show "\<exists>r bs s'. dev_read hw (Dev_partition dev po ps) off n s = Some (r, bs, s') \<and> ok s' \<and> r \<le> int n
     \<and> (r = int n \<longrightarrow> length bs = n)"
  proof (cases "ps \<le> off")
    case False
    have le: "part_bytes ps off n \<le> n" by (rule part_bytes_le)
    obtain r bs s' where "dev_read hw dev (po + off) (part_bytes ps off n) s = Some (r, bs, s')" "ok s'"
      "r \<le> int (part_bytes ps off n)" "r = int (part_bytes ps off n) \<longrightarrow> length bs = part_bytes ps off n"
      using device_readsD [OF assms order_trans [OF le n] s, of "po + off"] by blast
    with le False show ?thesis by auto
  qed (use s in simp)
qed

lemma fmtdigit_0: "fmtdigit 0 = CHR ''0''"
  by code_simp

lemma format_digit:
  assumes "n < 10"
  shows "format_u64 default_flags (of_nat n) False = Some ([fmtdigit n], 1)"
proof -
  have n: "unat (of_nat n :: u64) = n" using assms by (simp add: unat_of_nat)
  have "(of_nat n :: u64) div 10 = 0"
    using assms n by (simp add: word_arith_nat_div)
  moreover have "(of_nat n :: u64) mod 10 = of_nat n"
    using assms n by (simp add: word_arith_nat_mod)
  ultimately have "of_nat n \<noteq> (0 :: u64) \<Longrightarrow> digit_loop 10 (of_nat n) [] = Some [fmtdigit n]"
    using n by (simp add: digit_loop.simps [of 10 "of_nat n"] digit_loop.simps [of 10 0] buf_size_def)
  moreover have "of_nat n = (0 :: u64) \<Longrightarrow> fmtdigit n = CHR ''0''"
    using n fmtdigit_0 by auto
  ultimately show ?thesis
    by (cases "of_nat n = (0 :: u64)") (simp_all add: format_u64_def default_flags_def)
qed

lemma format_number:
  assumes "i < 10"
  shows "format_one (nat_arg i) ''p{}'' = Some ([], [CHR ''p'', fmtdigit i], 2)"
proof -
  have "parse_one ''p{}'' = \<lparr>pr_write = 1, pr_skip = 2, write_arg = True, pr_flags = default_flags\<rparr>"
    by code_simp
  then show ?thesis
    using format_digit [OF assms] by (subst format_one.simps) (simp add: nat_arg_def Let_def)
qed

lemma format_disk_name: "format_one (text_arg name) ''{}p{}'' = Some (''p{}'', name, int (length name))"
proof -
  have "parse_one ''{}p{}'' = \<lparr>pr_write = 0, pr_skip = 2, write_arg = True, pr_flags = default_flags\<rparr>"
    by code_simp
  then show ?thesis
    by (subst format_one.simps) (simp add: text_arg_def format_text_def default_flags_def Let_def)
qed

lemma partition_name_ok:
  assumes "length name \<le> 62" "i < 4"
  shows "\<exists>n. partition_name name i = Some n"
proof -
  have "format_one (nat_arg i) ''p{}'' = Some ([], [CHR ''p'', fmtdigit i], 2)"
    using assms(2) by (intro format_number) simp
  then show ?thesis
    using assms(1) unfolding partition_name_def device_name_def fmt_buffer_def run_format.simps format_disk_name
    by (auto simp: max_file_name_length_def kassert_def)
qed

lemma try_mount_ok:
  assumes "device_reads hw ok dev" "ok (v_io v)"
  shows "\<exists>r v'. try_mount hw dev name fa mount_ok v = Some (r, v') \<and> ok (v_io v') \<and> (\<forall>a. a \<noteq> fa \<longrightarrow> v_fs v' a = v_fs v a)"
proof -
  obtain r bs s' where r: "dev_read hw dev 0 512 (v_io v) = Some (r, bs, s')" "ok s'" "r = int 512 \<longrightarrow> length bs = 512"
    using device_readsD [OF assms(1) order_refl assms(2), of 0] by blast
  then have "\<exists>q. probe_fat32 hw dev name (v_io v) = Some (q, s')"
    by (auto simp: probe_fat32_def block_size_def)
  then obtain q where "probe_fat32 hw dev name (v_io v) = Some (q, s')" by blast
  note this r(2)
  then show ?thesis
    by (cases q) (auto simp: try_mount_def Let_def split: prod.splits)
qed

lemma add_partition_ok:
  assumes "device_reads hw ok dev" "ok (v_io v)" "length name \<le> 62" "i < 4" "v_fs v da = Some (Fs_dev devs)" "fat_at al \<noteq> da"
  shows "\<exists>v' devs'. add_partition hw da dev name al i e v = Some v' \<and> ok (v_io v') \<and> v_fs v' da = Some (Fs_dev devs')
    \<and> (\<forall>x. Some x \<in> set devs' \<longrightarrow> Some x \<in> set devs \<or> dn_dev x = partition_device dev e)"
proof -
  obtain pn where pn: "partition_name name i = Some pn" using partition_name_ok assms by blast
  let ?part = "partition_device dev e"
  let ?devs = "snd (register_device (entry_ok al) devs pn ?part 0x180)"
  let ?v = "v\<lparr>v_fs := (v_fs v)(da \<mapsto> Fs_dev ?devs)\<rparr>"
  have "device_reads hw ok ?part"
    using device_reads_partition assms unfolding partition_device_def by blast
  moreover have "ok (v_io ?v)" using assms(2) by simp
  ultimately obtain r v' where t: "try_mount hw ?part pn (fat_at al) (mount_entry_ok al) ?v = Some (r, v')"
    "ok (v_io v')" "\<forall>a. a \<noteq> fat_at al \<longrightarrow> v_fs v' a = v_fs ?v a"
    using try_mount_ok by blast
  have "add_partition hw da dev name al i e v = Some v'"
    using pn t(1) assms(5) by (simp add: add_partition_def add_device_def)
  moreover have "v_fs v' da = Some (Fs_dev ?devs)" using t(3) assms(6) by simp
  ultimately show ?thesis using t(2) register_device_set by blast
qed

lemma scan_entries_ok:
  assumes "device_reads hw ok dev" "length name \<le> 62" "\<And>i. fat_at (al i) \<noteq> da"
    and small: "unat (dev_size dev) \<le> 2 ^ 32"
  shows "ok (v_io v) \<Longrightarrow> v_fs v da = Some (Fs_dev devs) \<Longrightarrow> i + length es \<le> 4 \<Longrightarrow>
    \<exists>v' devs'. scan_entries hw da dev name al i es v = Some v' \<and> v_fs v' da = Some (Fs_dev devs')
      \<and> (\<forall>x. Some x \<in> set devs' \<longrightarrow> Some x \<in> set devs \<or> (\<exists>e \<in> set es. partition_of dev e (dn_dev x)))"
proof (induction es arbitrary: i v devs)
  case Nil
  then show ?case by simp
next
  case (Cons e es)
  note hyp = Cons.IH [of _ _ "i + 1"]
  show ?case
  proof (cases "partition_id e = 0 \<or> pe_block_count e = 0 \<or> \<not> partition_fits dev e \<or> da = 0")
    case True
    then show ?thesis using hyp [OF Cons.prems(1,2)] Cons.prems(3) by auto
  next
    case False
    show ?thesis
    proof (cases "part_ok (al i)")
      case True
      have i4: "i < 4" using Cons.prems(3) by simp
      obtain v1 devs1 where a: "add_partition hw da dev name (al i) i e v = Some v1"
        "ok (v_io v1)" "v_fs v1 da = Some (Fs_dev devs1)"
        "\<forall>x. Some x \<in> set devs1 \<longrightarrow> Some x \<in> set devs \<or> dn_dev x = partition_device dev e"
        using add_partition_ok [OF assms(1) Cons.prems(1) assms(2) i4 Cons.prems(2) assms(3) [of i], of e] by blast
      have "partition_of dev e (partition_device dev e)"
        using partition_inside [OF small] False by simp
      moreover obtain v2 devs2 where "scan_entries hw da dev name al (i + 1) es v1 = Some v2"
        "v_fs v2 da = Some (Fs_dev devs2)"
        "\<And>x. Some x \<in> set devs2 \<Longrightarrow> Some x \<in> set devs1 \<or> (\<exists>e \<in> set es. partition_of dev e (dn_dev x))"
        using hyp [OF a(2,3)] Cons.prems(3) by auto
      ultimately have "\<forall>x. Some x \<in> set devs2 \<longrightarrow> Some x \<in> set devs
          \<or> (\<exists>e' \<in> set (e # es). partition_of dev e' (dn_dev x))"
        using a(4) by (metis list.set_intros(1) list.set_intros(2))
      with False True a(1) \<open>scan_entries hw da dev name al (i + 1) es v1 = Some v2\<close>
        \<open>v_fs v2 da = Some (Fs_dev devs2)\<close>
      show ?thesis by simp
    qed (use False Cons.prems(2) in auto)
  qed
qed

text \<open>
  C26: the partitions of a disk of at most 4 GiB. Whatever the first block of the disk holds,
  scanning it returns, and every device it registers belongs to a used entry \<open>e\<close> of the table
  found there: it starts at the entry's first block, which is a block of the disk, and has the
  entry's length, in 32 bits. When the entry's blocks all have 32-bit numbers, every byte of the
  device is a byte of the disk. The code does not check that they have: \<open>partition_fits_wraps\<close>.
\<close>

theorem partitions_inside_disk:
  assumes "device_reads hw ok dev" "ok (v_io v)" "length name \<le> 62" "\<And>i. fat_at (al i) \<noteq> da"
    and "unat (dev_size dev) \<le> 2 ^ 32" and "v_fs v da = Some (Fs_dev devs)"
  shows "\<exists>v' devs'. scan_and_register_partitions hw da dev name al v = Some v'
     \<and> v_fs v' da = Some (Fs_dev devs')
     \<and> (\<forall>x. Some x \<in> set devs' \<longrightarrow> Some x \<in> set devs
          \<or> (\<exists>n mbr s. dev_read hw dev 0 512 (v_io v) = Some (n, mbr, s)
               \<and> (\<exists>e \<in> set (partition_table mbr). partition_of dev e (dn_dev x))))"
proof -
  obtain r bs s' where r: "dev_read hw dev 0 512 (v_io v) = Some (r, bs, s')" "ok s'" "r = int 512 \<longrightarrow> length bs = 512"
    using device_readsD [OF assms(1) order_refl assms(2), of 0] by blast
  show ?thesis
  proof (cases "r = 512")
    case True
    have "ok (v_io (v\<lparr>v_io := s'\<rparr>))" "v_fs (v\<lparr>v_io := s'\<rparr>) da = Some (Fs_dev devs)"
      using r(2) assms(6) by simp_all
    from scan_entries_ok [OF assms(1,3-5) this, of 0 "partition_table bs"] True r
    show ?thesis by (auto simp: scan_and_register_partitions_def partition_table_def)
  qed (use r assms(6) in \<open>simp add: scan_and_register_partitions_def\<close>)
qed

text \<open>A disk of 1000 blocks whose table names one partition of three blocks.\<close>

definition mbr_sector :: "u8 list" where
  "mbr_sector = (replicate 512 0)[0x1c2 := 11, 0x1c6 := 1, 0x1ca := 3]"

definition mbr_hw :: "unit hw" where
  "mbr_hw = no_hw\<lparr>hw_read_block := \<lambda>b d l x. (ERR_success, if l = 0 then mbr_sector else replicate 512 0, x)\<rparr>"

definition mbr_vfs :: "unit vfs" where
  "mbr_vfs = \<lparr>v_open_files = [], v_handles = [], v_mounts = [None, None], v_files = Map.empty,
     v_handle_objs = Map.empty, v_fs = [1 \<mapsto> Fs_dev (replicate 8 None)], v_io = no_io,
     v_sched = example_sched, v_pipes = []\<rparr>"

definition mbr_heap :: "nat \<Rightarrow> part_heap" where
  "mbr_heap i = \<lparr>part_ok = True, entry_ok = True, fat_at = 2, mount_entry_ok = True\<rparr>"

definition mbr_io_ok :: "unit io \<Rightarrow> bool" where
  "mbr_io_ok s \<longleftrightarrow> io_disks s = [[Some 1000, None], [None, None]]"

lemma length_mbr_sector: "length mbr_sector = 512"
  by (simp add: mbr_sector_def)

lemma mbr_disk_read:
  assumes "mbr_io_ok s"
  shows "dev_read mbr_hw (Dev_ata 0 0 1000) off n s =
     (if unat off mod 512 \<noteq> 0 \<or> n mod 512 \<noteq> 0 then Some (ERR_io, [], s)
      else if off \<ge> 512000 then Some (0, [], s)
      else let (err, bs, x) = read_job mbr_hw 0 0 1000 (off div 512) (n div 512) () in
        Some (if err \<noteq> 0 then err else ssize n, bs, s))"
  using assms
  by (simp add: disk_read_def disk_block_size_def ata_read_def find_disk_def mbr_io_ok_def aget_def Let_def
        split: prod.splits)

lemma retry_op_first: "f s = (e, r, s') \<Longrightarrow> e \<noteq> ERR_timeout \<Longrightarrow> retry_op f k s = (e, r, s')"
  by (cases k) auto

lemma mbr_read_job:
  "read_job mbr_hw 0 0 1000 lba (Suc 0) () =
     (if lba \<ge> 1000 then (ERR_io, [], ())
      else (ERR_success, if lba = 0 then mbr_sector else replicate 512 0, ()))"
proof -
  have "retry_op (hw_read_block mbr_hw 0 0 lba) 10 ()
      = (ERR_success, if lba = 0 then mbr_sector else replicate 512 0, ())"
    by (rule retry_op_first) (simp_all add: mbr_hw_def ERR_success_def ERR_timeout_def)
  then show ?thesis by (simp add: ERR_success_def)
qed

lemma mbr_disk_reads: "device_reads mbr_hw mbr_io_ok (Dev_ata 0 0 1000)"
  unfolding device_reads_def
proof (intro allI impI)
  fix off s and n :: nat
  assume n: "n \<le> 512" and s: "mbr_io_ok s"
  consider "n mod 512 \<noteq> 0" | "n = 0" | "n = 512" using n by fastforce
  then show "\<exists>r bs s'. dev_read mbr_hw (Dev_ata 0 0 1000) off n s = Some (r, bs, s') \<and> mbr_io_ok s'
     \<and> r \<le> int n \<and> (r = int n \<longrightarrow> length bs = n)"
  proof cases
    case 3
    then have "n div 512 = Suc 0" by simp
    with 3 s show ?thesis
      unfolding mbr_disk_read [OF s] by (auto simp: mbr_read_job ERR_io_def ERR_success_def length_mbr_sector simp del: read_job.simps)
  next
    case 1
    with s show ?thesis unfolding mbr_disk_read [OF s] by (auto simp: ERR_io_def)
  next
    case 2
    with s show ?thesis unfolding mbr_disk_read [OF s] by (auto simp: ERR_io_def ERR_success_def)
  qed
qed

theorem partitions_inside_disk_witness:
  "\<exists>v' devs'. scan_and_register_partitions mbr_hw 1 (Dev_ata 0 0 1000) ''disk0'' mbr_heap mbr_vfs = Some v'
     \<and> v_fs v' 1 = Some (Fs_dev devs')
     \<and> (\<forall>x. Some x \<in> set devs' \<longrightarrow> Some x \<in> set (replicate 8 None)
          \<or> (\<exists>n mbr s. dev_read mbr_hw (Dev_ata 0 0 1000) 0 512 (v_io mbr_vfs) = Some (n, mbr, s)
               \<and> (\<exists>e \<in> set (partition_table mbr). partition_of (Dev_ata 0 0 1000) e (dn_dev x))))"
proof (rule partitions_inside_disk [where ok = mbr_io_ok])
  show "mbr_io_ok (v_io mbr_vfs)" by (simp add: mbr_io_ok_def mbr_vfs_def no_io_def)
  show "device_reads mbr_hw mbr_io_ok (Dev_ata 0 0 1000)" by (rule mbr_disk_reads)
qed (simp_all add: mbr_heap_def mbr_vfs_def disk_block_size_def)

end
