(* ===== verification/Exit.thy ===== *)
theory Exit
  imports Elf
begin

text \<open>
  Deletion of threads and processes (process/proc.cc), which closes the files of a process through
  the virtual file system and deletes its address space.
\<close>

definition l_sched :: "'x loader \<Rightarrow> sched" where "l_sched l = v_sched (l_vfs l)"

text \<open>An operation of the scheduler on the whole state.\<close>

definition set_sched :: "sched \<Rightarrow> 'x loader \<Rightarrow> 'x loader" where
  "set_sched s l = l\<lparr>l_vfs := (l_vfs l)\<lparr>v_sched := s\<rparr>\<rparr>"

definition on_sched :: "(sched \<Rightarrow> sched kern) \<Rightarrow> 'x loader \<Rightarrow> 'x loader kern" where
  "on_sched f l = do { s \<leftarrow> f (l_sched l); Some (set_sched s l) }"

text \<open>
  Closing the open files of a process, in the order of the descriptors \<open>fd\<close>; \<open>hs\<close> are the entries of
  its table. \<open>Vfs::close\<close> takes the descriptor as one of the running process.
\<close>

fun close_files :: "int \<Rightarrow> nat list \<Rightarrow> 'x loader \<Rightarrow> 'x loader kern" where
  "close_files fd [] l = Some l"
| "close_files fd (h # hs) l = do {
     l \<leftarrow> (if h \<noteq> 0 then do {
            ho \<leftarrow> v_handle_objs (l_vfs l) h;
            kassert (\<not> h_locked ho);
            (err, v) \<leftarrow> close_unlocked fd (l_vfs l);
            Some (l\<lparr>l_vfs := v\<rparr>)
          }
          else Some l);
     close_files (fd + 1) hs l
   }"

definition delete_space :: "nat \<Rightarrow> 'x loader \<Rightarrow> 'x loader kern" where
  "delete_space a l = do {
     sp \<leftarrow> l_spaces l a;
     (freed, m) \<leftarrow> delete_address_space (l_vmm l) (of_nat a) sp;
     Some (l\<lparr>l_vmm := m, l_spaces := (l_spaces l)(a := None)\<rparr>)
   }"

text \<open>Taking a process out of the list of processes.\<close>

definition unlink_proc :: "nat \<Rightarrow> sched \<Rightarrow> sched kern" where
  "unlink_proc p s = do {
     pr \<leftarrow> procs s p;
     s \<leftarrow> (if p_next pr \<noteq> 0 then upd_proc s (p_next pr) (\<lambda>x. x\<lparr>p_prev := p_prev pr\<rparr>) else Some s);
     s \<leftarrow> (if p_prev pr \<noteq> 0 then upd_proc s (p_prev pr) (\<lambda>x. x\<lparr>p_next := p_next pr\<rparr>) else Some s);
     let s = (if p = proc_first s then s\<lparr>proc_first := p_next pr\<rparr> else s);
     let s = (if p = proc_last s then s\<lparr>proc_last := p_prev pr\<rparr> else s);
     Some (s\<lparr>procs := (procs s)(p := None)\<rparr>)
   }"

definition signal_exit :: "nat \<Rightarrow> sched \<Rightarrow> sched kern" where
  "signal_exit p s = do {
     pr \<leftarrow> procs s p;
     kassert (p_id pr > 0);
     (sem, s) \<leftarrow> signal_all s (exit_sem pr);
     upd_proc s p (\<lambda>x. x\<lparr>exit_sem := sem\<rparr>)
   }"

definition delete_proc :: "nat \<Rightarrow> 'x loader \<Rightarrow> 'x loader kern" where
  "delete_proc p l = do {
     l \<leftarrow> on_sched (signal_exit p) l;
     pr \<leftarrow> procs (l_sched l) p;
     l \<leftarrow> close_files 0 (p_files pr) l;
     l \<leftarrow> delete_space (p_space pr) l;
     on_sched (unlink_proc p) l
   }"

definition drop_thread :: "nat \<Rightarrow> sched \<Rightarrow> sched" where
  "drop_thread t s = s\<lparr>threads := (threads s)(t := None)\<rparr>"

text \<open>
  \<open>delete_thread\<close>. The call of \<open>Vfs::wait_until_lockable\<close> before the process is taken apart has
  no effect on the state modelled here. The first component of the result is how the processor
  goes on when the thread deleted itself (\<open>delete_running_thread_2\<close>).
\<close>

definition delete_running_thread :: "'x loader \<Rightarrow> (resumption \<times> 'x loader) kern" where
  "delete_running_thread l = do {
     let t = current_thread (l_sched l);
     th \<leftarrow> threads (l_sched l) t;
     pr \<leftarrow> procs (l_sched l) (t_proc th);
     l \<leftarrow> (if first_thread pr = 0 then delete_proc (t_proc th) l else Some l);
     (r, s) \<leftarrow> dispatch_next_thread ((drop_thread t (l_sched l))\<lparr>current_thread := 0\<rparr>);
     Some (r, set_sched s l)
   }"

definition delete_thread :: "nat \<Rightarrow> 'x loader \<Rightarrow> (resumption option \<times> 'x loader) kern" where
  "delete_thread t l = do {
     kassert (t \<noteq> idle_thread (l_sched l));
     th \<leftarrow> threads (l_sched l) t;
     pr \<leftarrow> procs (l_sched l) (t_proc th);
     kassert (p_id pr \<noteq> 1);
     l \<leftarrow> on_sched (\<lambda>s. unlink_thread s t) l;
     if t = current_thread (l_sched l)
     then do { (r, l) \<leftarrow> delete_running_thread l; Some (Some r, l) }
     else do {
       pr \<leftarrow> procs (l_sched l) (t_proc th);
       l \<leftarrow> (if first_thread pr = 0 then delete_proc (t_proc th) l else Some l);
       Some (None, set_sched (drop_thread t (l_sched l)) l)
     }
   }"

end
