(* ===== verification/Syscall.thy ===== *)
theory Syscall
  imports Exit
begin

text \<open>
  The system calls (interrupt/syscall.cc, include/syscall-numbers.hh). The arguments are the
  registers of the interrupted program; its memory is read and written through the page tables,
  where an access to a page that is not mapped is \<open>None\<close> (a page fault in the kernel).
\<close>

section \<open>Arguments and results\<close>

text \<open>EAX, EBX, ECX, EDX, ESI and EDI of the frame.\<close>

record sys_args =
  arg0 :: u32
  arg1 :: u32
  arg2 :: u32
  arg3 :: u32
  arg4 :: u32
  arg5 :: u32

definition frame_args :: "interrupt_frame \<Rightarrow> sys_args" where
  "frame_args f = \<lparr>arg0 = f_eax f, arg1 = f_ebx f, arg2 = f_ecx f, arg3 = f_edx f, arg4 = f_esi f,
     arg5 = f_edi f\<rparr>"

text \<open>
  What a call does with the calling thread: it returns with a value in EAX; it is suspended and will
  return with that value when it is resumed; it is gone; or it waits for the lock of a handle.
\<close>

datatype sys_result =
  Returns u32
| Suspends resumption u32
| Exits resumption
| Waits_for nat

text \<open>
  The addresses of the objects that the heap provides (0 for none), and the kernel stack pointer
  with which the thread is suspended.
\<close>

record sys_env =
  se_esp :: u32
  se_handle :: nat
  se_handle2 :: nat
  se_file :: nat
  se_pipe :: nat
  se_loader :: loader_env

definition SYS_YIELD :: u32 where "SYS_YIELD = 0"
definition SYS_GET_TID :: u32 where "SYS_GET_TID = 1"
definition SYS_GET_PID :: u32 where "SYS_GET_PID = 2"
definition SYS_THREAD_DELETE :: u32 where "SYS_THREAD_DELETE = 3"
definition SYS_OPEN :: u32 where "SYS_OPEN = 4"
definition SYS_CLOSE :: u32 where "SYS_CLOSE = 5"
definition SYS_READ :: u32 where "SYS_READ = 6"
definition SYS_WRITE :: u32 where "SYS_WRITE = 7"
definition SYS_READ_DIR :: u32 where "SYS_READ_DIR = 8"
definition SYS_SEEK :: u32 where "SYS_SEEK = 9"
definition SYS_SPAWN :: u32 where "SYS_SPAWN = 10"
definition SYS_WAIT_PID :: u32 where "SYS_WAIT_PID = 11"
definition SYS_GET_CWD :: u32 where "SYS_GET_CWD = 12"
definition SYS_SET_CWD :: u32 where "SYS_SET_CWD = 13"
definition SYS_DUPLICATE_FD :: u32 where "SYS_DUPLICATE_FD = 14"
definition SYS_PIPE :: u32 where "SYS_PIPE = 15"

type_synonym 'x sys = "(sys_result \<times> 'x loader) kern"

text \<open>The result of a call that goes to EAX, with the new state of the files.\<close>

definition eax :: "int \<Rightarrow> sys_result" where "eax r = Returns (of_int r)"

definition with_vfs :: "(int \<times> 'x vfs) kern \<Rightarrow> 'x loader \<Rightarrow> 'x sys" where
  "with_vfs m l = do { (r, v) \<leftarrow> m; Some (eax r, l\<lparr>l_vfs := v\<rparr>) }"

definition fd_arg :: "u32 \<Rightarrow> int" where "fd_arg a = sint a"

section \<open>User memory\<close>

definition is_buffer_valid :: "vmm \<Rightarrow> region \<Rightarrow> bool kern" where
  "is_buffer_valid m r =
     (if region_valid r \<and> region_contains user_region r then is_mapped m (r_start r) (r_size r)
      else Some False)"

definition is_buffer_valid_max :: "vmm \<Rightarrow> region \<Rightarrow> nat \<Rightarrow> bool kern" where
  "is_buffer_valid_max m r max_size =
     (if unat (r_size r) \<le> max_size then is_buffer_valid m r else Some False)"

text \<open>
  \<open>path_t path = StringView(start, size)\<close>: the assignment reads up to a NUL, or until the string is
  full, and one character more before it sees that it is full. The size of the view plays no part.
\<close>

fun load_text :: "vmm \<Rightarrow> u32 \<Rightarrow> nat \<Rightarrow> string kern" where
  "load_text m a 0 = do { b \<leftarrow> load_byte m a; Some [] }"
| "load_text m a (Suc n) = do {
     b \<leftarrow> load_byte m a;
     if b = 0 then Some [] else do { cs \<leftarrow> load_text m (a + 1) n; Some (byte_char b # cs) }
   }"

definition load_path :: "vmm \<Rightarrow> region \<Rightarrow> string kern" where
  "load_path m r = load_text m (r_start r) max_path_length"

text \<open>A call that takes a path: the check of the buffer, then the copy.\<close>

definition path_arg :: "vmm \<Rightarrow> u32 \<Rightarrow> u32 \<Rightarrow> (errno + string) kern" where
  "path_arg m start sz = do {
     let r = \<lparr>r_start = start, r_size = sz\<rparr>;
     ok \<leftarrow> is_buffer_valid_max m r max_path_length;
     if \<not> ok then Some (Inl ERR_invalid)
     else do { path \<leftarrow> load_path m r; Some (Inr path) }
   }"

section \<open>Threads\<close>

definition sys_yield :: "sys_env \<Rightarrow> sys_args \<Rightarrow> 'x loader \<Rightarrow> 'x sys" where
  "sys_yield env a l = do {
     (r, s) \<leftarrow> yield_thread (l_sched l) (se_esp env) False;
     Some (case r of None \<Rightarrow> Returns (arg0 a) | Some r \<Rightarrow> Suspends r (arg0 a), set_sched s l)
   }"

text \<open>A thread that deletes itself never comes back.\<close>

definition sys_thread_delete :: "sys_args \<Rightarrow> 'x loader \<Rightarrow> 'x sys" where
  "sys_thread_delete a l = do {
     (r, l) \<leftarrow> delete_thread (current_thread (l_sched l)) l;
     r \<leftarrow> r;
     Some (Exits r, l)
   }"

text \<open>Waiting for the end of a process, with \<open>ret\<close> in EAX.\<close>

definition wait_exit :: "sys_env \<Rightarrow> nat \<Rightarrow> u32 \<Rightarrow> 'x loader \<Rightarrow> 'x sys" where
  "wait_exit env p ret l = do {
     pr \<leftarrow> procs (l_sched l) p;
     (r, sem, s) \<leftarrow> sem_wait (l_sched l) (se_esp env) (exit_sem pr);
     s \<leftarrow> upd_proc s p (\<lambda>x. x\<lparr>exit_sem := sem\<rparr>);
     Some (case r of None \<Rightarrow> Returns ret | Some r \<Rightarrow> Suspends r ret, set_sched s l)
   }"

definition sys_wait_pid :: "sys_env \<Rightarrow> sys_args \<Rightarrow> 'x loader \<Rightarrow> 'x sys" where
  "sys_wait_pid env a l = do {
     p \<leftarrow> process_by_pid (l_sched l) (sint (arg1 a));
     if p = 0 then Some (eax ERR_not_exists, l) else wait_exit env p (arg0 a) l
   }"

section \<open>Files\<close>

definition sys_open :: "'x hw \<Rightarrow> sys_env \<Rightarrow> sys_args \<Rightarrow> 'x loader \<Rightarrow> 'x sys" where
  "sys_open hw env a l = do {
     p \<leftarrow> path_arg (l_vmm l) (arg2 a) (arg3 a);
     case p of
       Inl err \<Rightarrow> Some (eax err, l)
     | Inr path \<Rightarrow> with_vfs (vfs_open hw (se_handle env) (se_file env) (fd_arg (arg1 a)) path (arg4 a) (l_vfs l)) l
   }"

definition sys_close :: "sys_args \<Rightarrow> 'x loader \<Rightarrow> 'x sys" where
  "sys_close a l = do {
     (r, v) \<leftarrow> vfs_close (fd_arg (arg1 a)) (l_vfs l);
     Some (case r of Inl ha \<Rightarrow> Waits_for ha | Inr err \<Rightarrow> eax err, l\<lparr>l_vfs := v\<rparr>)
   }"

text \<open>The file system writes into the buffer itself, also the bytes before an error.\<close>

definition sys_read :: "'x hw \<Rightarrow> sys_args \<Rightarrow> 'x loader \<Rightarrow> 'x sys" where
  "sys_read hw a l = do {
     ok \<leftarrow> is_buffer_valid (l_vmm l) \<lparr>r_start = arg2 a, r_size = arg3 a\<rparr>;
     if \<not> ok then Some (eax ERR_invalid, l)
     else do {
       (n, bs, v) \<leftarrow> vfs_read hw (fd_arg (arg1 a)) (unat (arg3 a)) (l_vfs l);
       m \<leftarrow> store_bytes (l_vmm l) (arg2 a) bs;
       Some (eax n, l\<lparr>l_vfs := v, l_vmm := m\<rparr>)
     }
   }"

definition sys_write :: "'x hw \<Rightarrow> sys_args \<Rightarrow> 'x loader \<Rightarrow> 'x sys" where
  "sys_write hw a l = do {
     ok \<leftarrow> is_buffer_valid (l_vmm l) \<lparr>r_start = arg2 a, r_size = arg3 a\<rparr>;
     if \<not> ok then Some (eax ERR_invalid, l)
     else do {
       buf \<leftarrow> load_bytes (l_vmm l) (arg2 a) (unat (arg3 a));
       with_vfs (vfs_write hw (fd_arg (arg1 a)) buf (l_vfs l)) l
     }
   }"

text \<open>\<open>syscall_dir_entry_t\<close>: the offsets of its fields; \<open>str_copy\<close> leaves room for the terminator.\<close>

definition dir_entry_size :: nat where "dir_entry_size = 92"

fun ftype_number :: "ftype \<Rightarrow> u32" where
  "ftype_number t_regular = 0"
| "ftype_number t_dir = 1"
| "ftype_number t_dev = 2"
| "ftype_number t_pipe = 3"

definition copied_name :: "string \<Rightarrow> u8 list" where
  "copied_name name = map of_char (takeWhile (\<lambda>c. c \<noteq> CHR 0x00) (take (max_file_name_length - 1) name)) @ [0]"

definition store_u64 :: "vmm \<Rightarrow> u32 \<Rightarrow> u64 \<Rightarrow> vmm kern" where
  "store_u64 m a x = do { m \<leftarrow> store_word m a (ucast x); store_word m (a + 4) (ucast (drop_bit 32 x)) }"

definition store_entry :: "vmm \<Rightarrow> u32 \<Rightarrow> dir_entry \<Rightarrow> vmm kern" where
  "store_entry m a e = do {
     m \<leftarrow> store_bytes m a (copied_name (de_name e));
     m \<leftarrow> store_u64 m (a + 68) (i_no (de_inode e));
     m \<leftarrow> store_word m (a + 76) (ftype_number (i_type (de_inode e)));
     m \<leftarrow> store_word m (a + 80) (i_perm (de_inode e));
     store_u64 m (a + 84) (i_size (de_inode e))
   }"

definition sys_read_dir :: "'x hw \<Rightarrow> sys_args \<Rightarrow> 'x loader \<Rightarrow> 'x sys" where
  "sys_read_dir hw a l = do {
     ok \<leftarrow> is_buffer_valid (l_vmm l) \<lparr>r_start = arg2 a, r_size = arg3 a\<rparr>;
     if \<not> ok \<or> unat (arg3 a) < dir_entry_size \<or> arg2 a AND 3 \<noteq> 0 then Some (eax ERR_invalid, l)
     else do {
       (n, e, v) \<leftarrow> vfs_read_dir hw (fd_arg (arg1 a)) (l_vfs l);
       m \<leftarrow> store_entry (l_vmm l) (arg2 a) e;
       Some (eax n, l\<lparr>l_vfs := v, l_vmm := m\<rparr>)
     }
   }"

text \<open>
  The offset is zero-extended. A direction that is none of the three is refused by the file system,
  after the checks that \<open>Vfs::seek\<close> makes.
\<close>

definition seek_of :: "u32 \<Rightarrow> seek_dir option" where
  "seek_of w = (if w = 0 then Some seek_set else if w = 1 then Some seek_end
     else if w = 2 then Some seek_cur else None)"

definition seek_nowhere :: "int \<Rightarrow> 'x vfs \<Rightarrow> (errno \<times> 'x vfs) kern" where
  "seek_nowhere fd v = do {
     r \<leftarrow> fd_objects v fd;
     case r of
       None \<Rightarrow> Some (ERR_bad_fd, v)
     | Some (ha, h, f) \<Rightarrow>
         if i_type (f_inode f) = t_pipe then Some (ERR_type, v)
         else do { kassert (i_fs (f_inode f) \<noteq> 0); Some (ERR_invalid, v) }
   }"

definition sys_seek :: "sys_args \<Rightarrow> 'x loader \<Rightarrow> 'x sys" where
  "sys_seek a l = with_vfs
     (case seek_of (arg2 a) of
        Some dir \<Rightarrow> vfs_seek (fd_arg (arg1 a)) dir (ucast (arg3 a)) (l_vfs l)
      | None \<Rightarrow> seek_nowhere (fd_arg (arg1 a)) (l_vfs l)) l"

definition sys_duplicate_fd :: "sys_env \<Rightarrow> sys_args \<Rightarrow> 'x loader \<Rightarrow> 'x sys" where
  "sys_duplicate_fd env a l =
     with_vfs (duplicate_fd (se_handle env) (fd_arg (arg1 a)) (fd_arg (arg2 a)) (l_vfs l)) l"

definition sys_pipe :: "sys_env \<Rightarrow> sys_args \<Rightarrow> 'x loader \<Rightarrow> 'x sys" where
  "sys_pipe env a l = do {
     ok \<leftarrow> is_buffer_valid (l_vmm l) \<lparr>r_start = arg1 a, r_size = 8\<rparr>;
     if \<not> ok then Some (eax ERR_invalid, l)
     else do {
       (r, v) \<leftarrow> make_pipe (se_file env) (se_pipe env) (se_handle env) (se_handle2 env) (l_vfs l);
       let l = l\<lparr>l_vfs := v\<rparr>;
       case r of
         Inl err \<Rightarrow> Some (eax err, l)
       | Inr (in_fd, out_fd) \<Rightarrow> do {
           m \<leftarrow> store_word (l_vmm l) (arg1 a) (of_int in_fd);
           m \<leftarrow> store_word m (arg1 a + 4) (of_int out_fd);
           Some (eax ERR_success, l\<lparr>l_vmm := m\<rparr>)
         }
     }
   }"

section \<open>The working directory\<close>

definition sys_get_cwd :: "sys_args \<Rightarrow> 'x loader \<Rightarrow> 'x sys" where
  "sys_get_cwd a l = do {
     ok \<leftarrow> is_buffer_valid (l_vmm l) \<lparr>r_start = arg1 a, r_size = arg2 a\<rparr>;
     if \<not> ok then Some (eax ERR_invalid, l)
     else do {
       (pa, p) \<leftarrow> running_proc (l_vfs l);
       let len = min (unat (arg2 a)) (length (working_directory p));
       m \<leftarrow> store_bytes (l_vmm l) (arg1 a) (map of_char (take len (working_directory p)));
       Some (Returns (of_nat len), l\<lparr>l_vmm := m\<rparr>)
     }
   }"

definition sys_set_cwd :: "'x hw \<Rightarrow> sys_env \<Rightarrow> sys_args \<Rightarrow> 'x loader \<Rightarrow> 'x sys" where
  "sys_set_cwd hw env a l = do {
     p \<leftarrow> path_arg (l_vmm l) (arg1 a) (arg2 a);
     case p of
       Inl err \<Rightarrow> Some (eax err, l)
     | Inr path \<Rightarrow> do {
         (fd, v) \<leftarrow> vfs_open hw (se_handle env) (se_file env) (-1) path o_dir (l_vfs l);
         if fd < 0 then Some (eax fd, l\<lparr>l_vfs := v\<rparr>)
         else do {
           (err, v) \<leftarrow> close_unlocked fd v;
           (pa, p) \<leftarrow> running_proc v;
           wd \<leftarrow> canonicalise_path (working_directory p) path;
           s \<leftarrow> upd_proc (v_sched v) pa (\<lambda>p. p\<lparr>working_directory := wd\<rparr>);
           Some (eax ERR_success, l\<lparr>l_vfs := v\<lparr>v_sched := s\<rparr>\<rparr>)
         }
       }
   }"

section \<open>Spawning a process\<close>

text \<open>
  \<open>syscall_spawn_args_t\<close>: the list of argument texts (address and count), the three descriptors to
  transplant, and whether to wait.
\<close>

record spawn_spec =
  sp_data :: u32
  sp_count :: u32
  sp_transplant :: "int list"
  sp_do_wait :: bool

definition spawn_spec_size :: nat where "spawn_spec_size = 24"

definition parse_spawn_spec :: "u8 list \<Rightarrow> spawn_spec" where
  "parse_spawn_spec b = \<lparr>sp_data = le32 b 0, sp_count = le32 b 4,
     sp_transplant = map (\<lambda>i. sint (le32 b (8 + 4 * i))) [0..<3], sp_do_wait = b ! 20 \<noteq> 0\<rparr>"

text \<open>
  The copy of the arguments into \<open>cmdline\<close>, from argument \<open>argi\<close> on with \<open>n\<close> left; \<open>i\<close> characters are used. The
  sum in the check is a 32-bit one; a copy beyond the array is \<open>None\<close>. The address of an
  argument is not checked.
\<close>

definition cmdline_size :: nat where "cmdline_size = max_args_chars + max_args"

fun copy_cmdline :: "vmm \<Rightarrow> u32 \<Rightarrow> nat \<Rightarrow> nat \<Rightarrow> nat \<Rightarrow> (errno + string list) kern" where
  "copy_cmdline m data argi 0 i = Some (Inr [])"
| "copy_cmdline m data argi (Suc n) i = do {
     b \<leftarrow> load_bytes m (data + of_nat (8 * argi)) 8;
     let elem = le32 b 0;
     let count = le32 b 4;
     if unat (of_nat i + count) \<ge> cmdline_size then Some (Inl ERR_invalid)
     else do {
       kassert (i + unat count < cmdline_size);
       cs \<leftarrow> load_bytes m elem (unat count);
       r \<leftarrow> copy_cmdline m data (argi + 1) n (i + unat count + 1);
       Some (case r of Inl err \<Rightarrow> Inl err | Inr as \<Rightarrow> Inr (map byte_char cs # as))
     }
   }"

text \<open>The steps up to the arguments: \<open>Inl\<close> is the error that is returned.\<close>

definition spawn_args :: "vmm \<Rightarrow> sys_args \<Rightarrow> (errno + string \<times> spawn_spec \<times> string list) kern" where
  "spawn_args m a = do {
     p \<leftarrow> path_arg m (arg1 a) (arg2 a);
     case p of
       Inl err \<Rightarrow> Some (Inl err)
     | Inr path \<Rightarrow> do {
         ok \<leftarrow> (if unat (arg4 a) < spawn_spec_size then Some False
                else is_buffer_valid m \<lparr>r_start = arg3 a, r_size = arg4 a\<rparr>);
         if \<not> ok then Some (Inl ERR_invalid)
         else do {
           b \<leftarrow> load_bytes m (arg3 a) spawn_spec_size;
           let spec = parse_spawn_spec b;
           ok \<leftarrow> (if unat (sp_count spec) > max_args then Some False
                  else is_buffer_valid m \<lparr>r_start = sp_data spec, r_size = sp_count spec * 8\<rparr>);
           if \<not> ok then Some (Inl ERR_invalid)
           else do {
             r \<leftarrow> copy_cmdline m (sp_data spec) 0 (unat (sp_count spec)) 0;
             Some (case r of Inl err \<Rightarrow> Inl err | Inr args \<Rightarrow> Inr (path, spec, args))
           }
         }
       }
   }"

text \<open>The lock of the handle behind a descriptor of the running process.\<close>

definition unlock_fd :: "int \<Rightarrow> 'x vfs \<Rightarrow> 'x vfs kern" where
  "unlock_fd fd v =
     (if fd < 0 then Some v
      else do { ha \<leftarrow> handle_by_fd v fd; upd_handle v ha (\<lambda>h. h\<lparr>h_locked := False\<rparr>) })"

fun unlock_fds :: "int list \<Rightarrow> 'x vfs \<Rightarrow> 'x vfs kern" where
  "unlock_fds [] v = Some v"
| "unlock_fds (fd # fds) v = do { v \<leftarrow> unlock_fd fd v; unlock_fds fds v }"

text \<open>
  Locking the handles, \<open>before\<close> are the descriptors that were dealt with (the last one first). A
  descriptor that occurs twice ends the call with the locks held. \<open>Inr\<close> says that all are
  locked.
\<close>

fun lock_fds :: "int list \<Rightarrow> int list \<Rightarrow> 'x vfs \<Rightarrow> ((sys_result + unit) \<times> 'x vfs) kern" where
  "lock_fds before [] v = Some (Inr (), v)"
| "lock_fds before (fd # fds) v =
     (if fd < 0 then lock_fds (fd # before) fds v
      else if fd \<in> set before then Some (Inl (eax ERR_invalid), v)
      else do {
        ha \<leftarrow> handle_by_fd v fd;
        if ha = 0 then do { v \<leftarrow> unlock_fds before v; Some (Inl (eax ERR_bad_fd), v) }
        else do {
          h \<leftarrow> v_handle_objs v ha;
          if h_locked h then Some (Inl (Waits_for ha), v)
          else do { v \<leftarrow> upd_handle v ha (\<lambda>h. h\<lparr>h_locked := True\<rparr>); lock_fds (fd # before) fds v }
        }
      })"

text \<open>Moving the descriptors to the new process \<open>p\<close>; the result is the error of the last move.\<close>

fun transplant_fds :: "nat \<Rightarrow> int \<Rightarrow> int list \<Rightarrow> errno \<Rightarrow> 'x vfs \<Rightarrow> (errno \<times> 'x vfs) kern" where
  "transplant_fds p i [] err v = Some (err, v)"
| "transplant_fds p i (fd # fds) err v = do {
     (err, v) \<leftarrow> (if fd \<ge> 0 then transplant_fd p i fd v else Some (err, v));
     transplant_fds p (i + 1) fds err v
   }"

definition sys_spawn :: "'x hw \<Rightarrow> sys_env \<Rightarrow> sys_args \<Rightarrow> 'x loader \<Rightarrow> 'x sys" where
  "sys_spawn hw env a l = do {
     r \<leftarrow> spawn_args (l_vmm l) a;
     case r of
       Inl err \<Rightarrow> Some (eax err, l)
     | Inr (path, spec, args) \<Rightarrow> do {
         (r, v) \<leftarrow> lock_fds [] (sp_transplant spec) (l_vfs l);
         let l = l\<lparr>l_vfs := v\<rparr>;
         case r of
           Inl res \<Rightarrow> Some (res, l)
         | Inr _ \<Rightarrow> do {
             (err, p, l) \<leftarrow> load_elf hw (se_loader env) path args l;
             v \<leftarrow> unlock_fds (sp_transplant spec) (l_vfs l);
             let l = l\<lparr>l_vfs := v\<rparr>;
             if err < 0 then Some (eax err, l)
             else do {
               (err, v) \<leftarrow> transplant_fds p 0 (sp_transplant spec) err (l_vfs l);
               let l = l\<lparr>l_vfs := v\<rparr>;
               if sp_do_wait spec then wait_exit env p (of_int err) l
               else Some (eax err, l)
             }
           }
       }
   }"

section \<open>The handler\<close>

definition handle_syscall :: "'x hw \<Rightarrow> sys_env \<Rightarrow> sys_args \<Rightarrow> 'x loader \<Rightarrow> 'x sys" where
  "handle_syscall hw env a l = do {
     t \<leftarrow> threads (l_sched l) (current_thread (l_sched l));
     kassert (\<not> is_kernel_thread t);
     if arg0 a = SYS_YIELD then sys_yield env a l
     else if arg0 a = SYS_THREAD_DELETE then sys_thread_delete a l
     else if arg0 a = SYS_OPEN then sys_open hw env a l
     else if arg0 a = SYS_CLOSE then sys_close a l
     else if arg0 a = SYS_READ then sys_read hw a l
     else if arg0 a = SYS_WRITE then sys_write hw a l
     else if arg0 a = SYS_READ_DIR then sys_read_dir hw a l
     else if arg0 a = SYS_SEEK then sys_seek a l
     else if arg0 a = SYS_SPAWN then sys_spawn hw env a l
     else if arg0 a = SYS_WAIT_PID then sys_wait_pid env a l
     else if arg0 a = SYS_GET_CWD then sys_get_cwd a l
     else if arg0 a = SYS_SET_CWD then sys_set_cwd hw env a l
     else if arg0 a = SYS_DUPLICATE_FD then sys_duplicate_fd env a l
     else if arg0 a = SYS_PIPE then sys_pipe env a l
     else Some (eax ERR_invalid, l)
   }"

end
