(* ===== verification/Descriptors.thy ===== *)
theory Descriptors
  imports Ports Lifecycle
begin

unbundle bit_operations_syntax

text \<open>
  The segment and interrupt descriptor tables (memory/gdt.cc, interrupt/idt.cc) and the interrupt
  controller (interrupt/controller.cc). The addresses of the handlers and of the tables are
  parameters.
\<close>

section \<open>Segments\<close>

definition i_null :: nat where "i_null = 0"
definition i_tss :: nat where "i_tss = 5"

record tss =
  esp0 :: u32
  ss0 :: u16
  iomap_offset :: u16

definition gdt_table :: "u64 list" where
  "gdt_table = [0x0000000000000000, 0x00cf9a000000ffff, 0x00cf92000000ffff, 0x00cffa000000ffff,
     0x00cff2000000ffff, 0x0050890000000067]"

definition set_tss_stack :: "u32 \<Rightarrow> tss \<Rightarrow> tss" where
  "set_tss_stack kernel_stack t = t\<lparr>ss0 := of_nat (i_kernel_data * 8), esp0 := kernel_stack\<rparr>"

text \<open>\<open>init\<close>, with the \<open>tss\<close> at address \<open>a\<close>.\<close>

definition insert_tss :: "u32 \<Rightarrow> u64 \<Rightarrow> u64" where
  "insert_tss a e = e OR (push_bit 16 (ucast a AND 0x00ffffff) OR push_bit 32 (ucast a AND 0xff000000))"

definition gdt_init :: "u32 \<Rightarrow> u64 list \<Rightarrow> tss \<Rightarrow> u64 list \<times> tss" where
  "gdt_init a table t = (table[i_tss := insert_tss a (table ! i_tss)], t\<lparr>iomap_offset := 0x68\<rparr>)"

text \<open>The 48-bit value for the processor: address and size of a table of \<open>n\<close> entries.\<close>

definition table_ptr :: "u32 \<Rightarrow> nat \<Rightarrow> u64" where
  "table_ptr a n = push_bit 16 (ucast a) OR (of_nat (8 * n) - 1)"

section \<open>Interrupt gates\<close>

definition make_entry :: "u32 \<Rightarrow> bool \<Rightarrow> u64" where
  "make_entry handler user_callable =
     (let offset = handler;
          dpl = (if user_callable then 3 else 0 :: u8);
          selector = push_bit 3 (of_nat i_kernel_code) :: u16 in
      push_bit 48 (ucast (drop_bit 16 offset)) OR push_bit 47 (of_bool (offset > 0)) OR push_bit 45 (ucast dpl)
        OR push_bit 40 0xe OR push_bit 16 (ucast selector) OR ucast (offset AND 0xffff))"

text \<open>\<open>isr n\<close> is the address of the handler stub of interrupt \<open>n\<close>.\<close>

definition idt_init :: "(nat \<Rightarrow> u32) \<Rightarrow> u64 list" where
  "idt_init isr = map (\<lambda>n. make_entry (isr n) (n = 0xca)) [0..<256]"

section \<open>The interrupt controller\<close>

definition master_port :: u16 where "master_port = 0x20"
definition slave_port :: u16 where "slave_port = 0xa0"
definition cmd_eoi :: u8 where "cmd_eoi = 0x20"
definition cmd_init :: u8 where "cmd_init = 0x10"

definition acknowledge_interrupt :: "'x ports \<Rightarrow> u8 \<Rightarrow> ('x, unit) io_m" where
  "acknowledge_interrupt p int_no = do {
     _ \<leftarrow> (if int_no \<ge> 0x28 \<and> int_no < 0x30 then out_8 p slave_port cmd_eoi else State_Monad.return ());
     out_8 p master_port cmd_eoi
   }"

definition controller_init :: "'x ports \<Rightarrow> ('x, unit) io_m" where
  "controller_init p = do {
     _ \<leftarrow> out_8 p master_port (cmd_init OR 0x01);
     _ \<leftarrow> out_8 p slave_port (cmd_init OR 0x01);
     _ \<leftarrow> out_8 p (master_port + 1) 0x20;
     _ \<leftarrow> out_8 p (slave_port + 1) 0x28;
     _ \<leftarrow> out_8 p (master_port + 1) 0x04;
     _ \<leftarrow> out_8 p (slave_port + 1) 0x02;
     _ \<leftarrow> out_8 p (master_port + 1) 0x01;
     _ \<leftarrow> out_8 p (slave_port + 1) 0x01;
     _ \<leftarrow> out_8 p (master_port + 1) 0;
     out_8 p (slave_port + 1) 0
   }"

section \<open>What the processor reads from the tables\<close>

definition gate_offset :: "u64 \<Rightarrow> u32" where
  "gate_offset e = ucast (e AND 0xffff) OR push_bit 16 (ucast (drop_bit 48 e))"

definition gate_selector :: "u64 \<Rightarrow> u16" where "gate_selector e = ucast (drop_bit 16 e)"

definition gate_present :: "u64 \<Rightarrow> bool" where "gate_present e \<longleftrightarrow> bit e 47"

definition gate_dpl :: "u64 \<Rightarrow> nat" where "gate_dpl e = unat (drop_bit 45 e AND 3)"

definition gate_type :: "u64 \<Rightarrow> nat" where "gate_type e = unat (drop_bit 40 e AND 0x1f)"

definition segment_base :: "u64 \<Rightarrow> u32" where
  "segment_base e = ucast (drop_bit 16 e AND 0xffffff) OR push_bit 24 (ucast (drop_bit 56 e))"

definition segment_limit :: "u64 \<Rightarrow> u32" where
  "segment_limit e = ucast (e AND 0xffff) OR push_bit 16 (ucast (drop_bit 48 e AND 0xf))"

text \<open>The bits of each part of a gate.\<close>

lemma bit_mask_u64 [simp]: "bit (mask k :: u64) n \<longleftrightarrow> n < k \<and> n < 64"
  by (auto simp: bit_mask_iff)

lemma gate_high: "bit (push_bit 48 (ucast (drop_bit 16 h) :: u64)) n \<longleftrightarrow> 48 \<le> n \<and> n < 64 \<and> bit h (n - 32)"
  for h :: u32
  by (auto simp: bit_push_bit_iff bit_ucast_iff bit_drop_bit_eq dest: bit_imp_le_length)

lemma gate_present_part: "bit (push_bit 47 (of_bool b :: u64)) n \<longleftrightarrow> n = 47 \<and> b"
  by (auto simp: bit_push_bit_iff bit_1_iff)

lemma gate_dpl_part: "bit (push_bit 45 (ucast (if u then 3 else 0 :: u8) :: u64)) n \<longleftrightarrow> u \<and> (n = 45 \<or> n = 46)"
proof -
  have "(3 :: u8) = mask 2" by (simp add: mask_eq_exp_minus_1)
  then show ?thesis by (simp only: bit_push_bit_iff bit_ucast_iff bit_mask_iff if_distrib [of "\<lambda>x. bit x _"]) auto
qed

lemma gate_type_part: "bit (push_bit 40 (0xe :: u64)) n \<longleftrightarrow> 41 \<le> n \<and> n \<le> 43"
proof -
  have "(0xe :: u64) = push_bit 1 (mask 3)" by (simp add: mask_eq_exp_minus_1 push_bit_eq_mult)
  then show ?thesis by (simp only: bit_push_bit_iff bit_mask_u64) auto
qed

lemma gate_selector_part: "bit (push_bit 16 (ucast (push_bit 3 (of_nat i_kernel_code) :: u16) :: u64)) n \<longleftrightarrow> n = 19"
  by (simp only: i_kernel_code_def of_nat_1 bit_push_bit_iff bit_ucast_iff bit_1_iff) auto

lemma gate_low: "bit (ucast (h AND 0xffff) :: u64) n \<longleftrightarrow> n < 16 \<and> bit h n" for h :: u32
proof -
  have "(0xffff :: u32) = mask 16" by (simp add: mask_eq_exp_minus_1)
  then show ?thesis by (simp only: bit_ucast_iff bit_and_iff bit_mask_iff) auto
qed

lemma make_entry_bits:
  "bit (make_entry h u) n \<longleftrightarrow>
     48 \<le> n \<and> n < 64 \<and> bit h (n - 32) \<or> n = 47 \<and> h > 0 \<or> u \<and> (n = 45 \<or> n = 46)
     \<or> 41 \<le> n \<and> n \<le> 43 \<or> n = 19 \<or> n < 16 \<and> bit h n"
  unfolding make_entry_def Let_def bit_or_iff gate_high gate_present_part gate_dpl_part gate_type_part
    gate_selector_part gate_low by blast

text \<open>What the processor decodes from a gate.\<close>

lemma gate_offset_make_entry: "gate_offset (make_entry h u) = h"
proof (rule bit_word_eqI)
  fix n assume "n < LENGTH(32)"
  then have n: "n < 32" by simp
  have m: "(0xffff :: u64) = mask 16" by (simp add: mask_eq_exp_minus_1)
  have "bit (gate_offset e) n \<longleftrightarrow> n < 16 \<and> bit e n \<or> 16 \<le> n \<and> bit e (n + 32)" for e
  proof -
    have "n \<ge> 16 \<Longrightarrow> 48 + (n - 16) = n + 32" by simp
    then show ?thesis
      unfolding gate_offset_def m using n
      by (auto simp: bit_or_iff bit_and_iff bit_push_bit_iff bit_ucast_iff bit_drop_bit_eq add.commute)
  qed
  with n show "bit (gate_offset (make_entry h u)) n \<longleftrightarrow> bit h n"
    by (auto simp: make_entry_bits)
qed

lemma gate_selector_make_entry: "gate_selector (make_entry h u) = of_nat (i_kernel_code * 8)"
proof (rule bit_word_eqI)
  fix n assume "n < LENGTH(16)"
  then have n: "n < 16" by simp
  have "of_nat (i_kernel_code * 8) = (push_bit 3 1 :: u16)" by (simp add: i_kernel_code_def)
  then have "bit (of_nat (i_kernel_code * 8) :: u16) n \<longleftrightarrow> n = 3"
    by (simp only: bit_push_bit_iff bit_1_iff) auto
  with n show "bit (gate_selector (make_entry h u)) n \<longleftrightarrow> bit (of_nat (i_kernel_code * 8) :: u16) n"
    by (auto simp: gate_selector_def bit_ucast_iff bit_drop_bit_eq make_entry_bits)
qed

lemma gate_present_make_entry: "gate_present (make_entry h u) \<longleftrightarrow> h > 0"
  by (auto simp: gate_present_def make_entry_bits)

lemma gate_dpl_make_entry: "gate_dpl (make_entry h u) = (if u then 3 else 0)"
proof -
  have m: "(3 :: u64) = mask 2" by (simp add: mask_eq_exp_minus_1)
  have "drop_bit 45 (make_entry h u) AND 3 = (if u then 3 else 0)"
    unfolding m by (rule bit_word_eqI, simp only: bit_and_iff bit_drop_bit_eq comp_apply make_entry_bits
        bit_mask_u64 if_distrib [of "\<lambda>x. bit x _"]) auto
  then show ?thesis by (simp add: gate_dpl_def)
qed

lemma gate_type_make_entry: "gate_type (make_entry h u) = 0xe"
proof -
  have m: "(0x1f :: u64) = mask 5" "(0xe :: u64) = push_bit 1 (mask 3)"
    by (simp_all add: mask_eq_exp_minus_1 push_bit_eq_mult)
  have "drop_bit 40 (make_entry h u) AND 0x1f = 0xe"
    unfolding m by (rule bit_word_eqI, simp only: bit_and_iff bit_drop_bit_eq comp_apply make_entry_bits
        bit_mask_u64 bit_push_bit_iff) auto
  then show ?thesis by (simp add: gate_type_def)
qed

text \<open>C30: The table of interrupt gates: the processor finds behind every interrupt number the handler
  stub of that number, in the kernel's code segment and as a 32-bit interrupt gate; the gate is present when the stub
  is not at address 0, and only the gate of system calls (0xca) may be used by user programs.\<close>

theorem idt_gates:
  "length (idt_init isr) = 256 \<and> (\<forall>n. n < 256 \<longrightarrow>
     gate_offset (idt_init isr ! n) = isr n
     \<and> gate_selector (idt_init isr ! n) = of_nat (i_kernel_code * 8)
     \<and> gate_type (idt_init isr ! n) = 0xe
     \<and> (gate_present (idt_init isr ! n) \<longleftrightarrow> isr n > 0)
     \<and> gate_dpl (idt_init isr ! n) = (if n = 0xca then 3 else 0))"
  by (simp add: idt_init_def gate_offset_make_entry gate_selector_make_entry gate_type_make_entry
      gate_present_make_entry gate_dpl_make_entry)

theorem idt_gates_witness:
  "gate_dpl (idt_init (\<lambda>n. 0x100000 + of_nat (16 * n)) ! 0xca) = 3
   \<and> gate_offset (idt_init (\<lambda>n. 0x100000 + of_nat (16 * n)) ! 2) = 0x100020"
  using idt_gates [of "\<lambda>n. 0x100000 + of_nat (16 * n)"] by simp

text \<open>The segment of the task state is found where the state is.\<close>

lemma segment_base_insert_tss: "segment_base (insert_tss a (gdt_table ! i_tss)) = a"
proof (rule bit_word_eqI)
  fix n assume "n < LENGTH(32)"
  then have n: "n < 32" by simp
  have m: "(0xffffff :: u64) = mask 24" "(0x00ffffff :: u64) = mask 24" "(0xff000000 :: u64) = push_bit 24 (mask 8)"
    by (simp_all add: mask_eq_exp_minus_1 push_bit_eq_mult)
  have "(0x5089 :: u64) = 0x5089 AND mask 16" "(0x67 :: u64) = 0x67 AND mask 7"
    by (simp_all add: mask_eq_exp_minus_1)
  then have e: "gdt_table ! i_tss = push_bit 40 (0x5089 AND mask 16) OR (0x67 AND mask 7)"
    by (simp add: gdt_table_def i_tss_def push_bit_eq_mult)
  have lo: "drop_bit 16 (insert_tss a (gdt_table ! i_tss)) AND 0xffffff = ucast a AND 0xffffff"
    unfolding insert_tss_def e m
    by (rule bit_word_eqI, simp only: bit_or_iff bit_and_iff bit_push_bit_iff bit_ucast_iff bit_drop_bit_eq
        bit_mask_u64 comp_apply) auto
  have hi: "drop_bit 56 (insert_tss a (gdt_table ! i_tss)) = drop_bit 24 (ucast a)"
    unfolding insert_tss_def e m
    by (rule bit_word_eqI, simp only: bit_or_iff bit_and_iff bit_push_bit_iff bit_ucast_iff bit_drop_bit_eq
        bit_mask_u64 comp_apply) (auto dest: bit_imp_le_length)
  show "bit (segment_base (insert_tss a (gdt_table ! i_tss))) n \<longleftrightarrow> bit a n"
    unfolding segment_base_def lo hi using n
    apply (simp only: m bit_or_iff bit_and_iff bit_push_bit_iff bit_ucast_iff bit_drop_bit_eq bit_mask_u64 comp_apply)
    by auto
qed

end
