(* ===== verification/Uart.thy ===== *)
theory Uart
  imports Input Ports DevFs
begin

text \<open>
  The serial port as an input and output device (driver/uart.cc) and the start of the timer
  (driver/timer/pit.cc), against an arbitrary state of the hardware behind the ports.
\<close>

section \<open>Input\<close>

definition uart_port :: u16 where "uart_port = 0x3f8"

text \<open>The interrupt handler: the character goes to the kernel shell, starts it, or is queued.\<close>

definition uart_irq :: "'x ports \<Rightarrow> char kqueue \<Rightarrow> input \<Rightarrow> 'x \<Rightarrow> (char kqueue \<times> input \<times> 'x) kern" where
  "uart_irq p q s x =
     (let (b, x) = port_in8 p uart_port x; ch = char_of (unat b) in
      if kshell_input_enabled s then do {
        (ok, k, sc) \<leftarrow> kq_try_enqueue (in_sched s) (kshell_input s) False ch;
        Some (q, s\<lparr>kshell_input := k, in_sched := sc\<rparr>, x)
      }
      else if \<not> kshell_enabled s \<and> ch = CHR 0x1B then do { s \<leftarrow> kshell_enable s; Some (q, s, x) }
      else do {
        (ok, q, sc) \<leftarrow> kq_try_enqueue (in_sched s) q False ch;
        Some (q, s\<lparr>in_sched := sc\<rparr>, x)
      })"

text \<open>
  A read: \<open>cs\<close> are the characters in the order in which \<open>dequeue\<close> delivers them, \<open>echo\<close> the variable \<open>echo_on\<close>.
  The result is the text read, the text echoed, the new \<open>echo_on\<close> and the characters left; \<open>None\<close> says that
  the read still waits.
\<close>

definition translate_char :: "char \<Rightarrow> char" where
  "translate_char c = (let c = (if c = CHR 0x0D then CHR 0x0A else c) in if c = CHR 0x7F then CHR 0x08 else c)"

fun uart_read_loop :: "nat \<Rightarrow> string \<Rightarrow> string \<Rightarrow> bool \<Rightarrow> string \<Rightarrow> (string \<times> string \<times> bool \<times> string) option" where
  "uart_read_loop nbytes got out echo cs =
     (if length got \<ge> nbytes then Some (got, out, echo, cs)
      else case cs of
        [] \<Rightarrow> None
      | c # cs \<Rightarrow>
          (let c = translate_char c in
           if got = [] \<and> c = ascii_ctrl CHR ''D'' then Some ([], out, echo, cs)
           else let echo = (if c = ascii_ctrl CHR ''T'' then \<not> echo else echo);
                    out = (if echo then out @ [c] else out) in
             if c = CHR 0x0A then Some (got @ [c], out, echo, cs)
             else uart_read_loop nbytes (got @ [c]) out echo cs))"

declare uart_read_loop.simps [simp del]

definition uart_read :: "nat \<Rightarrow> bool \<Rightarrow> string \<Rightarrow> (string \<times> string \<times> bool \<times> string) option" where
  "uart_read nbytes echo cs = uart_read_loop nbytes [] [] echo cs"

section \<open>Output\<close>

text \<open>Polling the transmitter, at most 1000 times.\<close>

definition uart_ready :: "'x ports \<Rightarrow> ('x, bool) io_m" where
  "uart_ready p = do {
     r \<leftarrow> poll (do { s \<leftarrow> in_8 p (uart_port + 5);
                     State_Monad.return (if s AND 0x20 \<noteq> 0 then Some () else None) }) 1000;
     State_Monad.return (r \<noteq> None)
   }"

text \<open>
  A write: \<open>written\<close> bytes are out, \<open>bs\<close> are left. The result is what \<open>write\<close> returns and the numbers of
  written bytes at which it yielded to other threads.
\<close>

fun uart_write_loop :: "'x ports \<Rightarrow> nat \<Rightarrow> u8 list \<Rightarrow> ('x, int \<times> nat list) io_m" where
  "uart_write_loop p written [] = State_Monad.return (ssize written, [])"
| "uart_write_loop p written (b # bs) = do {
     let ys = (if written \<noteq> 0 \<and> written = 256 then [written] else []);
     ready \<leftarrow> uart_ready p;
     if \<not> ready then State_Monad.return (ERR_timeout, ys)
     else do {
       _ \<leftarrow> out_8 p uart_port b;
       (r, zs) \<leftarrow> uart_write_loop p (written + 1) bs;
       State_Monad.return (r, ys @ zs)
     }
   }"

definition uart_write :: "'x ports \<Rightarrow> u8 list \<Rightarrow> ('x, int \<times> nat list) io_m" where
  "uart_write p buf = uart_write_loop p 0 buf"

text \<open>However much is written, other threads are let in once, after 256 bytes.\<close>

lemma uart_write_yields: "set (snd (fst (run_state (uart_write_loop p k bs) x))) \<subseteq> {256}"
proof (induction bs arbitrary: k x)
  case (Cons b bs)
  show ?case
    using Cons.IH [of "k + 1"] by (auto simp: Let_def split: prod.splits if_splits) (metis fst_conv snd_conv singletonD subsetD)+
qed simp

section \<open>The timer\<close>

text \<open>The divisor 1193 makes the timer tick every millisecond.\<close>

definition pit_init :: "'x ports \<Rightarrow> ('x, unit) io_m" where
  "pit_init p = do {
     _ \<leftarrow> out_8s p 0x43 0x34;
     _ \<leftarrow> out_8s p 0x40 (of_nat (1193 mod 256));
     out_8 p 0x40 (of_nat (1193 div 256))
   }"

end
