(* ===== verification/Interrupts.thy ===== *)
theory Interrupts
  imports Syscall Descriptors Mbr Uart Ps2
begin

text \<open>
  The interrupt handlers (interrupt/handlers.cc): exceptions, hardware interrupts and the interrupt of
  system calls, with the handlers that the drivers register.
\<close>

section \<open>The machine\<close>

text \<open>The parts of the kernel that handlers work on: the one of the program loader, and the drivers'.\<close>

record ('x, 'd) machine =
  m_loader :: "'x loader"
  m_drivers :: 'd

text \<open>
  How a handler ends: it returns to the interrupted code, the processor goes on with a thread, or a
  system call is suspended and comes back later with a value or with the lock of a handle.
\<close>

datatype outcome =
  Iret
| Switches resumption
| Suspended resumption u32
| Blocks_on nat

definition m_sched :: "('x, 'd) machine \<Rightarrow> sched" where "m_sched m = l_sched (m_loader m)"

definition upd_loader :: "'x loader \<Rightarrow> ('x, 'd) machine \<Rightarrow> ('x, 'd) machine" where
  "upd_loader l m = m\<lparr>m_loader := l\<rparr>"

definition upd_sched :: "sched \<Rightarrow> ('x, 'd) machine \<Rightarrow> ('x, 'd) machine" where
  "upd_sched s m = upd_loader (set_sched s (m_loader m)) m"

section \<open>Handler stubs\<close>

text \<open>
  The stub of interrupt \<open>n\<close> pushes a dummy error code when the processor has not pushed one, then
  the number.
\<close>

definition pushes_error_code :: "nat \<Rightarrow> bool" where
  "pushes_error_code n \<longleftrightarrow> n \<in> {0x08, 0x0a, 0x0b, 0x0c, 0x0d, 0x0e, 0x11}"

definition stub_frame :: "nat \<Rightarrow> u32 \<Rightarrow> interrupt_frame \<Rightarrow> interrupt_frame" where
  "stub_frame n pushed f =
     f\<lparr>f_error_code := (if pushes_error_code n then pushed else 0), f_int_no := of_nat n\<rparr>"

section \<open>Registration\<close>

type_synonym ('x, 'd) irq_handler =
  "interrupt_frame \<Rightarrow> ('x, 'd) machine \<Rightarrow> (resumption option \<times> ('x, 'd) machine) kern"

type_synonym ('x, 'd) irq_table = "('x, 'd) irq_handler option list"

definition no_irq_handlers :: "('x, 'd) irq_table" where "no_irq_handlers = replicate 16 None"

definition register_irq_handler :: "u8 \<Rightarrow> ('x, 'd) irq_handler \<Rightarrow> ('x, 'd) irq_table \<Rightarrow> ('x, 'd) irq_table kern" where
  "register_irq_handler irq h table =
     (if unat irq \<ge> length table then None
      else case table ! unat irq of
        Some _ \<Rightarrow> None
      | None \<Rightarrow> Some (table[unat irq := Some h]))"

section \<open>Exceptions\<close>

text \<open>
  A page fault of the kernel's heap is repaired. Any other exception of the kernel is a panic, and one
  of a user program deletes the running thread.
\<close>

definition violation :: "interrupt_frame \<Rightarrow> ('x, 'd) machine \<Rightarrow> (outcome \<times> ('x, 'd) machine) kern" where
  "violation f m = do {
     kassert (f_cs f \<noteq> of_nat (i_kernel_code * 8));
     (r, l) \<leftarrow> delete_thread (current_thread (m_sched m)) (m_loader m);
     r \<leftarrow> r;
     Some (Switches r, upd_loader l m)
   }"

definition handle_exception :: "u32 \<Rightarrow> u32 \<Rightarrow> interrupt_frame \<Rightarrow> ('x, 'd) machine \<Rightarrow> (outcome \<times> ('x, 'd) machine) kern" where
  "handle_exception heap_start cr2 f m =
     (if f_int_no f = 0x0e then do {
        (handled, vm) \<leftarrow> handle_pagefault heap_start cr2 (f_error_code f) (l_vmm (m_loader m));
        let m = upd_loader ((m_loader m)\<lparr>l_vmm := vm\<rparr>) m;
        if handled then Some (Iret, m) else violation f m
      }
      else violation f m)"

section \<open>Hardware interrupts\<close>

definition m_ports :: "('x, unit) io_m \<Rightarrow> ('x, 'd) machine \<Rightarrow> ('x, 'd) machine" where
  "m_ports act m = upd_loader ((m_loader m)\<lparr>l_vfs := snd (on_ports act (l_vfs (m_loader m)))\<rparr>) m"

definition handle_irq :: "'x ports \<Rightarrow> ('x, 'd) irq_table \<Rightarrow> interrupt_frame \<Rightarrow> ('x, 'd) machine \<Rightarrow> (outcome \<times> ('x, 'd) machine) kern" where
  "handle_irq p table f m = do {
     let irq = (ucast (f_int_no f) - 0x20 :: u8);
     let m = m_ports (acknowledge_interrupt p (ucast (f_int_no f))) m;
     case table ! unat irq of
       Some h \<Rightarrow> do {
         (r, m) \<leftarrow> h f m;
         Some (case r of None \<Rightarrow> Iret | Some r \<Rightarrow> Switches r, m)
       }
     | None \<Rightarrow> Some (Iret, m)
   }"

section \<open>System calls\<close>

text \<open>The result of the call goes to EAX of the saved frame, and the thread goes on with that frame.\<close>

definition return_to_user :: "u32 \<Rightarrow> ('x, 'd) machine \<Rightarrow> (outcome \<times> ('x, 'd) machine) kern" where
  "return_to_user v m = do {
     s \<leftarrow> upd_thread (m_sched m) (current_thread (m_sched m)) (\<lambda>t. t\<lparr>t_frame := (t_frame t)\<lparr>f_eax := v\<rparr>\<rparr>);
     (r, s) \<leftarrow> dispatch s (current_thread s);
     Some (Switches r, upd_sched s m)
   }"

definition syscall_interrupt :: "'x hw \<Rightarrow> sys_env \<Rightarrow> ('x, 'd) machine \<Rightarrow> (outcome \<times> ('x, 'd) machine) kern" where
  "syscall_interrupt hw env m = do {
     t \<leftarrow> threads (m_sched m) (current_thread (m_sched m));
     (res, l) \<leftarrow> handle_syscall hw env (frame_args (t_frame t)) (m_loader m);
     let m = upd_loader l m;
     case res of
       Returns v \<Rightarrow> return_to_user v m
     | Suspends r v \<Rightarrow> Some (Suspended r v, m)
     | Exits r \<Rightarrow> Some (Switches r, m)
     | Waits_for h \<Rightarrow> Some (Blocks_on h, m)
   }"

section \<open>All interrupts\<close>

record 'x int_env =
  ie_heap_start :: u32
  ie_cr2 :: u32
  ie_ports :: "'x ports"
  ie_hw :: "'x hw"
  ie_sys :: sys_env

definition common_interrupt_handler ::
  "'x int_env \<Rightarrow> ('x, 'd) irq_table \<Rightarrow> interrupt_frame \<Rightarrow> ('x, 'd) machine \<Rightarrow> (outcome \<times> ('x, 'd) machine) kern" where
  "common_interrupt_handler e table f m =
     (if f_int_no f < 0x20 then handle_exception (ie_heap_start e) (ie_cr2 e) f m
      else do {
        s \<leftarrow> save_frame (m_sched m) f;
        let m = upd_sched s m;
        if f_int_no f < 0x30 then handle_irq (ie_ports e) table f m
        else if f_int_no f = 0xca then syscall_interrupt (ie_hw e) (ie_sys e) m
        else Some (Iret, m)
      })"

section \<open>The handlers of the drivers\<close>

record drivers =
  d_timer :: timer
  d_input :: input
  d_uart :: "char kqueue"
  d_mouse :: mouse
  d_mouse_events :: "mouse_event kqueue"
  d_screen :: "u32 \<Rightarrow> u8"

text \<open>The timer (driver/timer/pit.cc).\<close>

definition pit_irq :: "('x, drivers) irq_handler" where
  "pit_irq f m = do {
     (r, tm, s) \<leftarrow> timer_tick (d_timer (m_drivers m)) (m_sched m);
     Some (r, upd_sched s (m\<lparr>m_drivers := (m_drivers m)\<lparr>d_timer := tm\<rparr>\<rparr>))
   }"

text \<open>The serial port; the scheduler that the input queues use is the machine's.\<close>

definition serial_irq :: "'x ports \<Rightarrow> ('x, drivers) irq_handler" where
  "serial_irq p f m = do {
     let v = l_vfs (m_loader m);
     let d = m_drivers m;
     (q, i, x) \<leftarrow> uart_irq p (d_uart d) ((d_input d)\<lparr>in_sched := m_sched m\<rparr>) (io_state (v_io v));
     let m = m\<lparr>m_drivers := d\<lparr>d_uart := q, d_input := i\<rparr>\<rparr>;
     let m = upd_loader ((m_loader m)\<lparr>l_vfs := v\<lparr>v_io := (v_io v)\<lparr>io_state := x\<rparr>\<rparr>\<rparr>) m;
     Some (None, upd_sched (in_sched i) m)
   }"

text \<open>
  The PS/2 handlers take bytes for as long as the controller delivers them. Neither touches the ports
  while it deals with a byte, so the bytes are collected first.
\<close>

partial_function (option) pending_bytes :: "'x ports \<Rightarrow> 'x \<Rightarrow> (u8 list \<times> 'x) option" where
  "pending_bytes p x =
     (case run_state (read_data p) x of (r, x) \<Rightarrow>
        if fst r then do { (bs, x) \<leftarrow> pending_bytes p x; Some (snd r # bs, x) } else Some ([], x))"

definition keyboard_irq :: "'x ports \<Rightarrow> ('x, drivers) irq_handler" where
  "keyboard_irq p f m = do {
     let v = l_vfs (m_loader m);
     let d = m_drivers m;
     (bs, x) \<leftarrow> pending_bytes p (io_state (v_io v));
     i \<leftarrow> irq_handler_keyboard ((d_input d)\<lparr>in_sched := m_sched m\<rparr>) bs;
     let m = m\<lparr>m_drivers := d\<lparr>d_input := i\<rparr>\<rparr>;
     let m = upd_loader ((m_loader m)\<lparr>l_vfs := v\<lparr>v_io := (v_io v)\<lparr>io_state := x\<rparr>\<rparr>\<rparr>) m;
     Some (None, upd_sched (in_sched i) m)
   }"

text \<open>A mouse packet changes the attributes of the screen and is queued, or dropped when the queue is full.\<close>

fun mouse_bytes :: "u8 list \<Rightarrow> sched \<Rightarrow> drivers \<Rightarrow> (sched \<times> drivers) kern" where
  "mouse_bytes [] s d = Some (s, d)"
| "mouse_bytes (b # bs) s d = do {
     (ms, e) \<leftarrow> mouse_byte (d_mouse d) b;
     let d = d\<lparr>d_mouse := ms\<rparr>;
     (s, d) \<leftarrow> (case e of
        None \<Rightarrow> Some (s, d)
      | Some (event, writes) \<Rightarrow> do {
          (ok, q, s) \<leftarrow> kq_try_enqueue s (d_mouse_events d) False event;
          Some (s, d\<lparr>d_mouse_events := q, d_screen := fold (\<lambda>(a, b) t. t(a := b)) writes (d_screen d)\<rparr>)
        });
     mouse_bytes bs s d
   }"

definition mouse_irq :: "'x ports \<Rightarrow> ('x, drivers) irq_handler" where
  "mouse_irq p f m = do {
     let v = l_vfs (m_loader m);
     (bs, x) \<leftarrow> pending_bytes p (io_state (v_io v));
     (s, d) \<leftarrow> mouse_bytes bs (m_sched m) (m_drivers m);
     let m = m\<lparr>m_drivers := d\<rparr>;
     let m = upd_loader ((m_loader m)\<lparr>l_vfs := v\<lparr>v_io := (v_io v)\<lparr>io_state := x\<rparr>\<rparr>\<rparr>) m;
     Some (None, upd_sched s m)
   }"

text \<open>
  \<open>init\<close> of driver/input/ps2.cc: \<open>da\<close> is the address of the device file system (0 for none), \<open>ok\<close> says whether the heap has
  room for the entries of the keyboard and the mouse, \<open>kbd\<close> and \<open>ms\<close> are the two devices.
\<close>

definition ps2_init :: "'x ports \<Rightarrow> nat \<Rightarrow> bool \<times> bool \<Rightarrow> device \<Rightarrow> device \<Rightarrow>
    ('x, drivers) irq_table \<Rightarrow> ('x, drivers) machine \<Rightarrow> (('x, drivers) irq_table \<times> ('x, drivers) machine) kern" where
  "ps2_init p da ok kbd ms table m = do {
     let v = l_vfs (m_loader m);
     (r, x) \<leftarrow> init_controller p (io_state (v_io v));
     let v = v\<lparr>v_io := (v_io v)\<lparr>io_state := x\<rparr>\<rparr>;
     let d = m_drivers m;
     let m = m\<lparr>m_drivers := d\<lparr>d_mouse := (d_mouse d)\<lparr>mouse_type := ir_mouse_type r\<rparr>\<rparr>\<rparr>;
     table \<leftarrow> (if have_keyboard r then register_irq_handler 1 (keyboard_irq p) table else Some table);
     v \<leftarrow> (if have_keyboard r \<and> da \<noteq> 0 then add_device da (fst ok) ''keyboard'' kbd 0x100 v else Some v);
     table \<leftarrow> (if have_mouse r then register_irq_handler 12 (mouse_irq p) table else Some table);
     v \<leftarrow> (if have_mouse r \<and> da \<noteq> 0 then add_device da (snd ok) ''mouse'' ms 0x100 v else Some v);
     x \<leftarrow> flush p (io_state (v_io v));
     let v = v\<lparr>v_io := (v_io v)\<lparr>io_state := x\<rparr>\<rparr>;
     Some (table, upd_loader ((m_loader m)\<lparr>l_vfs := v\<rparr>) m)
   }"

text \<open>
  \<open>init\<close> of driver/uart.cc and driver/timer/pit.cc. \<open>port_number\<close> is that of the serial console (0 for none).
\<close>

definition uart_start :: "'x ports \<Rightarrow> u16 \<Rightarrow> nat \<Rightarrow> bool \<Rightarrow> device \<Rightarrow>
    ('x, drivers) irq_table \<Rightarrow> ('x, drivers) machine \<Rightarrow> (('x, drivers) irq_table \<times> ('x, drivers) machine) kern" where
  "uart_start p port_number da ok dev table m =
     (if port_number = 0 then Some (table, m)
      else do {
        table \<leftarrow> register_irq_handler 4 (serial_irq p) table;
        v \<leftarrow> (if da \<noteq> 0 then add_device da ok ''uart0'' dev 0x180 (l_vfs (m_loader m)) else Some (l_vfs (m_loader m)));
        Some (table, upd_loader ((m_loader m)\<lparr>l_vfs := v\<rparr>) m)
      })"

definition pit_start :: "'x ports \<Rightarrow> ('x, drivers) irq_table \<Rightarrow> ('x, drivers) machine \<Rightarrow>
    (('x, drivers) irq_table \<times> ('x, drivers) machine) kern" where
  "pit_start p table m = do {
     let m = m_ports (pit_init p) m;
     table \<leftarrow> register_irq_handler 0 pit_irq table;
     Some (table, m)
   }"

end
