(* ===== verification/SyscallMem.thy ===== *)
theory SyscallMem
  imports Syscall
begin

text \<open>
  What the check of user buffers guarantees (interrupt/syscall.cc), and what it does not.
\<close>

section \<open>Loading through the page tables\<close>

text \<open>The byte at an address that is mapped.\<close>

definition byte_at :: "vmm \<Rightarrow> u32 \<Rightarrow> u8" where
  "byte_at m a = get_byte (ptmem m (frame (the (translate m a))) (word_index a)) (unat a mod 4)"

lemma load_byte_eq: "load_byte m a = (if translate m a = None then None else Some (byte_at m a))"
  by (simp add: load_byte_def mmu_page_def translate_def byte_at_def kassert_def Let_def)

lemma load_bytes_eq:
  "(\<And>i. i < n \<Longrightarrow> translate m (a + of_nat i) \<noteq> None) \<Longrightarrow>
     load_bytes m a n = Some (map (\<lambda>i. byte_at m (a + of_nat i)) [0..<n])"
proof (induction n arbitrary: a)
  case 0
  then show ?case by simp
next
  case (Suc n)
  have "translate m (a + 1 + of_nat i) \<noteq> None" if "i < n" for i
    using Suc.prems [of "Suc i"] that by (simp add: add.assoc)
  then have "load_bytes m (a + 1) n = Some (map (\<lambda>i. byte_at m (a + 1 + of_nat i)) [0..<n])"
    by (rule Suc.IH)
  moreover have "load_byte m a = Some (byte_at m a)"
    using Suc.prems [of 0] by (simp add: load_byte_eq)
  ultimately show ?case
    by (simp add: upt_conv_Cons map_Suc_upt [symmetric] add.assoc del: upt_Suc)
qed

lemma load_text_overruns:
  "k \<le> n \<Longrightarrow> (\<And>i. i < k \<Longrightarrow> translate m (a + of_nat i) \<noteq> None \<and> byte_at m (a + of_nat i) \<noteq> 0) \<Longrightarrow>
     translate m (a + of_nat k) = None \<Longrightarrow> load_text m a n = None"
proof (induction k arbitrary: a n)
  case 0
  then show ?case by (cases n) (simp_all add: load_byte_eq)
next
  case (Suc k)
  then obtain n' where n: "n = Suc n'" "k \<le> n'" by (cases n) auto
  have "load_text m (a + 1) n' = None"
  proof (rule Suc.IH [OF n(2)])
    show "translate m (a + 1 + of_nat i) \<noteq> None \<and> byte_at m (a + 1 + of_nat i) \<noteq> 0" if "i < k" for i
      using Suc.prems(2) [of "Suc i"] that by (simp add: add.assoc)
    show "translate m (a + 1 + of_nat k) = None" using Suc.prems(3) by (simp add: add.assoc)
  qed
  moreover have "load_byte m a = Some (byte_at m a)" "byte_at m a \<noteq> 0"
    using Suc.prems(2) [of 0] by (simp_all add: load_byte_eq)
  ultimately show ?case using n by simp
qed

section \<open>The check of a buffer\<close>

text \<open>
  \<open>user_buffer m start sz\<close>: the buffer is not empty, lies within user memory, and every byte of it is
  mapped.
\<close>

definition user_buffer :: "vmm \<Rightarrow> u32 \<Rightarrow> u32 \<Rightarrow> bool" where
  "user_buffer m start sz \<longleftrightarrow> 0 < unat sz \<and> 0x40000000 \<le> unat start \<and> unat start + unat sz \<le> 0xFFFFF000
     \<and> (\<forall>i < unat sz. translate m (start + of_nat i) \<noteq> None)"

definition user_bytes :: "vmm \<Rightarrow> u32 \<Rightarrow> u32 \<Rightarrow> u8 list" where
  "user_bytes m start sz = map (\<lambda>i. byte_at m (start + of_nat i)) [0..<unat sz]"

lemma in_user_region:
  "region_valid \<lparr>r_start = start, r_size = sz\<rparr> \<and> region_contains user_region \<lparr>r_start = start, r_size = sz\<rparr>
     \<longleftrightarrow> 0 < unat sz \<and> 0x40000000 \<le> unat start \<and> unat start + unat sz \<le> 0xFFFFF000"
    (is "?L \<longleftrightarrow> ?R")
proof
  let ?r = "\<lparr>r_start = start, r_size = sz\<rparr>"
  assume l: ?L
  then have "unat (start + (sz - 1)) = unat start + unat sz - 1" using region_last_nat(1) [of ?r] by simp
  moreover have "start + (sz - 1) \<le> 0xFFFFEFFF" "0x40000000 \<le> start" "0 < sz"
    using l by (simp_all add: region_contains_def user_region_def region_valid_def)
  ultimately show ?R by (simp add: word_le_nat_alt word_less_nat_alt)
next
  assume r: ?R
  then have sz: "0 < sz" by (simp add: word_less_nat_alt)
  have "unat (sz - 1) = unat sz - 1" using r by (subst unat_sub) (simp_all add: word_le_nat_alt)
  then have last: "unat (start + (sz - 1)) = unat start + unat sz - 1"
    using r by (subst unat_add_small) (simp_all, linarith)
  moreover have "unat start \<le> unat start + unat sz - 1" using r by linarith
  ultimately have "start \<le> start + (sz - 1)" by (simp only: word_le_nat_alt)
  then show ?L using r sz last
    by (simp add: region_contains_def user_region_def region_valid_def word_le_nat_alt, linarith)
qed

lemma mapped_range:
  assumes "unat start + unat (sz :: u32) < 2 ^ 32"
  shows "(\<forall>a. unat start \<le> unat a \<and> unat a < unat start + unat sz \<longrightarrow> translate m a \<noteq> None)
     \<longleftrightarrow> (\<forall>i < unat sz. translate m (start + of_nat i) \<noteq> None)"
proof (intro iffI allI impI)
  fix i
  assume "\<forall>a. unat start \<le> unat a \<and> unat a < unat start + unat sz \<longrightarrow> translate m a \<noteq> None" and "i < unat sz"
  moreover have "unat (start + of_nat i) = unat start + i"
    using \<open>i < unat sz\<close> assms by (simp add: unat_add_small unat_of_nat_small)
  ultimately show "translate m (start + of_nat i) \<noteq> None" by simp
next
  fix a :: u32
  assume all: "\<forall>i < unat sz. translate m (start + of_nat i) \<noteq> None"
    and a: "unat start \<le> unat a \<and> unat a < unat start + unat sz"
  have "start + of_nat (unat a - unat start) = a"
    using a by (simp add: of_nat_diff)
  moreover have "unat a - unat start < unat sz" using a by linarith
  ultimately show "translate m a \<noteq> None" using all by metis
qed

lemma is_buffer_valid_iff:
  assumes "vm_inv m"
  shows "is_buffer_valid m \<lparr>r_start = start, r_size = sz\<rparr> = Some (user_buffer m start sz)"
proof (cases "0 < unat sz \<and> 0x40000000 \<le> unat start \<and> unat start + unat sz \<le> 0xFFFFF000")
  case True
  then have fit: "unat start + unat sz < 2 ^ 32" and pos: "0 < sz" by (simp_all add: word_less_nat_alt)
  have "is_mapped m start sz = Some (\<forall>i < unat sz. translate m (start + of_nat i) \<noteq> None)"
    unfolding is_mapped_iff [OF assms pos fit] mapped_range [OF fit] ..
  then show ?thesis
    using True unfolding is_buffer_valid_def in_user_region user_buffer_def by simp
next
  case False
  then show ?thesis unfolding is_buffer_valid_def in_user_region user_buffer_def by auto
qed

lemma load_user_bytes:
  "user_buffer m start sz \<Longrightarrow> load_bytes m start (unat sz) = Some (user_bytes m start sz)"
  unfolding user_buffer_def user_bytes_def by (intro load_bytes_eq) simp

text \<open>The calling thread is a user thread.\<close>

definition user_thread_runs :: "'x loader \<Rightarrow> bool" where
  "user_thread_runs l \<longleftrightarrow> (case threads (l_sched l) (current_thread (l_sched l)) of
     Some t \<Rightarrow> \<not> is_kernel_thread t | None \<Rightarrow> False)"

lemma handle_syscall_write:
  "user_thread_runs l \<Longrightarrow> arg0 a = SYS_WRITE \<Longrightarrow> handle_syscall hw env a l = sys_write hw a l"
  by (auto simp: handle_syscall_def user_thread_runs_def kassert_def SYS_YIELD_def SYS_THREAD_DELETE_def
      SYS_OPEN_def SYS_CLOSE_def SYS_READ_def SYS_WRITE_def split: option.splits)

lemma handle_syscall_open:
  "user_thread_runs l \<Longrightarrow> arg0 a = SYS_OPEN \<Longrightarrow> handle_syscall hw env a l = sys_open hw env a l"
  by (auto simp: handle_syscall_def user_thread_runs_def kassert_def SYS_YIELD_def SYS_THREAD_DELETE_def
      SYS_OPEN_def split: option.splits)

text \<open>
  C27: The write system call hands exactly the caller's bytes to the file system. It never faults on
  the buffer: a buffer that is empty, reaches out of user memory or is not mapped as a whole is
  refused with nothing changed, and every other one is read as it is.
\<close>

theorem write_passes_user_bytes:
  assumes "vm_inv (l_vmm l)" "user_thread_runs l" "arg0 a = SYS_WRITE"
  shows "handle_syscall hw env a l =
     (if user_buffer (l_vmm l) (arg2 a) (arg3 a)
      then with_vfs (vfs_write hw (fd_arg (arg1 a)) (user_bytes (l_vmm l) (arg2 a) (arg3 a)) (l_vfs l)) l
      else Some (eax ERR_invalid, l))"
  using assms by (simp add: handle_syscall_write sys_write_def is_buffer_valid_iff load_user_bytes)

text \<open>
  C28: The open system call can make the kernel fault on a path that passed the check: when no byte of
  the buffer is NUL and the page after the buffer is not mapped, the copy of the path, which
  ignores the length that was checked, runs into that page.
\<close>

theorem open_path_overruns:
  assumes "vm_inv (l_vmm l)" "user_thread_runs l" "arg0 a = SYS_OPEN"
    and "user_buffer (l_vmm l) (arg2 a) (arg3 a)" "unat (arg3 a) \<le> max_path_length"
    and "0 \<notin> set (user_bytes (l_vmm l) (arg2 a) (arg3 a))" "translate (l_vmm l) (arg2 a + arg3 a) = None"
  shows "is_buffer_valid_max (l_vmm l) \<lparr>r_start = arg2 a, r_size = arg3 a\<rparr> max_path_length = Some True
     \<and> handle_syscall hw env a l = None"
proof -
  have v: "is_buffer_valid_max (l_vmm l) \<lparr>r_start = arg2 a, r_size = arg3 a\<rparr> max_path_length = Some True"
    using assms by (simp add: is_buffer_valid_max_def is_buffer_valid_iff)
  have "load_text (l_vmm l) (arg2 a) max_path_length = None"
  proof (rule load_text_overruns [OF assms(5)])
    fix i
    assume i: "i < unat (arg3 a)"
    then have "byte_at (l_vmm l) (arg2 a + of_nat i) \<in> set (user_bytes (l_vmm l) (arg2 a) (arg3 a))"
      by (simp add: user_bytes_def)
    then show "translate (l_vmm l) (arg2 a + of_nat i) \<noteq> None \<and> byte_at (l_vmm l) (arg2 a + of_nat i) \<noteq> 0"
      using assms(4,6) i by (auto simp: user_buffer_def)
  qed (use assms(7) in simp)
  with v show ?thesis
    using assms(2,3) by (simp add: handle_syscall_open sys_open_def path_arg_def load_path_def Let_def)
qed

section \<open>Examples\<close>

text \<open>The user page at \<open>0x40001000\<close> is full of the letter A; nothing is mapped after it.\<close>

definition full_page :: vmm where
  "full_page = vm_example\<lparr>ptmem := (ptmem vm_example)(91 := \<lambda>i. 0x41414141)\<rparr>"

lemma full_page_inv: "vm_inv full_page"
proof -
  have r: "rec_page vm_example = 9" by (simp add: rec_page_def vm_example_dir entry_facts)
  have d: "page_dir_entry full_page t = page_dir_entry vm_example t" for t
    by (simp add: page_dir_entry_def full_page_def vm_example_def)
  have p: "ptmem full_page (rec_page full_page) = ptmem vm_example (rec_page vm_example)"
    using r d by (simp add: rec_page_def) (simp add: full_page_def)
  have "table_pages full_page = table_pages vm_example"
    by (simp add: table_pages_def d) (simp add: full_page_def)
  moreover have "phys full_page = phys vm_example" "paging_enabled full_page = paging_enabled vm_example"
    "cur_dir full_page = cur_dir vm_example"
    by (simp_all add: full_page_def)
  ultimately show ?thesis
    using vm_example_inv by (simp add: vm_inv_def d p)
qed

lemma full_page_bytes:
  assumes "0x40001000 \<le> unat a" "unat (a :: u32) < 0x40002000"
  shows "translate full_page a = Some 0x5b207" "byte_at full_page a = 0x41"
proof -
  have "unat a div 4096 = 0x40001" "unat a div 4194304 = 256"
    by (rule div_nat_eqI; use assms in simp)+
  then have t: "addr_tab a = 256" "addr_pagei a = 1"
    by (simp_all add: addr_tab_nat addr_pagei_nat)
  then show tr: "translate full_page a = Some 0x5b207"
    by (simp add: translate_def full_page_def vm_example_def entry_facts)
  have f: "frame 0x5b207 = 91" by code_simp
  have "get_byte 0x41414141 k = 0x41" if "k < 4" for k
  proof -
    have "k = 0 \<or> k = 1 \<or> k = 2 \<or> k = 3" using that by arith
    then show ?thesis by (elim disjE) (simp_all add: get_byte_def)
  qed
  then show "byte_at full_page a = 0x41"
    by (simp add: byte_at_def tr f) (simp add: full_page_def)
qed

lemma full_page_end: "translate full_page 0x40002000 = None"
proof -
  have "addr_tab 0x40002000 = 256" "addr_pagei 0x40002000 = 2"
    by (simp_all add: addr_tab_nat addr_pagei_nat)
  then show ?thesis by (simp add: translate_def full_page_def vm_example_def entry_facts not_present_0)
qed

lemma full_page_tail:
  "user_buffer full_page 0x40001ffc 4" "user_bytes full_page 0x40001ffc 4 = [0x41, 0x41, 0x41, 0x41]"
proof -
  have a: "unat (0x40001ffc + of_nat i :: u32) = 0x40001ffc + i" if "i < 4" for i
    using that by (simp add: unat_add_small unat_of_nat_small)
  show "user_buffer full_page 0x40001ffc 4"
    by (simp add: user_buffer_def full_page_bytes a)
  have "user_bytes full_page 0x40001ffc 4 = map (\<lambda>i. 0x41) [0..<4]"
    unfolding user_bytes_def by (intro map_cong) (simp_all add: full_page_bytes a)
  then show "user_bytes full_page 0x40001ffc 4 = [0x41, 0x41, 0x41, 0x41]"
    by (simp add: upt_rec)
qed

definition user_sched :: sched where
  "user_sched = example_sched\<lparr>
     threads := (threads example_sched)(2 \<mapsto> (example_thread 1 0 0 3 1)\<lparr>is_kernel_thread := False\<rparr>),
     procs := [9 \<mapsto> example_proc\<lparr>p_files := [0, 0, 0, 0, 0, 0]\<rparr>]\<rparr>"

definition user_state :: "unit loader" where
  "user_state = \<lparr>l_vfs = demo_vfs\<lparr>v_sched := user_sched\<rparr>, l_vmm = full_page, l_spaces = Map.empty\<rparr>"

definition no_env :: sys_env where
  "no_env = \<lparr>se_esp = 0, se_handle = 7, se_handle2 = 0, se_file = 8, se_pipe = 0, se_loader = undefined\<rparr>"

lemma user_state_runs: "user_thread_runs user_state"
  by (simp add: user_thread_runs_def l_sched_def user_state_def user_sched_def example_sched_def)

theorem write_passes_user_bytes_witness:
  "handle_syscall no_hw no_env \<lparr>arg0 = SYS_WRITE, arg1 = 3, arg2 = 0x40001ffc, arg3 = 4, arg4 = 0, arg5 = 0\<rparr> user_state
     = with_vfs (vfs_write no_hw 3 [0x41, 0x41, 0x41, 0x41] (l_vfs user_state)) user_state"
proof -
  have "l_vmm user_state = full_page" by (simp add: user_state_def)
  then show ?thesis
    using write_passes_user_bytes [of user_state
        "\<lparr>arg0 = SYS_WRITE, arg1 = 3, arg2 = 0x40001ffc, arg3 = 4, arg4 = 0, arg5 = 0\<rparr>" no_hw no_env]
      full_page_inv user_state_runs full_page_tail
    by (simp add: fd_arg_def)
qed

theorem open_path_overruns_witness:
  "handle_syscall no_hw no_env \<lparr>arg0 = SYS_OPEN, arg1 = 0, arg2 = 0x40001ffc, arg3 = 4, arg4 = 1, arg5 = 0\<rparr> user_state
     = None"
proof -
  have "l_vmm user_state = full_page" by (simp add: user_state_def)
  then show ?thesis
    using open_path_overruns [of user_state
        "\<lparr>arg0 = SYS_OPEN, arg1 = 0, arg2 = 0x40001ffc, arg3 = 4, arg4 = 1, arg5 = 0\<rparr>" no_hw no_env]
      full_page_inv user_state_runs full_page_tail full_page_end
    by (simp add: max_path_length_def)
qed

section \<open>Locks that are left behind\<close>

text \<open>
  A program that starts another one and names the same descriptor twice for it gets an error, but
  the lock of the descriptor's handle stays held: from then on closing the descriptor waits for
  ever, holding the lock of the file system.
\<close>

lemma transplant_twice_blocks_close:
  assumes "handle_by_fd v fd = Some ha" "ha \<noteq> 0" "v_handle_objs v ha = Some h" "\<not> h_locked h" "0 \<le> fd"
  shows "\<exists>v'. lock_fds [] (fd # fd # fds) v = Some (Inl (eax ERR_invalid), v') \<and> vfs_close fd v' = Some (Inl ha, v')"
proof -
  let ?v = "v\<lparr>v_handle_objs := (v_handle_objs v)(ha \<mapsto> h\<lparr>h_locked := True\<rparr>)\<rparr>"
  obtain pa p where "running_proc v = Some (pa, p)" and h: "handle_by_fd ?v fd = Some ha"
    using assms(1) by (auto simp: handle_by_fd_def running_proc_def bind_Some_iff)
  then have "running_proc ?v = Some (pa, p)" by (simp add: running_proc_def)
  with h assms(2) have "vfs_close fd ?v = Some (Inl ha, ?v)" by (simp add: vfs_close_def)
  moreover have "lock_fds [] (fd # fd # fds) v = Some (Inl (eax ERR_invalid), ?v)"
    using assms by (simp add: upd_handle_def)
  ultimately show ?thesis by blast
qed

end
