(* ===== verification/SyscallReturn.thy ===== *)
theory SyscallReturn
  imports Interrupts SyscallMem
begin

text \<open>
  The way of a system call through the interrupt handler: the frame is saved, the call runs, its result
  goes to EAX, and the thread goes on with its frame.
\<close>

section \<open>Going on with the running thread\<close>

text \<open>A user thread that was interrupted in user mode.\<close>

definition in_user_mode :: "sched \<Rightarrow> thread \<Rightarrow> interrupt_frame \<Rightarrow> bool" where
  "in_user_mode s th f \<longleftrightarrow> current_thread s \<noteq> 0 \<and> threads s (current_thread s) = Some th \<and> procs s (t_proc th) \<noteq> None
     \<and> \<not> is_kernel_thread th \<and> \<not> suspended_in_kernel th \<and> f_cs f AND 3 \<noteq> 0"

text \<open>
  The scheduler's state after its running thread \<open>th\<close>, of the process \<open>p\<close>, was dispatched again
  with the frame \<open>f\<close>: only that thread, the current address space and the stack for the next
  interrupt are touched.
\<close>

definition goes_on :: "sched \<Rightarrow> thread \<Rightarrow> proc \<Rightarrow> interrupt_frame \<Rightarrow> sched" where
  "goes_on s th p f = s\<lparr>
     threads := (threads s)(current_thread s \<mapsto>
       th\<lparr>t_frame := f, started := True, ticks_running := ticks_running th + 1\<rparr>),
     cur_space := p_space p, tss_stack := kernel_stack_end th\<rparr>"

lemma m_sched_simps [simp]:
  "m_sched (upd_sched s m) = s" "m_sched (upd_loader l m) = l_sched l"
  "m_loader (upd_loader l m) = l" "l_sched (set_sched s l) = s"
  by (simp_all add: m_sched_def upd_sched_def upd_loader_def l_sched_def set_sched_def)

lemma upd_sched_twice [simp]: "upd_sched s (upd_sched s' m) = upd_sched s m"
  by (simp add: upd_sched_def upd_loader_def set_sched_def)

lemma goes_on_thread [simp]:
  "goes_on (s\<lparr>threads := (threads s)(current_thread s \<mapsto> t)\<rparr>) th p f = goes_on s th p f"
  "goes_on s (th\<lparr>t_frame := g\<rparr>) p f = goes_on s th p f"
  by (simp_all add: goes_on_def)

lemma dispatch_self:
  assumes "in_user_mode s th (t_frame th)" "procs s (t_proc th) = Some p"
  shows "dispatch s (current_thread s)
      = (let f = (t_frame th)\<lparr>f_esp := kernel_stack_end th\<rparr> in
         Some (Enter_frame (kernel_stack_end th) f frame_size_user, goes_on s th p f))"
  using assms
  by (auto simp: in_user_mode_def dispatch_def resume_thread_def switch_space_def is_thread_in_kernel_mode_def
      upd_thread_def goes_on_def Let_def intro!: sched.equality thread.equality)

lemma return_to_user_spec:
  assumes "in_user_mode (m_sched m) th (t_frame th)" "procs (m_sched m) (t_proc th) = Some p"
  shows "return_to_user v m
      = (let f = (t_frame th)\<lparr>f_eax := v, f_esp := kernel_stack_end th\<rparr> in
         Some (Switches (Enter_frame (kernel_stack_end th) f frame_size_user),
           upd_sched (goes_on (m_sched m) th p f) m))"
proof -
  let ?th = "th\<lparr>t_frame := (t_frame th)\<lparr>f_eax := v\<rparr>\<rparr>"
  let ?s = "(m_sched m)\<lparr>threads := (threads (m_sched m))(current_thread (m_sched m) \<mapsto> ?th)\<rparr>"
  have "in_user_mode ?s ?th (t_frame ?th)" "procs ?s (t_proc ?th) = Some p"
    using assms by (auto simp: in_user_mode_def)
  note d = dispatch_self [OF this]
  have "upd_thread (m_sched m) (current_thread (m_sched m)) (\<lambda>t. t\<lparr>t_frame := (t_frame t)\<lparr>f_eax := v\<rparr>\<rparr>) = Some ?s"
    using assms(1) by (auto simp: in_user_mode_def upd_thread_def)
  with d show ?thesis by (simp add: return_to_user_def Let_def)
qed

section \<open>Calls without a handler\<close>

definition handled_calls :: "u32 list" where
  "handled_calls = [SYS_YIELD, SYS_THREAD_DELETE, SYS_OPEN, SYS_CLOSE, SYS_READ, SYS_WRITE, SYS_READ_DIR, SYS_SEEK,
     SYS_SPAWN, SYS_WAIT_PID, SYS_GET_CWD, SYS_SET_CWD, SYS_DUPLICATE_FD, SYS_PIPE]"

lemma handle_syscall_unknown:
  assumes "user_thread_runs l" "arg0 a \<notin> set handled_calls"
  shows "handle_syscall hw env a l = Some (eax ERR_invalid, l)"
proof -
  obtain t where "threads (l_sched l) (current_thread (l_sched l)) = Some t" "\<not> is_kernel_thread t"
    using assms(1) by (auto simp: user_thread_runs_def split: option.splits)
  with assms(2) show ?thesis by (simp add: handle_syscall_def kassert_def handled_calls_def)
qed

text \<open>
  C29: a user program that makes a system call whose number has no handler, such as the numbers
  declared for \<open>get_tid\<close> and \<open>get_pid\<close>, goes on where it was: all registers are as before except
  EAX, which holds the error for an invalid argument, and the stack pointer within the kernel.
  The state of the machine afterwards is given exactly. The running thread has the new frame,
  counts as started and has one tick more; its process's address space and its kernel stack are
  the current ones. No other thread, neither queue, no process, file, page or driver is touched.
\<close>

theorem unknown_syscall_resumes:
  assumes "in_user_mode (m_sched m) th f" "f_int_no f = 0xca" "f_eax f \<notin> set handled_calls"
    and "procs (m_sched m) (t_proc th) = Some p"
  shows "common_interrupt_handler e table f m
      = (let g = f\<lparr>f_eax := of_int ERR_invalid, f_esp := kernel_stack_end th\<rparr> in
         Some (Switches (Enter_frame (kernel_stack_end th) g frame_size_user),
           upd_sched (goes_on (m_sched m) th p g) m))"
proof -
  let ?t = "current_thread (m_sched m)" and ?th = "th\<lparr>t_frame := f\<rparr>"
  define m1 where "m1 = upd_sched ((m_sched m)\<lparr>threads := (threads (m_sched m))(?t \<mapsto> ?th)\<rparr>) m"
  have u: "in_user_mode (m_sched m1) ?th (t_frame ?th)" "procs (m_sched m1) (t_proc ?th) = Some p"
    using assms(1,4) by (auto simp: in_user_mode_def m1_def)
  then have "user_thread_runs (m_loader m1)"
    by (auto simp: user_thread_runs_def in_user_mode_def m_sched_def)
  then have "handle_syscall (ie_hw e) (ie_sys e) (frame_args f) (m_loader m1) = Some (eax ERR_invalid, m_loader m1)"
    using assms(3) by (intro handle_syscall_unknown) (simp_all add: frame_args_def)
  then have "syscall_interrupt (ie_hw e) (ie_sys e) m1 = return_to_user (of_int ERR_invalid) m1"
    using u by (auto simp: syscall_interrupt_def in_user_mode_def eax_def upd_loader_def)
  moreover have "save_frame (m_sched m) f = Some (m_sched m1)"
    using assms(1) by (auto simp: save_frame_def in_user_mode_def upd_thread_def m1_def)
  moreover have "upd_sched (m_sched m1) m = m1" by (simp add: m1_def)
  ultimately have "common_interrupt_handler e table f m = return_to_user (of_int ERR_invalid) m1"
    using assms(2) by (simp add: common_interrupt_handler_def)
  with return_to_user_spec [OF u, of "of_int ERR_invalid"] show ?thesis
    by (simp add: m1_def Let_def)
qed

definition user_machine :: "(unit, unit) machine" where
  "user_machine = upd_sched (user_sched\<lparr>threads := (threads user_sched)(2 \<mapsto>
     (example_thread 1 0 0 3 1)\<lparr>is_kernel_thread := False, suspended_in_kernel := False, kernel_stack_end := 0x9000\<rparr>)\<rparr>)
     \<lparr>m_loader = user_state, m_drivers = ()\<rparr>"

theorem unknown_syscall_resumes_witness:
  "\<forall>e. \<exists>m'. common_interrupt_handler e [] (zero_frame\<lparr>f_cs := 0x1b, f_int_no := 0xca, f_eax := SYS_GET_PID\<rparr>) user_machine
    = Some (Switches (Enter_frame 0x9000
        (zero_frame\<lparr>f_cs := 0x1b, f_int_no := 0xca, f_eax := of_int ERR_invalid, f_esp := 0x9000\<rparr>) frame_size_user), m')
    \<and> current_thread (m_sched m') = 2 \<and> ready_first (m_sched m') = ready_first (m_sched user_machine)"
proof
  fix e
  let ?th = "(example_thread 1 0 0 3 1)\<lparr>is_kernel_thread := False, suspended_in_kernel := False, kernel_stack_end := 0x9000\<rparr>"
  let ?f = "zero_frame\<lparr>f_cs := 0x1b, f_int_no := 0xca, f_eax := SYS_GET_PID\<rparr>"
  have s: "current_thread (m_sched user_machine) = 2" "threads (m_sched user_machine) 2 = Some ?th"
    "procs (m_sched user_machine) 9 \<noteq> None"
    by (simp_all add: user_machine_def user_sched_def example_sched_def)
  have "in_user_mode (m_sched user_machine) ?th ?f"
    using s by (simp add: in_user_mode_def example_thread_def)
  moreover obtain p where "procs (m_sched user_machine) (t_proc ?th) = Some p"
    using s(3) by (auto simp: example_thread_def)
  moreover have "f_eax ?f \<notin> set handled_calls"
    by (simp add: handled_calls_def SYS_GET_PID_def SYS_YIELD_def SYS_THREAD_DELETE_def SYS_OPEN_def SYS_CLOSE_def
        SYS_READ_def SYS_WRITE_def SYS_READ_DIR_def SYS_SEEK_def SYS_SPAWN_def SYS_WAIT_PID_def SYS_GET_CWD_def
        SYS_SET_CWD_def SYS_DUPLICATE_FD_def SYS_PIPE_def)
  ultimately show "\<exists>m'. common_interrupt_handler e [] ?f user_machine
    = Some (Switches (Enter_frame 0x9000
        (zero_frame\<lparr>f_cs := 0x1b, f_int_no := 0xca, f_eax := of_int ERR_invalid, f_esp := 0x9000\<rparr>) frame_size_user), m')
    \<and> current_thread (m_sched m') = 2 \<and> ready_first (m_sched m') = ready_first (m_sched user_machine)"
    using unknown_syscall_resumes [of user_machine ?th ?f _ e "[]"] s(1) by (auto simp: goes_on_def Let_def)
qed

end
