(* ===== verification/Vga.thy ===== *)
theory Vga
  imports Ports DevFs VirtMem OsFormat
begin

text \<open>
  The VGA driver (driver/vga.cc) and the search for the frame buffer on the PCI bus
  (driver/vga/hacks.cc), against an arbitrary state of the hardware behind the ports.
\<close>

section \<open>The PCI bus\<close>

definition port_addr :: u16 where "port_addr = 0x0cf8"

definition port_pci_data :: u16 where "port_pci_data = 0x0cfc"

definition device_id_bochs :: u32 where "device_id_bochs = 0x11111234"

definition device_id_vbox :: u32 where "device_id_vbox = 0xbeef80ee"

definition make_address :: "u8 \<Rightarrow> u8 \<Rightarrow> u8 \<Rightarrow> u8 \<Rightarrow> u32" where
  "make_address bus slot func offset = push_bit 31 1 OR push_bit 16 (ucast bus) OR push_bit 11 (ucast slot)
     OR push_bit 8 (ucast func) OR (ucast offset AND 0xfc)"

definition pci_read_config :: "'x ports \<Rightarrow> u8 \<Rightarrow> u8 \<Rightarrow> u8 \<Rightarrow> u8 \<Rightarrow> ('x, u32) io_m" where
  "pci_read_config p bus slot func offset = do {
     _ \<leftarrow> out_32 p port_addr (make_address bus slot func offset);
     in_32 p port_pci_data
   }"

definition pci_write_config :: "'x ports \<Rightarrow> u8 \<Rightarrow> u8 \<Rightarrow> u8 \<Rightarrow> u8 \<Rightarrow> u32 \<Rightarrow> ('x, unit) io_m" where
  "pci_write_config p bus slot func offset v = do {
     _ \<leftarrow> out_32 p port_addr (make_address bus slot func offset);
     out_32 p port_pci_data v
   }"

definition no_region :: region where "no_region = \<lparr>r_start = 0, r_size = 0\<rparr>"

text \<open>The size of a region is found by writing ones to its base address and looking which stay.\<close>

definition get_bar0 :: "'x ports \<Rightarrow> u8 \<Rightarrow> u8 \<Rightarrow> u8 \<Rightarrow> ('x, region) io_m" where
  "get_bar0 p bus slot fn = do {
     _ \<leftarrow> pci_read_config p bus slot fn 8;
     x \<leftarrow> pci_read_config p bus slot fn 16;
     if x = 0 then State_Monad.return no_region
     else do {
       _ \<leftarrow> pci_write_config p bus slot fn 16 (NOT 0xf OR (x AND 0xf));
       y \<leftarrow> pci_read_config p bus slot fn 16;
       let y = y AND NOT 0xf;
       _ \<leftarrow> pci_write_config p bus slot fn 16 x;
       State_Monad.return \<lparr>r_start = x AND NOT 0xf, r_size = NOT y + 1\<rparr>
     }
   }"

definition is_vbe_device :: "u32 \<Rightarrow> bool" where
  "is_vbe_device x \<longleftrightarrow> x = device_id_bochs \<or> x = device_id_vbox"

text \<open>The first of the functions \<open>fns\<close> of a slot that is such a device.\<close>

fun scan_functions :: "'x ports \<Rightarrow> u8 \<Rightarrow> u8 \<Rightarrow> nat list \<Rightarrow> ('x, region option) io_m" where
  "scan_functions p bus slot [] = State_Monad.return None"
| "scan_functions p bus slot (fn # fns) = do {
     x \<leftarrow> pci_read_config p bus slot (of_nat fn) 0;
     if is_vbe_device x then do { r \<leftarrow> get_bar0 p bus slot (of_nat fn); State_Monad.return (Some r) }
     else scan_functions p bus slot fns
   }"

definition scan_slot :: "'x ports \<Rightarrow> u8 \<Rightarrow> u8 \<Rightarrow> ('x, region option) io_m" where
  "scan_slot p bus slot = do {
     x \<leftarrow> pci_read_config p bus slot 0 0;
     if x = 0xFFFFFFFF then State_Monad.return None
     else do {
       x \<leftarrow> pci_read_config p bus slot 0 12;
       if drop_bit 16 x AND 0x80 \<noteq> 0 then scan_functions p bus slot [0..<8]
       else scan_functions p bus slot [0]
     }
   }"

fun scan_slots :: "'x ports \<Rightarrow> (nat \<times> nat) list \<Rightarrow> ('x, region) io_m" where
  "scan_slots p [] = State_Monad.return no_region"
| "scan_slots p ((bus, slot) # ss) = do {
     r \<leftarrow> scan_slot p (of_nat bus) (of_nat slot);
     case r of Some r \<Rightarrow> State_Monad.return r | None \<Rightarrow> scan_slots p ss
   }"

definition get_bochs_vbe_lfb_phy_region :: "'x ports \<Rightarrow> ('x, region) io_m" where
  "get_bochs_vbe_lfb_phy_region p = scan_slots p (concat (map (\<lambda>bus. map (Pair bus) [0..<32]) [0..<256]))"

section \<open>The driver\<close>

definition port_bochs_vbe_index :: u16 where "port_bochs_vbe_index = 0x1ce"

definition port_bochs_vbe_data :: u16 where "port_bochs_vbe_data = 0x1cf"

text \<open>The variables of the driver; \<open>fb_mem\<close> is the memory of 32-bit words at \<open>framebuffer\<close>, by index.\<close>

record vga =
  framebuffer :: u32
  vga_width :: u32
  vga_height :: u32
  fbdev_region :: region
  fb_mem :: "int \<Rightarrow> u32"

definition vbe_write :: "'x ports \<Rightarrow> u16 \<Rightarrow> u16 \<Rightarrow> ('x, unit) io_m" where
  "vbe_write p i v = do { _ \<leftarrow> out_16 p port_bochs_vbe_index i; out_16 p port_bochs_vbe_data v }"

definition vbe_read :: "'x ports \<Rightarrow> u16 \<Rightarrow> ('x, u16) io_m" where
  "vbe_read p i = do { _ \<leftarrow> out_16 p port_bochs_vbe_index i; in_16 p port_bochs_vbe_data }"

text \<open>\<open>w*h*(bpp/8)\<close> is computed in 32 bits.\<close>

definition mode_set :: "'x ports \<Rightarrow> u16 \<Rightarrow> u16 \<Rightarrow> u16 \<Rightarrow> vga \<Rightarrow> ('x, vga) io_m" where
  "mode_set p w h bpp g = do {
     let g = g\<lparr>vga_width := ucast w, vga_height := ucast h\<rparr>;
     _ \<leftarrow> vbe_write p 4 0;
     _ \<leftarrow> vbe_write p 1 w;
     _ \<leftarrow> vbe_write p 2 h;
     _ \<leftarrow> vbe_write p 3 bpp;
     _ \<leftarrow> vbe_write p 4 0x41;
     State_Monad.return (g\<lparr>fbdev_region := (fbdev_region g)\<lparr>r_size := ucast w * ucast h * ucast (bpp div 8)\<rparr>\<rparr>)
   }"

definition fill_screen :: "nat \<Rightarrow> u32 \<Rightarrow> (int \<Rightarrow> u32) \<Rightarrow> int \<Rightarrow> u32" where
  "fill_screen n c m i = (if 0 \<le> i \<and> i < int n then c else m i)"

text \<open>The white squares: the four stores for every \<open>(x, y)\<close>, whatever the size of the screen is.\<close>

definition paint_corners :: "int \<Rightarrow> int \<Rightarrow> int \<Rightarrow> int \<Rightarrow> (int \<Rightarrow> u32) \<Rightarrow> int \<Rightarrow> u32" where
  "paint_corners w h y x m =
     (let i = (y + 10) * w + (x + 10) in
      m(i := 0xffffff, (w - 30) + i := 0xffffff, (h - 30) * w + i := 0xffffff,
        (h - 30) * w + (w - 30) + i := 0xffffff))"

definition vga_test :: "'x ports \<Rightarrow> u16 \<Rightarrow> u16 \<Rightarrow> vga \<Rightarrow> ('x, vga) io_m" where
  "vga_test p w h g =
     (if framebuffer g = 0 then State_Monad.return g
      else do {
        g \<leftarrow> mode_set p w h 32 g;
        let m = fill_screen (unat w * unat h) 0x8080 (fb_mem g);
        let m = fold (\<lambda>(y, x). paint_corners (int (unat w)) (int (unat h)) y x)
                  (concat (map (\<lambda>y. map (Pair y) [0..9]) [0..9])) m;
        State_Monad.return (g\<lparr>fb_mem := m\<rparr>)
      })"

section \<open>The device files\<close>

text \<open>\<open>/dev/video-mode\<close> as a line device: the text that \<open>get\<close> makes.\<close>

definition mode_dev_get :: "vga \<Rightarrow> (errno \<times> string) kern" where
  "mode_dev_get g = do {
     (out, n) \<leftarrow> fmt_buffer 33 [nat_arg (unat (vga_width g)), nat_arg (unat (vga_height g))] (''{}x{}'' @ [CHR 0x0A]);
     Some (ERR_success, out)
   }"

text \<open>The texts in front of the first \<open>x\<close> and after it, each in a \<open>String<32>\<close>.\<close>

fun split_mode :: "bool \<Rightarrow> string \<Rightarrow> string \<Rightarrow> string \<Rightarrow> string \<times> string" where
  "split_mode have_x xs ys [] = (xs, ys)"
| "split_mode have_x xs ys (c # cs) =
     (if have_x then split_mode have_x xs (str_append_char 32 ys c) cs
      else if c = CHR ''x'' then split_mode True xs ys cs
      else split_mode have_x (str_append_char 32 xs c) ys cs)"

definition mode_dev_set :: "'x ports \<Rightarrow> string \<Rightarrow> vga \<Rightarrow> ('x, errno \<times> vga) io_m" where
  "mode_dev_set p v g =
     (case split_mode False [] [] v of (xs, ys) \<Rightarrow>
        case (string_to_unsigned (2 ^ 32 - 1) xs, string_to_unsigned (2 ^ 32 - 1) ys) of
          (Some w, Some h) \<Rightarrow>
            if w mod 8 = 0 \<and> h mod 8 = 0 \<and> w > 8 \<and> h > 8
            then if of_int w \<noteq> vga_width g \<or> of_int h \<noteq> vga_height g
              then do { g \<leftarrow> mode_set p (of_int w) (of_int h) 32 g; State_Monad.return (ERR_success, g) }
              else State_Monad.return (ERR_success, g)
            else State_Monad.return (ERR_io, g)
        | _ \<Rightarrow> State_Monad.return (ERR_io, g))"

text \<open>
  \<open>init\<close>. \<open>devs\<close> is the device file system if there is one; \<open>entry_ok\<close> says whether there is room for
  its new entries, \<open>mode_dev\<close> is the device \<open>modedev\<close>.
\<close>

definition register_video :: "bool \<Rightarrow> device \<Rightarrow> vga \<Rightarrow> devfs \<Rightarrow> devfs" where
  "register_video entry_ok mode_dev g devs =
     snd (register_device entry_ok
       (snd (register_device entry_ok devs ''video'' (Dev_memory (fbdev_region g)) 0x180))
       ''video-mode'' mode_dev 0x180)"

definition vga_init :: "'x ports \<Rightarrow> bool \<Rightarrow> device \<Rightarrow> vga \<Rightarrow> vmm \<Rightarrow> devfs option \<Rightarrow> 'x \<Rightarrow>
    (vga \<times> vmm \<times> devfs option \<times> 'x) kern" where
  "vga_init p entry_ok mode_dev g m devs x =
     (let (version, x) = run_state (vbe_read p 0) x in
      if \<not> (version \<ge> 0xb0c0 \<and> version \<le> 0xb0cf) then Some (g, m, devs, x)
      else let (phy, x) = run_state (get_bochs_vbe_lfb_phy_region p) x in
        if \<not> region_valid phy then Some (g, m, devs, x)
        else do {
          let g = g\<lparr>framebuffer := 0\<rparr>;
          let sz = align_up (r_size phy) (of_nat page_size);
          (err, virt, m) \<leftarrow> map_mmio m 0 (r_start phy) sz flag_writable;
          if err < 0 then Some (g, m, devs, x)
          else
            let g = g\<lparr>framebuffer := virt\<rparr> in
            case devs of
              None \<Rightarrow> Some (g, m, devs, x)
            | Some ds \<Rightarrow>
                let g = g\<lparr>fbdev_region := \<lparr>r_start = virt, r_size = sz\<rparr>\<rparr> in
                Some (g, m, Some (register_video entry_ok mode_dev g ds), x)
        })"

section \<open>Properties\<close>

lemma mode_set_result:
  "\<exists>x'. run_state (mode_set p w h bpp g) x =
     (g\<lparr>vga_width := ucast w, vga_height := ucast h,
        fbdev_region := (fbdev_region g)\<lparr>r_size := ucast w * ucast h * ucast (bpp div 8)\<rparr>\<rparr>, x')"
  by (simp add: mode_set_def split: prod.splits)

text \<open>
  The frame buffer is mapped with the size that the hardware reports, but every mode
  that is set makes the device file as long as the mode needs: a mode with more pixels than fit
  lets \<open>/dev/video\<close> reach the kernel memory behind the frame buffer.
\<close>

lemma video_mode_outgrows:
  "\<exists>g' x'. run_state (mode_dev_set p ''8000x8000'' (g\<lparr>vga_width := 0\<rparr>)) x = ((ERR_success, g'), x')
     \<and> unat (r_size (fbdev_region g')) = 256000000"
proof -
  have s: "split_mode False [] [] ''8000x8000'' = (''8000'', ''8000'')" by code_simp
  have "string_to_u64 ''8000'' = Some 8000"
    unfolding string_to_u64_def u64_loop_correct by (simp add: is_num_iff digit_val_def)
  then have n: "string_to_unsigned (2 ^ 32 - 1) ''8000'' = Some 8000" by (simp add: string_to_unsigned_def)
  show ?thesis
    using mode_set_result [of p 8000 8000 32 "g\<lparr>vga_width := 0\<rparr>" x] unfolding mode_dev_set_def s prod.case n option.case
    by (auto split: prod.splits)
qed

end
