(* ===== verification/Kprint.thy ===== *)
theory Kprint
  imports Console OsFormat Bytes
begin

text \<open>
  Printing of the kernel (common/kprint.cc): the log and the two consoles behind it, the names of the
  errors (os-std/errno.hh), and the memory dump of common/debug.cc.
\<close>

section \<open>The kernel console\<close>

definition log_size :: nat where "log_size = 16 * 1024 * 1024"

text \<open>The state of the console; the hardware behind the ports is a state of its own.\<close>

record kconsole =
  kc_log :: string
  kc_debug :: bool
  kc_text :: textmode
  kc_port :: u16

definition log_append :: "nat \<Rightarrow> char \<Rightarrow> string \<Rightarrow> string" where
  "log_append n c l = str_append_char n (if length l \<ge> n then [] else l) c"

definition console_char :: "'x ports \<Rightarrow> char \<Rightarrow> kconsole \<times> 'x \<Rightarrow> (kconsole \<times> 'x) kern" where
  "console_char p c s = (case s of (k, x) \<Rightarrow> do {
     t \<leftarrow> text_print_char c (kc_text k);
     x \<leftarrow> serial_print_char p (kc_port k) c x;
     Some (k\<lparr>kc_text := t\<rparr>, x)
   })"

definition kprint_char :: "'x ports \<Rightarrow> char \<Rightarrow> kconsole \<times> 'x \<Rightarrow> (kconsole \<times> 'x) kern" where
  "kprint_char p c s = (case s of (k, x) \<Rightarrow>
     console_char p c (k\<lparr>kc_log := log_append log_size c (kc_log k)\<rparr>, x))"

definition klog_char :: "'x ports \<Rightarrow> char \<Rightarrow> kconsole \<times> 'x \<Rightarrow> (kconsole \<times> 'x) kern" where
  "klog_char p c s = (case s of (k, x) \<Rightarrow>
     let k = k\<lparr>kc_log := log_append log_size c (kc_log k)\<rparr> in
     if kc_debug k then console_char p c (k, x) else Some (k, x))"

fun print_chars :: "(char \<Rightarrow> 's \<Rightarrow> 's kern) \<Rightarrow> string \<Rightarrow> 's \<Rightarrow> 's kern" where
  "print_chars f [] s = Some s"
| "print_chars f (c # cs) s = do { s \<leftarrow> f c s; print_chars f cs s }"

text \<open>\<open>kprint\<close> and \<open>klog\<close> of a text, and with arguments.\<close>

definition kprint :: "'x ports \<Rightarrow> string \<Rightarrow> fmt_arg list \<Rightarrow> kconsole \<times> 'x \<Rightarrow> (kconsole \<times> 'x) kern" where
  "kprint p fs as s = do { (t, n) \<leftarrow> run_format as fs; print_chars (kprint_char p) t s }"

definition klog :: "'x ports \<Rightarrow> string \<Rightarrow> fmt_arg list \<Rightarrow> kconsole \<times> 'x \<Rightarrow> (kconsole \<times> 'x) kern" where
  "klog p fs as s = do { (t, n) \<leftarrow> run_format as fs; print_chars (klog_char p) t s }"

text \<open>\<open>bios_port\<close> is the word of the BIOS data area that \<open>Serial::init\<close> reads.\<close>

definition kprint_init :: "'x ports \<Rightarrow> u16 \<Rightarrow> kconsole \<times> 'x \<Rightarrow> (kconsole \<times> 'x) kern" where
  "kprint_init p bios_port s = (case s of (k, x) \<Rightarrow> do {
     t \<leftarrow> clear_screen (kc_text k);
     let x = snd (run_state (serial_init p bios_port) x);
     Some (k\<lparr>kc_text := t, kc_port := bios_port\<rparr>, x)
   })"

section \<open>A panic\<close>

definition panic_cells :: "u16 list \<Rightarrow> u16 list" where
  "panic_cells m = map (\<lambda>x. (x AND 0x00ff) OR 0x1f00) (take (80 * 25) m) @ drop (80 * 25) m"

definition panic_text :: string where "panic_text = '' PANIC! ''"

definition panic_screen :: "u16 list \<Rightarrow> u16 list" where
  "panic_screen m = take (80 - length panic_text) (panic_cells m)
     @ map (\<lambda>c. of_char c OR 0x4f00) panic_text @ drop 80 (panic_cells m)"

section \<open>Names of errors\<close>

definition error_names :: "string list" where
  "error_names = [''success'', ''unknown error'', ''invalid argument'', ''limit reached'', ''bad file descriptor'',
     ''no space left on device'', ''no free memory left'', ''i/o error'', ''file exists'', ''file does not exist'',
     ''invalid operation for file type'', ''operation timed out'', ''operation not permitted'',
     ''operation not supported'', ''resource is in use'']"

definition ERR_eof :: errno where "ERR_eof = - (2 ^ 31)"

definition error_name :: "errno \<Rightarrow> string" where
  "error_name err =
     (if err \<ge> ERR_success then ''success''
      else if err = ERR_eof then ''end of file''
      else if nat (- err) \<ge> length error_names then ''unknown error''
      else error_names ! nat (- err))"

definition error_arg :: "errno \<Rightarrow> fmt_arg" where "error_arg err = text_arg (error_name err)"

section \<open>Memory dumps\<close>

text \<open>One line of \<open>hex_dump\<close>: 16 bytes of the memory \<open>m\<close> from \<open>p\<close> on.\<close>

definition dump_char :: "u8 \<Rightarrow> char" where
  "dump_char b = (if b \<ge> 0x20 \<and> b \<le> 0x7e then byte_char b else CHR ''.'')"

definition hex_line :: "(u32 \<Rightarrow> u8) \<Rightarrow> bool \<Rightarrow> u32 \<Rightarrow> string kern" where
  "hex_line m as32 p =
     (let b = (\<lambda>i. m (p + of_nat i));
          w = (\<lambda>j. nat_arg (unat (b (4 * j)) + 256 * unat (b (4 * j + 1)) + 65536 * unat (b (4 * j + 2))
                + 16777216 * unat (b (4 * j + 3))));
          str = map (\<lambda>i. dump_char (b i)) [0..<16] in
      map_option fst
        (if as32 then run_format (ptr_arg p # map w [0..<4] @ [text_arg str])
           (''{08x}: {08x} {08x} {08x} {08x} {}'' @ [CHR 0x0A])
         else run_format (ptr_arg p # map (\<lambda>i. nat_arg (unat (b i))) [0..<16] @ [text_arg str])
           (''{08x}:'' @ concat (replicate 4 '' {02x}{02x}{02x}{02x}'') @ '' {}'' @ [CHR 0x0A])))"

text \<open>The index of the loop wraps, and the loop does not end, when the size is within 16 of \<open>2 ^ 32\<close>.\<close>

definition hex_dump :: "(u32 \<Rightarrow> u8) \<Rightarrow> u32 \<Rightarrow> u32 \<Rightarrow> bool \<Rightarrow> string kern" where
  "hex_dump m p0 sz as32 =
     (let p = p0 AND NOT 0xf in
      if unat (sz + (p0 - p)) > 2 ^ 32 - 16 then None
      else map_option concat (those (map (\<lambda>i. hex_line m as32 (p + of_nat (16 * i)))
        [0..<(unat (sz + (p0 - p)) + 15) div 16])))"

section \<open>Properties\<close>

text \<open>Every error number has its own text.\<close>

lemma error_name_inj:
  "ERR_in_use \<le> e \<Longrightarrow> e \<le> ERR_success \<Longrightarrow> ERR_in_use \<le> e' \<Longrightarrow> e' \<le> ERR_success \<Longrightarrow> error_name e = error_name e' \<Longrightarrow> e = e'"
proof -
  have d: "distinct error_names" by code_simp
  have n: "error_name e = error_names ! nat (- e) \<and> nat (- e) < 15" if "ERR_in_use \<le> e" "e \<le> ERR_success" for e
    using that by (cases "e = 0") (auto simp: error_name_def error_names_def ERR_in_use_def ERR_success_def ERR_eof_def)
  assume le: "ERR_in_use \<le> e" "e \<le> ERR_success" "ERR_in_use \<le> e'" "e' \<le> ERR_success"
    and "error_name e = error_name e'"
  with n [of e] n [of e'] d have "nat (- e) = nat (- e')"
    by (auto simp: nth_eq_iff_index_eq error_names_def)
  with le show "e = e'" by (simp add: ERR_success_def)
qed

text \<open>The log keeps the last characters: it is never longer than its buffer.\<close>

lemma length_log_append: "0 < n \<Longrightarrow> length (log_append n c l) \<le> n"
  by (auto simp: log_append_def str_append_char_def)

end
