(* ===== verification/KshellFiles.thy ===== *)
theory KshellFiles
  imports Kprint Exit Vga VfsRead
begin

text \<open>
  The commands of the kernel shell that work on files (kshell.cc), on the state of the whole kernel. What the
  shell prints is the list \<open>ks_out\<close>; the commands that print statistics of another component are recorded
  as reports. Memory beyond what a read delivered is in \<open>m\<close>, the contents of the buffer on the stack.
\<close>

section \<open>State\<close>

datatype shell_output =
  Text string
| Report string

record 'x kshell =
  ks_loader :: "'x loader"
  ks_enabled :: bool
  ks_input_enabled :: bool
  ks_lock :: semaphore
  ks_vga :: vga
  ks_out :: "shell_output list"

text \<open>
  The hardware, the addresses that the heap gives to the next file and its handle, the stack pointer and
  the address and contents of the 512-byte buffers on the stack.
\<close>

record 'x kshell_env =
  ke_hw :: "'x hw"
  ke_ports :: "'x ports"
  ke_handle :: "'x vfs \<Rightarrow> nat"
  ke_file :: "'x vfs \<Rightarrow> nat"
  ke_esp :: u32
  ke_loader :: loader_env
  ke_buffer :: u32
  ke_stack :: "u32 \<Rightarrow> u8"

definition k_vfs :: "'x kshell \<Rightarrow> 'x vfs" where "k_vfs k = l_vfs (ks_loader k)"

definition set_vfs :: "'x vfs \<Rightarrow> 'x kshell \<Rightarrow> 'x kshell" where
  "set_vfs v k = k\<lparr>ks_loader := (ks_loader k)\<lparr>l_vfs := v\<rparr>\<rparr>"

definition k_sched :: "'x kshell \<Rightarrow> sched" where "k_sched k = v_sched (k_vfs k)"

definition k_set_sched :: "sched \<Rightarrow> 'x kshell \<Rightarrow> 'x kshell" where
  "k_set_sched s k = set_vfs ((k_vfs k)\<lparr>v_sched := s\<rparr>) k"

section \<open>Printing\<close>

definition say :: "string \<Rightarrow> fmt_arg list \<Rightarrow> 'x kshell \<Rightarrow> 'x kshell kern" where
  "say fs as k = do { (t, n) \<leftarrow> run_format as fs; Some (k\<lparr>ks_out := ks_out k @ [Text t]\<rparr>) }"

definition say_line :: "string \<Rightarrow> fmt_arg list \<Rightarrow> 'x kshell \<Rightarrow> 'x kshell kern" where
  "say_line fs as k = say (fs @ [CHR 0x0A]) as k"

definition report :: "string \<Rightarrow> 'x kshell \<Rightarrow> 'x kshell" where
  "report what k = k\<lparr>ks_out := ks_out k @ [Report what]\<rparr>"

fun say_chars :: "string \<Rightarrow> 'x kshell \<Rightarrow> 'x kshell kern" where
  "say_chars [] k = Some k"
| "say_chars (c # cs) k = do { k \<leftarrow> say ''{}'' [char_arg c] k; say_chars cs k }"

definition say_dump :: "(u32 \<Rightarrow> u8) \<Rightarrow> u32 \<Rightarrow> nat \<Rightarrow> 'x kshell \<Rightarrow> 'x kshell kern" where
  "say_dump m p n k = do { t \<leftarrow> hex_dump m p (of_nat n) False; Some (k\<lparr>ks_out := ks_out k @ [Text t]\<rparr>) }"

text \<open>The buffer at \<open>p\<close> after bytes were read into it.\<close>

definition fill :: "u32 \<Rightarrow> u8 list \<Rightarrow> (u32 \<Rightarrow> u8) \<Rightarrow> u32 \<Rightarrow> u8" where
  "fill p bs m = (\<lambda>a. if unat (a - p) < length bs then bs ! unat (a - p) else m a)"

section \<open>Files\<close>

definition shell_open :: "'x kshell_env \<Rightarrow> string \<Rightarrow> u32 \<Rightarrow> 'x kshell \<Rightarrow> (int \<times> 'x kshell) kern" where
  "shell_open e path flags k = do {
     (fd, v) \<leftarrow> vfs_open (ke_hw e) (ke_handle e (k_vfs k)) (ke_file e (k_vfs k)) (-1) path flags (k_vfs k);
     Some (fd, set_vfs v k)
   }"

definition shell_close :: "int \<Rightarrow> 'x kshell \<Rightarrow> (errno \<times> 'x kshell) kern" where
  "shell_close fd k = do { (err, v) \<leftarrow> close_unlocked fd (k_vfs k); Some (err, set_vfs v k) }"

definition shell_read :: "'x kshell_env \<Rightarrow> int \<Rightarrow> nat \<Rightarrow> 'x kshell \<Rightarrow> (int \<times> u8 list \<times> 'x kshell) kern" where
  "shell_read e fd n k = do { (r, bs, v) \<leftarrow> vfs_read (ke_hw e) fd n (k_vfs k); Some (r, bs, set_vfs v k) }"

definition shell_write :: "'x kshell_env \<Rightarrow> int \<Rightarrow> u8 list \<Rightarrow> 'x kshell \<Rightarrow> (int \<times> 'x kshell) kern" where
  "shell_write e fd buf k = do { (r, v) \<leftarrow> vfs_write (ke_hw e) fd buf (k_vfs k); Some (r, set_vfs v k) }"

definition shell_read_dir :: "'x kshell_env \<Rightarrow> int \<Rightarrow> 'x kshell \<Rightarrow> (int \<times> dir_entry \<times> 'x kshell) kern" where
  "shell_read_dir e fd k = do { (r, d, v) \<leftarrow> vfs_read_dir (ke_hw e) fd (k_vfs k); Some (r, d, set_vfs v k) }"

text \<open>\<open>cat\<close> and \<open>xd\<close>: the loop over one file, \<open>off\<close> bytes were printed so far.\<close>

partial_function (option) cat_loop :: "'x kshell_env \<Rightarrow> bool \<Rightarrow> int \<Rightarrow> u32 \<Rightarrow> (u32 \<Rightarrow> u8) \<Rightarrow> 'x kshell \<Rightarrow> 'x kshell option" where
  "cat_loop e hex fd off m k = do {
     (n, bs, k) \<leftarrow> shell_read e fd 512 k;
     if n > 0 then do {
       let m = fill (ke_buffer e) bs m;
       k \<leftarrow> (if hex then do {
              k \<leftarrow> say_line ''file offset {08x}'' [nat_arg (unat off)] k;
              say_dump m (ke_buffer e) (nat n) k
            }
            else say_chars (map byte_char (take (nat n) bs)) k);
       cat_loop e hex fd (off + of_int n) m k
     }
     else if n \<noteq> 0 then say_line ''read failed: {}'' [error_arg n] k
     else Some k
   }"

text \<open>The loop over the arguments; a file that cannot be opened ends the command.\<close>

fun cat_files :: "'x kshell_env \<Rightarrow> bool \<Rightarrow> string list \<Rightarrow> 'x kshell \<Rightarrow> 'x kshell kern" where
  "cat_files e hex [] k = Some k"
| "cat_files e hex (path # paths) k = do {
     (fd, k) \<leftarrow> shell_open e path o_read k;
     if fd < 0 then say_line ''open failed: {}'' [error_arg fd] k
     else do {
       k \<leftarrow> cat_loop e hex fd 0 (ke_stack e) k;
       (err, k) \<leftarrow> shell_close fd k;
       cat_files e hex paths k
     }
   }"

definition cmd_cat :: "'x kshell_env \<Rightarrow> bool \<Rightarrow> string list \<Rightarrow> 'x kshell \<Rightarrow> 'x kshell kern" where
  "cmd_cat e hex argv k =
     (if length argv \<ge> 2 then cat_files e hex (tl argv) k else say_line ''usage: cat <path>'' [] k)"

definition cmd_cd :: "'x kshell_env \<Rightarrow> string list \<Rightarrow> 'x kshell \<Rightarrow> 'x kshell kern" where
  "cmd_cd e argv k =
     (if length argv = 2 then do {
        (fd, k) \<leftarrow> shell_open e (argv ! 1) o_dir k;
        if fd < 0 then say_line ''open error: {}'' [error_arg fd] k
        else do {
          (pa, p) \<leftarrow> running_proc (k_vfs k);
          wd \<leftarrow> canonicalise_path (working_directory p) (argv ! 1);
          s \<leftarrow> upd_proc (k_sched k) pa (\<lambda>p. p\<lparr>working_directory := wd\<rparr>);
          (err, k) \<leftarrow> shell_close fd (k_set_sched s k);
          Some k
        }
      }
      else say_line ''usage: cd <path>'' [] k)"

definition cmd_close :: "string list \<Rightarrow> 'x kshell \<Rightarrow> 'x kshell kern" where
  "cmd_close argv k =
     (case (if length argv = 2 then string_to_signed 0x7fffffff (argv ! 1) else None) of
        Some fd \<Rightarrow> do {
          (err, k) \<leftarrow> shell_close fd k;
          if err < 0 then say_line ''close failed: {}'' [error_arg err] k else Some k
        }
      | None \<Rightarrow> say_line ''usage: close <fd>'' [] k)"

text \<open>
  \<open>cp\<close>: \<open>Vfs::read\<close> of an array is \<open>read_all\<close>, which reports 0 for a last block that is not full.
\<close>

partial_function (option) cp_loop :: "'x kshell_env \<Rightarrow> int \<Rightarrow> int \<Rightarrow> u8 list \<Rightarrow> 'x kshell \<Rightarrow> 'x kshell option" where
  "cp_loop e src dst buf k = do {
     (n, buf, v) \<leftarrow> read_all (ke_hw e) src buf (k_vfs k);
     let k = set_vfs v k;
     if n \<le> 0 then (if n \<noteq> 0 then say_line ''read failed: {}'' [error_arg n] k else Some k)
     else do {
       (n, k) \<leftarrow> shell_write e dst (take (nat n) buf) k;
       if n < 0 then say_line ''write failed: {}'' [error_arg n] k
       else cp_loop e src dst buf k
     }
   }"

definition stack_buffer :: "'x kshell_env \<Rightarrow> nat \<Rightarrow> u8 list" where
  "stack_buffer e n = map (\<lambda>i. ke_stack e (ke_buffer e + of_nat i)) [0..<n]"

definition cmd_cp :: "'x kshell_env \<Rightarrow> string list \<Rightarrow> 'x kshell \<Rightarrow> 'x kshell kern" where
  "cmd_cp e argv k =
     (if length argv \<noteq> 3 then say_line ''usage: cp <src> <dst>'' [] k
      else do {
        (src, k) \<leftarrow> shell_open e (argv ! 1) o_read k;
        if src < 0 then say_line ''could not open src for reading: {}'' [error_arg src] k
        else do {
          (dst, k) \<leftarrow> shell_open e (argv ! 2) (o_create OR o_write) k;
          if dst < 0 then do {
            (err, k) \<leftarrow> shell_close src k;
            say_line ''could not open dst for writing: {}'' [error_arg dst] k
          }
          else do {
            k \<leftarrow> cp_loop e src dst (stack_buffer e 512) k;
            (err, k) \<leftarrow> shell_close dst k;
            (err, k) \<leftarrow> shell_close src k;
            Some k
          }
        }
      })"

text \<open>\<open>head\<close> and \<open>headx\<close>; a read of 0 bytes counts as progress.\<close>

partial_function (option) head_loop :: "'x kshell_env \<Rightarrow> bool \<Rightarrow> int \<Rightarrow> nat \<Rightarrow> nat \<Rightarrow> (u32 \<Rightarrow> u8) \<Rightarrow> 'x kshell \<Rightarrow> 'x kshell option" where
  "head_loop e hex fd nbytes got m k =
     (if got < nbytes then do {
        (n, bs, k) \<leftarrow> shell_read e fd (min 512 (nbytes - got)) k;
        if n \<ge> 0 then do {
          let m = fill (ke_buffer e) bs m;
          k \<leftarrow> (if hex then say_dump m (ke_buffer e) (nat n) k else say_chars (map byte_char (take (nat n) bs)) k);
          head_loop e hex fd nbytes (got + nat n) m k
        }
        else say_line ''read failed: {}'' [error_arg n] k
      }
      else Some k)"

definition cmd_head :: "'x kshell_env \<Rightarrow> bool \<Rightarrow> string list \<Rightarrow> 'x kshell \<Rightarrow> 'x kshell kern" where
  "cmd_head e hex argv k =
     (case (if length argv = 3 then string_to_unsigned 0xffffffff (argv ! 1) else None) of
        Some nbytes \<Rightarrow> do {
          (fd, k) \<leftarrow> shell_open e (argv ! 2) o_read k;
          if fd < 0 then say_line ''open failed: {}'' [error_arg fd] k
          else do {
            k \<leftarrow> head_loop e hex fd (nat nbytes) 0 (ke_stack e) k;
            (err, k) \<leftarrow> shell_close fd k;
            Some k
          }
        }
      | None \<Rightarrow> say_line ''usage: head <nbytes> <path>'' [] k)"

section \<open>Directories\<close>

definition ls_entry :: "dir_entry \<Rightarrow> 'x kshell \<Rightarrow> 'x kshell kern" where
  "ls_entry d k =
     (let i = de_inode d in
      if i_type i = t_dir
      then say_line ''  {6} {} {6 } {}/''
        [nat_arg (unat (i_no i)), text_arg (format_inode_mode i), text_arg [], text_arg (de_name d)] k
      else say_line ''  {6} {} {4S} {}''
        [nat_arg (unat (i_no i)), text_arg (format_inode_mode i), nat_arg (unat (i_size i)), text_arg (de_name d)] k)"

partial_function (option) ls_loop :: "'x kshell_env \<Rightarrow> int \<Rightarrow> 'x kshell \<Rightarrow> 'x kshell option" where
  "ls_loop e fd k = do {
     (n, d, k) \<leftarrow> shell_read_dir e fd k;
     if n > 0 then do { k \<leftarrow> ls_entry d k; ls_loop e fd k }
     else if n \<noteq> 0 then say_line ''read_dir error: {}'' [error_arg n] k
     else Some k
   }"

definition cmd_ls :: "'x kshell_env \<Rightarrow> string list \<Rightarrow> 'x kshell \<Rightarrow> 'x kshell kern" where
  "cmd_ls e argv k = do {
     k \<leftarrow> (if length argv > 2 then say_line ''usage: ls [path]'' [] k else Some k);
     let path = (if length argv \<ge> 2 then argv ! 1 else ''.'');
     (fd, k) \<leftarrow> shell_open e path o_dir k;
     if fd < 0 then say_line ''open error: {}'' [error_arg fd] k
     else do {
       k \<leftarrow> say_line ''  {-6} {-10} {-6} {}'' (map text_arg [''INODE'', ''MODE'', ''SIZE'', ''NAME'']) k;
       k \<leftarrow> ls_loop e fd k;
       (err, k) \<leftarrow> shell_close fd k;
       Some k
     }
   }"

text \<open>
  \<open>tree\<close>, a recursion inside a loop: with \<open>None\<close> the directory is still to be opened, with
  \<open>Some fd\<close> the loop over its entries goes on.
\<close>

definition tree_path :: "string \<Rightarrow> string \<Rightarrow> string" where
  "tree_path dir name =
     path_append (str_append_char max_path_length (assign_text max_path_length dir) slash) name"

definition tree_header :: "string \<Rightarrow> 'x kshell \<Rightarrow> 'x kshell kern" where
  "tree_header dir k = do {
     (pa, p) \<leftarrow> running_proc (k_vfs k);
     path \<leftarrow> canonicalise_path (working_directory p) dir;
     say_line ''{}'' [text_arg (if path \<noteq> [slash] then str_append_char max_path_length path slash else path)] k
   }"

partial_function (option) tree_go :: "'x kshell_env \<Rightarrow> int option \<Rightarrow> string \<Rightarrow> nat \<Rightarrow> 'x kshell \<Rightarrow> 'x kshell option" where
  "tree_go e st dir depth k =
     (case st of
        None \<Rightarrow> do {
          (fd, k) \<leftarrow> shell_open e dir o_dir k;
          if fd < 0 then say_line ''could not open dir <{}>: {}'' [text_arg dir, error_arg fd] k
          else do {
            k \<leftarrow> (if depth = 0 then tree_header dir k else Some k);
            tree_go e (Some fd) dir (if depth = 0 then 1 else depth) k
          }
        }
      | Some fd \<Rightarrow> do {
          (n, d, k) \<leftarrow> shell_read_dir e fd k;
          if n > 0 then do {
            k \<leftarrow> say_chars (replicate (depth * 4) (CHR '' '')) k;
            k \<leftarrow> (if i_type (de_inode d) = t_dir then do {
                   k \<leftarrow> say_line ''{}/'' [text_arg (de_name d)] k;
                   tree_go e None (tree_path dir (de_name d)) (depth + 1) k
                 }
                 else say_line ''{}'' [text_arg (de_name d)] k);
            tree_go e (Some fd) dir depth k
          }
          else do {
            k \<leftarrow> (if n \<noteq> 0 then say_line ''read_dir error: {}'' [error_arg n] k else Some k);
            (err, k) \<leftarrow> shell_close fd k;
            Some k
          }
        })"

definition cmd_tree :: "'x kshell_env \<Rightarrow> string list \<Rightarrow> 'x kshell \<Rightarrow> 'x kshell kern" where
  "cmd_tree e argv k = tree_go e None (if length argv = 2 then argv ! 1 else ''.'') 0 k"

section \<open>Opening, writing, removing\<close>

definition cmd_open :: "'x kshell_env \<Rightarrow> string list \<Rightarrow> 'x kshell \<Rightarrow> 'x kshell kern" where
  "cmd_open e argv k =
     (if length argv = 3 \<and> (argv ! 1 = ''r'' \<or> argv ! 1 = ''w'') then do {
        (err, k) \<leftarrow> shell_open e (argv ! 2) (if argv ! 1 = ''w'' then o_write else o_read) k;
        if err < 0 then say_line ''open failed: {}'' [error_arg err] k else Some k
      }
      else say_line ''usage: open <r|w> <path>'' [] k)"

definition cmd_opendir :: "'x kshell_env \<Rightarrow> string list \<Rightarrow> 'x kshell \<Rightarrow> 'x kshell kern" where
  "cmd_opendir e argv k =
     (if length argv = 2 then do {
        (err, k) \<leftarrow> shell_open e (argv ! 1) o_dir k;
        if err < 0 then say_line ''open failed: {}'' [error_arg err] k else Some k
      }
      else say_line ''usage: opendir <path>'' [] k)"

fun put_texts :: "'x kshell_env \<Rightarrow> int \<Rightarrow> string list \<Rightarrow> 'x kshell \<Rightarrow> 'x kshell kern" where
  "put_texts e fd [] k = Some k"
| "put_texts e fd (t # ts) k = do {
     (err, k) \<leftarrow> shell_write e fd (map of_char t) k;
     if err < 0 then say_line ''write failed: {}'' [error_arg err] k else put_texts e fd ts k
   }"

definition cmd_put :: "'x kshell_env \<Rightarrow> string list \<Rightarrow> 'x kshell \<Rightarrow> 'x kshell kern" where
  "cmd_put e argv k =
     (if length argv \<ge> 2 then do {
        (fd, k) \<leftarrow> shell_open e (argv ! 1) o_write k;
        if fd < 0 then say_line ''open failed: {}'' [error_arg fd] k
        else do { k \<leftarrow> put_texts e fd (drop 2 argv) k; (err, k) \<leftarrow> shell_close fd k; Some k }
      }
      else say_line ''usage: put <path> <text>'' [] k)"

definition cmd_pwd :: "'x kshell \<Rightarrow> 'x kshell kern" where
  "cmd_pwd k = do { (pa, p) \<leftarrow> running_proc (k_vfs k); say_line ''{}'' [text_arg (working_directory p)] k }"

fun rm_files :: "string list \<Rightarrow> 'x kshell \<Rightarrow> 'x kshell kern" where
  "rm_files [] k = Some k"
| "rm_files (path # paths) k =
     (case vfs_unlink path (k_vfs k) of (err, v) \<Rightarrow> do {
        k \<leftarrow> (if err < 0 then say_line ''unlink failed: {}'' [error_arg err] (set_vfs v k) else Some (set_vfs v k));
        rm_files paths k
      })"

definition cmd_rm :: "string list \<Rightarrow> 'x kshell \<Rightarrow> 'x kshell kern" where
  "cmd_rm argv k = (if length argv \<ge> 2 then rm_files (tl argv) k else say_line ''usage: rm <path>...'' [] k)"

end
