(* ===== verification/KshellEdit.thy ===== *)
theory KshellEdit
  imports OsFormat OsString Console
begin

text \<open>
  The line editor of the kernel shell (kshell.cc): what a key does to the command line and to the
  history, and what it prints. The cursor of the console is not shown, so the editor prints an underscore behind
  the line. The output goes to the text screen of Console (and to the serial port).
\<close>

section \<open>The editor\<close>

record editor =
  ed_line :: string
  ed_last :: string

definition max_cmdline :: nat where "max_cmdline = 256"

text \<open>What a key leads to: editing goes on, a line is run, an empty line, or the end of the input.\<close>

datatype key_event =
  Edits
| Runs string
| Empty_line
| End_of_input

definition bs :: char where "bs = CHR 0x08"

text \<open>\<open>" \b\b_\b"\<close>: over the underscore, back, over the last character.\<close>

definition rub_out :: string where "rub_out = [CHR '' '', bs, bs, CHR ''_'', bs]"

definition underscore :: string where "underscore = [CHR ''_'', bs]"

function erase_word :: "string \<Rightarrow> string \<times> string" where
  "erase_word line =
     (if line = [] then ([], [])
      else let line = str_pop 1 line in
        if line \<noteq> [] \<and> is_space (last line) then (line, rub_out)
        else case erase_word line of (l, out) \<Rightarrow> (l, rub_out @ out))"
  by pat_completeness auto
termination by (relation "measure length") (auto simp: str_pop_def)

declare erase_word.simps [simp del]

definition erase_line :: "string \<Rightarrow> string" where
  "erase_line line = concat (replicate (length line) rub_out)"

definition toggle_history :: "editor \<Rightarrow> string \<times> editor" where
  "toggle_history e =
     (erase_line (ed_line e) @ ed_last e @ underscore, \<lparr>ed_line = ed_last e, ed_last = ed_line e\<rparr>)"

definition clear_text :: "string \<Rightarrow> string" where
  "clear_text prompt = CHR 0x0A # CHR 0x1B # ''[2J'' @ CHR 0x1B # ''[1;1H'' @ prompt"

text \<open>One key \<open>c\<close>: the event, the text that is printed, and the new state.\<close>

definition edit_key :: "string \<Rightarrow> char \<Rightarrow> editor \<Rightarrow> key_event \<times> string \<times> editor" where
  "edit_key prompt c e =
     (if c = bs \<or> c = ascii_ctrl (CHR ''?'') then
        if ed_line e \<noteq> [] then (Edits, rub_out, e\<lparr>ed_line := butlast (ed_line e)\<rparr>) else (Edits, [], e)
      else if c = ascii_ctrl (CHR ''W'') then
        case erase_word (ed_line e) of (l, out) \<Rightarrow> (Edits, out, e\<lparr>ed_line := l\<rparr>)
      else if c = ascii_ctrl (CHR ''U'') \<or> c = ascii_ctrl (CHR ''C'') then
        (Edits, erase_line (ed_line e), e\<lparr>ed_line := []\<rparr>)
      else if c = CHR 0x09 \<or> c = ascii_ctrl (CHR ''P'') \<or> c = ascii_ctrl (CHR ''N'') then
        case toggle_history e of (out, e) \<Rightarrow> (Edits, out, e)
      else if c = CHR 0x0A \<or> c = CHR 0x0D then
        if ed_line e = [] then (Empty_line, [CHR '' '', CHR 0x0A], e)
        else (Runs (ed_line e), [CHR '' '', CHR 0x0A], e\<lparr>ed_last := ed_line e\<rparr>)
      else if ed_line e = [] \<and> c = ascii_ctrl (CHR ''D'') then (End_of_input, CHR 0x0A # ''bye!'' @ [CHR 0x0A], e)
      else if c = CHR 0x0C then (Edits, clear_text prompt @ ed_line e @ underscore, e)
      else if is_print c \<and> length (ed_line e) < max_cmdline
        then (Edits, c # underscore, e\<lparr>ed_line := str_append_char max_cmdline (ed_line e) c\<rparr>)
      else (Edits, [], e))"

text \<open>A sequence of keys, up to the first one that ends the line.\<close>

fun edit_keys :: "string \<Rightarrow> string \<Rightarrow> editor \<Rightarrow> (key_event \<times> string) \<times> string \<times> editor" where
  "edit_keys prompt [] e = ((Edits, []), [], e)"
| "edit_keys prompt (c # cs) e =
     (case edit_key prompt c e of (ev, out, e) \<Rightarrow>
        if ev = Edits then case edit_keys prompt cs e of (r, out', e) \<Rightarrow> (r, out @ out', e)
        else ((ev, cs), out, e))"

section \<open>What is on the screen\<close>

text \<open>Characters that the text screen puts into a cell.\<close>

definition plain :: "char \<Rightarrow> bool" where
  "plain c \<longleftrightarrow> c \<notin> {CHR 0x0A, CHR 0x0D, CHR 0x08, CHR 0x0C}"

text \<open>
  The cursor's row, from column \<open>p\<close> on, holds the text \<open>a\<close> before the cursor and the text \<open>b\<close> from
  the cursor to the end of the row. Nothing was printed below that row yet.
\<close>

definition row_at :: "nat \<Rightarrow> string \<Rightarrow> string \<Rightarrow> rows_screen \<Rightarrow> bool" where
  "row_at p a b r \<longleftrightarrow> rs_ok r \<and> (\<forall>y. rs_y r < y \<and> y < screen_rows \<longrightarrow> rs_rows r ! y = blank_row)
     \<and> rs_x r = p + length a \<and> drop p (rs_rows r ! rs_y r) = map char_to_cell (a @ b)"

lemma row_at_length:
  assumes "row_at p a b r"
  shows "p + length a + length b = screen_cols" "length (rs_rows r ! rs_y r) = screen_cols"
proof -
  have ok: "rs_ok r" "p + length a < screen_cols" using assms by (auto simp: row_at_def rs_ok_def)
  then show l: "length (rs_rows r ! rs_y r) = screen_cols" by (auto simp: rs_ok_def)
  have "drop p (rs_rows r ! rs_y r) = map char_to_cell (a @ b)" using assms by (simp only: row_at_def)
  then have "length (drop p (rs_rows r ! rs_y r)) = length (map char_to_cell (a @ b))" by (rule arg_cong)
  then have "screen_cols - p = length a + length b" using l by simp
  then show "p + length a + length b = screen_cols" using ok(2) by linarith
qed

lemma row_put:
  assumes "row_at p a (x # b) r" "b \<noteq> []" "plain c"
  shows "row_at p (a @ [c]) b (rs_print_char c r)"
proof -
  let ?row = "rs_rows r ! rs_y r" and ?r = "r\<lparr>rs_rows := (rs_rows r)[rs_y r :=
    (rs_rows r ! rs_y r)[rs_x r := char_to_cell c]], rs_x := rs_x r + 1\<rparr>"
  note l = row_at_length [OF assms(1)]
  have ok: "rs_ok r" "rs_x r = p + length a" "drop p ?row = map char_to_cell (a @ x # b)"
    and below: "\<forall>y. rs_y r < y \<and> y < screen_rows \<longrightarrow> rs_rows r ! y = blank_row"
    using assms(1) by (auto simp: row_at_def)
  have x: "rs_x r + 1 < screen_cols" using l(1) ok(2) assms(2) by (cases b) auto
  then have print: "rs_print_char c r = ?r"
    using assms(3) by (auto simp: rs_print_char_def plain_def Let_def)
  have y: "rs_y r < length (rs_rows r)" using ok(1) by (simp add: rs_ok_def)
  have "rs_ok ?r" using rs_put_ok [OF ok(1), of "char_to_cell c"] ok(1) x by (simp add: rs_ok_def)
  moreover have "drop p (?row[rs_x r := char_to_cell c]) = map char_to_cell ((a @ [c]) @ b)"
    using drop_update_swap [of p "rs_x r" ?row "char_to_cell c"] ok(2,3)
    by (simp add: list_update_append)
  ultimately show ?thesis
    unfolding print row_at_def using below ok(2) y by (auto simp: nth_list_update)
qed

lemma row_puts:
  "row_at p a (b1 @ b2) r \<Longrightarrow> length b1 = length s \<Longrightarrow> b2 \<noteq> [] \<Longrightarrow> list_all plain s \<Longrightarrow>
     row_at p (a @ s) b2 (fold rs_print_char s r)"
proof (induction s arbitrary: a b1 r)
  case (Cons c s)
  then obtain x b where b: "b1 = x # b" by (cases b1) auto
  with Cons.prems have "row_at p (a @ [c]) (b @ b2) (rs_print_char c r)"
    by (intro row_put [where x = x]) auto
  from Cons.IH [OF this] Cons.prems b show ?case by simp
qed simp

lemma row_back: "row_at p (a @ [x]) b r \<Longrightarrow> row_at p a (x # b) (rs_print_char bs r)"
  by (auto simp: row_at_def rs_print_char_def bs_def rs_ok_def)

lemma row_newline:
  assumes "row_at p a b r"
  shows "row_at 0 [] (replicate screen_cols (CHR '' '')) (rs_print_char (CHR 0x0A) r)"
proof -
  have ok: "rs_ok r" and below: "\<forall>y. rs_y r < y \<and> y < screen_rows \<longrightarrow> rs_rows r ! y = blank_row"
    using assms by (auto simp: row_at_def)
  have "rs_rows (rs_newline r) ! rs_y (rs_newline r) = blank_row"
  proof (cases "rs_y r + 1 \<ge> screen_rows")
    case True
    then have "rs_y r = length (tl (rs_rows r))" using ok by (auto simp: rs_ok_def)
    with True show ?thesis by (simp add: rs_newline_def nth_append)
  next
    case False
    with below show ?thesis by (simp add: rs_newline_def)
  qed
  moreover have "\<forall>y. rs_y (rs_newline r) < y \<and> y < screen_rows \<longrightarrow> rs_rows (rs_newline r) ! y = blank_row"
    using below by (auto simp: rs_newline_def)
  moreover have "rs_x (rs_newline r) = 0" by (simp add: rs_newline_def)
  ultimately show ?thesis
    using rs_newline_ok [OF ok] by (simp add: row_at_def rs_print_char_def blank_row_def)
qed

lemma row_shift:
  assumes "row_at p (u @ a) b r"
  shows "row_at (p + length u) a b r"
proof -
  have "drop (p + length u) (rs_rows r ! rs_y r) = drop (length u) (drop p (rs_rows r ! rs_y r))"
    by (simp add: add.commute)
  with assms show ?thesis by (simp add: row_at_def)
qed

text \<open>
  From column \<open>p\<close> on, the cursor's row shows a text, then the underscore with the cursor on it, and
  at least one blank, up to its end.
\<close>

definition row_shows :: "nat \<Rightarrow> string \<Rightarrow> rows_screen \<Rightarrow> bool" where
  "row_shows p text r \<longleftrightarrow> (\<exists>n. row_at p text (CHR ''_'' # replicate (Suc n) (CHR '' '')) r)"

lemma plain_codes [simp]: "plain (CHR '' '')" "plain (CHR ''_'')"
  by (simp_all add: plain_def)

lemma row_rub_out:
  assumes "row_shows p (text @ [c]) r"
  shows "row_shows p text (fold rs_print_char rub_out r)"
proof -
  from assms obtain n where "row_at p (text @ [c]) (CHR ''_'' # replicate (Suc n) (CHR '' '')) r"
    by (auto simp: row_shows_def)
  from row_put [OF this, of "CHR '' ''"]
  have "row_at p ((text @ [c]) @ [CHR '' '']) (replicate (Suc n) (CHR '' '')) (rs_print_char (CHR '' '') r)" by simp
  from row_put [OF row_back [OF row_back [OF this]], of "CHR ''_''"]
  have "row_at p (text @ [CHR ''_'']) (replicate (Suc (Suc n)) (CHR '' '')) (fold rs_print_char
      [CHR '' '', bs, bs, CHR ''_''] r)" by simp
  from row_back [OF this] show ?thesis unfolding row_shows_def by (intro exI [of _ "Suc n"]) (simp add: rub_out_def)
qed

lemma row_underscore:
  assumes "row_at p text (replicate (Suc (Suc n)) (CHR '' '')) r"
  shows "row_shows p text (fold rs_print_char underscore r)"
proof -
  have "row_at p (text @ [CHR ''_'']) (replicate (Suc n) (CHR '' '')) (rs_print_char (CHR ''_'') r)"
    using assms by (intro row_put [where x = "CHR '' ''"]) auto
  from row_back [OF this] show ?thesis by (auto simp: row_shows_def underscore_def)
qed

lemma row_type:
  assumes "row_shows p text r" "list_all plain s" "p + length (text @ s) + 1 < screen_cols"
  shows "row_shows p (text @ s) (fold rs_print_char (s @ underscore) r)"
proof -
  from assms(1) obtain n where r: "row_at p text (CHR ''_'' # replicate (Suc n) (CHR '' '')) r"
    by (auto simp: row_shows_def)
  with row_at_length(1) [OF r] assms(3) have n: "length s \<le> n" by simp
  show ?thesis
  proof (cases s)
    case Nil
    have "row_at p (text @ [CHR ''_'']) (replicate (Suc n) (CHR '' '')) (rs_print_char (CHR ''_'') r)"
      by (rule row_put [OF r]) simp_all
    from row_back [OF this] show ?thesis by (auto simp: Nil row_shows_def underscore_def)
  next
    case (Cons c s')
    have split: "replicate (Suc n) (CHR '' '') = replicate (length s') (CHR '' '') @ replicate (Suc (Suc (n - length s))) (CHR '' '')"
      using n Cons by (simp flip: replicate_add replicate_Suc)
    have "row_at p (text @ s) (replicate (Suc (Suc (n - length s))) (CHR '' '')) (fold rs_print_char s r)"
      by (rule row_puts [where ?b1.0 = "CHR ''_'' # replicate (length s') (CHR '' '')"])
        (use r assms(2) Cons split in simp_all)
    from row_underscore [OF this] show ?thesis by simp
  qed
qed

lemma row_erase_line: "row_shows p (text @ line) r \<Longrightarrow> row_shows p text (fold rs_print_char (erase_line line) r)"
proof (induction line arbitrary: r rule: rev_induct)
  case (snoc c line)
  then have "row_shows p (text @ line) (fold rs_print_char rub_out r)" by (intro row_rub_out [where c = c]) simp
  from snoc.IH [OF this] show ?case by (simp add: erase_line_def)
qed (simp add: erase_line_def)

lemma str_pop_1: "str_pop 1 s = butlast s" "str_pop (Suc 0) s = butlast s"
  by (auto simp: str_pop_def butlast_conv_take)

lemma row_erase_word:
  "row_shows p (text @ line) r \<Longrightarrow> erase_word line = (l, out) \<Longrightarrow>
     row_shows p (text @ l) (fold rs_print_char out r) \<and> prefix l line"
proof (induction line arbitrary: r l out rule: erase_word.induct)
  case (1 line)
  show ?case
  proof (cases "line = []")
    case True
    with 1 show ?thesis by (simp add: erase_word.simps)
  next
    case False
    then have l: "line = butlast line @ [last line]" by simp
    then have r: "row_shows p (text @ butlast line) (fold rs_print_char rub_out r)"
      using "1.prems"(1) by (intro row_rub_out [where c = "last line"]) (metis append.assoc)
    show ?thesis
    proof (cases "butlast line \<noteq> [] \<and> is_space (last (butlast line))")
      case True
      with False "1.prems"(2) have "l = butlast line" "out = rub_out"
        by (auto simp: erase_word.simps [of line] Let_def str_pop_1)
      with r show ?thesis by (simp add: prefix_def) (metis l)
    next
      case no: False
      obtain l' out' where e: "erase_word (butlast line) = (l', out')" by fastforce
      have "l = l'" "out = rub_out @ out'"
        using False no "1.prems"(2) e by (auto simp: erase_word.simps [of line] Let_def str_pop_1)
      moreover have "row_shows p (text @ l') (fold rs_print_char out' (fold rs_print_char rub_out r))
          \<and> prefix l' (butlast line)"
        using "1.IH" [of "butlast line"] False no r e by (simp add: str_pop_1)
      ultimately show ?thesis
        by (metis l prefix_order.trans prefixI fold_append comp_apply)
    qed
  qed
qed

text \<open>
  Clearing the screen: the text screen knows no escape sequences, so it starts a new row and shows
  the ten characters of the sequences before the prompt.
\<close>

lemma clear_text_codes:
  "clear_text prompt = CHR 0x0A # (CHR 0x1B # ''[2J'' @ CHR 0x1B # ''[1;1H'') @ prompt"
  by (simp add: clear_text_def)

lemma row_clear:
  assumes "row_shows p text r" "list_all plain (prompt @ line)" "10 + length (prompt @ line) + 1 < screen_cols"
  shows "row_shows 10 (prompt @ line) (fold rs_print_char (clear_text prompt @ line @ underscore) r)"
proof -
  define u where "u = CHR 0x1B # ''[2J'' @ CHR 0x1B # ''[1;1H''"
  have u: "length u = 10" "list_all plain u" by (simp_all add: u_def plain_def)
  let ?k = "screen_cols - 12 - length (prompt @ line)"
  from assms(1) obtain b where "row_at p text b r" by (auto simp: row_shows_def)
  note nl = row_newline [OF this]
  have split: "replicate screen_cols (CHR '' '')
      = replicate (length (u @ prompt @ line)) (CHR '' '') @ replicate (Suc (Suc ?k)) (CHR '' '')"
    using assms(3) u(1) by (simp flip: replicate_add replicate_Suc)
  have "row_at 0 ([] @ u @ prompt @ line) (replicate (Suc (Suc ?k)) (CHR '' ''))
      (fold rs_print_char (u @ prompt @ line) (rs_print_char (CHR 0x0A) r))"
    by (rule row_puts [OF nl [unfolded split]]) (use assms(2) u(2) in simp_all)
  then have "row_at (0 + length u) (prompt @ line) (replicate (Suc (Suc ?k)) (CHR '' ''))
      (fold rs_print_char (u @ prompt @ line) (rs_print_char (CHR 0x0A) r))"
    by (intro row_shift) simp
  moreover have "clear_text prompt = CHR 0x0A # u @ prompt" by (simp add: clear_text_codes u_def)
  ultimately show ?thesis using row_underscore by (simp add: u(1))
qed

section \<open>The line that is shown is the line that is run\<close>

definition ed_ok :: "editor \<Rightarrow> bool" where
  "ed_ok e \<longleftrightarrow> length (ed_line e) \<le> max_cmdline \<and> length (ed_last e) \<le> max_cmdline
     \<and> (\<forall>c \<in> set (ed_line e @ ed_last e). is_print c)"

lemma print_plain: "is_print c \<Longrightarrow> plain c"
  by (auto simp: plain_def is_print_def in_range_def schar_def)

lemma ed_ok_plain: "ed_ok e \<Longrightarrow> list_all plain (ed_line e) \<and> list_all plain (ed_last e)"
  using print_plain by (auto simp: ed_ok_def list_all_iff)

lemma edit_key_Edits:
  assumes "edit_key prompt c e = (Edits, out, e')" "ed_ok e" "row_shows p (prompt @ ed_line e) r"
    and "list_all plain prompt" "p \<le> 10" "10 + length prompt + length (ed_line e') + 1 < screen_cols"
  shows "(\<exists>p' \<in> {p, 10}. row_shows p' (prompt @ ed_line e') (fold rs_print_char out r)) \<and> ed_ok e'"
proof -
  have rub: "row_shows p (prompt @ butlast (ed_line e)) (fold rs_print_char rub_out r)" if "ed_line e \<noteq> []"
    using assms(3) that by (intro row_rub_out [where c = "last (ed_line e)"]) simp
  have bl: "ed_ok (e\<lparr>ed_line := butlast (ed_line e)\<rparr>)"
    using assms(2) by (auto simp: ed_ok_def dest: in_set_butlastD)
  have word: "row_shows p (prompt @ l) (fold rs_print_char o1 r) \<and> ed_ok (e\<lparr>ed_line := l\<rparr>)"
    if "erase_word (ed_line e) = (l, o1)" for l o1
    using row_erase_word [OF assms(3) that] assms(2)
    by (auto simp: ed_ok_def dest: prefix_length_le set_mono_prefix)
  have line: "row_shows p prompt (fold rs_print_char (erase_line (ed_line e)) r)" by (rule row_erase_line [OF assms(3)])
  have hist: "row_shows p (prompt @ ed_last e)
      (fold rs_print_char (erase_line (ed_line e) @ ed_last e @ underscore) r)"
    if "10 + length prompt + length (ed_last e) + 1 < screen_cols"
    using row_type [OF line, of "ed_last e"] ed_ok_plain [OF assms(2)] that assms(5) by simp
  have typed: "row_shows p (prompt @ ed_line e @ [c]) (fold rs_print_char (c # underscore) r)"
    if "is_print c" "10 + length prompt + Suc (length (ed_line e)) + 1 < screen_cols"
    using row_type [OF assms(3), of "[c]"] that print_plain assms(5) by simp
  have clear: "row_shows 10 (prompt @ ed_line e) (fold rs_print_char (clear_text prompt @ ed_line e @ underscore) r)"
    if "10 + length prompt + length (ed_line e) + 1 < screen_cols"
    using row_clear [OF assms(3), of prompt "ed_line e"] ed_ok_plain [OF assms(2)] assms(4) that by simp
  have ok: "ed_ok (e\<lparr>ed_line := []\<rparr>)" "ed_ok \<lparr>ed_line = ed_last e, ed_last = ed_line e\<rparr>"
    using assms(2) by (auto simp: ed_ok_def)
  have okt: "ed_ok (e\<lparr>ed_line := ed_line e @ [c]\<rparr>)" if "is_print c" "length (ed_line e) < max_cmdline"
    using assms(2) that by (auto simp: ed_ok_def)
  have none: "row_shows p prompt r" if "ed_line e = []" using assms(3) that by simp
  show ?thesis
    using assms(1-3,6) none word okt typed hist clear
    unfolding edit_key_def toggle_history_def str_append_char_def
    by (auto split: if_splits prod.splits simp: rub bl line ok simp del: fold_append)
qed

lemma edit_key_Runs:
  assumes "edit_key prompt c e = (Runs line, out, e')"
  shows "line = ed_line e \<and> out = [CHR '' '', CHR 0x0A]"
  using assms by (auto simp: edit_key_def toggle_history_def split: if_splits prod.splits)

text \<open>
  The line fits on its row while it is edited: after every one of the keys there is room for the
  escape sequences of a cleared screen, the prompt, the line and the underscore.
\<close>

definition line_fits :: "string \<Rightarrow> string \<Rightarrow> editor \<Rightarrow> bool" where
  "line_fits prompt cs e \<longleftrightarrow> (\<forall>k \<le> length cs.
     10 + length prompt + length (ed_line (snd (snd (edit_keys prompt (take k cs) e)))) + 1 < screen_cols)"

lemma line_fits_first:
  assumes "line_fits prompt (c # cs) e" "edit_key prompt c e = (Edits, out, e1)"
  shows "10 + length prompt + length (ed_line e1) + 1 < screen_cols" "line_fits prompt cs e1"
proof -
  have step: "snd (snd (edit_keys prompt (take (Suc k) (c # cs)) e)) = snd (snd (edit_keys prompt (take k cs) e1))" for k
    using assms(2) by (simp split: prod.splits)
  show "line_fits prompt cs e1"
    unfolding line_fits_def
  proof (intro allI impI)
    fix k assume "k \<le> length cs"
    then show "10 + length prompt + length (ed_line (snd (snd (edit_keys prompt (take k cs) e1)))) + 1 < screen_cols"
      using assms(1) [unfolded line_fits_def, rule_format, of "Suc k"] unfolding step by simp
  qed
  then show "10 + length prompt + length (ed_line e1) + 1 < screen_cols"
    unfolding line_fits_def by (drule_tac x = 0 in spec) simp
qed

lemma edit_keys_shown:
  assumes "edit_keys prompt cs e = ((ev, rest), out, e')" "ed_ok e" "row_shows p (prompt @ ed_line e) r"
    and "list_all plain prompt" "p \<le> 10" "line_fits prompt cs e"
  shows "(ev = Edits \<longrightarrow> (\<exists>p' \<in> {p, 10}. row_shows p' (prompt @ ed_line e') (fold rs_print_char out r)) \<and> ed_ok e')
    \<and> (\<forall>line. ev = Runs line \<longrightarrow> length line \<le> max_cmdline
      \<and> (\<exists>out'. out = out' @ [CHR '' '', CHR 0x0A]
           \<and> (\<exists>p' \<in> {p, 10}. row_shows p' (prompt @ line) (fold rs_print_char out' r))))"
  using assms
proof (induction prompt cs e arbitrary: ev rest out p r rule: edit_keys.induct)
  case (1 prompt e)
  then show ?case by auto
next
  case (2 prompt c cs e)
  obtain ev1 o1 e1 where k: "edit_key prompt c e = (ev1, o1, e1)" by (metis prod_cases3)
  show ?case
  proof (cases "ev1 = Edits")
    case True
    obtain o2 where s: "edit_keys prompt cs e1 = ((ev, rest), o2, e')" "out = o1 @ o2"
      using "2.prems"(1) True k by (auto split: prod.splits)
    note fits = line_fits_first [OF "2.prems"(6) k [unfolded True]]
    from edit_key_Edits [OF k [unfolded True] "2.prems"(2-5) fits(1)]
    obtain p1 where p1: "p1 \<in> {p, 10}" "row_shows p1 (prompt @ ed_line e1) (fold rs_print_char o1 r)" "ed_ok e1"
      by blast
    then have "p1 \<le> 10" using "2.prems"(5) by auto
    from "2.IH" [OF k [symmetric] refl True s(1) p1(3,2) "2.prems"(4) this fits(2)] p1(1)
    have "(ev = Edits \<longrightarrow> (\<exists>p' \<in> {p, 10}. row_shows p' (prompt @ ed_line e') (fold rs_print_char (o1 @ o2) r)) \<and> ed_ok e')
      \<and> (\<forall>line. ev = Runs line \<longrightarrow> length line \<le> max_cmdline
        \<and> (\<exists>out'. o2 = out' @ [CHR '' '', CHR 0x0A]
             \<and> (\<exists>p' \<in> {p, 10}. row_shows p' (prompt @ line) (fold rs_print_char (o1 @ out') r))))"
      by fastforce
    then show ?thesis unfolding s(2) by (metis append.assoc)
  next
    case False
    then have ev: "ev = ev1" "out = o1" using "2.prems"(1) k by auto
    { fix line assume l: "ev = Runs line"
      then have "line = ed_line e" "out = [] @ [CHR '' '', CHR 0x0A]"
        using edit_key_Runs [of prompt c e line o1 e1] k ev by auto
      moreover have "row_shows p (prompt @ ed_line e) (fold rs_print_char [] r)" using "2.prems"(3) by simp
      ultimately have "length line \<le> max_cmdline
          \<and> (\<exists>out'. out = out' @ [CHR '' '', CHR 0x0A]
               \<and> (\<exists>p' \<in> {p, 10}. row_shows p' (prompt @ line) (fold rs_print_char out' r)))"
        using "2.prems"(2) by (metis ed_ok_def insertI1) }
    with False ev show ?thesis by simp
  qed
qed

text \<open>The same for the cells of video memory.\<close>

definition screen_shows :: "nat \<Rightarrow> string \<Rightarrow> textmode \<Rightarrow> bool" where
  "screen_shows p text s \<longleftrightarrow> (\<exists>r. shows_rows s r \<and> row_shows p text r)"

lemma screen_prints:
  assumes "shows_rows s r" "rs_ok r" "row_shows p text (fold rs_print_char out r)"
  shows "\<exists>s'. text_print out s = Some s' \<and> screen_shows p text s'"
  using text_print_rows [OF assms(2,1), of out] assms(3) by (auto simp: screen_shows_def)

text \<open>
  C32: the line that the kernel shell runs is the one its user sees on the text screen. When the
  screen shows, from column \<open>p\<close> of the cursor's row on, the prompt, the line so far and the underscore
  with the cursor on it, then so it does after any keys, the one that clears the screen included, as
  long as prompt and line fit on the row: what the editor prints is put into video memory without a
  fault, and the cursor's row shows the prompt and the new line, from column \<open>p\<close>, or from column 10
  when the screen was cleared (the text screen shows the escape sequences for it). When a line is run, it is
  the one that was shown; it never has more than 256 characters.
\<close>

theorem shown_line_is_run:
  assumes "edit_keys prompt cs e = ((ev, rest), out, e')" "ed_ok e" "screen_shows p (prompt @ ed_line e) s"
    and "list_all plain prompt" "p \<le> 10" "line_fits prompt cs e"
  shows "(ev = Edits \<longrightarrow> ed_ok e' \<and>
      (\<exists>s'. text_print out s = Some s' \<and> (\<exists>p' \<in> {p, 10}. screen_shows p' (prompt @ ed_line e') s')))
    \<and> (\<forall>line. ev = Runs line \<longrightarrow> length line \<le> max_cmdline \<and>
      (\<exists>out' s'. out = out' @ [CHR '' '', CHR 0x0A] \<and> text_print out' s = Some s'
         \<and> (\<exists>p' \<in> {p, 10}. screen_shows p' (prompt @ line) s')))"
proof -
  from assms(3) obtain r where r: "shows_rows s r" "row_shows p (prompt @ ed_line e) r" by (auto simp: screen_shows_def)
  then have ok: "rs_ok r" by (auto simp: row_shows_def row_at_def)
  have print: "\<exists>s'. text_print o1 s = Some s' \<and> (\<exists>p' \<in> {p, 10}. screen_shows p' w s')"
    if "\<exists>p' \<in> {p, 10}. row_shows p' w (fold rs_print_char o1 r)" for o1 w
    using that screen_prints [OF r(1) ok] by blast
  note shown = edit_keys_shown [OF assms(1,2) r(2) assms(4-6)]
  show ?thesis
  proof (intro conjI impI allI)
    assume "ev = Edits"
    with shown have e: "\<exists>p' \<in> {p, 10}. row_shows p' (prompt @ ed_line e') (fold rs_print_char out r)" "ed_ok e'"
      by (simp_all only: simp_thms)
    show "ed_ok e'" by (rule e(2))
    show "\<exists>s'. text_print out s = Some s' \<and> (\<exists>p' \<in> {p, 10}. screen_shows p' (prompt @ ed_line e') s')"
      by (rule print [OF e(1)])
  next
    fix line assume "ev = Runs line"
    with shown [THEN conjunct2, THEN spec, of line] obtain out' where o: "length line \<le> max_cmdline"
      "out = out' @ [CHR '' '', CHR 0x0A]" "\<exists>p' \<in> {p, 10}. row_shows p' (prompt @ line) (fold rs_print_char out' r)"
      by blast
    show "length line \<le> max_cmdline" by (rule o(1))
    from print [OF o(3)] o(2) show "\<exists>out' s'. out = out' @ [CHR '' '', CHR 0x0A] \<and> text_print out' s = Some s'
        \<and> (\<exists>p' \<in> {p, 10}. screen_shows p' (prompt @ line) s')" by blast
  qed
qed

definition fresh_screen :: textmode where
  "fresh_screen = \<lparr>vram = map char_to_cell (''% _'' @ replicate 77 (CHR '' '')) @ concat (replicate 24 blank_row),
     cursor_x = 2, cursor_y = 0\<rparr>"

lemma fresh_screen_shows: "screen_shows 0 ''% '' fresh_screen"
proof -
  let ?r = "\<lparr>rs_rows = map char_to_cell (''% _'' @ replicate 77 (CHR '' '')) # replicate 24 blank_row, rs_x = 2, rs_y = 0\<rparr>"
  have "rs_ok ?r" by (auto simp: rs_ok_def screen_rows_def screen_cols_def blank_row_def)
  moreover have "(map char_to_cell (''% _'' @ replicate 77 (CHR '' '')) # replicate 24 blank_row) ! y = blank_row"
    if "0 < y" "y < screen_rows" for y
    using that by (cases y) (auto simp: screen_rows_def)
  ultimately have "row_at 0 ''% '' (CHR ''_'' # replicate (Suc 76) (CHR '' '')) ?r"
    by (auto simp: row_at_def numeral_eq_Suc)
  moreover have "shows_rows fresh_screen ?r" by (simp add: shows_rows_def fresh_screen_def)
  ultimately show ?thesis unfolding screen_shows_def row_shows_def by blast
qed

theorem shown_line_is_run_witness:
  "\<exists>out rest e'. edit_keys ''% '' (''lx'' @ [bs] @ ''s'' @ [CHR 0x0D]) \<lparr>ed_line = [], ed_last = []\<rparr> = ((Runs ''ls'', rest), out, e')
    \<and> (\<exists>out' s' p'. out = out' @ [CHR '' '', CHR 0x0A] \<and> text_print out' fresh_screen = Some s'
         \<and> screen_shows p' ''% ls'' s')"
proof -
  let ?e = "\<lparr>ed_line = [], ed_last = []\<rparr>"
  let ?k = "''lx'' @ [bs] @ ''s'' @ [CHR 0x0D]"
  have "fst (fst (edit_keys ''% '' ?k ?e)) = Runs ''ls''" by code_simp
  then obtain rest out e' where k: "edit_keys ''% '' ?k ?e = ((Runs ''ls'', rest), out, e')" by (metis prod.collapse)
  have e: "ed_ok ?e" by (simp add: ed_ok_def)
  have s: "screen_shows 0 (''% '' @ ed_line ?e) fresh_screen" using fresh_screen_shows by simp
  have pr: "list_all plain ''% ''" by (simp add: plain_def)
  have "\<forall>k \<in> set [0..<6]. 10 + length ''% '' + length (ed_line (snd (snd (edit_keys ''% '' (take k ?k) ?e)))) + 1 < screen_cols"
    by code_simp
  then have "line_fits ''% '' ?k ?e" by (auto simp: line_fits_def bs_def less_Suc_eq_le)
  from shown_line_is_run [OF k e s pr _ this] k show ?thesis by fastforce
qed

text \<open>
  On a longer line the screen goes wrong: an underscore in the last column stays there, since the
  cursor moves to the next row and the backspace does not bring it back.
\<close>

lemma underscore_wraps:
  assumes "rs_x r + 1 = screen_cols" "rs_y r + 1 < screen_rows"
  shows "fold rs_print_char underscore r = r\<lparr>rs_rows := (rs_rows r)[rs_y r :=
    (rs_rows r ! rs_y r)[rs_x r := char_to_cell (CHR ''_'')]], rs_x := 0, rs_y := rs_y r + 1\<rparr>"
  using assms by (simp add: underscore_def bs_def rs_print_char_def rs_newline_def Let_def)

end
