(* ===== verification/ShellArgs.thy ===== *)
theory ShellArgs
  imports OsString
begin

text \<open>
  Splitting a command line into arguments, in place (\<open>split_args\<close> of the kernel shell kshell.cc and
  of the user shell user/shell/main.cc, which have the same code). The arguments are views into
  the command line: a position and a length.
\<close>

section \<open>The code\<close>

record split_state =
  cmdline :: string
  argv :: "(nat \<times> nat) list"
  argc :: nat
  escaped :: bool
  escapes :: nat

definition unescape :: "char \<Rightarrow> char" where
  "unescape c = (if c = CHR ''n'' then CHR 0x0A else if c = CHR ''r'' then CHR 0x0D
     else if c = CHR ''e'' then CHR 0x1B else if c = CHR ''f'' then CHR 0x0C else c)"

definition set_dst :: "nat \<Rightarrow> char \<Rightarrow> split_state \<Rightarrow> split_state kern" where
  "set_dst i c s = do { b \<leftarrow> aset (cmdline s) i c; Some (s\<lparr>cmdline := b\<rparr>) }"

text \<open>The character \<open>c\<close> at position \<open>i\<close> becomes the next one of the current argument.\<close>

definition put_char :: "nat \<Rightarrow> char \<Rightarrow> split_state \<Rightarrow> split_state kern" where
  "put_char i c s = do {
     (start, len) \<leftarrow> aget (argv s) (argc s);
     as \<leftarrow> aset (argv s) (argc s) (if len = 0 then i else start, len + 1);
     set_dst i c (s\<lparr>argv := as\<rparr>)
   }"

text \<open>
  The body of the loop at position \<open>i\<close> of \<open>n\<close>; \<open>True\<close> stands for \<open>break\<close>. \<open>goto redo\<close> runs the body again in
  the state \<open>escaped\<close>, where it does not come to the \<open>goto\<close>.
\<close>

definition split_escaped :: "nat \<Rightarrow> nat \<Rightarrow> split_state \<Rightarrow> (bool \<times> split_state) kern" where
  "split_escaped n i s =
     (if i + escapes s \<ge> n then do { s \<leftarrow> set_dst i (CHR 0x00) s; Some (True, s) }
      else do {
        src \<leftarrow> aget (cmdline s) (i + escapes s);
        s \<leftarrow> put_char i (unescape src) s;
        Some (False, s\<lparr>escaped := False\<rparr>)
      })"

definition split_body :: "nat \<Rightarrow> nat \<Rightarrow> split_state \<Rightarrow> (bool \<times> split_state) kern" where
  "split_body n i s =
     (if escaped s then split_escaped n i s
      else if i + escapes s \<ge> n then do { s \<leftarrow> set_dst i (CHR 0x00) s; Some (True, s) }
      else do {
        src \<leftarrow> aget (cmdline s) (i + escapes s);
        if src = CHR '' '' then do {
          s \<leftarrow> set_dst i (CHR 0x00) s;
          (start, len) \<leftarrow> aget (argv s) (argc s);
          Some (False, if len \<noteq> 0 then s\<lparr>argc := argc s + 1\<rparr> else s)
        }
        else if src = CHR 0x5C then do {
          s \<leftarrow> set_dst i (CHR 0x00) s;
          split_escaped n i (s\<lparr>escaped := True, escapes := escapes s + 1\<rparr>)
        }
        else do { s \<leftarrow> put_char i src s; Some (False, s) }
      })"

text \<open>The loop from position \<open>i\<close> on, with \<open>k\<close> positions left.\<close>

primrec split_loop :: "nat \<Rightarrow> nat \<Rightarrow> nat \<Rightarrow> split_state \<Rightarrow> split_state kern" where
  "split_loop n i 0 s = Some s"
| "split_loop n i (Suc k) s = do {
     (brk, s) \<leftarrow> split_body n i s;
     if brk then Some s else split_loop n (i + 1) k s
   }"

text \<open>The result: the changed command line, and the views in use.\<close>

definition split_args :: "string \<Rightarrow> (string \<times> (nat \<times> nat) list) kern" where
  "split_args line = do {
     let n = length line;
     s \<leftarrow> split_loop n 0 n \<lparr>cmdline = line, argv = replicate max_args (0, 0), argc = 0, escaped = False, escapes = 0\<rparr>;
     (start, len) \<leftarrow> aget (argv s) (argc s);
     let c = (if len \<noteq> 0 then argc s + 1 else argc s);
     Some (cmdline s, take c (argv s))
   }"

definition arg_text :: "string \<Rightarrow> nat \<times> nat \<Rightarrow> string" where
  "arg_text b v = take (snd v) (drop (fst v) b)"

text \<open>The texts of the arguments.\<close>

definition command_args :: "string \<Rightarrow> string list kern" where
  "command_args line = do { (b, vs) \<leftarrow> split_args line; Some (map (arg_text b) vs) }"

section \<open>What it computes\<close>

text \<open>
  The arguments of a text: separated by spaces, with a backslash in front of a character that is to
  be taken as it is or stands for a control character; \<open>cur\<close> is the argument read so far.
\<close>

fun tokens :: "bool \<Rightarrow> string \<Rightarrow> string \<Rightarrow> string list" where
  "tokens esc cur [] = (if cur = [] then [] else [cur])"
| "tokens esc cur (c # cs) =
     (if esc then tokens False (cur @ [unescape c]) cs
      else if c = CHR '' '' then (if cur = [] then tokens False [] cs else cur # tokens False [] cs)
      else if c = CHR 0x5C then tokens True cur cs
      else tokens False (cur @ [c]) cs)"

text \<open>
  The state of the loop at position \<open>i\<close>: the arguments \<open>acc\<close> and the current one \<open>cur\<close> are in front of \<open>i\<close>, the
  text \<open>rest\<close> that is still to be read follows at \<open>i + escapes\<close>.
\<close>

definition split_inv :: "nat \<Rightarrow> nat \<Rightarrow> string list \<Rightarrow> string \<Rightarrow> string \<Rightarrow> split_state \<Rightarrow> bool" where
  "split_inv n i acc cur rest s \<longleftrightarrow>
     length (cmdline s) = n \<and> length (argv s) = max_args \<and> argc s = length acc \<and> argc s < max_args
   \<and> drop (i + escapes s) (cmdline s) = rest
   \<and> (\<forall>j < argc s. arg_text (cmdline s) (argv s ! j) = acc ! j \<and> fst (argv s ! j) + snd (argv s ! j) \<le> i)
   \<and> snd (argv s ! argc s) = length cur
   \<and> (cur \<noteq> [] \<longrightarrow> fst (argv s ! argc s) + length cur = i \<and> arg_text (cmdline s) (argv s ! argc s) = cur)
   \<and> (\<forall>j > argc s. j < max_args \<longrightarrow> snd (argv s ! j) = 0)"

lemma split_inv_escaped [simp]: "split_inv n i acc cur rest (s\<lparr>escaped := b\<rparr>) = split_inv n i acc cur rest s"
  by (simp add: split_inv_def)

lemma arg_text_take: "arg_text b v = drop (fst v) (take (fst v + snd v) b)"
  by (simp add: arg_text_def drop_take)

lemma arg_text_update: "fst v + snd v \<le> i \<Longrightarrow> arg_text (b[i := c]) v = arg_text b v"
  by (simp add: arg_text_take take_update_cancel)

lemma arg_text_extend:
  assumes "st + len = i" "i < length b"
  shows "arg_text (b[i := c]) (st, Suc len) = arg_text b (st, len) @ [c]"
  using assms by (simp add: arg_text_take take_Suc_conv_app_nth take_update_cancel)

lemma split_inv_args:
  assumes "split_inv n i acc cur rest s"
  shows "aget (argv s) (argc s) = Some (argv s ! argc s)" "snd (argv s ! argc s) = length cur"
proof -
  show "aget (argv s) (argc s) = Some (argv s ! argc s)" using assms by (simp add: split_inv_def)
  show "snd (argv s ! argc s) = length cur" using assms unfolding split_inv_def by blast
qed

lemma split_inv_rest:
  assumes "split_inv n i acc cur rest s"
  shows "rest = [] \<longleftrightarrow> n \<le> i + escapes s"
    and "rest = x # xs \<Longrightarrow> aget (cmdline s) (i + escapes s) = Some x \<and> i < n \<and> drop (i + 1 + escapes s) (cmdline s) = xs"
proof -
  have l: "length (cmdline s) = n" and d: "drop (i + escapes s) (cmdline s) = rest"
    using assms by (simp_all add: split_inv_def)
  show "rest = [] \<longleftrightarrow> n \<le> i + escapes s" using l d by auto
  assume r: "rest = x # xs"
  then have "i + escapes s < n" using l d by (metis drop_all list.distinct(1) not_le_imp_less)
  moreover from this l d r have "cmdline s ! (i + escapes s) = x"
    by (metis hd_drop_conv_nth list.sel(1))
  moreover have "drop (Suc (i + escapes s)) (cmdline s) = xs"
    using d r by (metis drop_Suc list.sel(3) tl_drop)
  ultimately show "aget (cmdline s) (i + escapes s) = Some x \<and> i < n \<and> drop (i + 1 + escapes s) (cmdline s) = xs"
    using l by simp
qed

lemma put_char_inv:
  assumes inv: "split_inv n i acc cur (x # rest) s"
  shows "\<exists>s'. put_char i c s = Some s' \<and> split_inv n (i + 1) acc (cur @ [c]) rest s'
     \<and> escaped s' = escaped s"
proof -
  note r = split_inv_rest(2) [OF inv refl]
  have l: "length (cmdline s) = n" "length (argv s) = max_args" "argc s < max_args" "argc s = length acc"
    using inv by (simp_all add: split_inv_def)
  obtain st len where v: "argv s ! argc s = (st, len)" by (cases "argv s ! argc s")
  have len: "len = length cur" using split_inv_args(2) [OF inv] v by simp
  define st' where "st' = (if cur = [] then i else st)"
  have st: "st' + length cur = i" "arg_text (cmdline s) (st', length cur) = cur"
    using inv v len by (auto simp: split_inv_def st'_def arg_text_def)
  let ?s = "s\<lparr>argv := (argv s)[argc s := (st', Suc (length cur))], cmdline := (cmdline s)[i := c]\<rparr>"
  have "put_char i c s = Some ?s"
    using l r v len by (simp add: put_char_def set_dst_def st'_def)
  moreover have "arg_text ((cmdline s)[i := c]) (st', Suc (length cur)) = cur @ [c]"
    using arg_text_extend [OF st(1), of "cmdline s" c] st(2) l r by simp
  then have "split_inv n (i + 1) acc (cur @ [c]) rest ?s"
    using inv r l st(1) by (auto simp: split_inv_def arg_text_update nth_list_update le_Suc_eq)
  ultimately show ?thesis by auto
qed

lemma set_dst_inv:
  assumes inv: "split_inv n i acc cur (x # rest) s"
  shows "\<exists>s'. set_dst i c s = Some s' \<and> argc s' = argc s \<and> argv s' = argv s
     \<and> (cur = [] \<longrightarrow> split_inv n (i + 1) acc [] rest s')
     \<and> (cur \<noteq> [] \<longrightarrow> argc s + 1 < max_args \<longrightarrow> split_inv n (i + 1) (acc @ [cur]) [] rest (s'\<lparr>argc := argc s + 1\<rparr>))
     \<and> split_inv n i acc cur rest (s'\<lparr>escaped := True, escapes := escapes s + 1\<rparr>) \<and> escaped s' = escaped s"
proof -
  note r = split_inv_rest(2) [OF inv refl]
  let ?s = "s\<lparr>cmdline := (cmdline s)[i := c]\<rparr>"
  have "set_dst i c s = Some ?s"
    using inv r by (simp add: set_dst_def split_inv_def)
  moreover have "cur = [] \<longrightarrow> split_inv n (i + 1) acc [] rest ?s"
    using inv r by (auto simp: split_inv_def arg_text_update le_SucI)
  moreover have "split_inv n i acc cur rest (?s\<lparr>escaped := True, escapes := escapes s + 1\<rparr>)"
    using inv r by (auto simp: split_inv_def arg_text_update)
  moreover have "split_inv n (i + 1) (acc @ [cur]) [] rest (?s\<lparr>argc := argc s + 1\<rparr>)"
    if "cur \<noteq> []" "argc s + 1 < max_args"
  proof -
    note d = inv [unfolded split_inv_def]
    have v: "arg_text ((cmdline s)[i := c]) (argv s ! j) = (acc @ [cur]) ! j \<and> fst (argv s ! j) + snd (argv s ! j) \<le> i + 1"
      if "j < argc s + 1" for j
    proof (cases "j = argc s")
      case True
      have c: "cur \<noteq> [] \<longrightarrow> fst (argv s ! argc s) + length cur = i \<and> arg_text (cmdline s) (argv s ! argc s) = cur"
        and l: "snd (argv s ! argc s) = length cur" "argc s = length acc"
        using d by blast+
      from c l(1) \<open>cur \<noteq> []\<close> have "fst (argv s ! argc s) + snd (argv s ! argc s) = i"
        "arg_text (cmdline s) (argv s ! argc s) = cur" by simp_all
      with True l(2) show ?thesis by (simp add: arg_text_update)
    next
      case False
      with that have "j < argc s" by simp
      with d show ?thesis by (simp add: arg_text_update nth_append le_SucI)
    qed
    have "snd (argv s ! (argc s + 1)) = 0" "drop (i + 1 + escapes s) ((cmdline s)[i := c]) = rest"
      using d that r by auto
    with d v that show ?thesis by (simp add: split_inv_def)
  qed
  ultimately show ?thesis by auto
qed

text \<open>The arguments of a state at the end of the loop.\<close>

definition split_result :: "split_state \<Rightarrow> string list \<Rightarrow> bool" where
  "split_result s ts \<longleftrightarrow> length (argv s) = max_args \<and> argc s < max_args
     \<and> map (arg_text (cmdline s)) (take (if snd (argv s ! argc s) \<noteq> 0 then argc s + 1 else argc s) (argv s)) = ts"

lemma split_inv_result:
  assumes inv: "split_inv n i acc cur rest s"
  shows "split_result s (acc @ tokens e cur [])"
proof -
  have l: "length (argv s) = max_args" "argc s = length acc" "argc s < max_args"
    using inv by (simp_all add: split_inv_def)
  have t: "map (arg_text (cmdline s)) (take (argc s) (argv s)) = acc"
    using inv by (intro nth_equalityI) (auto simp: split_inv_def)
  then show ?thesis
    using inv l by (auto simp: split_result_def split_inv_def take_Suc_conv_app_nth)
qed

lemma split_result_end:
  "split_inv n i acc cur [] s \<Longrightarrow> i < n \<Longrightarrow> \<exists>s'. set_dst i c s = Some s' \<and> split_result s' (acc @ tokens e cur [])"
proof -
  assume inv: "split_inv n i acc cur [] s" and i: "i < n"
  have "split_inv n i acc cur (drop (i + escapes s) ((cmdline s)[i := c])) (s\<lparr>cmdline := (cmdline s)[i := c]\<rparr>)"
    using inv by (auto simp: split_inv_def arg_text_update)
  from split_inv_result [OF this] show ?thesis
    using inv i by (simp add: set_dst_def split_inv_def)
qed

lemma split_escaped_ok:
  assumes inv: "split_inv n i acc cur rest s" and i: "i < n" and esc: "escaped s"
  shows "case rest of
      [] \<Rightarrow> \<exists>s'. split_escaped n i s = Some (True, s') \<and> split_result s' (acc @ tokens e cur [])
    | c # cs \<Rightarrow> \<exists>s'. split_escaped n i s = Some (False, s') \<and> \<not> escaped s'
        \<and> split_inv n (i + 1) acc (cur @ [unescape c]) cs s'"
proof (cases rest)
  case Nil
  then obtain s' where "set_dst i (CHR 0x00) s = Some s'" "split_result s' (acc @ tokens e cur [])"
    using split_result_end [of n i acc cur s] inv i by blast
  then show ?thesis
    using Nil split_inv_rest(1) [OF inv] by (simp add: split_escaped_def)
next
  case (Cons c cs)
  note r = split_inv_rest [OF inv]
  obtain s' where "put_char i (unescape c) s = Some s'" "split_inv n (i + 1) acc (cur @ [unescape c]) cs s'"
    using put_char_inv [of n i acc cur c cs s] inv Cons by blast
  then show ?thesis
    using Cons r(1) r(2) [OF Cons] by (simp add: split_escaped_def)
qed

lemma split_loop_tokens:
  "split_inv n i acc cur rest s \<Longrightarrow> \<not> escaped s \<Longrightarrow> i + k = n \<Longrightarrow>
     length acc + length (tokens False cur rest) < max_args \<Longrightarrow>
     \<exists>s'. split_loop n i k s = Some s' \<and> split_result s' (acc @ tokens False cur rest)"
proof (induction k arbitrary: i acc cur rest s)
  case 0
  then have "rest = []" using split_inv_rest(1) by force
  then show ?case using split_inv_result [OF 0(1)] by simp
next
  case (Suc k)
  note inv = Suc.prems(1) and r = split_inv_rest [OF Suc.prems(1)]
  have i: "i < n" using Suc.prems(3) by simp
  show ?case
  proof (cases rest)
    case Nil
    then obtain s' where "set_dst i (CHR 0x00) s = Some s'" "split_result s' (acc @ tokens False cur [])"
      using split_result_end [of n i acc cur s] inv i by blast
    then show ?thesis
      using Nil r(1) Suc.prems(2) by (simp add: split_body_def)
  next
    case (Cons c cs)
    note rc = r(1) r(2) [OF Cons]
    consider "c = CHR '' ''" | "c = CHR 0x5C" | "c \<noteq> CHR '' ''" "c \<noteq> CHR 0x5C" by blast
    then show ?thesis
    proof cases
      case 1
      obtain s1 where s1: "set_dst i (CHR 0x00) s = Some s1" "argc s1 = argc s" "argv s1 = argv s"
        "cur = [] \<Longrightarrow> split_inv n (i + 1) acc [] cs s1"
        "cur \<noteq> [] \<Longrightarrow> argc s + 1 < max_args \<Longrightarrow> split_inv n (i + 1) (acc @ [cur]) [] cs (s1\<lparr>argc := argc s + 1\<rparr>)"
        "escaped s1 = escaped s"
        using set_dst_inv [of n i acc cur c cs s "CHR 0x00"] inv Cons by blast
      obtain st where a: "argv s ! argc s = (st, length cur)"
        using split_inv_args(2) [OF inv] by (metis prod.collapse)
      have b: "split_body n i s = Some (False, if cur \<noteq> [] then s1\<lparr>argc := argc s + 1\<rparr> else s1)"
        using Suc.prems(2) rc Cons 1 s1(1-3) split_inv_args(1) [OF inv] a by (simp add: split_body_def)
      show ?thesis
      proof (cases "cur = []")
        case True
        then show ?thesis
          using Suc.IH [OF s1(4)] Suc.prems(2-4) s1(6) b Cons 1 by simp
      next
        case False
        have "argc s = length acc" using inv by (simp add: split_inv_def)
        then have "argc s + 1 < max_args" using Suc.prems(4) Cons 1 False by simp
        then show ?thesis
          using Suc.IH [OF s1(5)] Suc.prems(2-4) s1(6) b Cons 1 False by simp
      qed
    next
      case 2
      obtain s1 where s1: "set_dst i (CHR 0x00) s = Some s1" "escapes s1 = escapes s"
        "split_inv n i acc cur cs (s1\<lparr>escaped := True, escapes := escapes s + 1\<rparr>)"
        using set_dst_inv [of n i acc cur c cs s "CHR 0x00"] inv Cons
        by (auto simp: set_dst_def bind_eq_Some_conv)
      have b: "split_body n i s = split_escaped n i (s1\<lparr>escaped := True, escapes := escapes s + 1\<rparr>)"
        using Suc.prems(2) rc Cons 2 s1(1,2) by (simp add: split_body_def)
      have e: "case cs of
          [] \<Rightarrow> \<exists>s'. split_body n i s = Some (True, s') \<and> split_result s' (acc @ tokens True cur [])
        | c # cs \<Rightarrow> \<exists>s'. split_body n i s = Some (False, s') \<and> \<not> escaped s'
            \<and> split_inv n (i + 1) acc (cur @ [unescape c]) cs s'"
        unfolding b by (rule split_escaped_ok [OF s1(3) i]) simp
      show ?thesis
      proof (cases cs)
        case Nil
        with e show ?thesis using Cons 2 by auto
      next
        case (Cons d ds)
        with e obtain s' where "split_body n i s = Some (False, s')" "\<not> escaped s'"
          "split_inv n (i + 1) acc (cur @ [unescape d]) ds s'" by auto
        then show ?thesis
          using Suc.IH [of "i + 1" "acc" "cur @ [unescape d]" ds s'] Suc.prems(3,4) \<open>rest = c # cs\<close> Cons 2 by simp
      qed
    next
      case 3
      obtain s1 where "put_char i c s = Some s1" "split_inv n (i + 1) acc (cur @ [c]) cs s1" "\<not> escaped s1"
        using put_char_inv [of n i acc cur c cs s c] inv Cons Suc.prems(2) by auto
      then show ?thesis
        using Suc.IH [of "i + 1" "acc" "cur @ [c]" cs s1] Suc.prems(2-4) rc Cons 3 by (simp add: split_body_def)
    qed
  qed
qed

text \<open>
  C31: Splitting a command line. A command line of fewer than \<open>max_args\<close> arguments is split in
  place into exactly its arguments: the texts between spaces, where a backslash takes the next
  character as it is or as a control character.
\<close>

theorem split_args_tokens:
  assumes "length (tokens False [] line) < max_args"
  shows "command_args line = Some (tokens False [] line)"
proof -
  let ?s = "\<lparr>cmdline = line, argv = replicate max_args (0, 0), argc = 0, escaped = False, escapes = 0\<rparr>"
  have "split_inv (length line) 0 [] [] line ?s" by (simp add: split_inv_def max_args_def)
  from split_loop_tokens [OF this] assms obtain s' where
    "split_loop (length line) 0 (length line) ?s = Some s'" "split_result s' (tokens False [] line)" by auto
  then show ?thesis
    by (auto simp: command_args_def split_args_def split_result_def split: prod.splits if_splits)
qed

theorem split_args_tokens_witness:
  "command_args (''put a'' @ [CHR 0x5C] @ '' b  x'' @ [CHR 0x5C, CHR ''n'']) = Some [''put'', ''a b'', ''x'' @ [CHR 0x0A]]"
proof -
  have t: "tokens False [] (''put a'' @ [CHR 0x5C] @ '' b  x'' @ [CHR 0x5C, CHR ''n''])
      = [''put'', ''a b'', ''x'' @ [CHR 0x0A]]"
    by code_simp
  show ?thesis
    using split_args_tokens [of "''put a'' @ [CHR 0x5C] @ '' b  x'' @ [CHR 0x5C, CHR ''n'']"]
    unfolding t by (simp add: max_args_def)
qed

text \<open>With one argument more than there is room for, an element after the last one is used.\<close>

lemma split_args_overflow: "split_args (concat (replicate 33 ''a '')) = None"
  by code_simp

end
