(* ===== verification/Kshell.thy ===== *)
theory Kshell
  imports KshellFiles KshellEdit ShellArgs AtaPort
begin

text \<open>
  The kernel shell as a whole (kshell.cc): switching it on and off, the commands, the start-up file and
  the loop over command lines.
\<close>

section \<open>Switching on and off\<close>

definition shell_enable :: "'x kshell \<Rightarrow> 'x kshell kern" where
  "shell_enable k =
     (if ks_enabled k then Some k
      else do {
        s \<leftarrow> pause_userspace (k_sched k);
        (l, s) \<leftarrow> sem_signal s (ks_lock k);
        Some (k_set_sched s (k\<lparr>ks_enabled := True, ks_lock := l\<rparr>))
      })"

text \<open>\<open>disable\<close> waits for the next \<open>enable\<close>: \<open>Some r\<close> says that the processor goes on with \<open>r\<close> meanwhile.\<close>

definition shell_disable :: "'x kshell_env \<Rightarrow> 'x kshell \<Rightarrow> (resumption option \<times> 'x kshell) kern" where
  "shell_disable e k =
     (if \<not> ks_enabled k then Some (None, k)
      else do {
        s \<leftarrow> resume_userspace (k_sched k);
        (r, l, s) \<leftarrow> sem_wait s (ke_esp e) (ks_lock k);
        Some (r, k_set_sched s (k\<lparr>ks_enabled := False, ks_lock := l\<rparr>))
      })"

section \<open>Commands\<close>

text \<open>
  How a command ends: it returns; the shell waits until it is enabled, and prints the text after that;
  its thread was deleted; or the machine is frozen.
\<close>

datatype cmd_end =
  Finished
| Waits_enabled resumption string
| Thread_gone resumption
| Frozen

definition on_hardware :: "('x, 'a) io_m \<Rightarrow> 'x kshell \<Rightarrow> 'a \<times> 'x kshell" where
  "on_hardware act k =
     (let v = k_vfs k in
      case run_state act (io_state (v_io v)) of (r, x) \<Rightarrow> (r, set_vfs (v\<lparr>v_io := (v_io v)\<lparr>io_state := x\<rparr>\<rparr>) k))"

text \<open>\<open>brick\<close> clears the last two bytes of the first block, the boot signature.\<close>

definition cmd_brick :: "'x kshell_env \<Rightarrow> 'x kshell \<Rightarrow> 'x kshell kern" where
  "cmd_brick e k = do {
     (err, bs, io) \<leftarrow> ata_read (ke_hw e) 0 0 1 (v_io (k_vfs k));
     let k = set_vfs ((k_vfs k)\<lparr>v_io := io\<rparr>) k;
     if err \<noteq> 0 then say_line ''error: {}'' [error_arg err] k
     else do {
       (err, io) \<leftarrow> ata_write (ke_hw e) 0 0 1 (bs[510 := 0, 511 := 0]) (v_io (k_vfs k));
       let k = set_vfs ((k_vfs k)\<lparr>v_io := io\<rparr>) k;
       if err \<noteq> 0 then say_line ''error: {}'' [error_arg err] k else Some k
     }
   }"

text \<open>\<open>mbr\<close> reads the block twice, the first time through the protocol alone.\<close>

definition cmd_mbr :: "'x kshell_env \<Rightarrow> 'x kshell \<Rightarrow> 'x kshell kern" where
  "cmd_mbr e k =
     (let ((err0, bs0), k) = on_hardware (AtaPort.read_blocks (ke_ports e) 0 0 0 1) k in do {
        (err, bs, io) \<leftarrow> ata_read (ke_hw e) 0 0 1 (v_io (k_vfs k));
        let k = set_vfs ((k_vfs k)\<lparr>v_io := io\<rparr>) k;
        if err \<noteq> 0 then say_line ''error: {}'' [error_arg err] k
        else say_dump (fill (ke_buffer e) bs (fill (ke_buffer e) bs0 (ke_stack e))) (ke_buffer e) 512 k
      })"

text \<open>The magic ports of emulators; \<open>halt\<close> then stops the processor.\<close>

definition emulator_off :: "'x ports \<Rightarrow> ('x, unit) io_m" where
  "emulator_off p = do { _ \<leftarrow> out_16 p 0xB004 0x2000; _ \<leftarrow> out_16 p 0x0604 0x2000; out_16 p 0x4004 0x3400 }"

definition cmd_halt :: "'x kshell_env \<Rightarrow> 'x kshell \<Rightarrow> 'x kshell kern" where
  "cmd_halt e k = do {
     k \<leftarrow> say_line ''trying to initiate shutdown...'' [] k;
     let (u, k) = on_hardware (do { _ \<leftarrow> emulator_off (ke_ports e); io_waits (ke_ports e) (500 * 1024) }) k;
     k \<leftarrow> say_line (CHR 0x0A # ''so apparently that failed!'') [] k;
     say (''freezing the cpu instead...'' @ CHR 0x0A # ''zzz'') [] k
   }"

definition cmd_kill :: "string list \<Rightarrow> 'x kshell \<Rightarrow> (cmd_end \<times> 'x kshell) kern" where
  "cmd_kill args k =
     (case (if length args = 2 then string_to_signed 0x7fffffff (args ! 1) else None) of
        Some tid \<Rightarrow> do {
          t \<leftarrow> thread_by_tid (k_sched k) tid;
          if t \<noteq> 0 then do {
            (r, l) \<leftarrow> delete_thread t (ks_loader k);
            Some (case r of None \<Rightarrow> Finished | Some r \<Rightarrow> Thread_gone r, k\<lparr>ks_loader := l\<rparr>)
          }
          else do { k \<leftarrow> say_line ''no thread with exists with tid {}'' [int_arg tid] k; Some (Finished, k) }
        }
      | None \<Rightarrow> do { k \<leftarrow> say_line ''usage: kill <tid>'' [] k; Some (Finished, k) })"

definition cmd_vgatest :: "'x kshell_env \<Rightarrow> string list \<Rightarrow> 'x kshell \<Rightarrow> 'x kshell kern" where
  "cmd_vgatest e args k =
     (case (if length args = 3 then (string_to_unsigned 0xffffffff (args ! 1), string_to_unsigned 0xffffffff (args ! 2))
            else (None, None)) of
        (Some w, Some h) \<Rightarrow>
          (case on_hardware (vga_test (ke_ports e) (of_int w) (of_int h) (ks_vga k)) k of (g, k) \<Rightarrow>
             Some (k\<lparr>ks_vga := g\<rparr>))
      | _ \<Rightarrow> say_line ''usage: vgatest <w> <h>'' [] k)"

definition cmd_exit :: "'x kshell_env \<Rightarrow> 'x kshell \<Rightarrow> (cmd_end \<times> 'x kshell) kern" where
  "cmd_exit e k = do {
     k \<leftarrow> say_line ''** disabled kshell **'' [] k;
     (r, k) \<leftarrow> shell_disable e k;
     let after = CHR 0x0A # ''** enabled kshell **'';
     case r of
       Some r \<Rightarrow> Some (Waits_enabled r (after @ [CHR 0x0A]), k)
     | None \<Rightarrow> do { k \<leftarrow> say_line after [] k; Some (Finished, k) }
   }"

text \<open>Everything else names a program, with or without its suffix.\<close>

definition cmd_program :: "'x kshell_env \<Rightarrow> string list \<Rightarrow> 'x kshell \<Rightarrow> (cmd_end \<times> 'x kshell) kern" where
  "cmd_program e args k = do {
     let path = assign_text max_path_length (args ! 0);
     let path = (if ends_with path ''.elf'' then path else path_append path ''.elf'');
     (fd, k) \<leftarrow> shell_open e path o_read k;
     if fd < 0 then do {
       k \<leftarrow> say_line (''no such file or command '' @ [CHR 0x27] @ ''{}'' @ [CHR 0x27]) [text_arg (args ! 0)] k;
       Some (Finished, k)
     }
     else do {
       (err, k) \<leftarrow> shell_close fd k;
       (err, p, l) \<leftarrow> load_elf (ke_hw e) (ke_loader e) path args (ks_loader k);
       let k = k\<lparr>ks_loader := l\<rparr>;
       if err = ERR_success then do {
         k \<leftarrow> say_line ''elf loaded (press esc to return)'' [] k;
         (r, k) \<leftarrow> shell_disable e k;
         Some (case r of None \<Rightarrow> Finished | Some r \<Rightarrow> Waits_enabled r [], k)
       }
       else do {
         k \<leftarrow> say_line (''not an executable file: '' @ CHR 0x27 # ''{}'' @ CHR 0x27 # '' ({})'') [text_arg path, error_arg err] k;
         Some (Finished, k)
       }
     }
   }"

definition help_table :: "(string \<times> string) list" where
  "help_table =
    [(''bmap'', ''print physical memory usage bitmap''),
     (''brick'', ''render the system unbootable''),
     (''cat <path>...'', ''print the contents of a file''),
     (''cd <path>'', ''change the working directory''),
     (''clear'', ''clear the screen''),
     (''close <fd>'', ''try to close the given file nr (debug)''),
     (''cp <path> <path>'', ''copy one file to another''),
     (''die'', ''crash and burn''),
     (''echo <text>...'', ''print a string of text''),
     (''exit'', ''disable kshell, resume userspace''),
     (''halt'', ''try to shutdown the machine''),
     (''head <nbytes> <path>'', ''print the first N bytes of a file''),
     (''headx <nbytes> <path>'', ''hexdump the first N bytes of a file''),
     (''heap'', ''print heap statistics''),
     (''hello'', ''print '' @ [CHR 0x27] @ ''Hello, World!'' @ [CHR 0x27] @ ''''),
     (''help'', ''print this text''),
     (''kill <tid>'', ''kill the thread with the given ID''),
     (''ls [path]'', ''print the contents of a directory''),
     (''lsof'', ''list open files of all processes''),
     (''mbr'', ''read and print the master boot record''),
     (''mem'', ''print physical memory statistics''),
     (''mount'', ''print mountpoints''),
     (''open <r|w> <path>'', ''open a file (debug)''),
     (''opendir <path>'', ''open a directory (debug)''),
     (''ps'', ''print process information''),
     (''psr'', ''print ready queue''),
     (''put <path> <text>'', ''put text in file''),
     (''pwd'', ''print working directory''),
     (''reboot'', ''reboot the machine''),
     (''rm <path>...'', ''remove a file''),
     (''tree [path]'', ''print a recursive directory listing''),
     (''vgatest <w> <h>'', ''test video modes''),
     (''xd <path>...'', ''print a file in hexadecimal'')]"

fun say_help :: "(string \<times> string) list \<Rightarrow> 'x kshell \<Rightarrow> 'x kshell kern" where
  "say_help [] k = say [CHR 0x0A, CHR 0x0A] [] k"
| "say_help ((cmd, what) # hs) k = do {
     k \<leftarrow> say (CHR 0x0A # ''  {-22} {}'') [text_arg cmd, text_arg what] k;
     say_help hs k
   }"

fun say_args :: "string list \<Rightarrow> 'x kshell \<Rightarrow> 'x kshell kern" where
  "say_args [] k = say_line [] [] k"
| "say_args (a # as) k = do { k \<leftarrow> say ''{} '' [text_arg a] k; say_args as k }"

definition cmd_reboot :: "'x kshell_env \<Rightarrow> 'x kshell \<Rightarrow> 'x kshell kern" where
  "cmd_reboot e k = do {
     k \<leftarrow> say_line (CHR 0x0A # ''** system reset **'') [] k;
     Some (snd (on_hardware (out_8 (ke_ports e) 0x64 0xfe) k))
   }"

text \<open>The commands that return; \<open>None\<close> is no command of this kind.\<close>

definition plain_command :: "'x kshell_env \<Rightarrow> string list \<Rightarrow> 'x kshell \<Rightarrow> 'x kshell kern option" where
  "plain_command e args k =
     (let s = args ! 0 in
      if s = ''bmap'' then Some (Some (report ''physical memory bitmap'' k))
      else if s = ''brick'' then Some (cmd_brick e k)
      else if s = ''cat'' \<or> s = ''xd'' then Some (cmd_cat e (s = ''xd'') args k)
      else if s = ''cd'' then Some (cmd_cd e args k)
      else if s = ''clear'' then Some (say (CHR 0x0A # CHR 0x1B # ''[2J'' @ CHR 0x1B # ''[1;1H'') [] k)
      else if s = ''close'' then Some (cmd_close args k)
      else if s = ''cp'' then Some (cmd_cp e args k)
      else if s = ''die'' then Some None
      else if s = ''echo'' then Some (say_args (tl args) k)
      else if s = ''head'' \<or> s = ''headx'' then Some (cmd_head e (s = ''headx'') args k)
      else if s = ''heap'' then Some (Some (report ''heap'' k))
      else if s = ''hello'' then Some (say_line ''Hello, world!'' [] k)
      else if s = ''help'' then Some (say_help help_table k)
      else if s = ''ls'' then Some (cmd_ls e args k)
      else if s = ''lsof'' then Some (Some (report ''open files'' k))
      else if s = ''mbr'' then Some (cmd_mbr e k)
      else if s = ''mem'' then Some (Some (report ''physical memory'' k))
      else if s = ''mount'' then Some (Some (report ''mounts'' k))
      else if s = ''open'' then Some (cmd_open e args k)
      else if s = ''opendir'' then Some (cmd_opendir e args k)
      else if s = ''ps'' then Some (Some (report ''processes'' k))
      else if s = ''psr'' then Some (Some (report ''ready queue'' k))
      else if s = ''put'' then Some (cmd_put e args k)
      else if s = ''pwd'' then Some (cmd_pwd k)
      else if s = ''rm'' then Some (cmd_rm args k)
      else if s = ''reboot'' then Some (cmd_reboot e k)
      else if s = ''tree'' then Some (cmd_tree e args k)
      else if s = ''vgatest'' then Some (cmd_vgatest e args k)
      else None)"

text \<open>While a command runs, input goes to the devices again.\<close>

definition run_command :: "'x kshell_env \<Rightarrow> string list \<Rightarrow> 'x kshell \<Rightarrow> (cmd_end \<times> 'x kshell) kern" where
  "run_command e args k =
     (let k = k\<lparr>ks_input_enabled := False\<rparr> in
      if args = [] then Some (Finished, k)
      else case plain_command e args k of
        Some m \<Rightarrow> do { k \<leftarrow> m; Some (Finished, k) }
      | None \<Rightarrow>
          if args ! 0 = ''exit'' then cmd_exit e k
          else if args ! 0 = ''halt'' then do { k \<leftarrow> cmd_halt e k; Some (Frozen, k) }
          else if args ! 0 = ''kill'' then cmd_kill args k
          else cmd_program e args k)"

section \<open>Start-up\<close>

text \<open>
  The first entry of the root directory whose name starts with \<open>disk\<close> (the same loop is in \<open>run_init\<close> of main.cc); an error of
  \<open>read_dir\<close> is printed, and the loop goes on.
\<close>

partial_function (option) find_disk_dir :: "'x kshell_env \<Rightarrow> int \<Rightarrow> 'x kshell \<Rightarrow> (string option \<times> 'x kshell) option" where
  "find_disk_dir e fd k = do {
     (n, d, k) \<leftarrow> shell_read_dir e fd k;
     if n > 0 then (if starts_with (de_name d) ''disk'' then Some (Some (de_name d), k) else find_disk_dir e fd k)
     else if n = 0 then Some (None, k)
     else do {
       k \<leftarrow> say_line (''couldn'' @ CHR 0x27 # ''t read root directory: {}'') [error_arg n] k;
       find_disk_dir e fd k
     }
   }"

text \<open>The path of the first disk, or \<open>/\<close>.\<close>

definition find_rootfs :: "'x kshell_env \<Rightarrow> 'x kshell \<Rightarrow> (string \<times> 'x kshell) kern" where
  "find_rootfs e k = do {
     (fd, k) \<leftarrow> shell_open e [slash] o_dir k;
     kassert (fd > 0);
     (d, k) \<leftarrow> find_disk_dir e fd k;
     (err, k) \<leftarrow> shell_close fd k;
     Some (case d of None \<Rightarrow> [slash] | Some name \<Rightarrow> path_append [slash] name, k)
   }"

text \<open>
  The characters of the start-up file: every line is run as a command. A command that does not
  return at once ends the function with the characters and the part of a line that are left.
\<close>

fun rc_chars :: "'x kshell_env \<Rightarrow> string \<Rightarrow> string \<Rightarrow> 'x kshell \<Rightarrow> (cmd_end \<times> string \<times> string \<times> 'x kshell) kern" where
  "rc_chars e [] line k = Some (Finished, [], line, k)"
| "rc_chars e (c # cs) line k =
     (if c = CHR 0x0A then do {
        as \<leftarrow> command_args line;
        (r, k) \<leftarrow> run_command e as k;
        if r = Finished then rc_chars e cs [] k else Some (r, cs, [], k)
      }
      else rc_chars e cs (str_append_char max_cmdline line c) k)"

partial_function (option) rc_loop :: "'x kshell_env \<Rightarrow> int \<Rightarrow> u8 list \<Rightarrow> string \<Rightarrow> 'x kshell \<Rightarrow>
    (cmd_end \<times> string \<times> string \<times> 'x kshell) option" where
  "rc_loop e fd buf line k = do {
     (n, buf, v) \<leftarrow> read_all (ke_hw e) fd buf (k_vfs k);
     let k = set_vfs v k;
     if n \<le> 0 then do {
       k \<leftarrow> (if n \<noteq> 0 then say_line ''read failed: {}'' [error_arg n] k else Some k);
       Some (Finished, [], line, k)
     }
     else do {
       (r, cs, line, k) \<leftarrow> rc_chars e (map byte_char (take (nat n) buf)) line k;
       if r = Finished then rc_loop e fd buf line k else Some (r, cs, line, k)
     }
   }"

definition run_rcfile :: "'x kshell_env \<Rightarrow> string \<Rightarrow> 'x kshell \<Rightarrow> (cmd_end \<times> 'x kshell) kern" where
  "run_rcfile e rootfs k = do {
     (fd, k) \<leftarrow> shell_open e (path_append rootfs ''/autoexec.bat'') o_read k;
     if fd < 0 then Some (Finished, k)
     else do {
       (r, cs, line, k) \<leftarrow> rc_loop e fd (stack_buffer e 2) [] k;
       if r \<noteq> Finished then Some (r, k)
       else do { (err, k) \<leftarrow> shell_close fd k; Some (Finished, k) }
     }
   }"

definition shell_start :: "'x kshell_env \<Rightarrow> 'x kshell \<Rightarrow> (cmd_end \<times> 'x kshell) kern" where
  "shell_start e k = do {
     (rootfs, k) \<leftarrow> find_rootfs e k;
     if rootfs = [slash] then Some (Finished, k)
     else do {
       (pa, p) \<leftarrow> running_proc (k_vfs k);
       s \<leftarrow> upd_proc (k_sched k) pa (\<lambda>p. p\<lparr>working_directory := rootfs\<rparr>);
       run_rcfile e rootfs (k_set_sched s k)
     }
   }"

section \<open>The loop over command lines\<close>

text \<open>After the start-up file, the shell waits until it is enabled.\<close>

definition shell_banner :: "string" where
  "shell_banner = [CHR 0x0A] @ ''** enabled kshell **'' @ [CHR 0x0A, CHR 0x0A]"

definition shell_main :: "'x kshell_env \<Rightarrow> 'x kshell \<Rightarrow> (cmd_end \<times> 'x kshell) kern" where
  "shell_main e k = do {
     (r, k) \<leftarrow> shell_start e k;
     if r \<noteq> Finished then Some (r, k)
     else do {
       (r, l, s) \<leftarrow> sem_wait (k_sched k) (ke_esp e) (ks_lock k);
       let k = k_set_sched s (k\<lparr>ks_lock := l\<rparr>);
       case r of
         Some r \<Rightarrow> Some (Waits_enabled r shell_banner, k)
       | None \<Rightarrow> do { k \<leftarrow> say shell_banner [] k; Some (Finished, k) }
     }
   }"

definition say_text :: "string \<Rightarrow> 'x kshell \<Rightarrow> 'x kshell" where
  "say_text t k = k\<lparr>ks_out := ks_out k @ [Text t]\<rparr>"

definition start_line :: "'x kshell \<Rightarrow> (string \<times> 'x kshell) kern" where
  "start_line k = do {
     (pa, p) \<leftarrow> running_proc (k_vfs k);
     (prompt, n) \<leftarrow> fmt_buffer (max_path_length + 11) [text_arg (working_directory p)] ''[kernel {}]# '';
     Some (prompt, (say_text (prompt @ underscore) k)\<lparr>ks_input_enabled := True\<rparr>)
   }"

text \<open>
  The loop over the keys that are typed, in the order in which the input queue delivers them. The
  first result is \<open>Finished\<close> when the shell waits for more keys.
\<close>

fun shell_keys :: "'x kshell_env \<Rightarrow> string \<Rightarrow> editor \<Rightarrow> string \<Rightarrow> 'x kshell \<Rightarrow> (cmd_end \<times> string \<times> editor \<times> 'x kshell) kern" where
  "shell_keys e prompt ed [] k = Some (Finished, [], ed, k)"
| "shell_keys e prompt ed (c # cs) k =
     (case edit_key prompt c ed of (ev, out, ed) \<Rightarrow> do {
        let k = say_text out k;
        (r, k) \<leftarrow> (case ev of
            Runs line \<Rightarrow> do { as \<leftarrow> command_args line; run_command e as k }
          | End_of_input \<Rightarrow> run_command e [''exit''] (snd (on_hardware (emulator_off (ke_ports e)) k))
          | _ \<Rightarrow> Some (Finished, k));
        if ev = Edits then shell_keys e prompt ed cs k
        else if r \<noteq> Finished then Some (r, cs, ed\<lparr>ed_line := []\<rparr>, k)
        else do {
          (prompt, k) \<leftarrow> start_line k;
          shell_keys e prompt (ed\<lparr>ed_line := []\<rparr>) cs k
        }
      })"

section \<open>The init thread\<close>

text \<open>
  \<open>run_init\<close> of main.cc: load \<open>init.elf\<close> from the first disk, or enable the shell.
\<close>

definition run_init :: "'x kshell_env \<Rightarrow> 'x kshell \<Rightarrow> 'x kshell kern" where
  "run_init e k = do {
     (rootfs, k) \<leftarrow> find_rootfs e k;
     if starts_with rootfs ''/disk'' then do {
       let init_path = path_append rootfs ''/bin/init.elf'';
       (err, p, l) \<leftarrow> load_elf (ke_hw e) (ke_loader e) init_path [''init''] (ks_loader k);
       let k = k\<lparr>ks_loader := l\<rparr>;
       if err < 0 then do {
         k \<leftarrow> say_line ''could not find/load <{}>, good luck!'' [text_arg init_path] k;
         k \<leftarrow> say_line ''(error was: {})'' [error_arg err] k;
         shell_enable k
       }
       else do {
         s \<leftarrow> upd_proc (k_sched k) p (\<lambda>p. p\<lparr>working_directory := rootfs\<rparr>);
         Some (k_set_sched s k)
       }
     }
     else do {
       k \<leftarrow> say_line ''could not find init.elf, good luck!'' [] k;
       shell_enable k
     }
   }"

end
