(* ===== verification/KshellRead.thy ===== *)
theory KshellRead
  imports Kshell
begin

text \<open>
  What the commands \<open>cat\<close> and \<open>head\<close> of the kernel shell print of a file on a FAT32 file system, and when they come
  back.
\<close>

section \<open>Printed text\<close>

definition printed :: "shell_output list \<Rightarrow> string" where
  "printed os = concat (map (\<lambda>x. case x of Text t \<Rightarrow> t | Report r \<Rightarrow> []) os)"

lemma printed_simps [simp]:
  "printed [] = []" "printed (xs @ ys) = printed xs @ printed ys" "printed [Text t] = t"
  by (simp_all add: printed_def)

lemma format_char_plain: "run_format [char_arg c] ''{}'' = Some ([c], 1)"
  by (simp add: format_one.simps parse_one_def char_arg_def format_char_def default_flags_def padding_def)

lemma say_chars_text:
  "\<exists>k'. say_chars cs k = Some k' \<and> k_vfs k' = k_vfs k \<and> printed (ks_out k') = printed (ks_out k) @ cs"
proof (induction cs arbitrary: k)
  case (Cons c cs)
  let ?k = "k\<lparr>ks_out := ks_out k @ [Text [c]]\<rparr>"
  have "say ''{}'' [char_arg c] k = Some ?k" by (simp add: say_def format_char_plain del: run_format.simps)
  with Cons.IH [of ?k] show ?case by (auto simp: k_vfs_def)
qed auto

lemma k_vfs_set [simp]: "k_vfs (set_vfs v k) = v" "ks_out (set_vfs v k) = ks_out k"
  by (simp_all add: k_vfs_def set_vfs_def)

section \<open>Reading a file through the shell\<close>

definition left :: "open_file \<Rightarrow> nat \<Rightarrow> nat" where "left fo pos = unat (i_size (f_inode fo)) - pos"

lemma shell_read_fat:
  assumes "fat_file_open (ke_hw e) content P f0 K fd fo pos (k_vfs k)" "n \<le> 512"
  shows "\<exists>v. shell_read e fd n k
      = Some (int (min n (left fo pos)), file_bytes content f0 (f_inode fo) pos (min n (left fo pos)), set_vfs v k)
    \<and> fat_file_open (ke_hw e) content P f0 K fd fo (pos + min n (left fo pos)) v"
proof -
  have "n < 2 ^ 31" using assms(2) by simp
  from vfs_read_step [OF assms(1) this refl] show ?thesis
    by (auto simp: shell_read_def left_def)
qed

text \<open>One round of a printing loop: the bytes are read and printed.\<close>

lemma print_step:
  assumes "fat_file_open (ke_hw e) content P f0 K fd fo pos (k_vfs k)" "n \<le> 512"
  shows "\<exists>k1 k2. shell_read e fd n k = Some (int (min n (left fo pos)),
        file_bytes content f0 (f_inode fo) pos (min n (left fo pos)), k1)
      \<and> (say_chars (map byte_char (file_bytes content f0 (f_inode fo) pos (min n (left fo pos)))) k1 = Some k2)
      \<and> ks_out k1 = ks_out k
      \<and> fat_file_open (ke_hw e) content P f0 K fd fo (pos + min n (left fo pos)) (k_vfs k1)
      \<and> fat_file_open (ke_hw e) content P f0 K fd fo (pos + min n (left fo pos)) (k_vfs k2)
      \<and> printed (ks_out k2) = printed (ks_out k)
          @ map byte_char (file_bytes content f0 (f_inode fo) pos (min n (left fo pos)))"
proof -
  from shell_read_fat [OF assms] obtain v where
    "shell_read e fd n k = Some (int (min n (left fo pos)), file_bytes content f0 (f_inode fo) pos (min n (left fo pos)), set_vfs v k)"
    "fat_file_open (ke_hw e) content P f0 K fd fo (pos + min n (left fo pos)) v" by blast
  with say_chars_text [of "map byte_char (file_bytes content f0 (f_inode fo) pos (min n (left fo pos)))" "set_vfs v k"]
  show ?thesis by fastforce
qed

text \<open>
  C33: \<open>cat\<close> of the kernel shell comes back, and prints exactly the bytes of the file from the position of its
  descriptor to the end.
\<close>

theorem cat_prints_file:
  assumes "fat_file_open (ke_hw e) content P f0 K fd fo pos (k_vfs k)"
  shows "\<exists>k'. cat_loop e False fd off m k = Some k'
    \<and> printed (ks_out k') = printed (ks_out k)
        @ map byte_char (file_bytes content f0 (f_inode fo) pos (unat (i_size (f_inode fo)) - pos))"
  using assms
proof (induction "left fo pos" arbitrary: pos off m k rule: less_induct)
  case less
  let ?n = "min 512 (left fo pos)"
  let ?bs = "file_bytes content f0 (f_inode fo) pos ?n"
  from print_step [OF less.prems, of 512] obtain k1 k2 where
    r: "shell_read e fd 512 k = Some (int ?n, ?bs, k1)" "say_chars (map byte_char ?bs) k1 = Some k2" "ks_out k1 = ks_out k"
    and o: "fat_file_open (ke_hw e) content P f0 K fd fo (pos + ?n) (k_vfs k2)"
    and p: "printed (ks_out k2) = printed (ks_out k) @ map byte_char ?bs" by auto
  show ?case
  proof (cases "left fo pos = 0")
    case True
    with r show ?thesis by (subst cat_loop.simps) (simp add: left_def)
  next
    case False
    have "left fo (pos + ?n) < left fo pos" using False by (simp add: left_def)
    from less.hyps [OF this o] obtain k' where
      k': "cat_loop e False fd (off + of_int (int ?n)) (fill (ke_buffer e) ?bs m) k2 = Some k'"
      "printed (ks_out k') = printed (ks_out k2)
        @ map byte_char (file_bytes content f0 (f_inode fo) (pos + ?n) (unat (i_size (f_inode fo)) - (pos + ?n)))" by blast
    have "unat (i_size (f_inode fo)) - pos = ?n + (unat (i_size (f_inode fo)) - (pos + ?n))" by (simp add: left_def)
    then have "?bs @ file_bytes content f0 (f_inode fo) (pos + ?n) (unat (i_size (f_inode fo)) - (pos + ?n))
        = file_bytes content f0 (f_inode fo) pos (unat (i_size (f_inode fo)) - pos)"
      by (metis file_bytes_append)
    then have "printed (ks_out k') = printed (ks_out k)
        @ map byte_char (file_bytes content f0 (f_inode fo) pos (unat (i_size (f_inode fo)) - pos))"
      using k'(2) p by (metis append.assoc map_append)
    moreover have "cat_loop e False fd off m k = Some k'"
      using False r k'(1) by (subst cat_loop.simps) (simp add: Let_def)
    ultimately show ?thesis by blast
  qed
qed

section \<open>The first bytes of a file\<close>

lemma head_loop_hangs:
  assumes "head_loop e hex fd nbytes got m k = Some k'" "\<not> hex"
    "fat_file_open (ke_hw e) content P f0 K fd fo pos (k_vfs k)" "left fo pos < nbytes - got"
  shows False
  using assms
proof (induction arbitrary: pos rule: head_loop.raw_induct [rotated, consumes 1, case_names step])
  case (step head_loop' e hex fd nbytes got m k k')
  let ?n = "min 512 (nbytes - got)"
  let ?m = "min ?n (left fo pos)"
  from print_step [OF step.prems(2), of ?n] obtain k1 k2 where
    r: "shell_read e fd ?n k = Some (int ?m, file_bytes content f0 (f_inode fo) pos ?m, k1)"
      "say_chars (map byte_char (file_bytes content f0 (f_inode fo) pos ?m)) k1 = Some k2"
    and o: "fat_file_open (ke_hw e) content P f0 K fd fo (pos + ?m) (k_vfs k2)" by auto
  have "head_loop' e hex fd nbytes (got + ?m) (fill (ke_buffer e) (file_bytes content f0 (f_inode fo) pos ?m) m) k2 = Some k'"
    using step.hyps step.prems r by (simp add: Let_def split: if_splits)
  moreover have "left fo (pos + ?m) < nbytes - (got + ?m)"
    using step.prems(3) by (auto simp: left_def min_def)
  ultimately show False using step.IH step.prems(1) o by blast
qed

lemma head_loop_prints:
  assumes "fat_file_open (ke_hw e) content P f0 K fd fo pos (k_vfs k)" "nbytes - got \<le> left fo pos"
  shows "\<exists>k'. head_loop e False fd nbytes got m k = Some k'
    \<and> printed (ks_out k') = printed (ks_out k) @ map byte_char (file_bytes content f0 (f_inode fo) pos (nbytes - got))"
  using assms
proof (induction "nbytes - got" arbitrary: pos got m k rule: less_induct)
  case less
  let ?n = "min 512 (nbytes - got)"
  let ?bs = "file_bytes content f0 (f_inode fo) pos ?n"
  have n: "min ?n (left fo pos) = ?n" using less.prems(2) by simp
  from print_step [OF less.prems(1), of ?n] obtain k1 k2 where
    r: "shell_read e fd ?n k = Some (int ?n, ?bs, k1)" "say_chars (map byte_char ?bs) k1 = Some k2"
    and o: "fat_file_open (ke_hw e) content P f0 K fd fo (pos + ?n) (k_vfs k2)"
    and p: "printed (ks_out k2) = printed (ks_out k) @ map byte_char ?bs" unfolding n by auto
  show ?case
  proof (cases "got < nbytes")
    case False
    then show ?thesis by (subst head_loop.simps) simp
  next
    case True
    have l: "nbytes - (got + ?n) < nbytes - got" "nbytes - (got + ?n) \<le> left fo (pos + ?n)"
      using True less.prems(2) by (auto simp: left_def)
    from less.hyps [OF l(1) o l(2)] obtain k' where
      k': "head_loop e False fd nbytes (got + ?n) (fill (ke_buffer e) ?bs m) k2 = Some k'"
      "printed (ks_out k') = printed (ks_out k2)
        @ map byte_char (file_bytes content f0 (f_inode fo) (pos + ?n) (nbytes - (got + ?n)))" by blast
    have "?bs @ file_bytes content f0 (f_inode fo) (pos + ?n) (nbytes - (got + ?n))
        = file_bytes content f0 (f_inode fo) pos (nbytes - got)"
    proof -
      have "?n + (nbytes - (got + ?n)) = nbytes - got" by simp
      then show ?thesis unfolding file_bytes_append by metis
    qed
    then have "printed (ks_out k') = printed (ks_out k) @ map byte_char (file_bytes content f0 (f_inode fo) pos (nbytes - got))"
      using k'(2) p by (metis append.assoc map_append)
    moreover have "head_loop e False fd nbytes got m k = Some k'"
      using True r k'(1) by (subst head_loop.simps) (simp add: Let_def)
    ultimately show ?thesis by blast
  qed
qed

text \<open>
  C40: \<open>head\<close> of the kernel shell prints the first bytes of a file when the file has that many left, and never comes back
  otherwise: at the end of the file it reads 0 bytes again and again.
\<close>

theorem head_needs_enough_bytes:
  assumes "fat_file_open (ke_hw e) content P f0 K fd fo pos (k_vfs k)"
  shows "if nbytes \<le> unat (i_size (f_inode fo)) - pos
    then \<exists>k'. head_loop e False fd nbytes 0 m k = Some k'
      \<and> printed (ks_out k') = printed (ks_out k) @ map byte_char (file_bytes content f0 (f_inode fo) pos nbytes)
    else head_loop e False fd nbytes 0 m k = None"
proof (cases "nbytes \<le> left fo pos")
  case True
  with head_loop_prints [OF assms, of nbytes 0] show ?thesis by (simp add: left_def)
next
  case False
  then have "head_loop e False fd nbytes 0 m k = None"
    using head_loop_hangs [of e False fd nbytes 0 m k _ content P f0 K fo pos] assms by fastforce
  with False show ?thesis by (simp add: left_def)
qed

section \<open>Examples\<close>

definition ram_env :: "unit kshell_env" where
  "ram_env = \<lparr>ke_hw = no_hw, ke_ports = undefined, ke_handle = \<lambda>v. 0, ke_file = \<lambda>v. 0, ke_esp = 0,
     ke_loader = undefined, ke_buffer = 0x1000, ke_stack = \<lambda>a. 0\<rparr>"

definition ram_shell :: "unit kshell" where
  "ram_shell = \<lparr>ks_loader = \<lparr>l_vfs = ram_vfs, l_vmm = undefined, l_spaces = Map.empty\<rparr>, ks_enabled = True,
     ks_input_enabled = False, ks_lock = new_semaphore 0, ks_vga = undefined, ks_out = []\<rparr>"

lemma ram_shell_open:
  "fat_file_open (ke_hw ram_env) ram_content (\<lambda>s. io_mem s = io_mem no_io) ram_fs 0 3 ram_file_obj 1 (k_vfs ram_shell)"
  using ram_vfs_open by (simp add: ram_env_def ram_shell_def k_vfs_def)

theorem cat_prints_file_witness:
  "\<exists>k'. cat_loop ram_env False 3 0 (\<lambda>a. 0) ram_shell = Some k' \<and> length (printed (ks_out k')) = 4"
  using cat_prints_file [OF ram_shell_open, of 0 "\<lambda>a. 0"] by (auto simp: ram_file_size ram_shell_def)

theorem head_needs_enough_bytes_witness:
  "head_loop ram_env False 3 10 0 (\<lambda>a. 0) ram_shell = None"
  using head_needs_enough_bytes [OF ram_shell_open, of 10 "\<lambda>a. 0"] by (simp add: ram_file_size)

end
