(* ===== verification/UserLib.thy ===== *)
theory UserLib
  imports OsFormat Inode Kprint
begin

text \<open>
  The system library of the user programs (user/libsys): opening, reading and writing files, lines, printing,
  spawning processes. What the system calls do is a parameter, a record of functions on a state \<open>'o\<close>
  of the rest of the system; theory Syscall has the kernel's side.
\<close>

section \<open>System calls\<close>

record sys_entry =
  se_name :: string
  se_ino :: u64
  se_type :: u32
  se_perm :: u32
  se_size :: u64

record 'o os =
  os_open :: "int \<Rightarrow> string \<Rightarrow> u32 \<Rightarrow> 'o \<Rightarrow> int \<times> 'o"
  os_close :: "int \<Rightarrow> 'o \<Rightarrow> int \<times> 'o"
  os_read :: "int \<Rightarrow> nat \<Rightarrow> 'o \<Rightarrow> int \<times> u8 list \<times> 'o"
  os_write :: "int \<Rightarrow> u8 list \<Rightarrow> 'o \<Rightarrow> int \<times> 'o"
  os_read_dir :: "int \<Rightarrow> 'o \<Rightarrow> int \<times> sys_entry \<times> 'o"
  os_seek :: "int \<Rightarrow> int \<Rightarrow> int \<Rightarrow> 'o \<Rightarrow> int \<times> 'o"
  os_spawn :: "string \<Rightarrow> string list \<Rightarrow> bool \<Rightarrow> int list \<Rightarrow> 'o \<Rightarrow> int \<times> 'o"
  os_get_cwd :: "nat \<Rightarrow> 'o \<Rightarrow> int \<times> string \<times> 'o"
  os_set_cwd :: "string \<Rightarrow> 'o \<Rightarrow> int \<times> 'o"
  os_duplicate_fd :: "int \<Rightarrow> int \<Rightarrow> 'o \<Rightarrow> int \<times> 'o"
  os_pipe :: "'o \<Rightarrow> int \<times> (int \<times> int) \<times> 'o"

definition stdin :: int where "stdin = 0"
definition stdout :: int where "stdout = 1"
definition stderr :: int where "stderr = 2"

text \<open>A program that deletes its thread does not return.\<close>

datatype 'a run =
  Back 'a
| Deleted

section \<open>Files\<close>

fun mode_flags :: "string \<Rightarrow> u32 \<Rightarrow> u32 option" where
  "mode_flags [] flags = Some flags"
| "mode_flags (c # cs) flags =
     (if c = CHR ''r'' then mode_flags cs (flags OR o_read)
      else if c = CHR ''w'' then mode_flags cs (flags OR o_write)
      else if c = CHR ''a'' then mode_flags cs (flags OR o_append)
      else if c = CHR ''t'' then mode_flags cs (flags OR o_truncate)
      else if c = CHR ''c'' then mode_flags cs (flags OR o_create)
      else if c = CHR ''d'' then mode_flags cs (flags OR o_dir)
      else None)"

definition u_open_fd :: "'o os \<Rightarrow> int \<Rightarrow> string \<Rightarrow> string \<Rightarrow> 'o \<Rightarrow> int \<times> 'o" where
  "u_open_fd os fd path mode s =
     (case mode_flags mode 0 of None \<Rightarrow> (ERR_invalid, s) | Some flags \<Rightarrow> os_open os fd path flags s)"

definition u_open :: "'o os \<Rightarrow> string \<Rightarrow> string \<Rightarrow> 'o \<Rightarrow> int \<times> 'o" where
  "u_open os path mode s = u_open_fd os (-1) path mode s"

text \<open>\<open>read_dir\<close> copies the entry only when there is one; \<open>d\<close> is what the destination held.\<close>

definition u_read_dir :: "'o os \<Rightarrow> int \<Rightarrow> sys_entry \<Rightarrow> 'o \<Rightarrow> int \<times> sys_entry \<times> 'o" where
  "u_read_dir os fd d s = (case os_read_dir os fd s of (r, e, s) \<Rightarrow> if r \<le> 0 then (r, d, s) else (r, e, s))"

definition u_pipe :: "'o os \<Rightarrow> int \<times> int \<Rightarrow> 'o \<Rightarrow> int \<times> (int \<times> int) \<times> 'o" where
  "u_pipe os old s = (case os_pipe os s of (err, fds, s) \<Rightarrow> (err, if err < 0 then old else fds, s))"

text \<open>\<open>read_all\<close> and \<open>write_all\<close>; the latter does not end when writes of 0 bytes are reported.\<close>

partial_function (option) u_read_loop :: "'o os \<Rightarrow> int \<Rightarrow> nat \<Rightarrow> u8 list \<Rightarrow> 'o \<Rightarrow> (int \<times> u8 list \<times> 'o) option" where
  "u_read_loop os fd n got s =
     (if length got \<ge> n then Some (int (length got), got, s)
      else case os_read os fd (n - length got) s of (x, bs, s) \<Rightarrow>
        if x \<le> 0 then Some (x, got, s) else u_read_loop os fd n (got @ take (nat x) bs) s)"

definition u_read_all :: "'o os \<Rightarrow> int \<Rightarrow> nat \<Rightarrow> 'o \<Rightarrow> (int \<times> u8 list \<times> 'o) option" where
  "u_read_all os fd n s = (if n > 0x7fffffff then Some (ERR_invalid, [], s) else u_read_loop os fd n [] s)"

partial_function (option) u_write_loop :: "'o os \<Rightarrow> int \<Rightarrow> u8 list \<Rightarrow> nat \<Rightarrow> 'o \<Rightarrow> (int \<times> 'o) option" where
  "u_write_loop os fd buf k s =
     (if k \<ge> length buf then Some (int k, s)
      else case os_write os fd (drop k buf) s of (x, s) \<Rightarrow>
        if x < 0 then Some (x, s) else u_write_loop os fd buf (k + nat x) s)"

definition u_write_all :: "'o os \<Rightarrow> int \<Rightarrow> u8 list \<Rightarrow> 'o \<Rightarrow> (int \<times> 'o) option" where
  "u_write_all os fd buf s =
     (if length buf > 0x7fffffff then Some (ERR_invalid, s) else u_write_loop os fd buf 0 s)"

text \<open>
  \<open>getline\<close> into a \<open>String<N>\<close>, byte by byte; after every byte the string is searched for the end of a line.
\<close>

definition line_end :: "char \<Rightarrow> bool" where "line_end c \<longleftrightarrow> c = CHR 0x0A \<or> c = CHR 0x0D"

partial_function (option) getline_loop :: "'o os \<Rightarrow> int \<Rightarrow> nat \<Rightarrow> string \<Rightarrow> 'o \<Rightarrow> (int \<times> string \<times> 'o) option" where
  "getline_loop os fd N str s =
     (if length str < N then
        case os_read os fd 1 s of (n, bs, s) \<Rightarrow>
          if n \<le> 0 then Some (n, str, s)
          else let str = str @ map byte_char (take (nat n) bs) in
            case find_index line_end str of
              Some i \<Rightarrow> Some (int (i + 1), take (i + 1) str, s)
            | None \<Rightarrow> getline_loop os fd N str s
      else Some (int (N + 1), str, s))"

definition getline :: "'o os \<Rightarrow> int \<Rightarrow> nat \<Rightarrow> 'o \<Rightarrow> (int \<times> string \<times> 'o) option" where
  "getline os fd N s = getline_loop os fd N [] s"

text \<open>A character is signed; the end of the file has an error number of its own.\<close>

definition getchar :: "'o os \<Rightarrow> int \<Rightarrow> 'o \<Rightarrow> (int \<times> 'o) option" where
  "getchar os fd s = do {
     (err, bs, s) \<leftarrow> u_read_all os fd 1 s;
     Some (if err < 0 then err else if err = 0 then ERR_eof else sint (bs ! 0), s)
   }"

definition putchar :: "'o os \<Rightarrow> int \<Rightarrow> char \<Rightarrow> 'o \<Rightarrow> (int \<times> 'o) option" where
  "putchar os fd c s = u_write_all os fd [of_char c] s"

section \<open>Printing\<close>

text \<open>The callback of \<open>print\<close>: after an error the rest is dropped.\<close>

fun put_chars :: "'o os \<Rightarrow> int \<Rightarrow> string \<Rightarrow> int \<Rightarrow> int \<Rightarrow> 'o \<Rightarrow> (int \<times> 'o) option" where
  "put_chars os fd [] err n s = Some (if err < 0 then err else n, s)"
| "put_chars os fd (c # cs) err n s =
     (if err < 0 then put_chars os fd cs err n s
      else do {
        (err, s) \<leftarrow> putchar os fd c s;
        put_chars os fd cs err (if err \<ge> 0 then n + 1 else n) s
      })"

definition u_print :: "'o os \<Rightarrow> int \<Rightarrow> string \<Rightarrow> fmt_arg list \<Rightarrow> 'o \<Rightarrow> (int \<times> 'o) option" where
  "u_print os fd fs as s = do { (t, n) \<leftarrow> run_format as fs; put_chars os fd t 0 0 s }"

definition print_line :: "'o os \<Rightarrow> int \<Rightarrow> string \<Rightarrow> fmt_arg list \<Rightarrow> 'o \<Rightarrow> 'o option" where
  "print_line os fd fs as s = do { (n, s) \<leftarrow> u_print os fd (fs @ [CHR 0x0A]) as s; Some s }"

section \<open>Processes\<close>

definition spawn_fd_clear :: int where "spawn_fd_clear = -1"
definition spawn_fd_inherit :: int where "spawn_fd_inherit = -2"

text \<open>\<open>sys_spawn\<close> refuses too many arguments.\<close>

definition sys_spawn_call :: "'o os \<Rightarrow> string \<Rightarrow> string list \<Rightarrow> bool \<Rightarrow> int list \<Rightarrow> 'o \<Rightarrow> int \<times> 'o" where
  "sys_spawn_call os path args do_wait fds s =
     (if length args > max_args then (ERR_invalid, s) else os_spawn os path args do_wait fds s)"

fun close_created :: "'o os \<Rightarrow> (bool \<times> int) list \<Rightarrow> 'o \<Rightarrow> 'o" where
  "close_created os [] s = s"
| "close_created os ((c, fd) # cs) s = close_created os cs (if c then snd (os_close os fd s) else s)"

text \<open>
  Cloning the descriptors to inherit, from number \<open>i\<close> on: \<open>before\<close> are the ones dealt with, with the mark of a
  created one. \<open>Inl\<close> is the error that is returned after the roll-back.
\<close>

fun inherit_fds :: "'o os \<Rightarrow> int \<Rightarrow> (bool \<times> int) list \<Rightarrow> int list \<Rightarrow> 'o \<Rightarrow> (int + (bool \<times> int) list) \<times> 'o" where
  "inherit_fds os i before [] s = (Inr before, s)"
| "inherit_fds os i before (fd # fds) s =
     (if fd = spawn_fd_inherit then
        case os_duplicate_fd os (-1) i s of (fd, s) \<Rightarrow>
          if fd < 0 \<and> fd \<noteq> ERR_bad_fd then (Inl fd, close_created os before s)
          else inherit_fds os (i + 1) (before @ [(True, if fd < 0 then spawn_fd_clear else fd)]) fds s
      else inherit_fds os (i + 1) (before @ [(False, fd)]) fds s)"

definition u_spawn :: "'o os \<Rightarrow> string \<Rightarrow> string list \<Rightarrow> bool \<Rightarrow> int list \<Rightarrow> 'o \<Rightarrow> int \<times> 'o" where
  "u_spawn os path args do_wait fds s =
     (case inherit_fds os 0 [] fds s of
        (Inl err, s) \<Rightarrow> (err, s)
      | (Inr created, s) \<Rightarrow>
          case sys_spawn_call os path args do_wait (map snd created) s of (err, s) \<Rightarrow>
            (err, if err < 0 then close_created os created s else s))"

definition inherit_all :: "int list" where
  "inherit_all = [spawn_fd_inherit, spawn_fd_inherit, spawn_fd_inherit]"

text \<open>\<open>get_cwd\<close>: the text, or the error.\<close>

definition u_get_cwd :: "'o os \<Rightarrow> 'o \<Rightarrow> int \<times> string \<times> 'o" where
  "u_get_cwd os s = (case os_get_cwd os max_path_length s of (len, t, s) \<Rightarrow>
     if len < 0 then (len, [], s) else (len, take (nat len) t, s))"

section \<open>Files as sources of bytes\<close>

text \<open>
  \<open>getline\<close> as a function of the text to come: up to the first end of a line among the first \<open>N\<close> characters;
  of a file that ends before one, everything and 0; of a longer line, its first \<open>N\<close> characters and \<open>N + 1\<close>.
\<close>

definition next_line :: "nat \<Rightarrow> string \<Rightarrow> int \<times> string" where
  "next_line N t = (case find_index line_end (take N t) of
     Some i \<Rightarrow> (int (i + 1), take (i + 1) t)
   | None \<Rightarrow> if length t < N then (0, t) else (int (N + 1), take N t))"

lemma next_line_split:
  assumes "\<forall>c \<in> set str. \<not> line_end c" "length str < N"
  shows "next_line N (str @ []) = (0, str)"
    and "line_end c \<Longrightarrow> next_line N (str @ c # t) = (int (length str + 1), str @ [c])"
  using assms iffD2 [OF find_index_None, of str line_end]
  by (simp_all add: next_line_def find_index_append find_index_simps take_Cons' Suc_diff_Suc)

text \<open>
  What reading from a file promises: in the states \<open>inv\<close>, with the bytes \<open>rest\<close> still to come, a read delivers
  some of them, at least one unless the file is at its end.
\<close>

locale byte_source =
  fixes rd :: "nat \<Rightarrow> 'o \<Rightarrow> int \<times> u8 list \<times> 'o"
    and inv :: "'o \<Rightarrow> bool"
    and rest :: "'o \<Rightarrow> u8 list"
  assumes rd_some: "inv s \<Longrightarrow> 0 < n \<Longrightarrow> n < 2 ^ 31 \<Longrightarrow> \<exists>bs s'. rd n s = (int (length bs), bs, s') \<and> length bs \<le> n
      \<and> rest s = bs @ rest s' \<and> inv s' \<and> (bs = [] \<longrightarrow> rest s = [])"
begin

lemma rd_one:
  assumes "inv s"
  shows "rest s = [] \<Longrightarrow> \<exists>s'. rd 1 s = (0, [], s') \<and> inv s' \<and> rest s' = []"
    and "rest s = b # bs \<Longrightarrow> \<exists>s'. rd 1 s = (1, [b], s') \<and> inv s' \<and> rest s' = bs"
proof -
  obtain cs s' where r: "rd 1 s = (int (length cs), cs, s')" "length cs \<le> 1" "rest s = cs @ rest s'" "inv s'"
    "cs = [] \<longrightarrow> rest s = []"
    using rd_some [OF assms, of 1] by auto
  show "rest s = [] \<Longrightarrow> \<exists>s'. rd 1 s = (0, [], s') \<and> inv s' \<and> rest s' = []"
    using r by auto
  show "rest s = b # bs \<Longrightarrow> \<exists>s'. rd 1 s = (1, [b], s') \<and> inv s' \<and> rest s' = bs"
    using r by (cases cs) auto
qed

lemma getline_loop_line:
  assumes "os_read os fd = rd" "inv s" "\<forall>c \<in> set str. \<not> line_end c" "length str \<le> N"
  shows "\<exists>n line s'. getline_loop os fd N str s = Some (n, line, s') \<and> inv s'
    \<and> (n, line) = next_line N (str @ map byte_char (rest s))
    \<and> str @ map byte_char (rest s) = line @ map byte_char (rest s')"
  using assms(2-)
proof (induction "N - length str" arbitrary: s str)
  case 0
  then have "next_line N (str @ t) = (int (N + 1), str)" for t
    by (simp add: next_line_def find_index_append [of str _ "[]", simplified] find_index_simps)
  with 0 show ?case by (subst getline_loop.simps) auto
next
  case (Suc m)
  then have short: "length str < N" by simp
  show ?case
  proof (cases "rest s")
    case Nil
    with rd_one(1) [OF Suc.prems(1)] obtain s' where "rd 1 s = (0, [], s')" "inv s'" "rest s' = []" by blast
    then have "getline_loop os fd N str s = Some (0, str, s')"
      using short assms(1) by (subst getline_loop.simps) simp
    with next_line_split(1) [OF Suc.prems(2) short] \<open>inv s'\<close> \<open>rest s' = []\<close> Nil show ?thesis by simp
  next
    case (Cons b bs)
    with rd_one(2) [OF Suc.prems(1)] obtain s1 where r: "rd 1 s = (1, [b], s1)" "inv s1" "rest s1 = bs" by blast
    let ?c = "byte_char b"
    have step: "getline_loop os fd N str s = (case find_index line_end (str @ [?c]) of
        Some i \<Rightarrow> Some (int (i + 1), take (i + 1) (str @ [?c]), s1)
      | None \<Rightarrow> getline_loop os fd N (str @ [?c]) s1)"
      using short assms(1) r by (subst getline_loop.simps) (simp add: Let_def split: option.split)
    show ?thesis
    proof (cases "line_end ?c")
      case True
      then have "getline_loop os fd N str s = Some (int (length str + 1), str @ [?c], s1)"
        using step Suc.prems(2) by (simp add: find_index_append find_index_simps)
      with next_line_split(2) [OF Suc.prems(2) short True, of "map byte_char bs"] r Cons show ?thesis by simp
    next
      case False
      then have "getline_loop os fd N str s = getline_loop os fd N (str @ [?c]) s1"
        using step Suc.prems(2) by (simp add: find_index_append find_index_simps)
      moreover have "\<exists>n line s'. getline_loop os fd N (str @ [?c]) s1 = Some (n, line, s') \<and> inv s'
          \<and> (n, line) = next_line N ((str @ [?c]) @ map byte_char (rest s1))
          \<and> (str @ [?c]) @ map byte_char (rest s1) = line @ map byte_char (rest s')"
        using Suc False short r(2) by (intro Suc.hyps(1)) auto
      ultimately show ?thesis using r Cons by simp
    qed
  qed
qed

end

end
