(* ===== verification/UserShell.thy ===== *)
theory UserShell
  imports UserLib ShellArgs Path
begin

text \<open>
  The shell of the user space (user/shell/main.cc): built-in commands, programs and where they are looked for,
  command files, and the loop over the lines of the standard input. Splitting a line is theory ShellArgs.
\<close>

section \<open>State\<close>

record 'o ushell =
  sh_cwd :: string
  sh_os :: 'o

definition on_os :: "('o \<Rightarrow> 'a \<times> 'o) \<Rightarrow> 'o ushell \<Rightarrow> 'a \<times> 'o ushell" where
  "on_os f sh = (case f (sh_os sh) of (x, s) \<Rightarrow> (x, sh\<lparr>sh_os := s\<rparr>))"

definition on_os_run :: "('o \<Rightarrow> ('a \<times> 'o) option) \<Rightarrow> 'o ushell \<Rightarrow> ('a \<times> 'o ushell) option" where
  "on_os_run f sh = do { (x, s) \<leftarrow> f (sh_os sh); Some (x, sh\<lparr>sh_os := s\<rparr>) }"

definition tell :: "'o os \<Rightarrow> int \<Rightarrow> string \<Rightarrow> fmt_arg list \<Rightarrow> 'o ushell \<Rightarrow> 'o ushell option" where
  "tell os fd fs as sh = do { (n, sh) \<leftarrow> on_os_run (u_print os fd fs as) sh; Some sh }"

definition tell_line :: "'o os \<Rightarrow> int \<Rightarrow> string \<Rightarrow> fmt_arg list \<Rightarrow> 'o ushell \<Rightarrow> 'o ushell option" where
  "tell_line os fd fs as sh = tell os fd (fs @ [CHR 0x0A]) as sh"

definition refresh_cwd :: "'o os \<Rightarrow> 'o ushell \<Rightarrow> 'o ushell" where
  "refresh_cwd os sh = (case u_get_cwd os (sh_os sh) of (err, t, s) \<Rightarrow> \<lparr>sh_cwd = t, sh_os = s\<rparr>)"

section \<open>Built-in commands\<close>

text \<open>\<open>argv\<close> is the whole array: the arguments in use, and empty ones after them.\<close>

definition builtin_cd :: "'o os \<Rightarrow> string list \<Rightarrow> nat \<Rightarrow> 'o ushell \<Rightarrow> 'o ushell option" where
  "builtin_cd os args n sh =
     (if n \<noteq> 2 then tell_line os stderr ''usage: cd <path>'' [] sh
      else case on_os (os_set_cwd os (args ! 1)) sh of (err, sh) \<Rightarrow>
        if err < 0 then tell_line os stderr ''error: could not change working directory: {}'' [error_arg err] sh
        else Some (refresh_cwd os sh))"

definition shell_help :: "string list" where
  "shell_help = [''this is the RikaiOS shell'', ''builtin commands:'' @ [CHR 0x0A],
     ''  cd <path>            - changes working directory'',
     ''  help                 - prints this help text'',
     ''  put <file> <text...> - writes text to a file'',
     ''  pwd                  - prints working directory'',
     CHR 0x0A # ''.elf programs in the working directory can be executed as commands'']"

fun tell_lines :: "'o os \<Rightarrow> int \<Rightarrow> string list \<Rightarrow> 'o ushell \<Rightarrow> 'o ushell option" where
  "tell_lines os fd [] sh = Some sh"
| "tell_lines os fd (l # ls) sh = do { sh \<leftarrow> tell_line os fd l [] sh; tell_lines os fd ls sh }"

definition builtin_pause :: "'o os \<Rightarrow> string list \<Rightarrow> nat \<Rightarrow> 'o ushell \<Rightarrow> 'o ushell option" where
  "builtin_pause os args n sh =
     (if n = 2 then
        case on_os (u_open os (args ! 1) ''r'') sh of (fd, sh) \<Rightarrow>
          if fd < 0 then tell_line os stderr ''could not open file: {}'' [error_arg fd] sh
          else do {
            (m, line, s) \<leftarrow> getline os fd 100 (sh_os sh);
            Some (sh\<lparr>sh_os := snd (os_close os fd s)\<rparr>)
          }
      else do { (m, line, s) \<leftarrow> getline os stdin 100 (sh_os sh); Some (sh\<lparr>sh_os := s\<rparr>) })"

definition builtin_pwd :: "'o os \<Rightarrow> nat \<Rightarrow> 'o ushell \<Rightarrow> 'o ushell option" where
  "builtin_pwd os n sh =
     (if n \<noteq> 1 then tell_line os stderr ''usage: pwd'' [] sh
      else tell_line os stdout ''{}'' [text_arg (sh_cwd sh)] sh)"

text \<open>\<open>put\<close>: the words are written without anything between them, and a newline after them.\<close>

fun put_words :: "'o os \<Rightarrow> int \<Rightarrow> string list \<Rightarrow> 'o ushell \<Rightarrow> 'o ushell option" where
  "put_words os fd [] sh = Some sh"
| "put_words os fd (w # ws) sh = do {
     (err, sh) \<leftarrow> on_os_run (u_write_all os fd (map of_char w)) sh;
     if err < 0 then tell_line os stderr ''write failed: {}'' [error_arg err] sh
     else put_words os fd ws sh
   }"

definition builtin_put :: "'o os \<Rightarrow> string list \<Rightarrow> nat \<Rightarrow> 'o ushell \<Rightarrow> 'o ushell option" where
  "builtin_put os args n sh =
     (if n < 2 then tell_line os stderr ''usage: put <file> [text]...'' [] sh
      else case on_os (u_open os (args ! 1) ''w'') sh of (fd, sh) \<Rightarrow>
        if fd < 0 then tell_line os stderr ''open failed: {}'' [error_arg fd] sh
        else do {
          sh \<leftarrow> put_words os fd (drop 2 (take n args)) sh;
          (err, sh) \<leftarrow> on_os_run (putchar os fd (CHR 0x0A)) sh;
          Some (snd (on_os (os_close os fd) sh))
        })"

definition builtin_test :: "'o os \<Rightarrow> 'o ushell \<Rightarrow> 'o ushell option" where
  "builtin_test os sh =
     (case on_os (u_open os ''/dev/keyboard'' ''r'') sh of (kb, sh) \<Rightarrow>
        if kb < 0 then tell_line os stderr ''could not open keyboard: {}'' [error_arg kb] sh
        else Some (snd (on_os (u_spawn os ''shell.elf'' [''shell''] True [kb, spawn_fd_inherit, spawn_fd_inherit]) sh)))"

text \<open>\<open>None\<close>: not a built-in command.\<close>

definition handle_builtin :: "'o os \<Rightarrow> string list \<Rightarrow> nat \<Rightarrow> 'o ushell \<Rightarrow> 'o ushell option option" where
  "handle_builtin os args n sh =
     (let cmd = args ! 0 in
      if cmd = ''cd'' then Some (builtin_cd os args n sh)
      else if cmd = ''help'' then Some (tell_lines os stdout shell_help sh)
      else if cmd = ''pause'' then Some (builtin_pause os args n sh)
      else if cmd = ''pwd'' then Some (builtin_pwd os n sh)
      else if cmd = ''put'' then Some (builtin_put os args n sh)
      else if cmd = ''test'' then Some (builtin_test os sh)
      else None)"

section \<open>Programs\<close>

definition program_path :: "string \<Rightarrow> string" where
  "program_path cmd =
     (let bin = assign_text max_path_length cmd in if ends_with bin ''.elf'' then bin else path_append bin ''.elf'')"

text \<open>The whole array of arguments is handed over, the empty ones included.\<close>

definition run_program :: "'o os \<Rightarrow> string list \<Rightarrow> 'o ushell \<Rightarrow> 'o ushell option" where
  "run_program os args sh =
     (let bin = program_path (args ! 0) in
      case on_os (u_spawn os bin args True inherit_all) sh of (err, sh) \<Rightarrow>
      case (if err = ERR_not_exists \<and> \<not> starts_with bin [slash]
            then on_os (u_spawn os (path_append ''/disk0p1/bin/'' bin) args True inherit_all) sh
            else (err, sh)) of (err, sh) \<Rightarrow>
        if err < 0 then tell_line os stdout ''cannot run <{}>: {}'' [text_arg (args ! 0), error_arg err] sh
        else Some sh)"

definition process_cmdline :: "'o os \<Rightarrow> string \<Rightarrow> 'o ushell \<Rightarrow> 'o ushell option" where
  "process_cmdline os line sh =
     (let line = str_rtrim line in
      if line = [] then Some sh
      else do {
        as \<leftarrow> command_args line;
        let n = length as;
        let args = as @ replicate (max_args - n) [];
        if n \<noteq> 0 \<and> args ! 0 \<noteq> [] \<and> hd (args ! 0) = CHR ''#'' then Some sh
        else case handle_builtin os args n sh of
          Some r \<Rightarrow> r
        | None \<Rightarrow> run_program os args sh
      })"

section \<open>Command files and the main loop\<close>

definition shell_line_size :: nat where "shell_line_size = 256"

text \<open>The loop of \<open>process_file\<close>: 0 at the end of the file, or the error of \<open>getline\<close>.\<close>

partial_function (option) file_loop :: "'o os \<Rightarrow> int \<Rightarrow> 'o ushell \<Rightarrow> (int \<times> 'o ushell) option" where
  "file_loop os fd sh = do {
     (n, line, s) \<leftarrow> getline os fd shell_line_size (sh_os sh);
     let sh = sh\<lparr>sh_os := s\<rparr>;
     if n \<le> 0 then Some (n, sh)
     else do { sh \<leftarrow> process_cmdline os line sh; file_loop os fd sh }
   }"

definition process_file :: "'o os \<Rightarrow> string \<Rightarrow> 'o ushell \<Rightarrow> (int \<times> 'o ushell) option" where
  "process_file os name sh =
     (case on_os (u_open os name ''r'') sh of (rc, sh) \<Rightarrow>
        if rc < 0 then Some (rc, sh)
        else do {
          (n, sh) \<leftarrow> file_loop os rc sh;
          if n < 0 then Some (n, sh) else Some (0, snd (on_os (os_close os rc) sh))
        })"

text \<open>The prompt is printed as a format.\<close>

partial_function (option) input_loop :: "'o os \<Rightarrow> 'o ushell \<Rightarrow> (int \<times> 'o ushell) option" where
  "input_loop os sh = do {
     (prompt, m) \<leftarrow> fmt_buffer (max_path_length + 16) [text_arg (sh_cwd sh)] ''{} % '';
     sh \<leftarrow> tell os stdout prompt [] sh;
     (n, line, s) \<leftarrow> getline os stdin shell_line_size (sh_os sh);
     let sh = sh\<lparr>sh_os := s\<rparr>;
     if n \<le> 0 then Some (n, sh)
     else do { sh \<leftarrow> process_cmdline os line sh; input_loop os sh }
   }"

definition shell_program :: "'o os \<Rightarrow> string list \<Rightarrow> 'o ushell \<Rightarrow> (int \<times> 'o ushell) option" where
  "shell_program os args sh =
     (let sh = refresh_cwd os sh in
      if length args = 2 then do {
        (err, sh) \<leftarrow> process_file os (args ! 1) sh;
        if err < 0 then do {
          sh \<leftarrow> tell_line os stderr (''could not run file '' @ CHR 0x27 # ''{}'' @ CHR 0x27 # '': {}'')
                 [text_arg (args ! 1), error_arg err] sh;
          Some (1, sh)
        }
        else Some (0, sh)
      }
      else do {
        (err, sh) \<leftarrow> process_file os ''shell.rc'' sh;
        (n, sh) \<leftarrow> input_loop os sh;
        if n < 0 then Some (1, sh)
        else do { sh \<leftarrow> tell_line os stdout (CHR 0x0A # ''shell exit (EOF)'') [] sh; Some (0, sh) }
      })"

end
