(* ===== verification/UserFiles.thy ===== *)
theory UserFiles
  imports UserLib VfsRead
begin

text \<open>
  The reads of a user program on a file of a FAT32 file system: what the virtual file system delivers for a
  descriptor is a source of bytes in the sense of theory UserLib, so lines come out as the file has them.
\<close>

definition bytes_left :: "(u32 \<Rightarrow> u8 list) \<Rightarrow> fat32 \<Rightarrow> int \<Rightarrow> 'x vfs \<Rightarrow> u8 list" where
  "bytes_left content f0 fd v = (case fd_objects v fd of
     Some (Some (ha, h, fo)) \<Rightarrow> file_bytes content f0 (f_inode fo) (unat (h_pos h)) (unat (i_size (f_inode fo)) - unat (h_pos h))
   | _ \<Rightarrow> [])"

lemma bytes_left_open:
  "fat_file_open hw content P f0 K fd fo pos v \<Longrightarrow>
     bytes_left content f0 fd v = file_bytes content f0 (f_inode fo) pos (unat (i_size (f_inode fo)) - pos)"
  by (auto simp: fat_file_open_def bytes_left_def)

interpretation fat: byte_source "\<lambda>n v. the (vfs_read hw fd n v)" "\<lambda>v. \<exists>pos. fat_file_open hw content P f0 K fd fo pos v"
  "bytes_left content f0 fd"
proof
  fix v :: "'a vfs" and n :: nat
  assume "\<exists>pos. fat_file_open hw content P f0 K fd fo pos v" and n: "0 < n" "n < 2 ^ 31"
  then obtain pos where o: "fat_file_open hw content P f0 K fd fo pos v" by blast
  let ?l = "unat (i_size (f_inode fo)) - pos"
  let ?m = "min n ?l"
  let ?bs = "file_bytes content f0 (f_inode fo) pos ?m"
  from vfs_read_step [OF o n(2) refl] obtain v' where
    r: "vfs_read hw fd n v = Some (int ?m, ?bs, v')" and o': "fat_file_open hw content P f0 K fd fo (pos + ?m) v'"
    by blast
  have "?m + (unat (i_size (f_inode fo)) - (pos + ?m)) = ?l" by simp
  then have "bytes_left content f0 fd v = ?bs @ bytes_left content f0 fd v'"
    unfolding bytes_left_open [OF o] bytes_left_open [OF o'] file_bytes_append by simp
  moreover have "?bs = [] \<longrightarrow> bytes_left content f0 fd v = []"
  proof
    assume "?bs = []"
    then have "length ?bs = 0" by simp
    then have "?l = 0" using n by simp
    then show "bytes_left content f0 fd v = []" by (simp add: bytes_left_open [OF o])
  qed
  ultimately show "\<exists>bs s'. the (vfs_read hw fd n v) = (int (length bs), bs, s') \<and> length bs \<le> n
      \<and> bytes_left content f0 fd v = bs @ bytes_left content f0 fd s'
      \<and> (\<exists>pos. fat_file_open hw content P f0 K fd fo pos s') \<and> (bs = [] \<longrightarrow> bytes_left content f0 fd v = [])"
    using r o' by (intro exI [of _ ?bs] exI [of _ v']) auto
qed

text \<open>The position of a file follows from the bytes that are left.\<close>

lemma open_position:
  assumes "fat_file_open hw content P f0 K fd fo p v'" "pos + k \<le> unat (i_size (f_inode fo))"
    and "length (bytes_left content f0 fd v') + k = unat (i_size (f_inode fo)) - pos"
  shows "fat_file_open hw content P f0 K fd fo (pos + k) v'"
proof -
  have "p \<le> unat (i_size (f_inode fo))" using assms(1) by (simp add: fat_file_open_def)
  then have "p = pos + k" using assms by (simp add: bytes_left_open [OF assms(1)])
  with assms(1) show ?thesis by simp
qed

text \<open>
  C34: \<open>getline\<close> on an open file of a FAT32 file system returns: with the text up to and including the first end of a
  line, if it is among the next \<open>N\<close> characters, and the length of that; with the next \<open>N\<close> characters and \<open>N + 1\<close>
  when the line is longer; and with 0 when the file ends before the line does. The position in the file moves by
  what was read.
\<close>

theorem getline_reads_file:
  assumes "fat_file_open hw content P f0 K fd fo pos v"
    and "os_read os fd = (\<lambda>n v. the (vfs_read hw fd n v))"
  shows "\<exists>n line v'. getline os fd N v = Some (n, line, v')
    \<and> (n, line) = next_line N (map byte_char (file_bytes content f0 (f_inode fo) pos (unat (i_size (f_inode fo)) - pos)))
    \<and> fat_file_open hw content P f0 K fd fo (pos + length line) v'"
proof -
  let ?n = "unat (i_size (f_inode fo)) - pos"
  let ?bs = "file_bytes content f0 (f_inode fo) pos ?n"
  have "\<exists>pos. fat_file_open hw content P f0 K fd fo pos v" using assms(1) by blast
  from fat.getline_loop_line [OF assms(2) this, of "[]" N] bytes_left_open [OF assms(1)]
  obtain n line v' p where g: "getline os fd N v = Some (n, line, v')" "fat_file_open hw content P f0 K fd fo p v'"
    "(n, line) = next_line N (map byte_char ?bs)" "map byte_char ?bs = line @ map byte_char (bytes_left content f0 fd v')"
    by (auto simp: getline_def)
  from arg_cong [OF g(4), of length] have "length (bytes_left content f0 fd v') + length line = ?n" by simp
  with open_position [OF g(2)] assms(1) have "fat_file_open hw content P f0 K fd fo (pos + length line) v'"
    by (auto simp: fat_file_open_def)
  with g show ?thesis by blast
qed

definition ram_os :: "unit vfs os" where
  "ram_os = \<lparr>os_open = \<lambda>fd p f v. (0, v), os_close = \<lambda>fd v. (0, v), os_read = \<lambda>fd n v. the (vfs_read no_hw fd n v),
     os_write = \<lambda>fd bs v. (int (length bs), v), os_read_dir = \<lambda>fd v. (0, undefined, v), os_seek = \<lambda>fd w k v. (0, v),
     os_spawn = \<lambda>p as w fds v. (0, v), os_get_cwd = \<lambda>n v. (0, [], v), os_set_cwd = \<lambda>p v. (0, v),
     os_duplicate_fd = \<lambda>d fd v. (0, v), os_pipe = \<lambda>v. (0, (0, 0), v)\<rparr>"

lemma ram_chars: "byte_char 1 = CHR 0x01" "byte_char 2 = CHR 0x02" "byte_char 3 = CHR 0x03" "byte_char 4 = CHR 0x04"
  by code_simp+

theorem getline_reads_file_witness:
  "(\<exists>v'. getline ram_os 3 10 ram_vfs = Some (0, [CHR 0x01, CHR 0x02, CHR 0x03, CHR 0x04], v'))
   \<and> (\<exists>v'. getline ram_os 3 2 ram_vfs = Some (3, [CHR 0x01, CHR 0x02], v'))"
proof -
  have "os_read ram_os 3 = (\<lambda>n v. the (vfs_read no_hw 3 n v))" by (simp add: ram_os_def)
  note g = getline_reads_file [OF ram_vfs_open this]
  have t: "map byte_char (file_bytes ram_content ram_fs (f_inode ram_file_obj) 1 (unat (i_size (f_inode ram_file_obj)) - 1))
      = [CHR 0x01, CHR 0x02, CHR 0x03, CHR 0x04]"
    by (simp add: ram_file_size ram_file_bytes [simplified] ram_chars)
  have "next_line 10 [CHR 0x01, CHR 0x02, CHR 0x03, CHR 0x04] = (0, [CHR 0x01, CHR 0x02, CHR 0x03, CHR 0x04])"
    "next_line 2 [CHR 0x01, CHR 0x02, CHR 0x03, CHR 0x04] = (3, [CHR 0x01, CHR 0x02])"
    by (simp_all add: next_line_def find_index_simps line_end_def)
  with g [of 10] g [of 2] show ?thesis unfolding t by auto
qed

end
