(* ===== verification/Schuif.thy ===== *)
theory Schuif
  imports UserFiles OsString
begin

text \<open>
  Run-length encoded images and the programs that show them: user/schuif/main.cc (a slide show) and
  user/view/main.cc (one image).
\<close>

section \<open>Run-length encoded images\<close>

definition screen_width :: nat where "screen_width = 1920"
definition screen_height :: nat where "screen_height = 1080"

definition rli_item_size :: nat where "rli_item_size = 6"
definition rli_batch_size :: nat where "rli_batch_size = 16 * 1024 * rli_item_size"

text \<open>
  The reads for one batch of items: until at least one item and only whole ones have been read. The result is the
  last result of a read, and the bytes; a result that is not positive ends the image.
\<close>

partial_function (option) rli_batch :: "'o os \<Rightarrow> int \<Rightarrow> u8 list \<Rightarrow> 'o \<Rightarrow> (int \<times> u8 list \<times> 'o) option" where
  "rli_batch os fd got s =
     (if length got div rli_item_size = 0 \<or> length got mod rli_item_size \<noteq> 0 then
        case os_read os fd (max (rli_item_size - length got mod rli_item_size) (rli_batch_size - length got)) s of
          (ret, bs, s) \<Rightarrow>
            if ret \<le> 0 then Some (ret, got, s) else rli_batch os fd (got @ take (nat ret) bs) s
      else Some (int (length got), got, s))"

text \<open>Writing one item: a colour and how many pixels have it. \<open>True\<close> when the buffer is full.\<close>

primrec rli_run :: "nat \<Rightarrow> u32 \<Rightarrow> nat \<Rightarrow> u32 list \<Rightarrow> bool \<times> nat \<times> u32 list" where
  "rli_run 0 c p buf = (False, p, buf)"
| "rli_run (Suc n) c p buf = (if p \<ge> length buf then (True, p, buf) else rli_run n c (p + 1) (buf[p := c]))"

fun rli_items :: "u8 list \<Rightarrow> nat \<Rightarrow> u32 list \<Rightarrow> bool \<times> nat \<times> u32 list" where
  "rli_items (b0 # b1 # b2 # b3 # b4 # b5 # bs) p buf =
     (case rli_run (unat (le16 [b0, b1] 0)) (le32 [b2, b3, b4, b5] 0) p buf of (full, p, buf) \<Rightarrow>
        if full then (True, p, buf) else rli_items bs p buf)"
| "rli_items _ p buf = (False, p, buf)"

text \<open>
  \<open>read_rli\<close> in a program whose complaint about an image is \<open>what\<close>. After an error the thread is deleted:
  \<open>Deleted\<close>.
\<close>

partial_function (option) rli_loop :: "'o os \<Rightarrow> string \<Rightarrow> int \<Rightarrow> nat \<Rightarrow> u32 list \<Rightarrow> 'o \<Rightarrow> (u32 list run \<times> 'o) option" where
  "rli_loop os what fd p buf s = do {
     (ret, bs, s) \<leftarrow> rli_batch os fd [] s;
     if ret < 0 then do { s \<leftarrow> print_line os stderr (what @ '': {}'') [error_arg ret] s; Some (Deleted, s) }
     else if ret = 0 then Some (Back buf, s)
     else case rli_items bs p buf of (full, p, buf) \<Rightarrow>
       if full then Some (Back buf, s) else rli_loop os what fd p buf s
   }"

definition read_rli :: "'o os \<Rightarrow> string \<Rightarrow> int \<Rightarrow> u32 list \<Rightarrow> 'o \<Rightarrow> (u32 list run \<times> 'o) option" where
  "read_rli os what fd buf s = rli_loop os what fd 0 buf s"

section \<open>The screen\<close>

fun pixel_bytes :: "u32 list \<Rightarrow> u8 list" where
  "pixel_bytes [] = []"
| "pixel_bytes (c # cs) = ucast c # ucast (drop_bit 8 c) # ucast (drop_bit 16 c) # ucast (drop_bit 24 c) # pixel_bytes cs"

text \<open>The results of the calls are ignored.\<close>

definition flush_screen :: "'o os \<Rightarrow> int \<Rightarrow> u32 list \<Rightarrow> 'o \<Rightarrow> 'o" where
  "flush_screen os video buf s = snd (os_write os video (pixel_bytes buf) (snd (os_seek os video 0 0 s)))"

definition set_video_mode :: "'o os \<Rightarrow> int \<Rightarrow> int \<Rightarrow> 'o \<Rightarrow> 'o option" where
  "set_video_mode os w h s = (case u_open os ''/dev/video-mode'' ''wt'' s of (mode, s) \<Rightarrow> do {
     (t, n) \<leftarrow> fmt_buffer 64 [int_arg w, int_arg h] (''{}x{}'' @ [CHR 0x0A]);
     Some (snd (os_close os mode (snd (os_write os mode (map of_char t) s))))
   })"

section \<open>The slide show\<close>

record 'o slide_show =
  sh_video :: int
  sh_keyboard :: int
  sh_buffer :: "u32 list"
  sh_alt :: "u32 list"
  sh_dir :: string
  nslides :: int
  current_slide :: int
  sh_sys :: 'o

definition max_slides :: nat where "max_slides = 100"

definition slide_file_name :: "string \<Rightarrow> int \<Rightarrow> string kern" where
  "slide_file_name dir n = do {
     (t, m) \<leftarrow> fmt_buffer max_path_length [text_arg dir, int_arg n] ''{}/{02}.rli'';
     Some t
   }"

definition show_flush :: "'o os \<Rightarrow> 'o slide_show \<Rightarrow> 'o slide_show" where
  "show_flush os w = w\<lparr>sh_sys := flush_screen os (sh_video w) (sh_buffer w) (sh_sys w)\<rparr>"

definition clear_buffer :: "'o slide_show \<Rightarrow> 'o slide_show" where
  "clear_buffer w = w\<lparr>sh_buffer := map (\<lambda>v. 0) (sh_buffer w)\<rparr>"

text \<open>\<open>load_slide\<close>: the new contents of the destination \<open>dest\<close>.\<close>

definition load_slide :: "'o os \<Rightarrow> int \<Rightarrow> u32 list \<Rightarrow> 'o slide_show \<Rightarrow> (u32 list run \<times> 'o slide_show) option" where
  "load_slide os n dest w = do {
     name \<leftarrow> slide_file_name (sh_dir w) n;
     let (fd, s) = u_open os name ''r'' (sh_sys w);
     if fd < 0 then do {
       s \<leftarrow> print_line os stderr ''could not open slide {}: {}'' [text_arg name, error_arg fd] s;
       Some (Deleted, w\<lparr>sh_sys := s\<rparr>)
     }
     else do {
       (r, s) \<leftarrow> read_rli os ''could not read from slide'' fd dest s;
       case r of
         Deleted \<Rightarrow> Some (Deleted, w\<lparr>sh_sys := s\<rparr>)
       | Back dest \<Rightarrow> Some (Back dest, w\<lparr>sh_sys := snd (os_close os fd s)\<rparr>)
     }
   }"

text \<open>Trying slide \<open>n\<close>, with \<open>k\<close> more tries.\<close>

primrec count_slides :: "'o os \<Rightarrow> string \<Rightarrow> int \<Rightarrow> nat \<Rightarrow> 'o \<Rightarrow> (int \<times> 'o) option" where
  "count_slides os dir n 0 s = Some (0, s)"
| "count_slides os dir n (Suc k) s = do {
     name \<leftarrow> slide_file_name dir n;
     let (fd, s) = u_open os name ''r'' s;
     if fd < 0 then Some (n, s) else count_slides os dir (n + 1) k (snd (os_close os fd s))
   }"

definition get_slide_count :: "'o os \<Rightarrow> string \<Rightarrow> 'o \<Rightarrow> (int \<times> 'o) option" where
  "get_slide_count os dir s = count_slides os dir 0 max_slides s"

text \<open>The transition: pass \<open>i\<close> of 4 copies the scan lines whose pair of lines belongs to it.\<close>

definition copy_line :: "nat \<Rightarrow> u32 list \<Rightarrow> u32 list \<Rightarrow> u32 list" where
  "copy_line y src dst =
     fold (\<lambda>x dst. dst[y * screen_width + x := src ! (y * screen_width + x)]) [0..<screen_width] dst"

definition copy_pass :: "nat \<Rightarrow> u32 list \<Rightarrow> u32 list \<Rightarrow> u32 list" where
  "copy_pass i src dst =
     fold (\<lambda>y dst. if y div 2 mod 4 \<noteq> i then dst else copy_line y src dst) [0..<screen_height] dst"

definition transition :: "'o os \<Rightarrow> 'o slide_show \<Rightarrow> 'o slide_show" where
  "transition os w =
     fold (\<lambda>i w. show_flush os (w\<lparr>sh_buffer := copy_pass i (sh_alt w) (sh_buffer w)\<rparr>)) [0..<4] w"

definition show_slide :: "'o os \<Rightarrow> int \<Rightarrow> bool \<Rightarrow> 'o slide_show \<Rightarrow> (unit run \<times> 'o slide_show) option" where
  "show_slide os n fast w =
     (let n = (if n < 0 then 0 else n);
          n = (if n \<ge> nslides w then nslides w - 1 else n) in
      if n = current_slide w then Some (Back (), w)
      else do {
        (r, w) \<leftarrow> load_slide os n (if fast then sh_buffer w else sh_alt w) w;
        case r of
          Deleted \<Rightarrow> Some (Deleted, w)
        | Back dest \<Rightarrow>
            let w = (if fast then show_flush os (w\<lparr>sh_buffer := dest\<rparr>)
                     else transition os (w\<lparr>sh_alt := dest\<rparr>)) in
            Some (Back (), w\<lparr>current_slide := n\<rparr>)
      })"

text \<open>The keys: the slide that is shown, and whether without a transition.\<close>

definition key_slide :: "int \<Rightarrow> 'o slide_show \<Rightarrow> (int \<times> bool) option" where
  "key_slide x w =
     (let key = (\<lambda>c. x = sint (of_char c :: u8)) in
      if list_ex key [CHR ''f'', CHR ''n'', CHR 0x0A, CHR 0x0D, CHR '' '', CHR ''.'', CHR ''>''] then Some (current_slide w + 1, False)
      else if key (CHR ''F'') then Some (current_slide w + 1, True)
      else if key (ascii_ctrl (CHR ''f'')) then Some (current_slide w + 4, False)
      else if list_ex key [CHR ''b'', CHR ''p'', CHR 0x08, CHR '','', CHR ''<''] then Some (current_slide w - 1, False)
      else if key (CHR ''B'') then Some (current_slide w - 1, True)
      else if key (ascii_ctrl (CHR ''b'')) then Some (current_slide w - 4, False)
      else if key (ascii_ctrl (CHR ''a'')) then Some (0, False)
      else if key (ascii_ctrl (CHR ''e'')) then Some (nslides w - 1, False)
      else None)"

partial_function (option) key_loop :: "'o os \<Rightarrow> 'o slide_show \<Rightarrow> (unit run \<times> 'o slide_show) option" where
  "key_loop os w = do {
     (x, s) \<leftarrow> getchar os (sh_keyboard w) (sh_sys w);
     let w = w\<lparr>sh_sys := s\<rparr>;
     if x = sint (of_char (CHR ''q'') :: u8) then Some (Back (), w)
     else case key_slide x w of
       None \<Rightarrow> key_loop os w
     | Some (n, fast) \<Rightarrow> do {
         (r, w) \<leftarrow> show_slide os n fast w;
         case r of Deleted \<Rightarrow> Some (Deleted, w) | Back _ \<Rightarrow> key_loop os w
       }
   }"

definition run_show :: "'o os \<Rightarrow> int \<Rightarrow> 'o slide_show \<Rightarrow> (unit run \<times> 'o slide_show) option" where
  "run_show os start_slide w = do {
     (r, w) \<leftarrow> show_slide os start_slide False w;
     case r of Deleted \<Rightarrow> Some (Deleted, w) | Back _ \<Rightarrow> key_loop os w
   }"

definition schuif_usage :: "'o os \<Rightarrow> string list \<Rightarrow> 'o \<Rightarrow> (int run \<times> 'o) option" where
  "schuif_usage os args s = do {
     s \<leftarrow> print_line os stderr ''usage: {} SLIDE_DIR [START]'' [text_arg (args ! 0)] s;
     Some (Back 1, s)
   }"

definition show_splash :: "'o os \<Rightarrow> 'o slide_show \<Rightarrow> (int run \<times> 'o) option" where
  "show_splash os w = do {
     s \<leftarrow> set_video_mode os 800 600 (sh_sys w);
     let (fd, s) = u_open os ''/disk0p1/splash.rli'' ''r'' s;
     if fd < 0 then Some (Back 0, s)
     else do {
       (r, s) \<leftarrow> read_rli os ''could not read from slide'' fd (sh_buffer w) s;
       case r of
         Deleted \<Rightarrow> Some (Deleted, s)
       | Back buf \<Rightarrow> Some (Back 0, snd (os_close os fd (flush_screen os (sh_video w) buf s)))
     }
   }"

definition schuif_present :: "'o os \<Rightarrow> string \<Rightarrow> int \<Rightarrow> int \<Rightarrow> 'o \<Rightarrow> (int run \<times> 'o) option" where
  "schuif_present os dir n start_slide s = do {
     s \<leftarrow> set_video_mode os (int screen_width) (int screen_height) s;
     let (keyboard, s) = u_open os ''/dev/keyboard'' ''r'' s;
     if keyboard < 0 then do {
       s \<leftarrow> print_line os stdout ''could not open keyboard: {}'' [error_arg keyboard] s;
       Some (Back 1, s)
     }
     else do {
       let (video, s) = u_open os ''/dev/video'' ''w'' s;
       if video < 0 then do {
         s \<leftarrow> print_line os stdout ''could not open video: {}'' [error_arg video] s;
         Some (Back 1, s)
       }
       else do {
         let zero = replicate (screen_width * screen_height) 0;
         let w = \<lparr>sh_video = video, sh_keyboard = keyboard, sh_buffer = zero, sh_alt = zero, sh_dir = dir,
                  nslides = n, current_slide = -1, sh_sys = s\<rparr>;
         (r, w) \<leftarrow> run_show os start_slide (show_flush os (clear_buffer w));
         case r of
           Deleted \<Rightarrow> Some (Deleted, sh_sys w)
         | Back _ \<Rightarrow> show_splash os (show_flush os (clear_buffer w))
       }
     }
   }"

definition schuif_program :: "'o os \<Rightarrow> string list \<Rightarrow> 'o \<Rightarrow> (int run \<times> 'o) option" where
  "schuif_program os args s =
     (if length args \<noteq> 2 \<and> length args \<noteq> 3 then schuif_usage os args s
      else case (if length args = 3 then string_to_signed 0x7fffffff (args ! 2) else Some 0) of
        None \<Rightarrow> schuif_usage os args s
      | Some start_slide \<Rightarrow> do {
          let dir = args ! 1;
          (n, s) \<leftarrow> get_slide_count os dir s;
          if n = 0 then do {
            s \<leftarrow> print_line os stderr ''no slides (NN.rli files) found in {}'' [text_arg dir] s;
            Some (Back 1, s)
          }
          else schuif_present os dir n (if start_slide < 0 \<or> start_slide \<ge> n then 0 else start_slide) s
        })"

section \<open>What an image shows\<close>

text \<open>The pixels of an image, and a buffer with pixels written from position \<open>p\<close> on as far as they fit.\<close>

fun pixels :: "u8 list \<Rightarrow> u32 list" where
  "pixels (b0 # b1 # b2 # b3 # b4 # b5 # bs) =
     replicate (unat (le16 [b0, b1] 0)) (le32 [b2, b3, b4, b5] 0) @ pixels bs"
| "pixels _ = []"

definition write_at :: "nat \<Rightarrow> 'a list \<Rightarrow> 'a list \<Rightarrow> 'a list" where
  "write_at p xs buf = take p buf @ take (length buf - p) xs @ drop (p + length xs) buf"

lemma length_write_at [simp]: "p \<le> length buf \<Longrightarrow> length (write_at p xs buf) = length buf"
  by (auto simp: write_at_def min_def)

lemma write_at_Nil [simp]: "write_at p [] buf = buf"
  by (simp add: write_at_def)

lemma write_at_append:
  assumes "p \<le> length buf"
  shows "write_at (min (p + length xs) (length buf)) ys (write_at p xs buf) = write_at p (xs @ ys) buf"
  using assms by (auto simp: write_at_def min_def add_ac)

lemma write_at_full: "length buf \<le> p + length xs \<Longrightarrow> write_at p (xs @ ys) buf = write_at p xs buf"
  by (simp add: write_at_def)

lemma write_at_Cons: "p < length buf \<Longrightarrow> write_at (p + 1) xs (buf[p := x]) = write_at p (x # xs) buf"
  by (simp add: write_at_def take_Suc_conv_app_nth take_Cons' Suc_diff_Suc)

lemma rli_run_eq:
  "p \<le> length buf \<Longrightarrow> rli_run n c p buf = (length buf < p + n, min (p + n) (length buf), write_at p (replicate n c) buf)"
proof (induction n arbitrary: p buf)
  case (Suc n)
  show ?case
  proof (cases "p = length buf")
    case False
    with Suc.prems have "p < length buf" by simp
    then show ?thesis using Suc.IH [of "p + 1" "buf[p := c]"] by (auto simp: write_at_Cons [of p, simplified])
  qed (simp add: write_at_def)
qed simp

lemma rli_items_eq:
  "p \<le> length buf \<Longrightarrow> rli_items bs p buf
     = (length buf < p + length (pixels bs), min (p + length (pixels bs)) (length buf), write_at p (pixels bs) buf)"
proof (induction bs p buf rule: rli_items.induct)
  case (1 b0 b1 b2 b3 b4 b5 bs p buf)
  let ?n = "unat (le16 [b0, b1] 0)" and ?c = "le32 [b2, b3, b4, b5] 0"
  let ?buf = "write_at p (replicate ?n ?c) buf"
  have r: "rli_run ?n ?c p buf = (length buf < p + ?n, min (p + ?n) (length buf), ?buf)"
    using "1.prems" by (rule rli_run_eq)
  show ?case
  proof (cases "length buf < p + ?n")
    case True
    with r show ?thesis by (simp add: write_at_full)
  next
    case False
    with r have r': "rli_run ?n ?c p buf = (False, p + ?n, ?buf)" by simp
    have "rli_items bs (p + ?n) ?buf = (length ?buf < p + ?n + length (pixels bs),
        min (p + ?n + length (pixels bs)) (length ?buf), write_at (p + ?n) (pixels bs) ?buf)"
      using False "1.prems" by (intro "1.IH" [OF r' [symmetric] refl]) auto
    moreover have "write_at (p + ?n) (pixels bs) ?buf = write_at p (replicate ?n ?c @ pixels bs) buf"
      using write_at_append [OF "1.prems", of "replicate ?n ?c" "pixels bs"] False by simp
    ultimately show ?thesis using r False "1.prems" by (simp add: add.assoc)
  qed
qed simp_all

lemma pixels_append: "length bs mod 6 = 0 \<Longrightarrow> pixels (bs @ cs) = pixels bs @ pixels cs"
proof (induction bs rule: pixels.induct)
  case (1 b0 b1 b2 b3 b4 b5 bs)
  have "Suc (Suc (Suc (Suc (Suc (Suc (length bs)))))) mod 6 = length bs mod 6" by presburger
  with 1 show ?case by simp
qed simp_all

text \<open>
  On a source of bytes, a batch comes to an end: with whole items, or, at the end of the source, with what is
  not a sequence of items.
\<close>

lemma batch_room:
  assumes "g \<le> rli_batch_size" "g div rli_item_size = 0 \<or> g mod rli_item_size \<noteq> 0"
  shows "max (rli_item_size - g mod rli_item_size) (rli_batch_size - g) = rli_batch_size - g" "g < rli_batch_size"
proof -
  have "g \<noteq> 98304" using assms(2) by (auto simp: rli_item_size_def)
  with assms(1) have g: "g < 98304" by (simp add: rli_batch_size_def rli_item_size_def)
  then show "g < rli_batch_size" by (simp add: rli_batch_size_def rli_item_size_def)
  have "6 - g mod 6 \<le> 98304 - g" using g by presburger
  then show "max (rli_item_size - g mod rli_item_size) (rli_batch_size - g) = rli_batch_size - g"
    by (simp add: rli_batch_size_def rli_item_size_def max_absorb2)
qed

context byte_source
begin

lemma rli_batch_bytes:
  assumes "os_read os fd = rd" "inv s" "length got \<le> rli_batch_size"
  shows "\<exists>r bs s'. rli_batch os fd got s = Some (r, bs, s') \<and> inv s' \<and> got @ rest s = bs @ rest s'
    \<and> (r = int (length bs) \<and> bs \<noteq> [] \<and> length bs mod rli_item_size = 0
       \<or> r = 0 \<and> rest s' = [] \<and> (bs = [] \<or> length bs mod rli_item_size \<noteq> 0))"
  using assms(2,3)
proof (induction "length (rest s)" arbitrary: s got rule: less_induct)
  case less
  let ?more = "length got div rli_item_size = 0 \<or> length got mod rli_item_size \<noteq> 0"
  show ?case
  proof (cases ?more)
    case False
    then have "rli_batch os fd got s = Some (int (length got), got, s)" by (subst rli_batch.simps) simp
    moreover have "got \<noteq> []" using False by auto
    ultimately show ?thesis using False less.prems by auto
  next
    case True
    note room = batch_room [OF less.prems(2) True]
    let ?n = "rli_batch_size - length got"
    have "0 < ?n" "?n < 2 ^ 31" using room(2) by (simp_all add: rli_batch_size_def rli_item_size_def)
    from rd_some [OF less.prems(1) this] obtain bs s1 where
      r: "rd ?n s = (int (length bs), bs, s1)" "length bs \<le> ?n" "rest s = bs @ rest s1" "inv s1" "bs = [] \<longrightarrow> rest s = []"
      by blast
    have step: "rli_batch os fd got s = (if bs = [] then Some (0, got, s1) else rli_batch os fd (got @ bs) s1)"
      using True r(1) assms(1) room(1) by (subst rli_batch.simps) simp
    show ?thesis
    proof (cases "bs = []")
      case e: True
      have "got = [] \<or> length got mod rli_item_size \<noteq> 0" using True by (auto simp: rli_item_size_def)
      with step e r show ?thesis by auto
    next
      case False
      with less.hyps [of s1 "got @ bs"] r room(2) step show ?thesis by auto
    qed
  qed
qed

lemma rli_loop_pixels:
  assumes "os_read os fd = rd" "inv s" "length (rest s) mod rli_item_size = 0" "p \<le> length buf"
  shows "\<exists>s'. rli_loop os what fd p buf s = Some (Back (write_at p (pixels (rest s)) buf), s')"
  using assms(2-)
proof (induction "length (rest s)" arbitrary: s p buf rule: less_induct)
  case less
  from rli_batch_bytes [OF assms(1) less.prems(1), of "[]"] obtain r bs s1 where
    b: "rli_batch os fd [] s = Some (r, bs, s1)" "inv s1" "rest s = bs @ rest s1"
    and r: "r = int (length bs) \<and> bs \<noteq> [] \<and> length bs mod rli_item_size = 0
       \<or> r = 0 \<and> rest s1 = [] \<and> (bs = [] \<or> length bs mod rli_item_size \<noteq> 0)" by auto
  show ?case
  proof (cases "r = 0")
    case True
    with r b less.prems(2) have "rest s = []" by auto
    with True b show ?thesis by (subst rli_loop.simps) simp
  next
    case False
    with r have w: "r = int (length bs)" "bs \<noteq> []" "length bs mod rli_item_size = 0" by auto
    from w(3) less.prems(2) b(3) have rest: "length (rest s1) mod rli_item_size = 0"
      by (simp add: rli_item_size_def) presburger
    have px: "pixels (rest s) = pixels bs @ pixels (rest s1)"
      using w(3) b(3) by (simp add: pixels_append rli_item_size_def)
    let ?p = "min (p + length (pixels bs)) (length buf)" and ?buf = "write_at p (pixels bs) buf"
    have step: "rli_loop os what fd p buf s =
        (if length buf < p + length (pixels bs) then Some (Back ?buf, s1) else rli_loop os what fd ?p ?buf s1)"
      using b(1) w rli_items_eq [OF less.prems(3)] by (subst rli_loop.simps) simp
    show ?thesis
    proof (cases "length buf < p + length (pixels bs)")
      case True
      with step px show ?thesis by (simp add: write_at_full)
    next
      case False
      have "\<exists>s'. rli_loop os what fd ?p ?buf s1 = Some (Back (write_at ?p (pixels (rest s1)) ?buf), s')"
        using b w(2) rest less.prems(3) by (intro less.hyps) simp_all
      with step False px write_at_append [OF less.prems(3), of "pixels bs" "pixels (rest s1)"] show ?thesis by simp
    qed
  qed
qed

end

text \<open>
  C35: Reading an image of whole items from an open file of a FAT32 file system ends, and the buffer then starts
  with the pixels of the image, as many as fit, however the reads are cut; the rest of the buffer is unchanged.
\<close>

theorem read_rli_decodes:
  assumes "fat_file_open hw content P f0 K fd fo pos v"
    and "os_read os fd = (\<lambda>n v. the (vfs_read hw fd n v))"
    and "bs = file_bytes content f0 (f_inode fo) pos (unat (i_size (f_inode fo)) - pos)"
    and "length bs mod rli_item_size = 0"
  shows "\<exists>v'. read_rli os what fd buf v
    = Some (Back (take (length buf) (pixels bs) @ drop (length (pixels bs)) buf), v')"
proof -
  have "\<exists>pos. fat_file_open hw content P f0 K fd fo pos v" using assms(1) by blast
  from fat.rli_loop_pixels [OF assms(2) this, of 0 buf what] bytes_left_open [OF assms(1)] assms(3,4)
  show ?thesis by (simp add: read_rli_def write_at_def)
qed

section \<open>The transition\<close>

text \<open>\<open>g\<close> copies the positions \<open>A\<close> from \<open>src\<close>.\<close>

definition patches :: "nat set \<Rightarrow> 'a list \<Rightarrow> ('a list \<Rightarrow> 'a list) \<Rightarrow> bool" where
  "patches A src g \<longleftrightarrow>
     (\<forall>dst. length (g dst) = length dst \<and> (\<forall>k < length dst. g dst ! k = (if k \<in> A then src ! k else dst ! k)))"

lemma patches_update: "patches {p} src (\<lambda>dst. dst[p := src ! p])"
  by (simp add: patches_def nth_list_update)

lemma patches_skip: "patches {} src (\<lambda>dst. dst)"
  by (simp add: patches_def)

lemma patches_fold:
  "(\<And>y. y \<in> set ys \<Longrightarrow> patches (A y) src (g y)) \<Longrightarrow> patches (\<Union>y \<in> set ys. A y) src (fold g ys)"
  by (induction ys) (auto simp: patches_def)

lemma patches_all:
  assumes "patches A src g" "{..<length dst} \<subseteq> A" "length src = length dst"
  shows "g dst = src"
  using assms by (auto simp: patches_def intro!: nth_equalityI)

lemma patches_line: "patches {k. k div screen_width = y} src (copy_line y src)"
proof -
  have "{k. k div screen_width = y} = (\<Union>x \<in> set [0..<screen_width]. {y * screen_width + x})"
  proof (rule set_eqI)
    fix k
    have "k div screen_width = y \<longleftrightarrow> (\<exists>x < screen_width. k = y * screen_width + x)"
    proof
      assume "k div screen_width = y"
      then have "k = y * screen_width + k mod screen_width" "k mod screen_width < screen_width"
        using div_mult_mod_eq [of k screen_width] by (simp_all add: screen_width_def)
      then show "\<exists>x < screen_width. k = y * screen_width + x" by blast
    qed (auto simp: screen_width_def)
    then show "k \<in> {k. k div screen_width = y} \<longleftrightarrow> k \<in> (\<Union>x \<in> set [0..<screen_width]. {y * screen_width + x})"
      by auto
  qed
  then show ?thesis unfolding copy_line_def by (simp only:) (intro patches_fold patches_update)
qed

lemma patches_pass:
  "patches {k. k div screen_width < screen_height \<and> k div screen_width div 2 mod 4 = i} src (copy_pass i src)"
proof -
  have e: "{k. k div screen_width < screen_height \<and> k div screen_width div 2 mod 4 = i}
      = (\<Union>y \<in> set [0..<screen_height]. if y div 2 mod 4 \<noteq> i then {} else {k. k div screen_width = y})"
    by (auto split: if_splits)
  show ?thesis unfolding copy_pass_def e
    by (rule patches_fold) (auto simp: patches_line patches_skip)
qed

lemma transition_buffer:
  "sh_buffer (fold (\<lambda>i w. show_flush os (w\<lparr>sh_buffer := copy_pass i (sh_alt w) (sh_buffer w)\<rparr>)) is w)
     = fold (\<lambda>i. copy_pass i (sh_alt w)) is (sh_buffer w)"
  by (induction "is" arbitrary: w) (simp_all add: show_flush_def)

text \<open>
  The transition ends with the whole new slide in the buffer of the screen: every scan line belongs to one of the
  four passes.
\<close>

theorem transition_shows_slide:
  assumes "length (sh_buffer w) = screen_width * screen_height" "length (sh_alt w) = screen_width * screen_height"
  shows "sh_buffer (transition os w) = sh_alt w"
proof -
  let ?A = "\<lambda>i. {k. k div screen_width < screen_height \<and> k div screen_width div 2 mod 4 = i}"
  have "patches (\<Union>i \<in> set [0..<4]. ?A i) (sh_alt w) (fold (\<lambda>i. copy_pass i (sh_alt w)) [0..<4])"
    by (intro patches_fold patches_pass)
  moreover have "{..<length (sh_buffer w)} \<subseteq> (\<Union>i \<in> set [0..<4]. ?A i)"
    using assms(1) by (auto simp: less_mult_imp_div_less mult.commute)
  ultimately have "fold (\<lambda>i. copy_pass i (sh_alt w)) [0..<4] (sh_buffer w) = sh_alt w"
    using assms by (intro patches_all) simp_all
  then show ?thesis by (simp only: transition_def transition_buffer)
qed

theorem transition_shows_slide_witness:
  "sh_buffer (transition ram_os \<lparr>sh_video = 3, sh_keyboard = 4, sh_buffer = replicate (screen_width * screen_height) 0,
     sh_alt = replicate (screen_width * screen_height) 7, sh_dir = ''d'', nslides = 1, current_slide = 0, sh_sys = ram_vfs\<rparr>)
   = replicate (screen_width * screen_height) 7"
  by (subst transition_shows_slide) simp_all

section \<open>Examples\<close>

definition ram_image :: open_file where
  "ram_image = ram_file_obj\<lparr>f_inode := (f_inode ram_file_obj)\<lparr>i_size := 7\<rparr>\<rparr>"

definition ram_image_vfs :: "unit vfs" where
  "ram_image_vfs = ram_vfs\<lparr>v_files := [8 \<mapsto> ram_image]\<rparr>"

lemma ram_image_open:
  "fat_file_open no_hw ram_content (\<lambda>s. io_mem s = io_mem no_io) ram_fs 0 3 ram_image 1 ram_image_vfs"
proof -
  obtain ha h f where fd: "fd_objects ram_vfs 3 = Some (Some (ha, h, ram_file_obj))"
    and rest: "\<not> has_flag (h_flags h) o_dir \<and> has_flag (h_flags h) o_read \<and> unat (h_pos h) = 1
        \<and> v_fs ram_vfs (i_fs (f_inode ram_file_obj)) = Some (Fs_fat f) \<and> geometry f = geometry ram_fs
        \<and> fat_ready no_hw ram_content (\<lambda>s. io_mem s = io_mem no_io) f (v_io ram_vfs)"
    using ram_vfs_open unfolding fat_file_open_def by auto
  have "h_file h = 8" using fd by (auto simp: fd_objects_iff ram_vfs_def split: if_splits)
  with fd have "fd_objects ram_image_vfs 3 = Some (Some (ha, h, ram_image))"
    by (simp add: fd_objects_iff ram_image_vfs_def handle_by_fd_def running_proc_def)
  moreover have "7 \<le> unat (cluster_size ram_fs) * 512" by (simp add: ram_fs_def)
  ultimately show ?thesis
    using rest ram_vfs_open by (auto simp: fat_file_open_def ram_image_vfs_def ram_image_def block_size_def)
qed

lemma ram_image_bytes: "file_bytes ram_content ram_fs (f_inode ram_image) 1 6 = [1, 2, 3, 4, 5, 6]"
proof -
  have "[1..<1 + 6] = [1, 2, 3, 4, 5, 6 :: nat]" by (simp add: upt_conv_Cons)
  then show ?thesis
    by (simp add: file_bytes_def ram_image_def ram_file_obj_def file_byte_def file_lba_def cluster_block_def
        ram_fs_def ram_inode_def ram_content_def mem_bytes_def no_io_def block_size_def)
qed

theorem read_rli_decodes_witness:
  "\<exists>v'. read_rli ram_os ''image'' 3 [0, 0] ram_image_vfs = Some (Back [0x06050403, 0x06050403], v')"
proof -
  have "unat (i_size (f_inode ram_image)) - 1 = 6" by (simp add: ram_image_def)
  then have b: "[1, 2, 3, 4, 5, 6] = file_bytes ram_content ram_fs (f_inode ram_image) 1 (unat (i_size (f_inode ram_image)) - 1)"
    by (simp only: ram_image_bytes)
  have r: "os_read ram_os 3 = (\<lambda>n v. the (vfs_read no_hw 3 n v))" by (simp add: ram_os_def)
  have "unat (le16 [1, 2] 0) = 513" "le32 [3, 4, 5, 6] 0 = 0x06050403" by code_simp+
  then have "pixels [1, 2, 3, 4, 5, 6] = replicate 513 0x06050403" by simp
  moreover have "take 2 (replicate 513 c) = [c, c]" for c :: u32 by (simp add: numeral_eq_Suc)
  ultimately show ?thesis
    using read_rli_decodes [OF ram_image_open r b, of "''image''" "[0, 0]"] by (simp add: rli_item_size_def)
qed

end
