(* ===== verification/UserPrograms.thy ===== *)
theory UserPrograms
  imports Schuif
begin

text \<open>
  The small programs of the user space: cat, cp, crash, echo, init, ls, more and view (user/*/main.cc). The
  arguments of a program are the list \<open>args\<close>, the name of the program first; the results are the exit code and the
  state of the system.
\<close>

definition complain :: "'o os \<Rightarrow> int \<Rightarrow> string \<Rightarrow> fmt_arg list \<Rightarrow> 'o \<Rightarrow> (int \<times> 'o) option" where
  "complain os code fs as s = do { s \<leftarrow> print_line os stderr fs as s; Some (code, s) }"

section \<open>cat and cp\<close>

definition copy_buffer_size :: nat where "copy_buffer_size = 512"

text \<open>\<open>False\<close>: a write failed, the program ends.\<close>

partial_function (option) cat_copy :: "'o os \<Rightarrow> int \<Rightarrow> 'o \<Rightarrow> (bool \<times> 'o) option" where
  "cat_copy os fd s =
     (case os_read os fd copy_buffer_size s of (n, bs, s) \<Rightarrow>
        if n \<le> 0 then do {
          s \<leftarrow> (if n \<noteq> 0 then print_line os stderr ''read failed: {}'' [error_arg n] s else Some s);
          Some (True, snd (os_close os fd s))
        }
        else case os_write os stdout (take (nat n) bs) s of (n, s) \<Rightarrow>
          if n < 0 then do { s \<leftarrow> print_line os stderr ''write failed: {}'' [error_arg n] s; Some (False, s) }
          else cat_copy os fd s)"

fun cat_all :: "'o os \<Rightarrow> string list \<Rightarrow> 'o \<Rightarrow> (int \<times> 'o) option" where
  "cat_all os [] s = Some (0, s)"
| "cat_all os (f # fs) s =
     (case u_open os f ''r'' s of (fd, s) \<Rightarrow>
        if fd < 0 then complain os 1 ''could not open <{}> for reading: {}'' [text_arg f, error_arg fd] s
        else do {
          (ok, s) \<leftarrow> cat_copy os fd s;
          if ok then cat_all os fs (snd (os_close os fd s)) else Some (1, s)
        })"

definition cat_program :: "'o os \<Rightarrow> string list \<Rightarrow> 'o \<Rightarrow> (int \<times> 'o) option" where
  "cat_program os args s =
     (if length args < 2 then complain os 1 ''usage: cat <file>...'' [] s else cat_all os (tl args) s)"

partial_function (option) cp_copy :: "'o os \<Rightarrow> int \<Rightarrow> int \<Rightarrow> 'o \<Rightarrow> 'o option" where
  "cp_copy os src dst s =
     (case os_read os src copy_buffer_size s of (n, bs, s) \<Rightarrow>
        if n \<le> 0 then (if n \<noteq> 0 then print_line os stderr ''read failed: {}'' [error_arg n] s else Some s)
        else case os_write os dst (take (nat n) bs) s of (n, s) \<Rightarrow>
          if n < 0 then print_line os stderr ''write failed: {}'' [error_arg n] s
          else cp_copy os src dst s)"

definition cp_program :: "'o os \<Rightarrow> string list \<Rightarrow> 'o \<Rightarrow> (int \<times> 'o) option" where
  "cp_program os args s =
     (if length args \<noteq> 3 then complain os 1 ''usage: cp <src> <dst>'' [] s
      else case u_open os (args ! 1) ''r'' s of (src, s) \<Rightarrow>
        if src < 0 then complain os 1 ''could not open src for reading: {}'' [error_arg src] s
        else case u_open os (args ! 2) ''w'' s of (dst, s) \<Rightarrow>
          if dst < 0 then complain os 1 ''could not open dst for writing: {}'' [error_arg dst] (snd (os_close os src s))
          else do {
            s \<leftarrow> cp_copy os src dst s;
            Some (0, snd (os_close os src (snd (os_close os dst s))))
          })"

section \<open>echo\<close>

fun echo_words :: "'o os \<Rightarrow> string list \<Rightarrow> 'o \<Rightarrow> 'o option" where
  "echo_words os [] s = Some s"
| "echo_words os (w # ws) s = do { (n, s) \<leftarrow> u_print os stdout ''{} '' [text_arg w] s; echo_words os ws s }"

definition echo_program :: "'o os \<Rightarrow> string list \<Rightarrow> 'o \<Rightarrow> (int \<times> 'o) option" where
  "echo_program os args s = do { s \<leftarrow> echo_words os (tl args) s; s \<leftarrow> print_line os stdout [] [] s; Some (0, s) }"

section \<open>crash\<close>

text \<open>How the program ends: with an exception of the processor, or by returning.\<close>

datatype crash_end =
  Page_fault
| Protection_fault
| Invalid_opcode
| Divide_error
| Returns int

definition crash_usage :: "'o os \<Rightarrow> string \<Rightarrow> 'o \<Rightarrow> (crash_end \<times> 'o) option" where
  "crash_usage os name s = do {
     s \<leftarrow> print_line os stderr ''usage: {} <pf|gpf|ill|div0>'' [text_arg name] s;
     s \<leftarrow> print_line os stderr (''pf  = page fault,          gpf  = general protection fault'' @ [CHR 0x0A]
            @ ''ill = illegal instruction, div0 = divide by zero'') [] s;
     s \<leftarrow> print_line os stderr (CHR 0x0A # ''this program should crash without bringing down the whole OS'') [] s;
     Some (Returns 0, s)
   }"

definition crash_program :: "'o os \<Rightarrow> string list \<Rightarrow> 'o \<Rightarrow> (crash_end \<times> 'o) option" where
  "crash_program os args s =
     (if length args \<noteq> 2 then crash_usage os (args ! 0) s
      else if args ! 1 = ''pf'' then Some (Page_fault, s)
      else if args ! 1 = ''gpf'' then Some (Protection_fault, s)
      else if args ! 1 = ''ill'' then Some (Invalid_opcode, s)
      else if args ! 1 = ''div0'' then Some (Divide_error, s)
      else crash_usage os (args ! 0) s)"

section \<open>init\<close>

text \<open>The standard descriptors: the serial port, or keyboard and screen. \<open>False\<close>: they could not be opened.\<close>

definition init_files :: "'o os \<Rightarrow> 'o \<Rightarrow> bool \<times> 'o" where
  "init_files os s =
     (case u_open_fd os stdin ''/dev/uart0'' ''r'' s of (err, s) \<Rightarrow>
        if err \<ge> 0 then
          case u_open_fd os stdout ''/dev/uart0'' ''w'' s of (err, s) \<Rightarrow> (err \<ge> 0, s)
        else if err = ERR_not_exists then
          case u_open_fd os stdin ''/dev/keyboard'' ''r'' s of (err, s) \<Rightarrow>
            if err < 0 then (False, s)
            else case u_open_fd os stdout ''/dev/video-text'' ''w'' s of (err, s) \<Rightarrow> (err \<ge> 0, s)
        else (False, s))"

definition init_program :: "'o os \<Rightarrow> 'o \<Rightarrow> (int \<times> 'o) option" where
  "init_program os s =
     (case init_files os s of (ok, s) \<Rightarrow>
        if \<not> ok then Some (1, s)
        else case os_duplicate_fd os stderr stdout s of (err, s) \<Rightarrow>
          if err < 0 then Some (1, s)
          else case u_spawn os ''bin/shell.elf'' [''shell''] True inherit_all s of (err, s) \<Rightarrow>
            if err < 0 then complain os 1 ''init: could not load the shell: {}'' [error_arg err] s
            else Some (0, s))"

section \<open>ls\<close>

definition type_letter :: "u32 \<Rightarrow> char" where
  "type_letter t = (if t = 0 then CHR ''-'' else if t = 1 then CHR ''d'' else if t = 2 then CHR ''b'' else CHR ''?'')"

definition format_mode :: "sys_entry \<Rightarrow> string" where
  "format_mode e =
     fold (\<lambda>(f, c) s. str_append_char 10 s (if has_flag (se_perm e) f then c else CHR ''-''))
       [(perm_ur, CHR ''r''), (perm_uw, CHR ''w''), (perm_ux, CHR ''x''),
        (perm_gr, CHR ''r''), (perm_gw, CHR ''w''), (perm_gx, CHR ''x''),
        (perm_or, CHR ''r''), (perm_ow, CHR ''w''), (perm_ox, CHR ''x'')]
       (str_append_char 10 [] (type_letter (se_type e)))"

definition u64_arg :: "u64 \<Rightarrow> fmt_arg" where "u64_arg x = (\<lambda>f. format_u64 f x False)"

definition print_entry :: "'o os \<Rightarrow> sys_entry \<Rightarrow> 'o \<Rightarrow> 'o option" where
  "print_entry os e s =
     (if se_type e = 1
      then print_line os stdout ''  {6} {} {6 } {}/'' [u64_arg (se_ino e), text_arg (format_mode e), text_arg [], text_arg (se_name e)] s
      else print_line os stdout ''  {6} {} {4S} {}'' [u64_arg (se_ino e), text_arg (format_mode e), u64_arg (se_size e), text_arg (se_name e)] s)"

partial_function (option) list_loop :: "'o os \<Rightarrow> string \<Rightarrow> int \<Rightarrow> sys_entry \<Rightarrow> 'o \<Rightarrow> 'o option" where
  "list_loop os path dir d s =
     (case u_read_dir os dir d s of (ret, d, s) \<Rightarrow>
        if ret < 0 then print_line os stderr ''could not read dir <{}>: {}'' [text_arg path, error_arg ret] s
        else if ret = 0 then Some s
        else do { s \<leftarrow> print_entry os d s; list_loop os path dir d s })"

definition blank_entry :: sys_entry where
  "blank_entry = \<lparr>se_name = [], se_ino = 0, se_type = 0, se_perm = 0, se_size = 0\<rparr>"

definition list_dir :: "'o os \<Rightarrow> string \<Rightarrow> 'o \<Rightarrow> 'o option" where
  "list_dir os path s =
     (case u_open os path ''d'' s of (dir, s) \<Rightarrow>
        if dir < 0 then print_line os stderr ''could not open <{}>: {}'' [text_arg path, error_arg dir] s
        else do {
          s \<leftarrow> print_line os stdout ''  {-6} {-10} {-6} {}'' (map text_arg [''INODE'', ''MODE'', ''SIZE'', ''NAME'']) s;
          s \<leftarrow> list_loop os path dir blank_entry s;
          Some (snd (os_close os dir s))
        })"

text \<open>With several directories, each has a heading, and there is an empty line between them.\<close>

fun list_dirs :: "'o os \<Rightarrow> bool \<Rightarrow> string list \<Rightarrow> 'o \<Rightarrow> 'o option" where
  "list_dirs os several [] s = Some s"
| "list_dirs os several (p # ps) s = do {
     s \<leftarrow> (if several then print_line os stdout ''{}:'' [text_arg p] s else Some s);
     s \<leftarrow> list_dir os p s;
     s \<leftarrow> (if several \<and> ps \<noteq> [] then print_line os stdout [] [] s else Some s);
     list_dirs os several ps s
   }"

definition ls_program :: "'o os \<Rightarrow> string list \<Rightarrow> 'o \<Rightarrow> (int \<times> 'o) option" where
  "ls_program os args s = do {
     s \<leftarrow> (if length args < 2 then list_dir os ''.'' s else list_dirs os (length args > 2) (tl args) s);
     Some (0, s)
   }"

section \<open>more\<close>

definition more_rows :: nat where "more_rows = 23"
definition more_columns :: nat where "more_columns = 80"

text \<open>The row and the column after a character.\<close>

definition more_step :: "char \<Rightarrow> nat \<times> nat \<Rightarrow> nat \<times> nat" where
  "more_step c rc =
     (let col = (if c \<noteq> CHR 0x0A then snd rc + 1 else snd rc) in
      if c = CHR 0x0A \<or> col = more_columns then (fst rc + 1, 0) else (fst rc, col))"

text \<open>The characters of one read: after a full screen, wait for a key.\<close>

fun more_chars :: "'o os \<Rightarrow> string \<Rightarrow> nat \<times> nat \<Rightarrow> 'o \<Rightarrow> ((nat \<times> nat) \<times> 'o) option" where
  "more_chars os [] rc s = Some (rc, s)"
| "more_chars os (c # cs) rc s = do {
     let rc = more_step c rc;
     (n, s) \<leftarrow> putchar os stdout c s;
     if fst rc = more_rows then do {
       (n, s) \<leftarrow> (if c \<noteq> CHR 0x0A then putchar os stdout (CHR 0x0A) s else Some (n, s));
       s \<leftarrow> print_line os stdout ''-- press enter to continue --'' [] s;
       (k, s) \<leftarrow> getchar os stdin s;
       more_chars os cs (0, 0) s
     }
     else more_chars os cs rc s
   }"

partial_function (option) more_file :: "'o os \<Rightarrow> int \<Rightarrow> nat \<times> nat \<Rightarrow> 'o \<Rightarrow> 'o option" where
  "more_file os fd rc s =
     (case os_read os fd copy_buffer_size s of (n, bs, s) \<Rightarrow>
        if n \<le> 0 then (if n \<noteq> 0 then print_line os stderr ''read failed: {}'' [error_arg n] s else Some s)
        else do {
          (rc, s) \<leftarrow> more_chars os (map byte_char (take (nat n) bs)) rc s;
          more_file os fd rc s
        })"

fun more_all :: "'o os \<Rightarrow> string list \<Rightarrow> 'o \<Rightarrow> 'o option" where
  "more_all os [] s = Some s"
| "more_all os (f # fs) s =
     (case u_open os f ''r'' s of (fd, s) \<Rightarrow>
        if fd < 0 then do {
          s \<leftarrow> print_line os stderr ''could not open <{}> for reading: {}'' [text_arg f, error_arg fd] s;
          more_all os fs s
        }
        else do { s \<leftarrow> more_file os fd (0, 0) s; more_all os fs (snd (os_close os fd s)) })"

definition more_program :: "'o os \<Rightarrow> string list \<Rightarrow> 'o \<Rightarrow> (int \<times> 'o) option" where
  "more_program os args s =
     (if length args < 2 then complain os 0 ''usage: more <file...>'' [] s
      else do { s \<leftarrow> more_all os (tl args) s; Some (0, s) })"

section \<open>view\<close>

definition view_usage :: "'o os \<Rightarrow> 'o \<Rightarrow> (int run \<times> 'o) option" where
  "view_usage os s = do { s \<leftarrow> print_line os stderr ''usage: view [WIDTH] [HEIGHT] FILE'' [] s; Some (Back 1, s) }"

definition view_image :: "'o os \<Rightarrow> int \<Rightarrow> int \<Rightarrow> string \<Rightarrow> 'o \<Rightarrow> (int run \<times> 'o) option" where
  "view_image os w h fname s = do {
     s \<leftarrow> set_video_mode os w h s;
     let (video, s) = u_open os ''/dev/video'' ''w'' s;
     if video < 0 then do {
       s \<leftarrow> print_line os stdout ''could not open video: {}'' [error_arg video] s;
       Some (Back 1, s)
     }
     else do {
       let (fd, s) = u_open os fname ''r'' s;
       if fd < 0 then do {
         s \<leftarrow> print_line os stderr ''could not open image {}: {}'' [text_arg fname, error_arg fd] s;
         Some (Back 1, s)
       }
       else do {
         (r, s) \<leftarrow> read_rli os ''could not read from image'' fd (replicate (screen_width * screen_height) 0) s;
         case r of
           Deleted \<Rightarrow> Some (Deleted, s)
         | Back buf \<Rightarrow> Some (Back 0, flush_screen os video buf (snd (os_close os fd s)))
       }
     }
   }"

definition view_program :: "'o os \<Rightarrow> string list \<Rightarrow> 'o \<Rightarrow> (int run \<times> 'o) option" where
  "view_program os args s =
     (if length args = 4 then
        case (string_to_signed 0x7fffffff (args ! 1), string_to_signed 0x7fffffff (args ! 2)) of
          (Some w, Some h) \<Rightarrow> view_image os w h (args ! 3) s
        | _ \<Rightarrow> view_usage os s
      else if length args = 2 then view_image os 1920 1080 (args ! 1) s
      else view_usage os s)"

end
