(* ===== verification/Stage2.thy ===== *)
theory Stage2
  imports PhysMem Bytes
begin

unbundle bit_operations_syntax

text \<open>
  The second stage of the boot loader (boot/stage2): the memory map, loading the kernel from the disk to
  1 MiB, and the hand-over to the kernel. What the BIOS does is a parameter; \<open>'b\<close> is its state, with the screen
  and the serial line.
\<close>

section \<open>The BIOS\<close>

record disk_address_packet =
  dap_block_count :: "8 word"
  dap_offset :: u16
  dap_lba :: u64

record memory_answer =
  ma_carry :: bool
  ma_eax :: u32
  ma_x :: u64
  ma_y :: u64
  ma_z :: u32
  ma_cont :: u32

text \<open>
  Interrupt 0x15 with function 0xe820 for a continuation value; interrupt 0x13 for a disk and a packet, with the
  carry flag and the bytes that were read; the characters that are printed; and the word at 0x410.
\<close>

record 'b bios =
  int15 :: "u32 \<Rightarrow> 'b \<Rightarrow> memory_answer \<times> 'b"
  int13 :: "u8 \<Rightarrow> disk_address_packet \<Rightarrow> 'b \<Rightarrow> bool \<times> u8 list \<times> 'b"
  print_screen :: "char \<Rightarrow> 'b \<Rightarrow> 'b"
  clear_text :: "'b \<Rightarrow> 'b"
  print_serial :: "char \<Rightarrow> 'b \<Rightarrow> 'b"
  init_serial :: "'b \<Rightarrow> 'b"
  equipment :: u16

definition asm_serial_is_available :: "'b bios \<Rightarrow> bool" where
  "asm_serial_is_available bios \<longleftrightarrow> drop_bit 9 (equipment bios) AND 3 > 0"

definition asm_disk_read :: "'b bios \<Rightarrow> u16 \<Rightarrow> u8 \<Rightarrow> u32 \<Rightarrow> u8 \<Rightarrow> 'b \<Rightarrow> bool \<times> u8 list \<times> 'b" where
  "asm_disk_read bios dest disk_no block block_count s =
     (case int13 bios disk_no \<lparr>dap_block_count = block_count, dap_offset = dest, dap_lba = ucast block\<rparr> s of
        (carry, bs, s) \<Rightarrow> (\<not> carry, bs, s))"

text \<open>Success, start, size, whether it is available, and the new continuation value.\<close>

definition asm_get_memory_map :: "'b bios \<Rightarrow> u32 \<Rightarrow> 'b \<Rightarrow> (bool \<times> u64 \<times> u64 \<times> bool \<times> u32) \<times> 'b" where
  "asm_get_memory_map bios cont s = (case int15 bios cont s of (a, s) \<Rightarrow>
     ((\<not> ma_carry a \<and> ma_eax a \<noteq> 0, ma_x a, ma_y a, ma_z a = 1, ma_cont a), s))"

section \<open>Console\<close>

record 'b stage2 =
  serial_enabled :: bool
  s2_memory :: "u32 \<Rightarrow> u8"
  s2_bios :: 'b

definition init_console :: "'b bios \<Rightarrow> 'b stage2 \<Rightarrow> 'b stage2" where
  "init_console bios s =
     (if asm_serial_is_available bios
      then s\<lparr>s2_bios := init_serial bios (s2_bios s), serial_enabled := True\<rparr> else s)"

definition clear_console :: "'b bios \<Rightarrow> 'b stage2 \<Rightarrow> 'b stage2" where
  "clear_console bios s = s\<lparr>s2_bios := clear_text bios (s2_bios s)\<rparr>"

definition putch :: "'b bios \<Rightarrow> char \<Rightarrow> 'b stage2 \<Rightarrow> 'b stage2" where
  "putch bios ch s =
     (let s = (if serial_enabled s then s\<lparr>s2_bios := print_serial bios ch (s2_bios s)\<rparr> else s) in
      s\<lparr>s2_bios := print_screen bios ch (s2_bios s)\<rparr>)"

fun puts :: "'b bios \<Rightarrow> string \<Rightarrow> 'b stage2 \<Rightarrow> 'b stage2" where
  "puts bios [] s = s"
| "puts bios (c # cs) s =
     puts bios cs (putch bios c (if c = CHR 0x0A then putch bios (CHR 0x0D) s else s))"

section \<open>The memory map\<close>

definition max_memory_regions :: nat where "max_memory_regions = 32"

text \<open>
  The loops of \<open>make_memory_map\<close>, one call of the BIOS per step: the outer loop goes on to the next entry of the
  array after an available region, the inner one asks again into the same entry. \<open>n\<close> is \<open>region_count\<close>.
\<close>

partial_function (option) e820_loop :: "'b bios \<Rightarrow> memory_region list \<Rightarrow> nat \<Rightarrow> u32 \<Rightarrow> 'b \<Rightarrow>
    (memory_region list \<times> nat \<times> 'b) option" where
  "e820_loop bios rs n cont s =
     (if n < max_memory_regions then
        case asm_get_memory_map bios cont s of ((success, start, sz, available, cont), s) \<Rightarrow>
          let rs = rs[n := \<lparr>mr_start = unat start, mr_size = unat sz\<rparr>];
              available = (available \<and> sz \<noteq> 0) in
          if \<not> success then Some (rs, n, s)
          else if cont = 0 then Some (rs, if available then n + 1 else n, s)
          else e820_loop bios rs (if available then n + 1 else n) cont s
      else Some (rs, n, s))"

definition make_memory_map :: "'b bios \<Rightarrow> 'b \<Rightarrow> (memory_region list \<times> nat \<times> 'b) option" where
  "make_memory_map bios s =
     e820_loop bios (replicate max_memory_regions \<lparr>mr_start = 0, mr_size = 0\<rparr>) 0 0 s"

text \<open>The sums with a region wrap in 64 bits.\<close>

definition is_memory_available :: "memory_region list \<Rightarrow> u32 \<Rightarrow> u32 \<Rightarrow> bool" where
  "is_memory_available regions start sz =
     (if sz = 0 then True
      else if start + (sz - 1) < start then False
      else list_ex (\<lambda>r. mr_start r \<le> unat start
             \<and> unat (start + (sz - 1)) \<le> (mr_start r + (mr_size r + 2 ^ 64 - 1) mod 2 ^ 64) mod 2 ^ 64) regions)"

section \<open>Reading the kernel\<close>

definition buffer_block_count :: u32 where "buffer_block_count = 16"

text \<open>Copying the buffer to its destination, byte by byte; the buffer itself lies below 64 KiB.\<close>

definition copy_buffer :: "u8 list \<Rightarrow> u32 \<Rightarrow> nat \<Rightarrow> (u32 \<Rightarrow> u8) \<Rightarrow> u32 \<Rightarrow> u8" where
  "copy_buffer buffer dest n m = fold (\<lambda>j m. m(dest + of_nat j := buffer ! j)) [0..<n] m"

partial_function (option) disk_read_loop :: "'b bios \<Rightarrow> u16 \<Rightarrow> u8 \<Rightarrow> u32 \<Rightarrow> u32 \<Rightarrow> u32 \<Rightarrow> u32 \<Rightarrow> 'b stage2 \<Rightarrow>
    (bool \<times> 'b stage2) option" where
  "disk_read_loop bios buffer disk_no n i block dest s =
     (if i < n then
        let cnt = (if n - i < buffer_block_count then n - i else buffer_block_count) in
        case asm_disk_read bios buffer disk_no block (ucast cnt) (s2_bios s) of (ok, bs, b) \<Rightarrow>
          let s = s\<lparr>s2_bios := b\<rparr> in
          if \<not> ok then Some (False, puts bios (''could not read disk'' @ [CHR 0x0A]) s)
          else disk_read_loop bios buffer disk_no n (i + buffer_block_count) (block + buffer_block_count)
                 (dest + buffer_block_count * 512)
                 (s\<lparr>s2_memory := copy_buffer bs dest (unat (cnt * 512)) (s2_memory s)\<rparr>)
      else Some (True, s))"

definition kernel_read :: "'b bios \<Rightarrow> u16 \<Rightarrow> u32 \<Rightarrow> u8 \<Rightarrow> u32 \<Rightarrow> u32 \<Rightarrow> 'b stage2 \<Rightarrow> (bool \<times> 'b stage2) option" where
  "kernel_read bios buffer dest disk_no block n s = disk_read_loop bios buffer disk_no n 0 block dest s"

section \<open>The main function\<close>

text \<open>How the loader ends: it hangs, or it jumps to the kernel with the memory map.\<close>

datatype boot_end =
  Boot_hangs
| Jumps "memory_region list"

definition kernel_address :: u32 where "kernel_address = 0x00100000"

definition stage2_main :: "'b bios \<Rightarrow> u16 \<Rightarrow> u8 \<Rightarrow> u32 \<Rightarrow> u32 \<Rightarrow> 'b stage2 \<Rightarrow> (boot_end \<times> 'b stage2) option" where
  "stage2_main bios buffer disk_no kernel_start kernel_blocks s = do {
     let s = clear_console bios (init_console bios s);
     (rs, n, b) \<leftarrow> make_memory_map bios (s2_bios s);
     let s = s\<lparr>s2_bios := b\<rparr>;
     if \<not> is_memory_available (take n rs) kernel_address (kernel_blocks * 512 + 16 * 1024 * 1024)
     then Some (Boot_hangs, puts bios (''kernel does not fit in available memory, aborting.'' @ [CHR 0x0A]) s)
     else do {
       (ok, s) \<leftarrow> kernel_read bios buffer kernel_address disk_no kernel_start kernel_blocks s;
       if \<not> ok then Some (Boot_hangs, puts bios (''could not read kernel binary from disk.'' @ [CHR 0x0A]) s)
       else Some (Jumps (take n rs), s)
     }
   }"

section \<open>What the memory map holds\<close>

text \<open>
  A BIOS that lists the entries \<open>es\<close>, each with start, size and type, in order; the continuation value is the
  number of the next entry, and 0 after the last one.
\<close>

definition serves_map :: "'b bios \<Rightarrow> (u64 \<times> u64 \<times> u32) list \<Rightarrow> bool" where
  "serves_map bios es \<longleftrightarrow> es \<noteq> [] \<and> length es < 2 ^ 32 \<and>
     (\<forall>k < length es. \<forall>s. \<exists>s'. int15 bios (of_nat k) s =
        (\<lparr>ma_carry = False, ma_eax = 0x534d4150, ma_x = fst (es ! k), ma_y = fst (snd (es ! k)),
          ma_z = snd (snd (es ! k)), ma_cont = (if k + 1 = length es then 0 else of_nat (k + 1))\<rparr>, s'))"

definition usable :: "u64 \<times> u64 \<times> u32 \<Rightarrow> bool" where
  "usable e \<longleftrightarrow> snd (snd e) = 1 \<and> fst (snd e) \<noteq> 0"

definition entry_region :: "u64 \<times> u64 \<times> u32 \<Rightarrow> memory_region" where
  "entry_region e = \<lparr>mr_start = unat (fst e), mr_size = unat (fst (snd e))\<rparr>"

lemma of_nat_u32_0: "k < 2 ^ 32 \<Longrightarrow> (of_nat k :: u32) = 0 \<longleftrightarrow> k = 0"
  using unat_of_nat_small [of k, where 'a = 32] by (auto simp: unat_eq_zero [symmetric])

lemma e820_loop_call:
  assumes "int15 bios c s = (\<lparr>ma_carry = False, ma_eax = e, ma_x = x, ma_y = y, ma_z = z, ma_cont = c'\<rparr>, s')"
    "e \<noteq> 0" "n < max_memory_regions"
  shows "e820_loop bios rs n c s =
     (if c' = 0 then Some (rs[n := entry_region (x, y, z)], if usable (x, y, z) then n + 1 else n, s')
      else e820_loop bios (rs[n := entry_region (x, y, z)]) (if usable (x, y, z) then n + 1 else n) c' s')"
proof -
  have "asm_get_memory_map bios c s = ((True, x, y, z = 1, c'), s')"
    using assms(1,2) by (simp add: asm_get_memory_map_def)
  then have "e820_loop bios rs n c s =
     (let rs = rs[n := \<lparr>mr_start = unat x, mr_size = unat y\<rparr>]; available = (z = 1 \<and> y \<noteq> 0) in
      if c' = 0 then Some (rs, if available then n + 1 else n, s')
      else e820_loop bios rs (if available then n + 1 else n) c' s')"
    using assms(3) by (subst e820_loop.simps) (simp only: prod.case Let_def if_True not_True_eq_False if_False)
  then show ?thesis by (simp only: usable_def entry_region_def fst_conv snd_conv Let_def)
qed

lemma e820_loop_step:
  assumes "serves_map bios es" "k < length es" "n < max_memory_regions"
  shows "\<exists>s'. e820_loop bios rs n (of_nat k) s =
     (if k + 1 = length es then Some (rs[n := entry_region (es ! k)], if usable (es ! k) then n + 1 else n, s')
      else e820_loop bios (rs[n := entry_region (es ! k)]) (if usable (es ! k) then n + 1 else n) (of_nat (k + 1)) s')"
proof -
  obtain x y z where e: "es ! k = (x, y, z)" by (cases "es ! k") auto
  from assms(1,2) obtain s' where c: "int15 bios (of_nat k) s =
        (\<lparr>ma_carry = False, ma_eax = 0x534d4150, ma_x = x, ma_y = y, ma_z = z,
          ma_cont = (if k + 1 = length es then 0 else of_nat (k + 1))\<rparr>, s')"
    unfolding serves_map_def by (metis e fst_conv snd_conv)
  have nz: "(if k + 1 = length es then 0 else of_nat (k + 1) :: u32) = 0 \<longleftrightarrow> k + 1 = length es"
    using assms(1,2) of_nat_u32_0 [of "k + 1"] by (simp add: serves_map_def del: of_nat_Suc of_nat_add)
  show ?thesis
    using e820_loop_call [OF c _ assms(3), of rs] unfolding e nz by (intro exI [of _ s']) (auto split: if_splits)
qed

lemma e820_loop_regions:
  assumes "serves_map bios es" "k < length es" "n \<le> max_memory_regions" "length rs = max_memory_regions"
  shows "\<exists>rs' n' s'. e820_loop bios rs n (of_nat k) s = Some (rs', n', s') \<and> n \<le> n' \<and> n' \<le> length rs'
    \<and> take n' rs' = take n rs @ take (max_memory_regions - n) (map entry_region (filter usable (drop k es)))"
  using assms(2-)
proof (induction "length es - k" arbitrary: k n rs s rule: less_induct)
  case less
  have drop: "drop k es = es ! k # drop (k + 1) es" using less.prems(1) by (simp add: Cons_nth_drop_Suc)
  show ?case
  proof (cases "n = max_memory_regions")
    case True
    with less.prems show ?thesis by (subst e820_loop.simps) simp
  next
    case False
    with less.prems have n: "n < max_memory_regions" by simp
    let ?rs = "rs[n := entry_region (es ! k)]" and ?n = "if usable (es ! k) then n + 1 else n"
    from e820_loop_step [OF assms(1) less.prems(1) n] obtain s' where
      s: "e820_loop bios rs n (of_nat k) s =
        (if k + 1 = length es then Some (?rs, ?n, s') else e820_loop bios ?rs ?n (of_nat (k + 1)) s')"
      by blast
    have pre: "take ?n ?rs = take n rs @ (if usable (es ! k) then [entry_region (es ! k)] else [])"
      using n less.prems(3) by (simp add: take_Suc_conv_app_nth)
    show ?thesis
    proof (cases "k + 1 = length es")
      case True
      then have "drop (k + 1) es = []" by simp
      with s True drop pre n less.prems show ?thesis by (auto simp: take_Cons')
    next
      case False
      then have "k + 1 < length es" using less.prems(1) by simp
      moreover have "length es - (k + 1) < length es - k" using less.prems(1) by simp
      moreover have "?n \<le> max_memory_regions" "length ?rs = max_memory_regions" using n less.prems(3) by simp_all
      ultimately obtain rs' n' s2 where
        r: "e820_loop bios ?rs ?n (of_nat (k + 1)) s' = Some (rs', n', s2)" "?n \<le> n'" "n' \<le> length rs'"
          "take n' rs' = take ?n ?rs @ take (max_memory_regions - ?n) (map entry_region (filter usable (drop (k + 1) es)))"
        using less.hyps [of "k + 1" ?n ?rs s'] by blast
      have "take n' rs' = take n rs @ take (max_memory_regions - n) (map entry_region (filter usable (drop k es)))"
        unfolding r(4) pre drop using n by (auto simp: take_Cons')
      moreover have "n \<le> n'" using r(2) by (simp split: if_splits)
      ultimately show ?thesis using s r(1,3) False by auto
    qed
  qed
qed

text \<open>
  The memory map of the boot loader ends, and holds exactly the available regions of the BIOS that are not empty,
  in their order, as far as the array has room for them.
\<close>

lemma memory_map_lists_usable:
  assumes "serves_map bios es"
  shows "\<exists>rs n s'. make_memory_map bios s = Some (rs, n, s') \<and> n \<le> length rs
    \<and> take n rs = take max_memory_regions (map entry_region (filter usable es))"
proof -
  have "0 < length es" using assms by (simp add: serves_map_def)
  from e820_loop_regions [OF assms this, of 0 "replicate max_memory_regions \<lparr>mr_start = 0, mr_size = 0\<rparr>" s]
  show ?thesis by (auto simp: make_memory_map_def)
qed

section \<open>What is read from the disk\<close>

text \<open>A BIOS that reads from a disk with the bytes \<open>img\<close> and \<open>size\<close> blocks.\<close>

definition serves_disk :: "'b bios \<Rightarrow> u8 \<Rightarrow> (nat \<Rightarrow> u8) \<Rightarrow> nat \<Rightarrow> bool" where
  "serves_disk bios disk_no img sz \<longleftrightarrow>
     (\<forall>p s. 0 < unat (dap_block_count p) \<and> unat (dap_block_count p) \<le> 127
        \<and> unat (dap_lba p) + unat (dap_block_count p) \<le> sz \<longrightarrow>
        (\<exists>s'. int13 bios disk_no p s =
           (False, map (\<lambda>j. img (512 * unat (dap_lba p) + j)) [0..<512 * unat (dap_block_count p)], s')))"

lemma copy_buffer_eq:
  "n \<le> 2 ^ 32 \<Longrightarrow> copy_buffer bs dest n m a = (if unat (a - dest) < n then bs ! unat (a - dest) else m a)"
proof (induction n)
  case 0
  then show ?case by (simp add: copy_buffer_def)
next
  case (Suc n)
  have "a = dest + of_nat n \<longleftrightarrow> unat (a - dest) = n"
  proof
    assume "unat (a - dest) = n"
    then have "of_nat n = a - dest" by auto
    then show "a = dest + of_nat n" by simp
  qed (use Suc.prems in \<open>simp add: unat_of_nat_small\<close>)
  with Suc show ?case by (simp add: copy_buffer_def less_Suc_eq)
qed

lemma disk_call:
  assumes "serves_disk bios disk_no img sz" "0 < unat c" "unat c \<le> 16" "unat (block :: u32) + unat c \<le> sz"
  shows "\<exists>b'. asm_disk_read bios buffer disk_no block (ucast (c :: u32)) b
    = (True, map (\<lambda>j. img (512 * unat block + j)) [0..<512 * unat c], b')"
proof -
  let ?p = "\<lparr>dap_block_count = ucast c, dap_offset = buffer, dap_lba = ucast block\<rparr>"
  have "unat (ucast c :: u8) = unat c" using assms(3) by (simp add: unsigned_ucast_eq take_bit_nat_eq_self)
  moreover have "unat (ucast block :: u64) = unat block"
  proof -
    have "unat block < 2 ^ 64" by (rule less_trans [OF unat_u32_less]) simp
    then show ?thesis by (simp add: unsigned_ucast_eq take_bit_nat_eq_self)
  qed
  ultimately show ?thesis
    using assms unfolding serves_disk_def asm_disk_read_def
    by (auto dest!: spec [of _ ?p] spec [of _ b])
qed

lemma disk_read_step:
  assumes "i < n" "(if n - i < buffer_block_count then n - i else buffer_block_count) = c"
    and "asm_disk_read bios buffer disk_no block (ucast c) (s2_bios s) = (True, bs, b')"
  shows "disk_read_loop bios buffer disk_no n i block dest s =
     disk_read_loop bios buffer disk_no n (i + buffer_block_count) (block + buffer_block_count)
       (dest + buffer_block_count * 512)
       (s\<lparr>s2_bios := b', s2_memory := copy_buffer bs dest (unat (c * 512)) (s2_memory s)\<rparr>)"
  using assms(1) by (subst disk_read_loop.simps)
    (simp only: Let_def assms(2) assms(3) prod.case if_True not_True_eq_False if_False, simp)

lemma disk_read_loop_bytes:
  assumes "serves_disk bios disk_no img sz"
    and "unat n \<le> 2 ^ 23" "unat block + (unat n - unat i) \<le> sz" "sz \<le> 2 ^ 32" "unat i \<le> unat n + 16"
  shows "\<exists>s'. disk_read_loop bios buffer disk_no n i block dest s = Some (True, s')
    \<and> (\<forall>a. s2_memory s' a = (if unat (a - dest) < 512 * (unat n - unat i)
         then img (512 * unat block + unat (a - dest)) else s2_memory s a))"
  using assms(3,5)
proof (induction "unat n - unat i" arbitrary: i block dest s rule: less_induct)
  case less
  show ?case
  proof (cases "i < n")
    case False
    then show ?thesis by (subst disk_read_loop.simps) (simp add: word_less_nat_alt)
  next
    case True
    let ?d = "unat n - unat i"
    define c where "c = (if n - i < buffer_block_count then n - i else buffer_block_count)"
    have d: "unat (n - i) = ?d" "0 < ?d" using True by (simp_all add: unat_sub_if' word_less_nat_alt word_le_nat_alt)
    have c: "unat c = min 16 ?d" by (auto simp: c_def buffer_block_count_def word_less_nat_alt d(1))
    have cl: "unat (c * 512) = 512 * unat c" using c by (subst unat_mult_lem [THEN iffD1]) auto
    let ?bs = "map (\<lambda>j. img (512 * unat block + j)) [0..<512 * unat c]"
    have room: "unat block + unat c \<le> sz" using less.prems(1) c d(2) by linarith
    from disk_call [OF assms(1), of c block buffer "s2_bios s"] room c d(2) obtain b' where
      b: "asm_disk_read bios buffer disk_no block (ucast c) (s2_bios s) = (True, ?bs, b')" by auto
    let ?m = "copy_buffer ?bs dest (unat (c * 512)) (s2_memory s)"
    have m: "?m a = (if unat (a - dest) < 512 * unat c then img (512 * unat block + unat (a - dest)) else s2_memory s a)" for a
      using c by (subst copy_buffer_eq) (auto simp: cl)
    let ?s = "s\<lparr>s2_bios := b', s2_memory := ?m\<rparr>"
    have step: "disk_read_loop bios buffer disk_no n i block dest s =
        disk_read_loop bios buffer disk_no n (i + 16) (block + 16) (dest + 16 * 512) ?s"
      using disk_read_step [OF True c_def [symmetric] b] by (simp add: buffer_block_count_def)
    have i: "unat (i + 16) = unat i + 16" using less.prems(2) assms(2) by (subst unat_add_small) auto
    show ?thesis
    proof (cases "?d \<le> 16")
      case True
      then have end_cond: "(i + 16 < n) = False" by (simp add: word_less_nat_alt i)
      have "disk_read_loop bios buffer disk_no n (i + 16) (block + 16) (dest + 16 * 512) ?s = Some (True, ?s)"
        using i by (subst disk_read_loop.simps) (simp only: end_cond if_False)
      with step m True c show ?thesis by simp
    next
      case False
      have bl: "unat (block + 16) = unat block + 16" using False less.prems(1) assms(4) by (subst unat_add_small) auto
      have d': "unat n - unat (i + 16) = ?d - 16" by (simp add: i)
      have "\<exists>s'. disk_read_loop bios buffer disk_no n (i + 16) (block + 16) (dest + 16 * 512) ?s = Some (True, s')
          \<and> (\<forall>a. s2_memory s' a = (if unat (a - (dest + 16 * 512)) < 512 * (?d - 16)
             then img (512 * unat (block + 16) + unat (a - (dest + 16 * 512))) else s2_memory ?s a))"
        unfolding d' [symmetric]
        by (rule less.hyps) (use False less.prems in \<open>auto simp: d' i bl\<close>)
      then obtain s' where
        s': "disk_read_loop bios buffer disk_no n (i + 16) (block + 16) (dest + 16 * 512) ?s = Some (True, s')"
          "\<And>a. s2_memory s' a = (if unat (a - (dest + 16 * 512)) < 512 * (?d - 16)
             then img (512 * unat (block + 16) + unat (a - (dest + 16 * 512))) else s2_memory ?s a)"
        by blast
      have "s2_memory s' a = (if unat (a - dest) < 512 * ?d
         then img (512 * unat block + unat (a - dest)) else s2_memory s a)" for a
      proof (cases "unat (a - dest) < 8192")
        case t: True
        have "unat (a - (dest + 16 * 512)) = unat ((a - dest) - 8192)" by (simp add: algebra_simps)
        also have "\<dots> = unat (a - dest) + (2 ^ 32 - 8192)" using t by (simp add: unat_sub_if')
        finally have "2 ^ 32 - 8192 \<le> unat (a - (dest + 16 * 512))" by simp
        moreover have "?d - 16 \<le> 2 ^ 23 - 16" using assms(2) by simp
        ultimately have "\<not> unat (a - (dest + 16 * 512)) < 512 * (?d - 16)" by simp
        with s'(2) [of a] m [of a] t False c show ?thesis by simp
      next
        case f: False
        have "unat (a - (dest + 16 * 512)) = unat ((a - dest) - 8192)" by (simp add: algebra_simps)
        also have "\<dots> = unat (a - dest) - 8192" using f by (simp add: unat_sub_if' word_le_nat_alt)
        finally show ?thesis using s'(2) [of a] m [of a] f False c bl by (auto simp: algebra_simps)
      qed
      with s'(1) step show ?thesis by auto
    qed
  qed
qed

section \<open>Starting the kernel\<close>

definition region_holds :: "memory_region \<Rightarrow> nat \<Rightarrow> nat \<Rightarrow> bool" where
  "region_holds r start sz \<longleftrightarrow> mr_start r \<le> start \<and> start + sz \<le> mr_start r + mr_size r"

lemma is_memory_available_iff:
  assumes "0 < unat sz" "unat start + unat sz < 2 ^ 32"
    and "\<forall>r \<in> set rs. 0 < mr_size r \<and> mr_start r + mr_size r \<le> 2 ^ 64"
  shows "is_memory_available rs start sz \<longleftrightarrow> (\<exists>r \<in> set rs. region_holds r (unat start) (unat sz))"
proof -
  have z: "sz \<noteq> 0" using assms(1) by auto
  have one: "unat (sz - 1) = unat sz - 1" using z by (simp add: unat_minus_one)
  have last: "unat (start + (sz - 1)) = unat start + (unat sz - 1)"
    using assms(1,2) one by (subst unat_add_small) auto
  have "\<not> start + (sz - 1) < start" by (simp only: word_less_nat_alt last)
  moreover have "(mr_start r \<le> unat start \<and> unat (start + (sz - 1))
        \<le> (mr_start r + (mr_size r + 2 ^ 64 - 1) mod 2 ^ 64) mod 2 ^ 64) = region_holds r (unat start) (unat sz)"
    if "r \<in> set rs" for r
  proof -
    from assms(3) that have r: "0 < mr_size r" "mr_start r + mr_size r \<le> 2 ^ 64" by auto
    have "mr_size r + 2 ^ 64 - 1 = (mr_size r - 1) + 2 ^ 64" using r by simp
    then have "(mr_size r + 2 ^ 64 - 1) mod 2 ^ 64 = mr_size r - 1" using r by (simp only: mod_add_self2) simp
    then have "(mr_start r + (mr_size r + 2 ^ 64 - 1) mod 2 ^ 64) mod 2 ^ 64 = mr_start r + (mr_size r - 1)"
      using r by simp
    then show ?thesis unfolding region_holds_def last using r assms(1) by (simp only:) linarith
  qed
  ultimately show ?thesis using z by (simp add: is_memory_available_def list_ex_iff)
qed

lemma s2_memory_console [simp]:
  "s2_memory (clear_console bios s) = s2_memory s" "s2_memory (init_console bios s) = s2_memory s"
  by (simp_all add: clear_console_def init_console_def)

lemma unat_kernel_room:
  assumes "unat (n :: u32) < 8355000"
  shows "unat (n * 512 + 16 * 1024 * 1024) = 512 * unat n + 2 ^ 24"
proof -
  have "unat (n * 512) = 512 * unat n" using assms by (subst unat_mult_lem [THEN iffD1]) auto
  with assms show ?thesis by (subst unat_add_small) auto
qed

lemma usable_regions:
  assumes "\<forall>e \<in> set es. unat (fst e) + unat (fst (snd e)) \<le> 2 ^ 64"
    and "r \<in> set (take k (map entry_region (filter usable es)))"
  shows "0 < mr_size r \<and> mr_start r + mr_size r \<le> 2 ^ 64"
proof -
  from assms(2) obtain e where "e \<in> set es" "usable e" "r = entry_region e" by (auto dest!: in_set_takeD)
  with assms(1) show ?thesis by (auto simp: entry_region_def usable_def unat_gt_0)
qed

text \<open>The two ends of \<open>stage2_main\<close>, from its parts.\<close>

lemma stage2_main_spec:
  assumes "serves_map bios es" "\<forall>e \<in> set es. unat (fst e) + unat (fst (snd e)) \<le> 2 ^ 64"
    and "serves_disk bios disk_no img sz" "sz \<le> 2 ^ 32"
    and "unat kernel_start + unat kernel_blocks \<le> sz" "unat kernel_blocks < 8352000"
    and "rs = take max_memory_regions (map entry_region (filter usable es))"
  shows "if \<exists>r \<in> set rs. region_holds r (2 ^ 20) (512 * unat kernel_blocks + 2 ^ 24)
    then \<exists>s'. stage2_main bios buffer disk_no kernel_start kernel_blocks s = Some (Jumps rs, s')
      \<and> (\<forall>a. s2_memory s' a = (if unat (a - kernel_address) < 512 * unat kernel_blocks
           then img (512 * unat kernel_start + unat (a - kernel_address)) else s2_memory s a))
    else \<exists>s'. stage2_main bios buffer disk_no kernel_start kernel_blocks s = Some (Boot_hangs, s')"
proof -
  let ?s = "clear_console bios (init_console bios s)"
  from memory_map_lists_usable [OF assms(1), of "s2_bios ?s"]
  obtain ms n b where m: "make_memory_map bios (s2_bios ?s) = Some (ms, n, b)" "take n ms = rs"
    by (auto simp: assms(7))
  let ?room = "kernel_blocks * 512 + 16 * 1024 * 1024"
  have room: "unat ?room = 512 * unat kernel_blocks + 2 ^ 24" using assms(6) by (intro unat_kernel_room) simp
  have addr: "unat kernel_address = 2 ^ 20" by (simp add: kernel_address_def)
  have avail: "is_memory_available (take n ms) kernel_address ?room
      \<longleftrightarrow> (\<exists>r \<in> set rs. region_holds r (2 ^ 20) (512 * unat kernel_blocks + 2 ^ 24))"
    unfolding m(2) addr [symmetric] room [symmetric]
    by (rule is_memory_available_iff)
       (use assms(6) usable_regions [OF assms(2)] in \<open>simp_all add: room [simplified] addr assms(7)\<close>)
  show ?thesis
  proof (cases "is_memory_available (take n ms) kernel_address ?room")
    case False
    with m avail show ?thesis by (simp add: stage2_main_def Let_def)
  next
    case True
    have "\<exists>s'. disk_read_loop bios buffer disk_no kernel_blocks 0 kernel_start kernel_address (?s\<lparr>s2_bios := b\<rparr>) = Some (True, s')
      \<and> (\<forall>a. s2_memory s' a = (if unat (a - kernel_address) < 512 * (unat kernel_blocks - unat (0 :: u32))
           then img (512 * unat kernel_start + unat (a - kernel_address)) else s2_memory (?s\<lparr>s2_bios := b\<rparr>) a))"
      by (rule disk_read_loop_bytes [OF assms(3) _ _ assms(4)]) (use assms(5,6) in simp_all)
    with m avail True show ?thesis by (auto simp: stage2_main_def kernel_read_def Let_def)
  qed
qed

text \<open>
  C38: On a machine whose BIOS lists its memory and reads the boot disk, the second stage always comes to an end: when
  one of the listed regions has room for the kernel and 16 MiB more at 1 MiB, it jumps to the kernel with exactly
  the usable regions, and memory from 1 MiB on holds the blocks of the kernel, with nothing else changed; otherwise
  it hangs and has written nothing to memory.
\<close>

theorem stage2_loads_kernel:
  assumes "serves_map bios es" "\<forall>e \<in> set es. unat (fst e) + unat (fst (snd e)) \<le> 2 ^ 64"
    and "serves_disk bios disk_no img sz" "sz \<le> 2 ^ 32"
    and "unat kernel_start + unat kernel_blocks \<le> sz" "unat kernel_blocks < 8352000"
    and "rs = take max_memory_regions (map entry_region (filter usable es))"
  shows "if \<exists>r \<in> set rs. region_holds r (2 ^ 20) (512 * unat kernel_blocks + 2 ^ 24)
    then \<exists>s'. stage2_main bios buffer disk_no kernel_start kernel_blocks s = Some (Jumps rs, s')
      \<and> (\<forall>a. s2_memory s' a = (if unat (a - kernel_address) < 512 * unat kernel_blocks
           then img (512 * unat kernel_start + unat (a - kernel_address)) else s2_memory s a))
    else \<exists>s'. stage2_main bios buffer disk_no kernel_start kernel_blocks s = Some (Boot_hangs, s')"
  using assms by (rule stage2_main_spec)

section \<open>Examples\<close>

text \<open>A machine with 128 MiB, and a disk with the bytes \<open>img\<close>.\<close>

definition demo_entries :: "(u64 \<times> u64 \<times> u32) list" where
  "demo_entries = [(0, 0x9fc00, 1), (0xf0000, 0x10000, 2), (0x100000, 0x7f00000, 1)]"

definition demo_bios :: "(nat \<Rightarrow> u8) \<Rightarrow> unit bios" where
  "demo_bios img = \<lparr>
     int15 = \<lambda>k s. (let e = demo_entries ! unat k in
       \<lparr>ma_carry = False, ma_eax = 0x534d4150, ma_x = fst e, ma_y = fst (snd e), ma_z = snd (snd e),
        ma_cont = (if unat k + 1 = length demo_entries then 0 else of_nat (unat k + 1))\<rparr>, s),
     int13 = \<lambda>d p s. (False,
       map (\<lambda>j. img (512 * unat (dap_lba p) + j)) [0..<512 * unat (dap_block_count p)], s),
     print_screen = \<lambda>c s. s, clear_text = \<lambda>s. s, print_serial = \<lambda>c s. s, init_serial = \<lambda>s. s, equipment = 0\<rparr>"

lemma demo_bios_map: "serves_map (demo_bios img) demo_entries"
proof -
  have "length demo_entries = 3" by (simp add: demo_entries_def)
  moreover have "unat (of_nat k :: u32) = k" if "k < 3" for k using that by (intro unat_of_nat_small) simp
  ultimately show ?thesis by (auto simp: serves_map_def demo_bios_def Let_def)
qed

lemma demo_bios_disk: "serves_disk (demo_bios img) disk_no img sz"
  by (simp add: serves_disk_def demo_bios_def)

lemma demo_entries_fit: "\<forall>e \<in> set demo_entries. unat (fst e) + unat (fst (snd e)) \<le> 2 ^ 64"
  by (simp add: demo_entries_def)

definition demo_high_memory :: memory_region where
  "demo_high_memory = \<lparr>mr_start = 0x100000, mr_size = 0x7f00000\<rparr>"

lemma demo_regions:
  "take max_memory_regions (map entry_region (filter usable demo_entries)) = [\<lparr>mr_start = 0, mr_size = 0x9fc00\<rparr>, demo_high_memory]"
  by (simp add: demo_entries_def usable_def entry_region_def max_memory_regions_def demo_high_memory_def)

definition demo_start :: "unit stage2" where
  "demo_start = \<lparr>serial_enabled = False, s2_memory = \<lambda>a. 0, s2_bios = ()\<rparr>"

theorem stage2_loads_kernel_witness:
  "\<exists>rs s'. stage2_main (demo_bios of_nat) 0 0x80 3 2 demo_start = Some (Jumps rs, s')
     \<and> s2_memory s' 0x100005 = of_nat (3 * 512 + 5) \<and> s2_memory s' 5 = 0"
proof -
  have r: "\<exists>r \<in> set [\<lparr>mr_start = 0, mr_size = 0x9fc00\<rparr>, demo_high_memory]. region_holds r (2 ^ 20) (512 * unat (2 :: u32) + 2 ^ 24)"
    by (simp add: region_holds_def demo_high_memory_def)
  have "unat (0x100005 - kernel_address) = 5" "\<not> unat (5 - kernel_address) < 1024" by (simp_all add: kernel_address_def)
  with stage2_loads_kernel [where kernel_start = 3 and kernel_blocks = 2 and buffer = 0 and s = demo_start,
        OF demo_bios_map [of of_nat] demo_entries_fit demo_bios_disk [of of_nat "0x80" 100] _ _ _ demo_regions [symmetric]] r
  show ?thesis by (auto simp: demo_start_def)
qed

end
