(* ===== verification/InstallLoader.thy ===== *)
theory InstallLoader
  imports Stage2
begin

unbundle bit_operations_syntax

text \<open>
  The tool that writes the boot loader and the kernel to a disk (boot/utils/loader-install.cc). Files are lists of
  bytes; the tool runs on a 64-bit host, so sizes and offsets do not wrap.
\<close>

section \<open>Constants\<close>

definition reserved_fs_type :: u8 where "reserved_fs_type = 0x7f"
definition sector_size :: nat where "sector_size = 512"
definition mbr_offset_stage2_start :: nat where "mbr_offset_stage2_start = 5"
definition mbr_offset_stage2_blocks :: nat where "mbr_offset_stage2_blocks = 9"
definition mbr_offset_kernel_start :: nat where "mbr_offset_kernel_start = 10"
definition mbr_offset_kernel_blocks :: nat where "mbr_offset_kernel_blocks = 14"

section \<open>Files\<close>

text \<open>Reading at most \<open>n\<close> bytes from the start, and writing at a position, past the end as well.\<close>

definition slurp :: "u8 list \<Rightarrow> nat option \<Rightarrow> u8 list" where
  "slurp fh max_size = (case max_size of None \<Rightarrow> fh | Some n \<Rightarrow> take n fh)"

definition file_write :: "nat \<Rightarrow> u8 list \<Rightarrow> u8 list \<Rightarrow> u8 list" where
  "file_write p bs fh = take p fh @ replicate (p - length fh) 0 @ bs @ drop (p + length bs) fh"

section \<open>The boot partition\<close>

text \<open>
  The entries of the partition table lie at byte \<open>0x1be\<close> of the boot sector, 16 bytes each. The search looks at
  entry \<open>i\<close> with \<open>k\<close> rounds left; without a match it ends behind the fourth entry.
\<close>

definition entry_at :: "nat \<Rightarrow> nat" where "entry_at i = 0x1be + 16 * i"

definition partition_id_at :: "u8 list \<Rightarrow> nat \<Rightarrow> u8 kern" where
  "partition_id_at disk_mbr i = aget disk_mbr (entry_at i + 4)"

primrec find_boot :: "u8 list \<Rightarrow> nat \<Rightarrow> nat \<Rightarrow> nat kern" where
  "find_boot disk_mbr i 0 = Some i"
| "find_boot disk_mbr i (Suc k) = do {
     t \<leftarrow> partition_id_at disk_mbr i;
     if t \<noteq> 0x7f then find_boot disk_mbr (i + 1) k else Some i
   }"

definition lba_start_at :: "u8 list \<Rightarrow> nat \<Rightarrow> nat" where
  "lba_start_at disk_mbr i = unat (le32 disk_mbr (entry_at i + 8))"

definition block_count_at :: "u8 list \<Rightarrow> nat \<Rightarrow> nat" where
  "block_count_at disk_mbr i = unat (le32 disk_mbr (entry_at i + 12))"

definition too_small :: "nat \<Rightarrow> nat \<Rightarrow> nat \<Rightarrow> bool" where
  "too_small block_count stage2_size kernel_size \<longleftrightarrow>
     block_count < stage2_size div sector_size + 1 \<or> block_count < kernel_size div sector_size + 1
   \<or> block_count < kernel_size div sector_size + 2 + stage2_size div sector_size + 2"

section \<open>The boot sector\<close>

definition write_u32le :: "u32 \<Rightarrow> u8 list" where
  "write_u32le v = [ucast v, ucast (drop_bit 8 v), ucast (drop_bit 16 v), ucast (drop_bit 24 v)]"

text \<open>
  What the loop over the code of the boot sector writes from byte \<open>i\<close> on: \<open>s\<close> and \<open>k\<close> are the byte positions of the
  second stage and of the kernel on the disk, \<open>sn\<close> and \<open>kn\<close> their sizes.
\<close>

function boot_code :: "u8 list \<Rightarrow> nat \<Rightarrow> nat \<Rightarrow> nat \<Rightarrow> nat \<Rightarrow> nat \<Rightarrow> u8 list" where
  "boot_code mbr s sn k kn i =
     (if i \<ge> 0x1bd then []
      else if i = mbr_offset_stage2_blocks then of_nat (sn div sector_size + 1) # boot_code mbr s sn k kn (i + 1)
      else if i = mbr_offset_stage2_start then write_u32le (of_nat (s div sector_size)) @ boot_code mbr s sn k kn (i + 4)
      else if i = mbr_offset_kernel_start then write_u32le (of_nat (k div sector_size)) @ boot_code mbr s sn k kn (i + 4)
      else if i = mbr_offset_kernel_blocks then write_u32le (of_nat (kn div sector_size + 1)) @ boot_code mbr s sn k kn (i + 4)
      else mbr ! i # boot_code mbr s sn k kn (i + 1))"
  by pat_completeness auto
termination by (relation "measure (\<lambda>(mbr, s, sn, k, kn, i). 0x1bd - i)") auto

declare boot_code.simps [simp del]

section \<open>The main function\<close>

datatype install_end =
  Usage
| Fails string
| Installed "u8 list"

definition kernel_position :: "nat \<Rightarrow> nat" where
  "kernel_position stage2_end =
     (let k = stage2_end + sector_size in k - k mod sector_size)"

text \<open>Writing everything to the disk, in the order of the code.\<close>

definition write_disk :: "nat \<Rightarrow> u8 list \<Rightarrow> u8 list \<Rightarrow> u8 list \<Rightarrow> u8 list \<Rightarrow> u8 list" where
  "write_disk lba_start mbr stage2 kbin disk =
     (let s = lba_start * sector_size;
          disk = file_write s stage2 disk;
          k = kernel_position (s + length stage2);
          disk = file_write k kbin disk;
          disk = file_write 0 (boot_code mbr s (length stage2) k (length kbin) 0) disk in
      file_write 0x1fe [0x55, 0xaa] disk)"

definition install :: "u8 list \<Rightarrow> u8 list \<Rightarrow> u8 list \<Rightarrow> u8 list \<Rightarrow> install_end kern" where
  "install file_mbr file_stage2 file_kernel file_disk =
     (if length file_disk < 16 * 1024 * 1024 then Some (Fails ''disk too small (should be at least 16M)'')
      else if length file_mbr \<noteq> 512 then Some (Fails ''mbr is not 512 bytes long'')
      else if length file_stage2 > 0x10000 - 0x7e00 then Some (Fails ''stage2 too big (must be max 32K)'')
      else do {
        let disk_mbr = slurp file_disk (Some 512);
        i \<leftarrow> find_boot disk_mbr 0 4;
        t \<leftarrow> partition_id_at disk_mbr i;
        if t \<noteq> reserved_fs_type then Some (Fails ''disk does not have a boot partition (partition id 0x7f)'')
        else if too_small (block_count_at disk_mbr i) (length file_stage2) (length file_kernel)
        then Some (Fails ''boot partition is too small to fit both stage2 and the kernel'')
        else do {
          let mbr = slurp file_mbr None;
          let stage2 = slurp file_stage2 None;
          let kbin = slurp file_kernel None;
          if mbr ! 510 \<noteq> 0x55 \<or> mbr ! 511 \<noteq> 0xaa then Some (Fails (''MBR does not have a '' @ CHR 0x27 # ''55aa'' @ CHR 0x27 # '' signature''))
          else if \<not> list_all (\<lambda>i. mbr ! i = 0) [0x1be..<0x1fe]
          then Some (Fails ''MBR contains non-null bytes after byte 0x1bd (is the bootsector code too large?)'')
          else Some (Installed (write_disk (lba_start_at disk_mbr i) mbr stage2 kbin file_disk))
        }
      })"

text \<open>\<open>files\<close> are the files that can be opened, by their paths.\<close>

definition install_program :: "string list \<Rightarrow> (string \<Rightarrow> u8 list option) \<Rightarrow> install_end kern" where
  "install_program args files =
     (if length args \<noteq> 5 then Some Usage
      else case files (args ! 2) of None \<Rightarrow> Some (Fails ''could not open mbr'')
      | Some mbr \<Rightarrow> (case files (args ! 3) of None \<Rightarrow> Some (Fails ''could not open stage2'')
      | Some stage2 \<Rightarrow> (case files (args ! 4) of None \<Rightarrow> Some (Fails ''could not open kernel'')
      | Some kbin \<Rightarrow> (case files (args ! 1) of None \<Rightarrow> Some (Fails ''could not open disk'')
      | Some disk \<Rightarrow> install mbr stage2 kbin disk))))"

section \<open>What ends up on the disk\<close>

lemma le32_write:
  assumes "take 4 (drop i bs) = write_u32le v"
  shows "le32 bs i = v"
proof -
  have l: "i + 4 \<le> length bs" using arg_cong [OF assms, of length] by (simp add: write_u32le_def)
  have "bs ! (i + j) = write_u32le v ! j" if "j < 4" for j
    using that l unfolding assms [symmetric] by simp
  from this [of 0] this [of 1] this [of 2] this [of 3]
  have b: "bs ! i = ucast v" "bs ! (i + 1) = ucast (drop_bit 8 v)" "bs ! (i + 2) = ucast (drop_bit 16 v)"
    "bs ! (i + 3) = ucast (drop_bit 24 v)"
    by (simp_all add: write_u32le_def numeral_eq_Suc)
  have b3: "bs ! (i + 2 + 1) = ucast (drop_bit 24 v)" using b(4) by (simp add: numeral_eq_Suc)
  show ?thesis
    unfolding le32_def le16_def b(1,2,3) b3
  proof (rule bit_word_eqI, goal_cases)
    case (1 n)
    then show ?case by (cases "16 \<le> n") (auto simp: bit_simps)
  qed
qed

lemma length_file_write [simp]: "length (file_write p bs fh) = max (length fh) (p + length bs)"
  by (auto simp: file_write_def)

text \<open>The bytes from \<open>p\<close> on, \<open>n\<close> of them, as far as they exist.\<close>

definition part :: "nat \<Rightarrow> nat \<Rightarrow> u8 list \<Rightarrow> u8 list" where "part p n d = take n (drop p d)"

lemma part_write_same: "part p (length bs) (file_write p bs d) = bs"
  by (simp add: part_def file_write_def min_def)

lemma part_prefix: "q + n \<le> length xs \<Longrightarrow> part q n (xs @ ys) = part q n xs"
  by (simp add: part_def)

lemma part_write_other:
  assumes "q + n \<le> p \<or> p + length bs \<le> q" "q + n \<le> length d"
  shows "part q n (file_write p bs d) = part q n d"
  using assms(1)
proof
  assume q: "q + n \<le> p"
  then have "part q n (file_write p bs d) = part q n (take p d)"
    unfolding file_write_def using assms(2) by (intro part_prefix) simp
  also have "\<dots> = part q n d" using q by (simp add: part_def drop_take min_absorb1)
  finally show ?thesis .
next
  assume q: "p + length bs \<le> q"
  obtain A where A: "file_write p bs d = A @ drop (p + length bs) d" "length A = p + length bs"
    by (intro that [of "take p d @ replicate (p - length d) 0 @ bs"]) (simp_all add: file_write_def)
  then have "drop q (file_write p bs d) = drop q d" using q by simp
  then show ?thesis by (simp only: part_def)
qed

lemma boot_code_tail:
  "18 \<le> i \<Longrightarrow> length mbr = 512 \<Longrightarrow> boot_code mbr s sn k kn i = drop i (take 0x1bd mbr)"
proof (induction "0x1bd - i" arbitrary: i)
  case 0
  then show ?case by (simp add: boot_code.simps)
next
  case (Suc n)
  then have "i < 0x1bd" by simp
  then have "boot_code mbr s sn k kn i = mbr ! i # boot_code mbr s sn k kn (i + 1)"
    using Suc.prems by (subst boot_code.simps)
      (simp add: mbr_offset_stage2_blocks_def mbr_offset_stage2_start_def mbr_offset_kernel_start_def mbr_offset_kernel_blocks_def)
  also have "boot_code mbr s sn k kn (i + 1) = drop (i + 1) (take 0x1bd mbr)"
    using Suc by (intro Suc.hyps(1)) auto
  also have "mbr ! i # drop (i + 1) (take 0x1bd mbr) = drop i (take 0x1bd mbr)"
    using \<open>i < 0x1bd\<close> Suc.prems by (subst Cons_nth_drop_Suc [symmetric, of i]) auto
  finally show ?case .
qed

lemma boot_code_parts:
  assumes "length mbr = 512"
  shows "boot_code mbr s sn k kn 0 = take 5 mbr @ write_u32le (of_nat (s div 512)) @ [of_nat (sn div 512 + 1)]
    @ write_u32le (of_nat (k div 512)) @ write_u32le (of_nat (kn div 512 + 1)) @ drop 18 (take 0x1bd mbr)"
proof -
  note offsets = mbr_offset_stage2_blocks_def mbr_offset_stage2_start_def mbr_offset_kernel_start_def
    mbr_offset_kernel_blocks_def sector_size_def
  have "boot_code mbr s sn k kn 5 = write_u32le (of_nat (s div 512)) @ [of_nat (sn div 512 + 1)]
    @ write_u32le (of_nat (k div 512)) @ write_u32le (of_nat (kn div 512 + 1)) @ boot_code mbr s sn k kn 18"
    by (simp add: boot_code.simps [of _ _ _ _ _ 5] boot_code.simps [of _ _ _ _ _ 9] boot_code.simps [of _ _ _ _ _ 10]
        boot_code.simps [of _ _ _ _ _ 14] offsets)
  moreover have "boot_code mbr s sn k kn i = mbr ! i # boot_code mbr s sn k kn (Suc i)" if "i < 5" for i
    using that by (subst boot_code.simps) (simp add: offsets)
  from this [of 0] this [of 1] this [of 2] this [of 3] this [of 4]
  have "boot_code mbr s sn k kn 0 = [mbr ! 0, mbr ! 1, mbr ! 2, mbr ! 3, mbr ! 4] @ boot_code mbr s sn k kn 5"
    by (simp add: numeral_eq_Suc)
  moreover have "take 5 mbr = [mbr ! 0, mbr ! 1, mbr ! 2, mbr ! 3, mbr ! 4]"
    using assms by (auto simp: numeral_eq_Suc take_Suc_conv_app_nth)
  ultimately show ?thesis using boot_code_tail [of 18 mbr s sn k kn] assms by simp
qed

lemma length_write_u32le [simp]: "length (write_u32le v) = 4"
  by (simp add: write_u32le_def)

lemma length_boot_code: "length mbr = 512 \<Longrightarrow> length (boot_code mbr s sn k kn 0) = 0x1bd"
  by (simp add: boot_code_parts)

lemma part_part: "p + n \<le> m \<Longrightarrow> part p n (part 0 m d) = part p n d"
  by (simp add: part_def drop_take min_absorb1)

lemma boot_code_fields:
  assumes "length mbr = 512"
  shows "part 5 4 (boot_code mbr s sn k kn 0) = write_u32le (of_nat (s div 512))"
    and "part 9 1 (boot_code mbr s sn k kn 0) = [of_nat (sn div 512 + 1)]"
    and "part 10 4 (boot_code mbr s sn k kn 0) = write_u32le (of_nat (k div 512))"
    and "part 14 4 (boot_code mbr s sn k kn 0) = write_u32le (of_nat (kn div 512 + 1))"
  using assms by (simp_all add: boot_code_parts part_def)

lemma kernel_position_eq: "kernel_position (512 * l + n) = 512 * (l + n div 512 + 1)"
proof -
  let ?k = "512 * l + n + 512"
  have "?k - ?k mod 512 = 512 * (?k div 512)" by (rule minus_mod_eq_mult_div)
  also have "?k div 512 = l + n div 512 + 1" by simp
  finally show ?thesis by (simp only: kernel_position_def sector_size_def Let_def)
qed

text \<open>The disk after everything was written, read back part by part; \<open>l\<close> is the first block of the partition.\<close>

lemma write_disk_layout:
  assumes "1 \<le> l" "length mbr = 512" "512 \<le> length disk"
    and "d = write_disk l mbr stage2 kbin disk" and "k = l + length stage2 div 512 + 1"
  shows "part 5 4 d = write_u32le (of_nat l)" "part 9 1 d = [of_nat (length stage2 div 512 + 1)]"
    and "part 10 4 d = write_u32le (of_nat k)" "part 14 4 d = write_u32le (of_nat (length kbin div 512 + 1))"
    and "part 0x1be 64 d = part 0x1be 64 disk"
    and "part (512 * l) (length stage2) d = stage2" "part (512 * k) (length kbin) d = kbin"
    and "length d = max (max (length disk) (512 * l + length stage2)) (512 * k + length kbin)"
proof -
  let ?s = "512 * l"
  define d1 where "d1 = file_write ?s stage2 disk"
  define d2 where "d2 = file_write (512 * k) kbin d1"
  define c where "c = boot_code mbr ?s (length stage2) (512 * k) (length kbin) 0"
  define d3 where "d3 = file_write 0 c d2"
  have pos: "kernel_position (?s + length stage2) = 512 * k" by (simp add: kernel_position_eq assms(5))
  have d: "d = file_write 0x1fe [0x55, 0xaa] d3"
    by (simp add: assms(4) write_disk_def sector_size_def Let_def mult.commute [of l] pos d1_def d2_def d3_def c_def)
  have c: "length c = 0x1bd" using assms(2) by (simp add: c_def length_boot_code)
  have k: "?s + length stage2 \<le> 512 * k" 
    using assms(5) mult_div_mod_eq [of 512 "length stage2"] mod_less_divisor [of 512 "length stage2"] by linarith
  have len: "512 \<le> length d1" "512 \<le> length d2" "512 \<le> length d3" "length d3 = length d2"
    using assms(1,3) c by (simp_all add: d1_def d2_def d3_def)
  have fields: "part p n d = part p n c" if "p + n \<le> 0x1bd" for p n
  proof -
    have "part p n d = part p n d3" unfolding d using that len by (intro part_write_other) auto
    also have "\<dots> = part p n (part 0 (length c) d3)" using that c by (simp add: part_part)
    also have "part 0 (length c) d3 = c" unfolding d3_def by (rule part_write_same)
    finally show ?thesis .
  qed
  show "part 5 4 d = write_u32le (of_nat l)" "part 9 1 d = [of_nat (length stage2 div 512 + 1)]"
    "part 10 4 d = write_u32le (of_nat k)" "part 14 4 d = write_u32le (of_nat (length kbin div 512 + 1))"
    using boot_code_fields [OF assms(2), of ?s "length stage2" "512 * k" "length kbin"]
    by (simp_all add: fields c_def [symmetric])
  have later: "part p n d = part p n d2" if "512 \<le> p" "p + n \<le> length d2" for p n
  proof -
    have "part p n d = part p n d3" unfolding d using that len by (intro part_write_other) auto
    also have "\<dots> = part p n d2" unfolding d3_def using that c by (intro part_write_other) auto
    finally show ?thesis .
  qed
  have "part 0x1be 64 d = part 0x1be 64 d3" unfolding d using len by (intro part_write_other) auto
  also have "\<dots> = part 0x1be 64 d2" unfolding d3_def using len c by (intro part_write_other) auto
  also have "\<dots> = part 0x1be 64 d1" unfolding d2_def using len assms(1,5) by (intro part_write_other) auto
  also have "\<dots> = part 0x1be 64 disk" unfolding d1_def using assms(1,3) by (intro part_write_other) auto
  finally show "part 0x1be 64 d = part 0x1be 64 disk" .
  have "part ?s (length stage2) d = part ?s (length stage2) d2" using assms(1) by (intro later) (auto simp: d2_def d1_def)
  also have "\<dots> = part ?s (length stage2) d1" unfolding d2_def using k by (intro part_write_other) (auto simp: d1_def)
  also have "\<dots> = stage2" unfolding d1_def by (rule part_write_same)
  finally show "part ?s (length stage2) d = stage2" .
  have "part (512 * k) (length kbin) d = part (512 * k) (length kbin) d2"
    using assms(1,5) by (intro later) (auto simp: d2_def)
  also have "\<dots> = kbin" unfolding d2_def by (rule part_write_same)
  finally show "part (512 * k) (length kbin) d = kbin" .
  show "length d = max (max (length disk) (512 * l + length stage2)) (512 * k + length kbin)"
    using len by (simp add: d) (simp add: d2_def d1_def)
qed

lemma le32_part: "part i 4 d = write_u32le v \<Longrightarrow> le32 d i = v"
  by (rule le32_write) (simp add: part_def)

lemma le32_take: "j + 4 \<le> n \<Longrightarrow> le32 (take n d) j = le32 d j"
  by (simp add: le32_def le16_def)

lemma part_one:
  assumes "part i 1 d = [x]"
  shows "d ! i = x"
proof -
  from assms have "i < length d" by (cases "i < length d") (auto simp: part_def)
  then have "drop i d = d ! i # drop (i + 1) d" by (simp add: Cons_nth_drop_Suc)
  with assms show ?thesis by (simp add: part_def)
qed

text \<open>
  What the boot sector of the disk \<open>d\<close> says about a second stage and a kernel in the partition of \<open>c\<close> blocks that starts
  at block \<open>l\<close>: both are there as a whole, at the blocks and with the numbers of blocks that the boot sector names,
  the kernel behind the second stage, and all within the partition.
\<close>

definition bootable :: "nat \<Rightarrow> nat \<Rightarrow> u8 list \<Rightarrow> u8 list \<Rightarrow> u8 list \<Rightarrow> bool" where
  "bootable l c stage2 kbin d \<longleftrightarrow>
     (let s = unat (le32 d 5); sn = unat (d ! 9); k = unat (le32 d 10); kn = unat (le32 d 14) in
      s = l \<and> part (512 * s) (length stage2) d = stage2 \<and> length stage2 \<le> 512 * sn
    \<and> s + sn \<le> k \<and> part (512 * k) (length kbin) d = kbin \<and> length kbin \<le> 512 * kn \<and> k + kn \<le> l + c)"

lemma write_disk_bootable:
  assumes "1 \<le> l" "length mbr = 512" "512 \<le> length disk" "l + c \<le> 2 ^ 32"
    and "length stage2 \<le> 0x10000 - 0x7e00" "\<not> too_small c (length stage2) (length kbin)"
  shows "bootable l c stage2 kbin (write_disk l mbr stage2 kbin disk)"
proof -
  let ?d = "write_disk l mbr stage2 kbin disk"
  define k where "k = l + length stage2 div 512 + 1"
  note w = write_disk_layout [OF assms(1-3) refl k_def, of kbin]
  have kn: "k + (length kbin div 512 + 1) \<le> l + c"
    using assms(6) by (simp add: too_small_def sector_size_def k_def)
  have sn: "length stage2 div 512 + 1 < 2 ^ 8" using div_le_mono [OF assms(5), of 512] by simp
  have "unat (?d ! 9) = length stage2 div 512 + 1"
    using part_one [OF w(2)] unat_of_nat_small [where 'a = 8, of "length stage2 div 512 + 1"] sn by simp
  moreover have "l < 2 ^ 32" "k < 2 ^ 32" "length kbin div 512 + 1 < 2 ^ 32"
    using kn assms(1,4) k_def by linarith+
  then have "unat (le32 ?d 5) = l" "unat (le32 ?d 10) = k" "unat (le32 ?d 14) = length kbin div 512 + 1"
    unfolding le32_part [OF w(1)] le32_part [OF w(3)] le32_part [OF w(4)] by (simp_all del: of_nat_Suc of_nat_add add: unat_of_nat_small [where 'a = 32, simplified])
  moreover have "length xs \<le> 512 * (length xs div 512 + 1)" for xs :: "u8 list"
    using dividend_less_div_times [of 512 "length xs"] by simp
  moreover have "l + (length stage2 div 512 + 1) \<le> k" by (simp add: k_def)
  ultimately show ?thesis using w(6,7) kn unfolding bootable_def Let_def by simp
qed

lemma find_boot_found:
  "find_boot m i k = Some j \<Longrightarrow> partition_id_at m j = Some t \<Longrightarrow> length m = 512 \<Longrightarrow> i + k = 4 \<Longrightarrow> j < 4"
proof (induction k arbitrary: i)
  case 0
  then show ?case by (simp add: partition_id_at_def entry_at_def aget_def)
next
  case (Suc k)
  then show ?case by (auto simp: bind_Some_iff split: if_splits)
qed

text \<open>What the tool did when it reports success, with the boot partition it chose.\<close>

lemma install_result:
  assumes "install mbr stage2 kbin disk = Some (Installed d)"
  obtains i where "i < 4" "partition_id_at disk i = Some reserved_fs_type"
    "1 \<le> lba_start_at disk i \<Longrightarrow> lba_start_at disk i + block_count_at disk i \<le> 2 ^ 32 \<Longrightarrow>
      bootable (lba_start_at disk i) (block_count_at disk i) stage2 kbin d"
    "1 \<le> lba_start_at disk i \<Longrightarrow> part 0x1be 64 d = part 0x1be 64 disk"
    "1 \<le> lba_start_at disk i \<Longrightarrow> le32 d 14 = of_nat (length kbin div 512 + 1)"
proof -
  let ?m = "take 512 disk"
  from assms obtain i where big: "16 * 1024 * 1024 \<le> length disk" and len: "length mbr = 512"
    and s2: "length stage2 \<le> 0x10000 - 0x7e00" and i: "find_boot ?m 0 4 = Some i"
    and t: "partition_id_at ?m i = Some reserved_fs_type"
    and room: "\<not> too_small (block_count_at ?m i) (length stage2) (length kbin)"
    and d: "d = write_disk (lba_start_at ?m i) mbr stage2 kbin disk"
    unfolding install_def by (auto simp: bind_Some_iff slurp_def Let_def not_less split: if_splits)
  have lm: "length ?m = 512" and big': "512 \<le> length disk" using big by simp_all
  have i4: "i < 4" using find_boot_found [OF i t lm] by simp
  then have at: "entry_at i + 16 \<le> 512" by (simp add: entry_at_def)
  have eq: "lba_start_at ?m i = lba_start_at disk i" "block_count_at ?m i = block_count_at disk i"
    using at by (simp_all add: lba_start_at_def block_count_at_def le32_take)
  have p: "partition_id_at disk i = Some reserved_fs_type"
    using t big at by (simp add: partition_id_at_def aget_def split: if_splits)
  show ?thesis
  proof (rule that [OF i4 p])
    assume l: "1 \<le> lba_start_at disk i"
    note w = write_disk_layout [OF l len big' d [unfolded eq] refl]
    show "part 0x1be 64 d = part 0x1be 64 disk" by (rule w(5))
    show "le32 d 14 = of_nat (length kbin div 512 + 1)" by (rule le32_part [OF w(4)])
    show "bootable (lba_start_at disk i) (block_count_at disk i) stage2 kbin d"
      if "lba_start_at disk i + block_count_at disk i \<le> 2 ^ 32"
      using write_disk_bootable [OF l len big' that s2] room unfolding d eq by simp
  qed
qed

text \<open>
  C37: A disk that the tool reports as installed has a boot partition among its four primary ones, and, when that
  does not start in block 0 or reach beyond block \<open>2 ^ 32\<close>, the boot sector names exactly the blocks where the second
  stage and the kernel are, both lie within the partition, and the partition table is as before.
\<close>

theorem installed_disk_bootable:
  assumes "install mbr stage2 kbin disk = Some (Installed d)"
  shows "\<exists>i < 4. partition_id_at disk i = Some reserved_fs_type
    \<and> (1 \<le> lba_start_at disk i \<and> lba_start_at disk i + block_count_at disk i \<le> 2 ^ 32 \<longrightarrow>
       bootable (lba_start_at disk i) (block_count_at disk i) stage2 kbin d
       \<and> part 0x1be 64 d = part 0x1be 64 disk)"
  using assms by (rule install_result) blast

text \<open>Starting the second stage with the numbers of a bootable disk loads the kernel that is there.\<close>

lemma bootable_boots:
  assumes "bootable l c stage2 kbin d" "l + c \<le> sz" "sz \<le> 2 ^ 32"
    and "serves_disk bios disk_no (\<lambda>j. if j < length d then d ! j else 0) sz"
    and "serves_map bios es" "\<forall>e \<in> set es. unat (fst e) + unat (fst (snd e)) \<le> 2 ^ 64"
    and "unat (le32 d 14) < 8352000"
    and "r \<in> set (take max_memory_regions (map entry_region (filter usable es)))"
    and "region_holds r (2 ^ 20) (512 * unat (le32 d 14) + 2 ^ 24)"
  shows "\<exists>rs s'. stage2_main bios buffer disk_no (le32 d 10) (le32 d 14) s = Some (Jumps rs, s')
    \<and> (\<forall>j < length kbin. s2_memory s' (kernel_address + of_nat j) = kbin ! j)"
proof -
  let ?k = "unat (le32 d 10)" and ?n = "unat (le32 d 14)"
  have b: "part (512 * ?k) (length kbin) d = kbin" "length kbin \<le> 512 * ?n" "?k + ?n \<le> l + c"
    using assms(1) by (simp_all add: bootable_def Let_def)
  then have fits: "?k + ?n \<le> sz" using assms(2) by linarith
  from assms(8,9) have room: "(\<exists>r \<in> set (take max_memory_regions (map entry_region (filter usable es))).
      region_holds r (2 ^ 20) (512 * ?n + 2 ^ 24)) = True" by blast
  obtain s' where s': "stage2_main bios buffer disk_no (le32 d 10) (le32 d 14) s
      = Some (Jumps (take max_memory_regions (map entry_region (filter usable es))), s')"
    "\<And>a. s2_memory s' a = (if unat (a - kernel_address) < 512 * ?n
       then (if 512 * ?k + unat (a - kernel_address) < length d then d ! (512 * ?k + unat (a - kernel_address)) else 0)
       else s2_memory s a)"
    using stage2_main_spec [OF assms(5,6,4,3) fits assms(7) refl, of buffer s] unfolding room if_True by blast
  have "s2_memory s' (kernel_address + of_nat j) = kbin ! j" if j: "j < length kbin" for j
  proof -
    have "unat (of_nat j :: u32) = j" using j b(2) assms(7) by (intro unat_of_nat_small) simp
    moreover have "512 * ?k + j < length d" using arg_cong [OF b(1), of length] j by (simp add: part_def)
    moreover have "kbin ! j = d ! (512 * ?k + j)"
      using j calculation(2) by (subst b(1) [symmetric]) (simp add: part_def)
    ultimately show ?thesis using s'(2) [of "kernel_address + of_nat j"] j b(2) by simp
  qed
  with s'(1) show ?thesis by blast
qed

text \<open>
  C36: a kernel that was installed is the one that runs. When the tool reports a disk as installed,
  the boot partitions of that disk lie on it behind block 0, and a machine has a BIOS that reads
  the disk as the tool left it and lists a usable region with room for the kernel's blocks and
  16 MiB more at 1 MiB, then the second stage, started with what the installed boot sector says
  about the kernel, jumps to the kernel, and memory holds the bytes of the kernel's file from
  1 MiB on.
\<close>

theorem installed_kernel_boots:
  assumes "install mbr stage2 kbin disk = Some (Installed d)"
    and "\<forall>i < 4. partition_id_at disk i = Some reserved_fs_type \<longrightarrow>
      1 \<le> lba_start_at disk i \<and> lba_start_at disk i + block_count_at disk i \<le> sz"
    and "serves_disk bios disk_no (\<lambda>j. if j < length d then d ! j else 0) sz" "sz \<le> 2 ^ 32"
    and "serves_map bios es" "\<forall>e \<in> set es. unat (fst e) + unat (fst (snd e)) \<le> 2 ^ 64"
    and "length kbin div 512 + 1 < 8352000"
    and "r \<in> set (take max_memory_regions (map entry_region (filter usable es)))"
    and "region_holds r (2 ^ 20) (512 * (length kbin div 512 + 1) + 2 ^ 24)"
  shows "\<exists>rs s'. stage2_main bios buffer disk_no (le32 d 10) (le32 d 14) s = Some (Jumps rs, s')
    \<and> (\<forall>j < length kbin. s2_memory s' (kernel_address + of_nat j) = kbin ! j)"
  using assms(1)
proof (rule install_result)
  fix i assume i: "i < 4" "partition_id_at disk i = Some reserved_fs_type"
    "1 \<le> lba_start_at disk i \<Longrightarrow> lba_start_at disk i + block_count_at disk i \<le> 2 ^ 32 \<Longrightarrow>
      bootable (lba_start_at disk i) (block_count_at disk i) stage2 kbin d"
    "1 \<le> lba_start_at disk i \<Longrightarrow> le32 d 14 = of_nat (length kbin div 512 + 1)"
  from assms(2) i(1,2) have l: "1 \<le> lba_start_at disk i"
    and fits: "lba_start_at disk i + block_count_at disk i \<le> sz" by blast+
  have b: "bootable (lba_start_at disk i) (block_count_at disk i) stage2 kbin d"
    using i(3) [OF l] fits assms(4) by simp
  have n: "unat (le32 d 14) = length kbin div 512 + 1"
    unfolding i(4) [OF l] using assms(7) by (intro unat_of_nat_small) simp
  show ?thesis
    by (rule bootable_boots [OF b fits assms(4,3,5,6) _ assms(8)]) (use assms(7,9) n in simp_all)
qed

section \<open>Examples\<close>

text \<open>A disk of 16 MiB and one block, whose second partition is the boot partition: 100 blocks from block 2048 on.\<close>

definition demo_entry :: "u8 list" where
  "demo_entry = [0, 0, 0, 0, 0x7f, 0, 0, 0, 0, 8, 0, 0, 100, 0, 0, 0]"

definition demo_disk :: "u8 list" where
  "demo_disk = replicate 0x1ce 0 @ demo_entry @ replicate 34 0 @ replicate (16 * 1024 * 1024) 0"

definition demo_boot_code :: "u8 list" where "demo_boot_code = replicate 510 0 @ [0x55, 0xaa]"

lemma demo_entry_length: "length demo_entry = 16"
  by (simp add: demo_entry_def)

lemma demo_disk_nth:
  "i < 0x1de \<Longrightarrow> demo_disk ! i = (if i < 0x1ce then 0 else demo_entry ! (i - 0x1ce))"
  by (auto simp: demo_disk_def nth_append demo_entry_length)

lemma demo_partition:
  "partition_id_at (take 512 demo_disk) 0 = Some 0" "partition_id_at (take 512 demo_disk) 1 = Some 0x7f"
  "lba_start_at demo_disk 1 = 2048" "block_count_at demo_disk 1 = 100"
proof -
  have l: "512 \<le> length demo_disk" by (simp add: demo_disk_def)
  show "partition_id_at (take 512 demo_disk) 0 = Some 0" "partition_id_at (take 512 demo_disk) 1 = Some 0x7f"
    using l by (simp_all add: partition_id_at_def entry_at_def aget_def demo_disk_nth demo_entry_def)
  have "le32 demo_disk 0x1d6 = 2048" "le32 demo_disk 0x1da = 100"
    by (simp_all add: le32_def le16_def demo_disk_nth demo_entry_def)
  then show "lba_start_at demo_disk 1 = 2048" "block_count_at demo_disk 1 = 100"
    by (simp_all add: lba_start_at_def block_count_at_def entry_at_def)
qed

lemma demo_in_range: "(1 :: nat) \<le> 2048 \<and> (2048 :: nat) + 100 \<le> 2 ^ 32"
  by simp

lemma demo_disk_other: "demo_disk ! 0x1c2 = 0" "demo_disk ! 0x1e2 = 0" "demo_disk ! 0x1f2 = 0"
  by (simp_all add: demo_disk_def demo_entry_def nth_append)

lemma find_boot_second:
  "partition_id_at m 0 = Some t \<Longrightarrow> t \<noteq> 0x7f \<Longrightarrow> partition_id_at m 1 = Some 0x7f \<Longrightarrow>
     find_boot m 0 (Suc (Suc k)) = Some 1"
  by simp

lemma demo_boot_code_bytes:
  "list_all (\<lambda>i. demo_boot_code ! i = 0) [0x1be..<0x1fe]"
  "demo_boot_code ! 510 = 0x55" "demo_boot_code ! 511 = 0xaa" "length demo_boot_code = 512"
proof -
  have "demo_boot_code ! i = 0" if "i < 510" for i using that by (simp add: demo_boot_code_def nth_append)
  then show "list_all (\<lambda>i. demo_boot_code ! i = 0) [0x1be..<0x1fe]" by (simp add: list_all_iff del: upt_Suc)
  show "demo_boot_code ! 510 = 0x55" "demo_boot_code ! 511 = 0xaa" "length demo_boot_code = 512"
    by (simp_all add: demo_boot_code_def nth_append)
qed

lemma demo_install:
  "install demo_boot_code [1, 2, 3] [4, 5] demo_disk
     = Some (Installed (write_disk 2048 demo_boot_code [1, 2, 3] [4, 5] demo_disk))"
proof -
  have f: "find_boot (take 512 demo_disk) 0 4 = Some 1"
    using find_boot_second [OF demo_partition(1) _ demo_partition(2), of 2] by simp
  have l: "\<not> length demo_disk < 16 * 1024 * 1024" by (simp add: demo_disk_def)
  have p: "lba_start_at (take 512 demo_disk) 1 = 2048" "block_count_at (take 512 demo_disk) 1 = 100"
    using demo_partition(3,4) by (simp_all add: lba_start_at_def block_count_at_def le32_take entry_at_def)
  have small: "\<not> too_small 100 (length [1 :: u8, 2, 3]) (length [4 :: u8, 5])" "\<not> length [1 :: u8, 2, 3] > 0x10000 - 0x7e00"
    by (simp_all add: too_small_def sector_size_def)
  show ?thesis
    by (simp only: install_def l demo_boot_code_bytes slurp_def option.case f demo_partition(2) p small reserved_fs_type_def
        Let_def bind.bind_lunit if_False if_True simp_thms)
qed

theorem installed_disk_bootable_witness:
  "\<exists>d. install demo_boot_code [1, 2, 3] [4, 5] demo_disk = Some (Installed d)
     \<and> (\<exists>i < 4. partition_id_at demo_disk i = Some reserved_fs_type
        \<and> (1 \<le> lba_start_at demo_disk i \<and> lba_start_at demo_disk i + block_count_at demo_disk i \<le> 2 ^ 32 \<longrightarrow>
           bootable (lba_start_at demo_disk i) (block_count_at demo_disk i) [1, 2, 3] [4, 5] d
           \<and> part 0x1be 64 d = part 0x1be 64 demo_disk))"
  using installed_disk_bootable [OF demo_install] demo_install by blast

theorem installed_kernel_boots_witness:
  "\<exists>d rs s'. install demo_boot_code [1, 2, 3] [4, 5] demo_disk = Some (Installed d)
     \<and> stage2_main (demo_bios (\<lambda>j. if j < length d then d ! j else 0)) 0 0x80 (le32 d 10) (le32 d 14) demo_start
       = Some (Jumps rs, s')
     \<and> s2_memory s' 0x100000 = 4 \<and> s2_memory s' 0x100001 = 5"
proof -
  let ?d = "write_disk 2048 demo_boot_code [1, 2, 3] [4, 5] demo_disk"
  have mem: "demo_high_memory \<in> set (take max_memory_regions (map entry_region (filter usable demo_entries)))"
    by (simp add: demo_regions)
  have holds: "region_holds demo_high_memory (2 ^ 20) (512 * (length [4 :: u8, 5] div 512 + 1) + 2 ^ 24)"
    by (simp add: demo_high_memory_def region_holds_def)
  have few: "length [4 :: u8, 5] div 512 + 1 < 8352000" by simp
  have "partition_id_at demo_disk i \<noteq> Some reserved_fs_type" if "i < 4" "i \<noteq> 1" for i
  proof -
    have "i = 0 \<or> i = 2 \<or> i = 3" using that by linarith
    then show ?thesis by (auto simp: partition_id_at_def aget_def entry_at_def reserved_fs_type_def demo_disk_other)
  qed
  then have inside: "\<forall>i < 4. partition_id_at demo_disk i = Some reserved_fs_type \<longrightarrow>
      1 \<le> lba_start_at demo_disk i \<and> lba_start_at demo_disk i + block_count_at demo_disk i \<le> 2 ^ 32"
    using demo_partition(3,4) by (metis demo_in_range)
  from installed_kernel_boots [where buffer = 0 and s = demo_start and disk_no = "0x80",
      OF demo_install inside demo_bios_disk order.refl demo_bios_map demo_entries_fit few mem holds]
  obtain rs s' where s': "stage2_main (demo_bios (\<lambda>j. if j < length ?d then ?d ! j else 0)) 0 0x80 (le32 ?d 10) (le32 ?d 14) demo_start
      = Some (Jumps rs, s')" "\<forall>j < length [4 :: u8, 5]. s2_memory s' (kernel_address + of_nat j) = [4, 5] ! j"
    by blast
  from s'(2) [THEN spec, of 0] s'(2) [THEN spec, of 1] have "s2_memory s' 0x100000 = 4" "s2_memory s' 0x100001 = 5"
    by (simp_all add: kernel_address_def)
  with s'(1) demo_install show ?thesis by blast
qed

end
