(* ===== verification/UserCalls.thy ===== *)
theory UserCalls
  imports SyscallMem VfsRead
begin

text \<open>
  The system calls as the user programs make them (user/libsys/include/sys.hh): which number and which arguments go
  into the registers, and what the kernel makes of them. Texts and buffers are passed as address and length.
\<close>

section \<open>The stubs\<close>

definition syscall_regs :: "u32 \<Rightarrow> u32 \<Rightarrow> u32 \<Rightarrow> u32 \<Rightarrow> u32 \<Rightarrow> u32 \<Rightarrow> sys_args" where
  "syscall_regs a b c d e f = \<lparr>arg0 = a, arg1 = b, arg2 = c, arg3 = d, arg4 = e, arg5 = f\<rparr>"

definition stub_yield :: sys_args where "stub_yield = syscall_regs SYS_YIELD 0 0 0 0 0"
definition stub_get_tid :: sys_args where "stub_get_tid = syscall_regs SYS_GET_TID 0 0 0 0 0"
definition stub_get_pid :: sys_args where "stub_get_pid = syscall_regs SYS_GET_PID 0 0 0 0 0"

definition stub_thread_delete :: "int \<Rightarrow> sys_args" where
  "stub_thread_delete tid = syscall_regs SYS_THREAD_DELETE (of_int tid) 0 0 0 0"

definition stub_open :: "int \<Rightarrow> u32 \<Rightarrow> u32 \<Rightarrow> int \<Rightarrow> sys_args" where
  "stub_open fd path len md = syscall_regs SYS_OPEN (of_int fd) path len (of_int md) 0"

definition stub_close :: "int \<Rightarrow> sys_args" where
  "stub_close fd = syscall_regs SYS_CLOSE (of_int fd) 0 0 0 0"

definition stub_read :: "int \<Rightarrow> u32 \<Rightarrow> u32 \<Rightarrow> sys_args" where
  "stub_read fd buffer nbytes = syscall_regs SYS_READ (of_int fd) buffer nbytes 0 0"

definition stub_write :: "int \<Rightarrow> u32 \<Rightarrow> u32 \<Rightarrow> sys_args" where
  "stub_write fd buffer nbytes = syscall_regs SYS_WRITE (of_int fd) buffer nbytes 0 0"

definition stub_read_dir :: "int \<Rightarrow> u32 \<Rightarrow> sys_args" where
  "stub_read_dir fd buffer = syscall_regs SYS_READ_DIR (of_int fd) buffer (of_nat dir_entry_size) 0 0"

definition stub_seek :: "int \<Rightarrow> int \<Rightarrow> int \<Rightarrow> sys_args" where
  "stub_seek fd whence off = syscall_regs SYS_SEEK (of_int fd) (of_int whence) (of_int off) 0 0"

definition stub_wait_pid :: "int \<Rightarrow> sys_args" where
  "stub_wait_pid pid = syscall_regs SYS_WAIT_PID (of_int pid) 0 0 0 0"

definition stub_get_cwd :: "u32 \<Rightarrow> u32 \<Rightarrow> sys_args" where
  "stub_get_cwd buffer sz = syscall_regs SYS_GET_CWD buffer sz 0 0 0"

definition stub_set_cwd :: "u32 \<Rightarrow> u32 \<Rightarrow> sys_args" where
  "stub_set_cwd path len = syscall_regs SYS_SET_CWD path len 0 0 0"

definition stub_duplicate_fd :: "int \<Rightarrow> int \<Rightarrow> sys_args" where
  "stub_duplicate_fd dest fd = syscall_regs SYS_DUPLICATE_FD (of_int dest) (of_int fd) 0 0 0"

definition stub_pipe :: "u32 \<Rightarrow> sys_args" where
  "stub_pipe fds = syscall_regs SYS_PIPE fds 0 0 0 0"

text \<open>\<open>sys_spawn\<close>, once its structure with the arguments is at \<open>spec\<close>.\<close>

definition stub_spawn :: "u32 \<Rightarrow> u32 \<Rightarrow> u32 \<Rightarrow> u32 \<Rightarrow> sys_args" where
  "stub_spawn path len spec sz = syscall_regs SYS_SPAWN path len spec sz 0"

section \<open>What the kernel makes of them\<close>

definition int_range :: "int \<Rightarrow> bool" where "int_range x \<longleftrightarrow> - (2 ^ 31) \<le> x \<and> x < 2 ^ 31"

lemma fd_arg_of_int: "int_range fd \<Longrightarrow> fd_arg (of_int fd) = fd"
  by (simp add: fd_arg_def int_range_def signed_of_int signed_take_bit_int_eq_self_iff)

lemma handle_syscall_seek:
  "user_thread_runs l \<Longrightarrow> handle_syscall hw env (stub_seek fd whence off) l = sys_seek (stub_seek fd whence off) l"
  by (auto simp: handle_syscall_def stub_seek_def syscall_regs_def user_thread_runs_def kassert_def SYS_YIELD_def
      SYS_THREAD_DELETE_def SYS_OPEN_def SYS_CLOSE_def SYS_READ_def SYS_WRITE_def SYS_READ_DIR_def SYS_SEEK_def
      split: option.splits)

text \<open>A negative offset arrives as a large positive one.\<close>

lemma negative_offset:
  assumes "int_range off" "off < 0"
  shows "uint (ucast (of_int off :: u32) :: u64) = 2 ^ 32 + off"
proof -
  have "uint (of_int off :: u32) = 2 ^ 32 + off"
    using assms by (simp add: uint_word_of_int int_range_def mod_add_self2 [symmetric, of off] del: mod_add_self2)
  then show ?thesis using assms by (simp add: unsigned_ucast_eq int_range_def take_bit_int_eq_self)
qed

lemma seek_negative_refused:
  assumes "int_range off" "off < 0" "unat (i_size f) < 2 ^ 31" "unat pos \<le> unat (i_size f)"
  shows "fs_seek f pos dir (ucast (of_int off :: u32)) = (ERR_invalid, pos)"
proof -
  let ?o = "ucast (of_int off :: u32) :: u64"
  have u: "uint ?o = 2 ^ 32 + off" by (rule negative_offset [OF assms(1,2)])
  then have big: "2 ^ 31 \<le> uint ?o" "uint ?o < 2 ^ 32" using assms(1,2) by (simp_all add: int_range_def)
  have "nat (2 ^ 31) \<le> nat (uint ?o)" "nat (uint ?o) < nat (2 ^ 32)" using big by (simp_all only: nat_mono nat_less_eq_zless uint_ge_0)
  then have n: "2 ^ 31 \<le> unat ?o" "unat ?o < 2 ^ 32" by (simp_all only: unat_eq_nat_uint) simp_all
  have "unat (pos + ?o) = unat pos + unat ?o" using n assms(3,4) by (intro unat_add_small) auto
  then have "i_size f \<le> ?o" "i_size f \<le> pos + ?o" using n assms(3) by (simp_all add: word_le_nat_alt)
  then show ?thesis by (cases dir) (auto simp: fs_seek_def)
qed

text \<open>
  C39: A user program cannot seek backwards: whatever the direction, a negative offset on an open file of less than
  2 GiB is refused and leaves the position alone, because the kernel does not extend the sign of the offset.
\<close>

theorem negative_seek_refused:
  assumes "user_thread_runs l" "int_range fd" "fd_objects (l_vfs l) fd = Some (Some (ha, h, f))"
    and "i_type (f_inode f) \<noteq> t_pipe" "i_fs (f_inode f) \<noteq> 0"
    and "unat (i_size (f_inode f)) < 2 ^ 31" "unat (h_pos h) \<le> unat (i_size (f_inode f))"
    and "int_range off" "off < 0" "whence \<in> {0, 1, 2}"
  shows "\<exists>l'. handle_syscall hw env (stub_seek fd whence off) l = Some (eax ERR_invalid, l')
    \<and> v_handle_objs (l_vfs l') = v_handle_objs (l_vfs l)"
proof -
  have dir: "\<exists>d. seek_of (of_int whence) = Some d" using assms(10) by (auto simp: seek_of_def)
  then obtain d where d: "seek_of (of_int whence) = Some d" by blast
  have obj: "v_handle_objs (l_vfs l) ha = Some h"
    using assms(3) by (cases "handle_by_fd (l_vfs l) fd") (auto simp: fd_objects_def bind_Some_iff split: if_splits)
  have "fs_seek (f_inode f) (h_pos h) d (ucast (of_int off :: u32)) = (ERR_invalid, h_pos h)"
    by (rule seek_negative_refused) (use assms in auto)
  then have "vfs_seek fd d (ucast (of_int off :: u32)) (l_vfs l)
      = Some (ERR_invalid, (l_vfs l)\<lparr>v_handle_objs := (v_handle_objs (l_vfs l))(ha \<mapsto> h)\<rparr>)"
    using assms(3-5) obj by (simp add: vfs_seek_def upd_handle_def kassert_def)
  moreover have "(v_handle_objs (l_vfs l))(ha \<mapsto> h) = v_handle_objs (l_vfs l)" using obj by (simp add: fun_upd_idem)
  ultimately show ?thesis
    unfolding handle_syscall_seek [OF assms(1)]
    using d fd_arg_of_int [OF assms(2)] by (simp add: sys_seek_def stub_seek_def syscall_regs_def with_vfs_def)
qed

section \<open>Examples\<close>

definition reader_state :: "unit loader" where
  "reader_state = user_state\<lparr>l_vfs := ram_vfs\<lparr>v_sched := user_sched\<lparr>
     procs := [9 \<mapsto> example_proc\<lparr>p_files := [0, 0, 0, 7, 0, 0]\<rparr>]\<rparr>\<rparr>\<rparr>"

lemma reader_state_open:
  "user_thread_runs reader_state"
  "\<exists>h. fd_objects (l_vfs reader_state) 3 = Some (Some (7, h, ram_file_obj)) \<and> unat (h_pos h) = 1"
proof -
  show "user_thread_runs reader_state"
    by (simp add: user_thread_runs_def l_sched_def reader_state_def user_sched_def example_sched_def)
  have "handle_by_fd (l_vfs reader_state) 3 = Some 7"
    by (simp add: reader_state_def user_sched_def handle_by_fd_def running_proc_def current_proc_def example_sched_def
        example_thread_def slot_def)
  then show "\<exists>h. fd_objects (l_vfs reader_state) 3 = Some (Some (7, h, ram_file_obj)) \<and> unat (h_pos h) = 1"
    by (simp add: fd_objects_iff reader_state_def ram_vfs_def)
qed

theorem negative_seek_refused_witness:
  "\<exists>l'. handle_syscall no_hw no_env (stub_seek 3 2 (-1)) reader_state = Some (eax ERR_invalid, l')
     \<and> v_handle_objs (l_vfs l') = v_handle_objs (l_vfs reader_state)"
proof -
  from reader_state_open(2) obtain h where
    h: "fd_objects (l_vfs reader_state) 3 = Some (Some (7, h, ram_file_obj))" "unat (h_pos h) = 1" by blast
  show ?thesis
    by (rule negative_seek_refused [OF reader_state_open(1) _ h(1)])
      (simp_all add: int_range_def ram_file_size h(2), simp_all add: ram_file_obj_def ram_inode_def blank_inode_def)
qed

end
