(* ===== verification/Spec2Isabelle.thy ===== *)
theory Spec2Isabelle
  imports AddrSpace Mutex Lifecycle Heap FatMount OsFormat VfsRead Input Elf Console Ps2 AtaRead Mbr SyscallReturn Vga KshellRead UserShell UserPrograms InstallLoader UserCalls
begin

text \<open>
  A verification development for RikaiOS, a small 32-bit x86 operating system in C++ (src/src/kernel,
  with its standard library src/src/kernel/include/os-std, the user programs of src/src/user and the boot loader of src/src/boot).

  \<^bold>\<open>The program.\<close> After the boot loader has built a memory map, \<open>kmain\<close> (main.cc) starts the subsystems. The
  physical memory manager hands out pages, the virtual memory manager builds page tables and address
  spaces from them, and the kernel heap lives in a region that the page fault handler backs page by page. Threads are
  scheduled round robin from a linked ready queue; semaphores block and wake them. The virtual file system
  maps the descriptors of a process to handles, handles to open files, and open files to an inode of a mounted
  file system: the device files or a FAT32 partition. Device files reach the disks, the screen, the serial port, the keyboard, the
  mouse and the graphics card through I/O ports. User programs enter the kernel by interrupt 0xca; the program loader makes
  processes of ELF files. A shell inside the kernel offers the same operations for debugging.

  \<^bold>\<open>Conventions.\<close> A structure is a record, an enumeration a datatype. An integer that the code relies on to wrap is a word
  of its width; page numbers, lengths and addresses of objects are \<open>nat\<close> where the code's bounds keep them in
  range, and the places where they do not are modelled with the wrap written out. Objects that are linked by pointers live in stores from addresses to
  records, with 0 as the null pointer; addresses that the heap returns are arguments. \<open>'a kern\<close> is \<open>'a option\<close>:
  \<open>None\<close> says that the machine stops (a failed assertion, a panic, an access outside an array or to an
  unmapped page) or that a loop does not end. Error numbers are the code's negative integers. A context switch ends an
  operation with a \<open>resumption\<close>, how the processor goes on. What is not under src/ is a parameter: the hardware behind the ports
  (\<open>ports\<close>), the transfer of one disk block (\<open>hw\<close>) where the protocol does not matter, the state of both (\<open>'x\<close>), the addresses of linker symbols and handler stubs, and
  the registers of the processor.

  \<^bold>\<open>Standard library (include/os-std).\<close>
  \<^item> Prelude: integer types, error numbers, limits, checked array access, \<open>named_theorems\<close>.
  \<^item> OsMath (math.hh), Bitset (bitset.hh): arithmetic, alignment, bit counting; the word array as a list of booleans.
  \<^item> OsString (string.hh): \<open>String\<close>, \<open>StringView\<close>, number parsing; parsing is correct and rejects overflow.
  \<^item> OsFormat (fmt.hh): the format loop and all formatters; printing and parsing a number round-trips.
  \<^item> OsQueue (queue.hh): the ring buffer refines a bounded list; locale \<open>bounded_fifo\<close>.
  \<^item> Dll: intrusive doubly linked lists, shared by threads, heap nodes and file handles. Bytes: little-endian fields.

  \<^bold>\<open>Memory (src/memory).\<close>
  \<^item> PhysMem (manager-physical.cc): the bitmap allocator; locale \<open>page_allocator\<close>; lowest free page first, no page twice, the state after \<open>init\<close>.
  \<^item> Layout (region.hh, layout.cc), VirtMem and AddrSpace (manager-virtual.cc): \<open>translate\<close> is what the processor does with the tables; each
    operation is characterised by the translations it changes, and the deletion of an address space by the frames it frees.
  \<^item> Heap (kernel-heap.cc): nodes, first fit, splitting and merging, with the assertions of the code.
  \<^item> UserMem (interrupt/page-fault.cc): loads and stores through the tables.

  \<^bold>\<open>Processes (src/process, src/ipc).\<close>
  \<^item> Process, ReadyQueue (proc.cc, driver/timer/pit.cc): the ready queue as a list, preemption as a rotation, every ready thread runs.
  \<^item> Semaphore, Mutex (ipc): a step relation of threads that lock and unlock under preemption; mutual exclusion by rule induction.
  \<^item> Lifecycle, Exit (proc.cc), Elf (elf.cc): creation, deletion, loading of programs.

  \<^bold>\<open>Files (src/filesystem, src/driver/disk).\<close>
  \<^item> Inode, Device, DevFs (filesystem.cc, devfs.cc, devfs.hh): device classes, the device directory, the default lookup over the locale \<open>directory\<close>.
  \<^item> Fat32, Fat32Read, FatMount (fat32.cc): the block caches are transparent (locale \<open>block_source\<close>), reading follows the cluster chain; the geometry that accepted boot records guarantee, and two records that should be refused.
  \<^item> Path, Vfs, VfsFiles, VfsOpen, VfsRead (vfs.cc): path normalisation against a specification on component lists; open and close are single updates of the map from descriptors to open
    files (\<open>fd_view\<close>), over the locale \<open>slot_table\<close> for the three tables; reading delivers the bytes of the file.
  \<^item> Ports, AtaPort, AtaRead (driver/disk/ata/protocol.cc), Mbr (ata.cc, mbr.cc): port programs in the state monad; transfers from a drive that is busy, then settles, and only then requests data; partitions.

  \<^bold>\<open>Drivers and interrupts.\<close>
  \<^item> Console (console): the text screen refines a list of rows; Uart (driver/uart.cc), Vga (driver/vga), Ps2 and Input (driver/input).
  \<^item> Descriptors (gdt.cc, idt.cc, controller.cc), Interrupts and SyscallReturn (handlers.cc), Syscall and SyscallMem (syscall.cc).

  \<^bold>\<open>Shells and programs.\<close>
  \<^item> ShellArgs (kshell.cc, user/shell/main.cc): splitting a command line in place yields its words.
  \<^item> Kprint (common/kprint.cc, panic.cc, debug.cc, errno.hh): the log, both consoles, memory dumps.
  \<^item> KshellEdit, KshellFiles, Kshell (kshell.cc, main.cc): the line editor with its history, whose line is the one that the
    cells of video memory show while it fits on a row; the commands on files, all other commands, the start-up file and the main loop. KshellRead: \<open>cat\<close> prints the rest of a file
    and comes back; \<open>head\<close> comes back exactly when the file is long enough.
  \<^item> UserLib (user/libsys): files, lines, printing and spawning over a record of the system calls, whose
    effect is a parameter; the locale \<open>byte_source\<close> says what the reads of a file promise. UserFiles interprets
    it with the reads of the virtual file system, so that \<open>getline\<close> delivers the lines of a file.
  \<^item> UserCalls (user/libsys/include/sys.hh): the registers of every system call; a seek with a negative offset is
    refused.
  \<^item> UserShell (user/shell/main.cc), Schuif (user/schuif/main.cc), UserPrograms (the other programs): whole
    programs; a run-length encoded image is decoded however its reads are cut, and the transition of the slide
    show ends with the whole slide.
  \<^bold>\<open>Boot loader.\<close>
  \<^item> Stage2 (boot/stage2): the memory map, the loop that reads the kernel, and the main function, over a record of
    BIOS calls; it jumps to the kernel with the right bytes in memory, or hangs.
  \<^item> InstallLoader (boot/utils/loader-install.cc): what the tool writes to a disk; an installed kernel is the one that
    the second stage starts.
  \<^bold>\<open>Bounds and fuel.\<close> No definition has a fuel argument. Loops that may not end are \<open>partial_function (option)\<close>: pointer chasing in the process lists, the draining of the PS/2
  controller, the wait for the serial transmitter, \<open>write_all\<close>, the loops of the shells and of the user programs, and the two loops of the boot loader; their termination is proved where the
  code has it (\<open>init_controller_returns\<close>). All other recursion is structural or has a measure. Array sizes of the code (1024 table entries, 512-byte blocks, 32 arguments, 256 characters of a
  path) are used as they are; the number of words of the page bitmap is a parameter with the code's as an instance.

  \<^bold>\<open>Not modelled.\<close> Assembly (start.asm, register saving, the boot sector), texts that are only printed by the dump functions, the fields for debugging, type traits
  and iterators of the template library. Locks that only order accesses are taken as held; an
  operation is modelled from that moment on. The lock of a file handle is part of the state: \<open>close\<close> and \<open>spawn\<close> have an outcome for
  waiting on it (\<open>Inl\<close>, \<open>Waits_for\<close>); reading, writing and seeking are modelled from the moment they hold it. The program is read as on the sequentially consistent single processor it is written for.
\<close>

end
